(* ===== verification/Synapse_Prelude.thy ===== *)
theory Synapse_Prelude
  imports Complex_Main "HOL-Library.Word" "HOL-Library.Char_ord" "HOL-Library.List_Lexorder"
    "HOL-Library.Product_Lexorder" "HOL-Library.Code_Target_Nat"
begin

text \<open>
  Shared vocabulary of the development: the Python exceptions the tools raise and how a call
  that may raise is sequenced, and the generic lemmas on lists and searches that the
  component theories use.
  A Python call that may raise is a value of type \<open>'a py\<close>: \<open>Inl\<close> carries the exception,
  \<open>Inr\<close> the returned value.
\<close>

named_theorems py_simps "equations that evaluate the Python primitives"

named_theorems rtl_simps "equations that evaluate the register-transfer models"

section \<open>Python exceptions and sequencing\<close>

datatype py_error =
    ValueError string
  | IndexError
  | KeyError string
  | RuntimeError string
  | FileNotFoundError string
  | CalledProcessError string
  | AssertionError string
  | AttributeError
  | OSError int
  | ZeroDivisionError
  | TypeError

type_synonym 'a py = "py_error + 'a"

definition py_bind :: "'a py \<Rightarrow> ('a \<Rightarrow> 'b py) \<Rightarrow> 'b py" where
  "py_bind m f = (case m of Inl e \<Rightarrow> Inl e | Inr x \<Rightarrow> f x)"

lemma py_bind_simps [simp, py_simps]:
  "py_bind (Inl e) f = Inl e"
  "py_bind (Inr x) f = f x"
  by (simp_all add: py_bind_def)

lemma py_bind_Inr_iff:
  "py_bind m f = Inr y \<longleftrightarrow> (\<exists>x. m = Inr x \<and> f x = Inr y)"
  by (cases m) auto

lemma py_bind_Inl_iff:
  "py_bind m f = Inl e \<longleftrightarrow> m = Inl e \<or> (\<exists>x. m = Inr x \<and> f x = Inl e)"
  by (cases m) auto

lemma py_bind_assoc: "py_bind (py_bind m f) g = py_bind m (\<lambda>x. py_bind (f x) g)"
  by (cases m) simp_all

section \<open>Calls with effects\<close>

text \<open>
  A call that reads or changes the world (files, subprocesses, descriptors) of type \<open>'w\<close> and may
  raise. The effects made before an exception persist.
\<close>

type_synonym ('w, 'a) io = "'w \<Rightarrow> 'a py \<times> 'w"

definition io_return :: "'a \<Rightarrow> ('w, 'a) io" where
  "io_return x w = (Inr x, w)"

definition io_raise :: "py_error \<Rightarrow> ('w, 'a) io" where
  "io_raise e w = (Inl e, w)"

definition io_py :: "'a py \<Rightarrow> ('w, 'a) io" where
  "io_py m w = (m, w)"

definition io_bind :: "('w, 'a) io \<Rightarrow> ('a \<Rightarrow> ('w, 'b) io) \<Rightarrow> ('w, 'b) io" where
  "io_bind m f w = (case m w of (Inl e, w') \<Rightarrow> (Inl e, w') | (Inr x, w') \<Rightarrow> f x w')"

definition io_then :: "('w, 'a) io \<Rightarrow> ('w, 'b) io \<Rightarrow> ('w, 'b) io" where
  "io_then m n = io_bind m (\<lambda>_. n)"

definition io_when :: "bool \<Rightarrow> ('w, unit) io \<Rightarrow> ('w, unit) io" where
  "io_when b m = (if b then m else io_return ())"

text \<open>\<open>try\<close>: the handler sees the exception and the world it left; a handler re-raises by \<open>io_raise\<close>.\<close>

definition io_catch :: "('w, 'a) io \<Rightarrow> (py_error \<Rightarrow> ('w, 'a) io) \<Rightarrow> ('w, 'a) io" where
  "io_catch m h w = (case m w of (Inl e, w') \<Rightarrow> h e w' | (Inr x, w') \<Rightarrow> (Inr x, w'))"

lemma io_catch_simps [simp, py_simps]:
  "m w = (Inl e, w') \<Longrightarrow> io_catch m h w = h e w'"
  "m w = (Inr x, w') \<Longrightarrow> io_catch m h w = (Inr x, w')"
  by (simp_all add: io_catch_def)

lemma io_simps [simp, py_simps]:
  "io_return x w = (Inr x, w)"
  "io_raise e w = (Inl e, w)"
  "io_py p w = (p, w)"
  "m w = (Inl e, w') \<Longrightarrow> io_bind m f w = (Inl e, w')"
  "m w = (Inr x, w') \<Longrightarrow> io_bind m f w = f x w'"
  by (simp_all add: io_return_def io_raise_def io_py_def io_bind_def)

lemma io_bind_Inr:
  "io_bind m f w = (Inr y, w'') \<longleftrightarrow> (\<exists>x w'. m w = (Inr x, w') \<and> f x w' = (Inr y, w''))"
  by (auto simp: io_bind_def split: prod.splits sum.splits)

lemma io_bind_Inl:
  "io_bind m f w = (Inl e, w'') \<longleftrightarrow>
     m w = (Inl e, w'') \<or> (\<exists>x w'. m w = (Inr x, w') \<and> f x w' = (Inl e, w''))"
  by (auto simp: io_bind_def split: prod.splits sum.splits)

text \<open>\<open>io_keeps f m\<close>: whatever \<open>m\<close> does, exceptions included, the part \<open>f\<close> of the state is as before.\<close>

definition io_keeps :: "('w \<Rightarrow> 'x) \<Rightarrow> ('w, 'a) io \<Rightarrow> bool" where
  "io_keeps f m \<longleftrightarrow> (\<forall>w. f (snd (m w)) = f w)"

named_theorems io_keeps_intros "rules for computations that keep a part of the state"

lemma io_keepsI: "(\<And>w. f (snd (m w)) = f w) \<Longrightarrow> io_keeps f m"
  by (simp add: io_keeps_def)

lemma io_keepsD: "io_keeps f m \<Longrightarrow> m w = (r, w') \<Longrightarrow> f w' = f w"
  by (metis io_keeps_def snd_conv)

lemma io_keeps_bind [io_keeps_intros]:
  assumes "io_keeps f m" and "\<And>x. io_keeps f (g x)"
  shows "io_keeps f (io_bind m g)"
proof (rule io_keepsI)
  fix w
  obtain r w' where m: "m w = (r, w')" by fastforce
  then have "f w' = f w" by (rule io_keepsD [OF assms(1)])
  with assms(2) m show "f (snd (io_bind m g w)) = f w" by (cases r) (simp_all add: io_keeps_def)
qed

lemma io_keeps_catch [io_keeps_intros]:
  assumes "io_keeps f m" and "\<And>e. io_keeps f (h e)"
  shows "io_keeps f (io_catch m h)"
proof (rule io_keepsI)
  fix w
  obtain r w' where m: "m w = (r, w')" by fastforce
  then have "f w' = f w" by (rule io_keepsD [OF assms(1)])
  with assms(2) m show "f (snd (io_catch m h w)) = f w" by (cases r) (simp_all add: io_keeps_def)
qed

lemma io_keeps_basic [io_keeps_intros]:
  "io_keeps f (io_return x)" "io_keeps f (io_raise e)" "io_keeps f (io_py p)"
  by (simp_all add: io_keeps_def)

lemma io_keeps_then [io_keeps_intros]: "io_keeps f m \<Longrightarrow> io_keeps f n \<Longrightarrow> io_keeps f (io_then m n)"
  by (simp add: io_then_def io_keeps_bind)

lemma io_keeps_when [io_keeps_intros]: "io_keeps f m \<Longrightarrow> io_keeps f (io_when b m)"
  by (simp add: io_when_def io_keeps_basic)

lemma io_keeps_if [io_keeps_intros]: "io_keeps f m \<Longrightarrow> io_keeps f n \<Longrightarrow> io_keeps f (if b then m else n)"
  by simp

lemma io_keeps_option [io_keeps_intros]:
  "io_keeps f m \<Longrightarrow> (\<And>x. io_keeps f (g x)) \<Longrightarrow> io_keeps f (case p of None \<Rightarrow> m | Some x \<Rightarrow> g x)"
  by (cases p) simp_all

lemma io_keeps_prod [io_keeps_intros]: "(\<And>a b. io_keeps f (g a b)) \<Longrightarrow> io_keeps f (case p of (a, b) \<Rightarrow> g a b)"
  by (cases p) simp

section \<open>Paths\<close>

text \<open>
  A \<open>pathlib\<close> path as its parts; the first part of an absolute path is its root, \<open>/\<close> or \<open>//\<close>. The path \<open>.\<close>
  has no parts.
\<close>

type_synonym path = "string list"

definition path_str :: "path \<Rightarrow> string" where
  "path_str p =
     (case p of [] \<Rightarrow> ''.''
      | r # ps \<Rightarrow>
          (if r = ''/'' \<or> r = ''//'' then r @ concat (map (\<lambda>i. (if i = 0 then [] else ''/'') @ ps ! i) [0..<length ps])
           else r @ concat (map (\<lambda>q. ''/'' @ q) ps)))"

definition path_parent :: "path \<Rightarrow> path" where
  "path_parent p = (if p = [] \<or> p = [''/''] \<or> p = [''//''] then p else butlast p)"

definition path_name :: "path \<Rightarrow> string" where
  "path_name p = (if p = [] \<or> p = [''/''] \<or> p = [''//''] then [] else last p)"

text \<open>The name up to its last dot, if that dot is neither its first nor its last character.\<close>

definition name_stem :: "string \<Rightarrow> string" where
  "name_stem n =
     (let ext = takeWhile (\<lambda>c. c \<noteq> CHR ''.'') (rev n)
      in if length ext = length n \<or> ext = [] \<or> length ext + 1 = length n then n
         else take (length n - length ext - 1) n)"

definition path_stem :: "path \<Rightarrow> string" where
  "path_stem p = name_stem (path_name p)"

definition with_suffix :: "path \<Rightarrow> string \<Rightarrow> path" where
  "with_suffix p suffix = path_parent p @ [path_stem p @ suffix]"

section \<open>Lists\<close>

text \<open>The search \<open>needle in haystack\<close> of Python strings and byte strings.\<close>

fun is_infix_of :: "'a list \<Rightarrow> 'a list \<Rightarrow> bool" where
  "is_infix_of p [] = (p = [])"
| "is_infix_of p (x # xs) = (take (length p) (x # xs) = p \<or> is_infix_of p xs)"

lemma is_infix_of_iff: "is_infix_of p xs \<longleftrightarrow> (\<exists>us vs. xs = us @ p @ vs)"
proof (induction xs)
  case Nil
  then show ?case by auto
next
  case (Cons x xs)
  show ?case
  proof
    assume "is_infix_of p (x # xs)"
    then consider "take (length p) (x # xs) = p" | "is_infix_of p xs" by auto
    then show "\<exists>us vs. x # xs = us @ p @ vs"
    proof cases
      case 1
      then have "x # xs = [] @ p @ drop (length p) (x # xs)"
        by (metis append_Nil append_take_drop_id)
      then show ?thesis by blast
    next
      case 2
      with Cons.IH obtain us vs where "xs = us @ p @ vs" by blast
      then have "x # xs = (x # us) @ p @ vs" by simp
      then show ?thesis by blast
    qed
  next
    assume "\<exists>us vs. x # xs = us @ p @ vs"
    then obtain us vs where e: "x # xs = us @ p @ vs" by blast
    show "is_infix_of p (x # xs)"
    proof (cases us)
      case Nil
      with e have "take (length p) (x # xs) = p" by simp
      then show ?thesis by simp
    next
      case (Cons u us')
      with e have "xs = us' @ p @ vs" by simp
      with Cons.IH show ?thesis by auto
    qed
  qed
qed

lemma is_infix_of_append: "is_infix_of p xs \<Longrightarrow> is_infix_of p (xs @ ys)"
  by (fastforce simp: is_infix_of_iff)

lemma takeWhile_append_stop:
  "(\<And>x. x \<in> set xs \<Longrightarrow> P x) \<Longrightarrow> ys = [] \<or> \<not> P (hd ys) \<Longrightarrow> takeWhile P (xs @ ys) = xs"
  by (induction xs) (cases ys; auto)+

lemma dropWhile_append_stop:
  "(\<And>x. x \<in> set xs \<Longrightarrow> P x) \<Longrightarrow> ys = [] \<or> \<not> P (hd ys) \<Longrightarrow> dropWhile P (xs @ ys) = ys"
  by (induction xs) (cases ys; auto)+

text \<open>\<open>deque(maxlen=n).append\<close>: a full deque drops its oldest element.\<close>

definition deque_append :: "nat \<Rightarrow> 'a list \<Rightarrow> 'a \<Rightarrow> 'a list" where
  "deque_append maxlen q x = drop (length q + 1 - maxlen) (q @ [x])"

definition last_n :: "nat \<Rightarrow> 'a list \<Rightarrow> 'a list" where
  "last_n k xs = drop (length xs - k) xs"

lemma deque_append_last_n: "0 < k \<Longrightarrow> deque_append k (last_n k xs) x = last_n k (xs @ [x])"
  by (cases "length xs < k") (auto simp: deque_append_def last_n_def Suc_diff_le)

lemma last_n_idem [simp]: "length xs \<le> k \<Longrightarrow> last_n k xs = xs"
  by (simp add: last_n_def)

lemma length_last_n [simp]: "length (last_n k xs) = min k (length xs)"
  by (simp add: last_n_def)

lemma length_deque_append: "length q \<le> k \<Longrightarrow> length (deque_append k q x) \<le> k"
  by (auto simp: deque_append_def)

lemma deque_append_room: "length q < k \<Longrightarrow> deque_append k q x = q @ [x]"
  by (simp add: deque_append_def)

text \<open>A bounded \<open>for\<close> loop over cycles: a state folded over \<open>0..<n\<close> until it yields a result.\<close>

fun for_cycles :: "(nat \<Rightarrow> 's \<Rightarrow> 's + 'r) \<Rightarrow> nat \<Rightarrow> nat \<Rightarrow> 's \<Rightarrow> 's + 'r" where
  "for_cycles body 0 c s = Inl s"
| "for_cycles body (Suc n) c s =
     (case body c s of Inr r \<Rightarrow> Inr r | Inl s' \<Rightarrow> for_cycles body n (Suc c) s')"

text \<open>Invariant rule: a body that keeps \<open>I\<close> while it continues and gives \<open>Q\<close> when it stops.\<close>

lemma for_cycles_rule:
  assumes "I c s"
    and "\<And>i t t'. c \<le> i \<Longrightarrow> i < c + n \<Longrightarrow> I i t \<Longrightarrow> body i t = Inl t' \<Longrightarrow> I (Suc i) t'"
    and "\<And>i t r. c \<le> i \<Longrightarrow> i < c + n \<Longrightarrow> I i t \<Longrightarrow> body i t = Inr r \<Longrightarrow> Q i r"
  shows "case for_cycles body n c s of
           Inl t \<Rightarrow> I (c + n) t
         | Inr r \<Rightarrow> \<exists>i. c \<le> i \<and> i < c + n \<and> Q i r"
  using assms
proof (induction n arbitrary: c s)
  case 0
  then show ?case by simp
next
  case (Suc n)
  show ?case
  proof (cases "body c s")
    case (Inr r)
    with Suc.prems(1) Suc.prems(3)[of c s r] show ?thesis by auto
  next
    case (Inl s')
    with Suc.prems(1) Suc.prems(2)[of c s s'] have "I (Suc c) s'" by simp
    then have "case for_cycles body n (Suc c) s' of
           Inl t \<Rightarrow> I (Suc c + n) t
         | Inr r \<Rightarrow> \<exists>i. Suc c \<le> i \<and> i < Suc c + n \<and> Q i r"
      by (rule Suc.IH) (use Suc.prems(2,3) in \<open>force\<close>)+
    with Inl show ?thesis by (auto split: sum.splits) (meson Suc_leD)
  qed
qed

end
