(* ===== verification/Py_Text.thy ===== *)
theory Py_Text
  imports Synapse_Prelude
begin

text \<open>
  The part of Python's text library that the tools use, on ASCII text: \<open>str.strip\<close>,
  \<open>str.split\<close>, \<open>str.splitlines\<close>, \<open>int(s, base)\<close>, the format specifications
  \<open>d\<close>, \<open>x\<close>, \<open>0Nx\<close>, \<open>#x\<close> and the byte decoders, with the round trips between
  printing and parsing that the trace files rest on.
\<close>

section \<open>Character classes\<close>

abbreviation ord :: "char \<Rightarrow> nat" where
  "ord c \<equiv> of_char c"

text \<open>\<open>str.isspace\<close> and the class \<open>\s\<close> of \<open>re\<close> on ASCII text.\<close>

definition is_space :: "char \<Rightarrow> bool" where
  "is_space c \<longleftrightarrow> 9 \<le> ord c \<and> ord c \<le> 13 \<or> 28 \<le> ord c \<and> ord c \<le> 32"

definition is_linebreak :: "char \<Rightarrow> bool" where
  "is_linebreak c \<longleftrightarrow> 10 \<le> ord c \<and> ord c \<le> 13 \<or> 28 \<le> ord c \<and> ord c \<le> 30"

definition is_digit :: "char \<Rightarrow> bool" where
  "is_digit c \<longleftrightarrow> 48 \<le> ord c \<and> ord c \<le> 57"

text \<open>The class \<open>[0-9a-f]\<close>.\<close>

definition is_hex :: "char \<Rightarrow> bool" where
  "is_hex c \<longleftrightarrow> is_digit c \<or> 97 \<le> ord c \<and> ord c \<le> 102"

definition is_alnum :: "char \<Rightarrow> bool" where
  "is_alnum c \<longleftrightarrow> is_digit c \<or> 97 \<le> ord c \<and> ord c \<le> 122 \<or> 65 \<le> ord c \<and> ord c \<le> 90"

text \<open>The class \<open>\w\<close>.\<close>

definition is_word :: "char \<Rightarrow> bool" where
  "is_word c \<longleftrightarrow> is_alnum c \<or> c = CHR ''_''"

lemma linebreak_space: "is_linebreak c \<Longrightarrow> is_space c"
  by (auto simp: is_linebreak_def is_space_def)

section \<open>strip, split, splitlines, join\<close>

definition py_strip :: "string \<Rightarrow> string" where
  "py_strip s = rev (dropWhile is_space (rev (dropWhile is_space s)))"

fun split_ws :: "string \<Rightarrow> string \<Rightarrow> string list" where
  "split_ws w [] = (if w = [] then [] else [rev w])"
| "split_ws w (c # cs) =
     (if is_space c then (if w = [] then split_ws [] cs else rev w # split_ws [] cs)
      else split_ws (c # w) cs)"

definition py_split :: "string \<Rightarrow> string list" where
  "py_split s = split_ws [] s"

fun split_on :: "char \<Rightarrow> string \<Rightarrow> string \<Rightarrow> string list" where
  "split_on d w [] = [rev w]"
| "split_on d w (c # cs) = (if c = d then rev w # split_on d [] cs else split_on d (c # w) cs)"

text \<open>\<open>s.split(d)\<close> for a one-character separator.\<close>

definition py_split_char :: "char \<Rightarrow> string \<Rightarrow> string list" where
  "py_split_char d s = split_on d [] s"

fun lines_acc :: "string \<Rightarrow> string \<Rightarrow> string list" where
  "lines_acc w [] = (if w = [] then [] else [rev w])"
| "lines_acc w [c] = (if is_linebreak c then [rev w] else [rev w @ [c]])"
| "lines_acc w (c # d # cs) =
     (if is_linebreak c
      then rev w # (if ord c = 13 \<and> ord d = 10 then lines_acc [] cs else lines_acc [] (d # cs))
      else lines_acc (c # w) (d # cs))"

definition py_splitlines :: "string \<Rightarrow> string list" where
  "py_splitlines s = lines_acc [] s"

definition py_join :: "string \<Rightarrow> string list \<Rightarrow> string" where
  "py_join sep ws =
     (case ws of [] \<Rightarrow> [] | w # ws' \<Rightarrow> w @ concat (map (\<lambda>v. sep @ v) ws'))"

section \<open>Digits and integers\<close>

fun nat_digits :: "nat \<Rightarrow> nat \<Rightarrow> nat list" where
  "nat_digits b n = (if b < 2 \<or> n < b then [n] else nat_digits b (n div b) @ [n mod b])"

declare nat_digits.simps [simp del]

definition digit_char :: "nat \<Rightarrow> char" where
  "digit_char d = char_of (if d < 10 then 48 + d else 87 + d)"

definition digit_val :: "char \<Rightarrow> nat option" where
  "digit_val c =
     (if is_digit c then Some (ord c - 48)
      else if 97 \<le> ord c \<and> ord c \<le> 122 then Some (ord c - 87)
      else if 65 \<le> ord c \<and> ord c \<le> 90 then Some (ord c - 55)
      else None)"

definition nat_str :: "nat \<Rightarrow> nat \<Rightarrow> string" where
  "nat_str b n = map digit_char (nat_digits b n)"

text \<open>The digit loop of \<open>int(s, b)\<close>: single underscores may separate digits.\<close>

fun scan_digits :: "nat \<Rightarrow> bool \<Rightarrow> nat \<Rightarrow> string \<Rightarrow> nat option" where
  "scan_digits b prev acc [] = (if prev then Some acc else None)"
| "scan_digits b prev acc (c # cs) =
     (if c = CHR ''_'' then (if prev then scan_digits b False acc cs else None)
      else case digit_val c of
             None \<Rightarrow> None
           | Some d \<Rightarrow> if d < b then scan_digits b True (acc * b + d) cs else None)"

definition c_space :: "char \<Rightarrow> bool" where
  "c_space c \<longleftrightarrow> 9 \<le> ord c \<and> ord c \<le> 13 \<or> ord c = 32"

text \<open>The prefix \<open>0x\<close> or \<open>0X\<close>, with one underscore allowed after it, is skipped in base 16.\<close>

definition drop_prefix :: "nat \<Rightarrow> string \<Rightarrow> string" where
  "drop_prefix b s =
     (if b = 16 \<and> (take 2 s = ''0x'' \<or> take 2 s = ''0X'')
      then (if take 1 (drop 2 s) = ''_'' then drop 3 s else drop 2 s)
      else s)"

text \<open>\<open>repr\<close> of a text without quotes, backslashes and control characters.\<close>

definition py_repr :: "string \<Rightarrow> string" where
  "py_repr s = [CHR 0x27] @ s @ [CHR 0x27]"

definition invalid_literal :: "nat \<Rightarrow> string \<Rightarrow> py_error" where
  "invalid_literal b s =
     ValueError (''invalid literal for int() with base '' @ nat_str 10 b @ '': '' @ py_repr s)"

definition py_int :: "nat \<Rightarrow> string \<Rightarrow> int py" where
  "py_int b s =
     (let t = rev (dropWhile c_space (rev (dropWhile c_space s)));
          neg = (take 1 t = ''-'');
          u = (if take 1 t = ''-'' \<or> take 1 t = ''+'' then drop 1 t else t)
      in case scan_digits b False 0 (drop_prefix b u) of
           None \<Rightarrow> Inl (invalid_literal b s)
         | Some n \<Rightarrow> Inr (if neg then - int n else int n))"

section \<open>Format specifications\<close>

definition zero_pad :: "nat \<Rightarrow> string \<Rightarrow> string" where
  "zero_pad w s = replicate (w - length s) CHR ''0'' @ s"

text \<open>\<open>f"{v:0wx}"\<close> (the sign counts in the width), \<open>f"{v:x}"\<close> (width 0), \<open>f"{v:#x}"\<close>, \<open>str(v)\<close>.\<close>

definition fmt_0x :: "nat \<Rightarrow> int \<Rightarrow> string" where
  "fmt_0x w v =
     (if v < 0 then ''-'' @ zero_pad (w - 1) (nat_str 16 (nat (- v)))
      else zero_pad w (nat_str 16 (nat v)))"

definition fmt_hash_x :: "int \<Rightarrow> string" where
  "fmt_hash_x v = (if v < 0 then ''-0x'' @ nat_str 16 (nat (- v)) else ''0x'' @ nat_str 16 (nat v))"

definition fmt_d :: "int \<Rightarrow> string" where
  "fmt_d v = (if v < 0 then ''-'' @ nat_str 10 (nat (- v)) else nat_str 10 (nat v))"

section \<open>Bytes\<close>

text \<open>
  A byte string is a list of integers in \<open>0..255\<close>. Decoding as Latin-1 maps each byte to the
  character of that code; decoding as ASCII with \<open>errors="replace"\<close> maps bytes above 127 to
  U+FFFD, which is outside the 8-bit character type and is the value \<open>None\<close> here.
\<close>

definition decode_latin1 :: "int list \<Rightarrow> string" where
  "decode_latin1 bs = map (\<lambda>b. char_of (nat b)) bs"

definition decode_ascii_replace :: "int list \<Rightarrow> char option list" where
  "decode_ascii_replace bs = map (\<lambda>b. if 0 \<le> b \<and> b < 128 then Some (char_of (nat b)) else None) bs"

section \<open>Lemmas\<close>

lemma ord_digit_char [simp]: "d < 16 \<Longrightarrow> ord (digit_char d) = (if d < 10 then 48 + d else 87 + d)"
  by (auto simp: digit_char_def)

lemma digit_val_digit_char: "d < 16 \<Longrightarrow> digit_val (digit_char d) = Some d"
  by (auto simp: digit_val_def is_digit_def)

lemma digit_char_not_underscore: "d < 16 \<Longrightarrow> digit_char d \<noteq> CHR ''_''"
proof
  assume "d < 16" and "digit_char d = CHR ''_''"
  then have "ord (digit_char d) = ord (CHR ''_'')" by simp
  with \<open>d < 16\<close> show False by (auto split: if_splits)
qed

lemma digit_char_hex: "d < 16 \<Longrightarrow> is_hex (digit_char d)"
  by (auto simp: is_hex_def is_digit_def)

lemma digit_char_digit: "d < 10 \<Longrightarrow> is_digit (digit_char d)"
  by (auto simp: is_digit_def)

lemma hex_not_space: "is_hex c \<Longrightarrow> \<not> is_space c"
  by (auto simp: is_hex_def is_digit_def is_space_def)

lemma hex_not_c_space: "is_hex c \<Longrightarrow> \<not> c_space c"
  by (auto simp: is_hex_def is_digit_def c_space_def)

lemma nat_digits_nonempty [simp]: "nat_digits b n \<noteq> []"
  by (subst nat_digits.simps) simp

lemma nat_digits_less: "2 \<le> b \<Longrightarrow> \<forall>d \<in> set (nat_digits b n). d < b"
proof (induction b n rule: nat_digits.induct)
  case (1 b n)
  show ?case
  proof (cases "n < b")
    case True
    then show ?thesis by (subst nat_digits.simps) simp
  next
    case False
    with 1 have "\<forall>d \<in> set (nat_digits b (n div b)). d < b" by simp
    with False \<open>2 \<le> b\<close> show ?thesis by (subst nat_digits.simps) auto
  qed
qed

lemma nat_digits_value:
  "2 \<le> b \<Longrightarrow> foldl (\<lambda>a d. a * b + d) 0 (nat_digits b n) = n"
proof (induction b n rule: nat_digits.induct)
  case (1 b n)
  show ?case
  proof (cases "n < b")
    case True
    then show ?thesis by (subst nat_digits.simps) simp
  next
    case False
    with 1 have "foldl (\<lambda>a d. a * b + d) 0 (nat_digits b (n div b)) = n div b" by simp
    with False \<open>2 \<le> b\<close> show ?thesis by (subst nat_digits.simps) simp
  qed
qed

lemma scan_digits_map:
  assumes "b \<le> 16" and "\<forall>d \<in> set ds. d < b"
  shows "scan_digits b prev acc (map digit_char ds) =
           (if ds = [] \<and> \<not> prev then None else Some (foldl (\<lambda>a d. a * b + d) acc ds))"
  using assms
  by (induction ds arbitrary: prev acc) (auto simp: digit_val_digit_char digit_char_not_underscore)

lemma nat_str_hex: "c \<in> set (nat_str 16 n) \<Longrightarrow> is_hex c"
  using nat_digits_less [of 16 n] by (auto simp: nat_str_def intro!: digit_char_hex)

lemma nat_str_10_digit: "c \<in> set (nat_str 10 n) \<Longrightarrow> is_digit c"
  using nat_digits_less [of 10 n] by (auto simp: nat_str_def intro!: digit_char_digit)

lemma nat_str_nonempty [simp]: "nat_str b n \<noteq> []"
  by (simp add: nat_str_def)


lemma digit_char_0: "digit_char 0 = CHR ''0''"
  by code_simp

lemma zero_pad_digits:
  "zero_pad w (nat_str b n) = map digit_char (replicate (w - length (nat_digits b n)) 0 @ nat_digits b n)"
  by (simp add: zero_pad_def nat_str_def digit_char_0)

lemma foldl_replicate_zero: "foldl (\<lambda>a d. a * b + d) (0::nat) (replicate k 0) = 0"
  by (induction k) simp_all

lemma scan_zero_pad:
  assumes "2 \<le> b" and "b \<le> 16"
  shows "scan_digits b False 0 (zero_pad w (nat_str b n)) = Some n"
proof -
  have "\<forall>d \<in> set (replicate (w - length (nat_digits b n)) 0 @ nat_digits b n). d < b"
    using nat_digits_less [OF assms(1), of n] assms(1) by auto
  with assms show ?thesis
    by (simp add: zero_pad_digits scan_digits_map foldl_replicate_zero nat_digits_value del: map_append)
qed

lemma zero_pad_hex: "c \<in> set (zero_pad w (nat_str 16 n)) \<Longrightarrow> is_hex c"
  using nat_str_hex [of c n] by (auto simp: zero_pad_def is_hex_def is_digit_def)

lemma zero_pad_nonempty [simp]: "zero_pad w (nat_str b n) \<noteq> []"
  by (simp add: zero_pad_def)

text \<open>A string of hexadecimal digits has no blank to strip, no sign and no prefix.\<close>

lemma py_int_plain:
  assumes "\<forall>c \<in> set s. is_hex c"
  shows "py_int b s = (case scan_digits b False 0 s of None \<Rightarrow> Inl (invalid_literal b s) | Some n \<Rightarrow> Inr (int n))"
proof -
  have t: "dropWhile c_space u = u" if "\<forall>c \<in> set u. is_hex c" for u
    using that by (cases u) (auto simp: hex_not_c_space)
  have sg: "take 1 s \<noteq> ''-''" "take 1 s \<noteq> ''+''"
    using assms by (cases s; auto simp: is_hex_def is_digit_def)+
  have pf: "take 2 s \<noteq> ''0x''" "take 2 s \<noteq> ''0X''"
    using assms by (cases s; cases "tl s"; auto simp: is_hex_def is_digit_def)+
  from assms sg pf show ?thesis
    by (simp add: py_int_def t drop_prefix_def Let_def split: option.split)
qed

theorem py_int_fmt_0x: "0 \<le> v \<Longrightarrow> py_int 16 (fmt_0x w v) = Inr v"
  by (simp add: fmt_0x_def py_int_plain zero_pad_hex scan_zero_pad)

lemma py_int_nat_str_10: "py_int 10 (nat_str 10 n) = Inr (int n)"
proof -
  have "\<forall>c \<in> set (nat_str 10 n). is_hex c"
    using nat_str_10_digit by (auto simp: is_hex_def)
  moreover have "zero_pad 0 (nat_str 10 n) = nat_str 10 n"
    by (simp add: zero_pad_def)
  ultimately show ?thesis
    using scan_zero_pad [of 10 0 n] by (simp add: py_int_plain)
qed

lemma py_int_fmt_d: "0 \<le> v \<Longrightarrow> py_int 10 (fmt_d v) = Inr v"
  by (simp add: fmt_d_def py_int_nat_str_10)

lemma py_int_0x_prefix:
  assumes "\<forall>c \<in> set s. is_hex c" and "s \<noteq> []" and "py_int 16 s = Inr v"
  shows "py_int 16 (CHR ''0'' # CHR ''x'' # s) = Inr v"
proof -
  have t: "dropWhile c_space u = u" if "u \<noteq> []" and "\<not> c_space (hd u)" for u
    using that by (cases u) auto
  have e: "rev (dropWhile c_space (rev (CHR ''0'' # CHR ''x'' # s))) = CHR ''0'' # CHR ''x'' # s"
    using assms by (subst t) (auto simp: hd_rev hex_not_c_space)
  have z: "\<not> c_space (CHR ''0'')" by (simp add: c_space_def)
  have us: "take 1 s \<noteq> ''_''"
    using assms by (cases s) (auto simp: is_hex_def is_digit_def)
  from e z us assms show ?thesis
    by (simp add: py_int_plain split: option.splits)
      (simp add: py_int_def drop_prefix_def Let_def)
qed

lemma py_int_fmt_hash_x: "0 \<le> v \<Longrightarrow> py_int 16 (fmt_hash_x v) = Inr v"
  using py_int_0x_prefix [of "nat_str 16 (nat v)"] py_int_fmt_0x [of v 0] nat_str_hex
  by (auto simp: fmt_hash_x_def fmt_0x_def zero_pad_def)

lemma fmt_0x_word:
  assumes "0 \<le> v"
  shows "fmt_0x w v \<noteq> []" and "\<forall>c \<in> set (fmt_0x w v). \<not> is_space c"
  using assms by (auto simp: fmt_0x_def hex_not_space dest: zero_pad_hex)

lemma fmt_d_word:
  assumes "0 \<le> v"
  shows "fmt_d v \<noteq> []" and "\<forall>c \<in> set (fmt_d v). \<not> is_space c"
  using assms by (auto simp: fmt_d_def is_digit_def is_space_def dest!: nat_str_10_digit)

lemma split_ws_word:
  assumes "\<forall>c \<in> set w. \<not> is_space c"
  shows "split_ws acc (w @ s) = split_ws (rev w @ acc) s"
  using assms by (induction w arbitrary: acc) auto

text \<open>A word followed by a blank is the first field of the line.\<close>

lemma py_split_word:
  assumes "\<forall>c \<in> set w. \<not> is_space c" and "w \<noteq> []" and "is_space b"
  shows "py_split (w @ b # s) = w # py_split s"
  using assms by (simp add: py_split_def split_ws_word)

lemma py_split_last:
  assumes "\<forall>c \<in> set w. \<not> is_space c" and "w \<noteq> []"
  shows "py_split w = [w]"
  using assms split_ws_word [of w "[]" "[]"] by (simp add: py_split_def)

lemma py_split_blank: "is_space b \<Longrightarrow> py_split (b # s) = py_split s"
  by (simp add: py_split_def)

lemma split_ws_parts:
  "list_all (\<lambda>c. \<not> is_space c) acc \<Longrightarrow>
     list_all (\<lambda>w. w \<noteq> [] \<and> list_all (\<lambda>c. \<not> is_space c) w) (split_ws acc s)"
  by (induction s arbitrary: acc) (simp_all add: list_all_rev)

lemma py_split_parts: "w \<in> set (py_split s) \<Longrightarrow> w \<noteq> [] \<and> (\<forall>c \<in> set w. \<not> is_space c)"
  using split_ws_parts [of "[]" s] unfolding py_split_def list_all_iff by auto

lemma lines_acc_line:
  assumes "\<forall>c \<in> set l. \<not> is_linebreak c"
  shows "lines_acc acc (l @ CHR 0x0A # s) = (rev acc @ l) # lines_acc [] s"
  using assms
proof (induction l arbitrary: acc)
  case Nil
  then show ?case by (cases s) (simp_all add: is_linebreak_def)
next
  case (Cons c l)
  then show ?case by (cases l) auto
qed

lemma py_splitlines_line:
  "\<forall>c \<in> set l. \<not> is_linebreak c \<Longrightarrow> py_splitlines (l @ CHR 0x0A # s) = l # py_splitlines s"
  by (simp add: py_splitlines_def lines_acc_line)

text \<open>Lines that carry no line break, each ended by one, split back into themselves.\<close>

theorem py_splitlines_concat:
  assumes "\<forall>l \<in> set ls. \<forall>c \<in> set l. \<not> is_linebreak c"
  shows "py_splitlines (concat (map (\<lambda>l. l @ [CHR 0x0A]) ls)) = ls"
  using assms
proof (induction ls)
  case Nil
  then show ?case by (simp add: py_splitlines_def)
next
  case (Cons l ls)
  then show ?case by (simp add: py_splitlines_line)
qed

section \<open>Files of lines\<close>

text \<open>
  The contract between a program that writes one line per item and one that reads the file back
  with \<open>splitlines\<close> and \<open>split\<close>: no line holds a line break, and the line of an item
  splits into the item's fields.
\<close>

locale line_format =
  fixes line :: "'e \<Rightarrow> string"
    and fields :: "'e \<Rightarrow> string list"
    and ok :: "'e \<Rightarrow> bool"
  assumes line_no_break: "ok e \<Longrightarrow> c \<in> set (line e) \<Longrightarrow> \<not> is_linebreak c"
    and line_fields: "ok e \<Longrightarrow> py_split (line e) = fields e"
begin

lemma splitlines_file:
  assumes "\<forall>e \<in> set es. ok e"
  shows "py_splitlines (concat (map (\<lambda>e. line e @ [CHR 0x0A]) es)) = map line es"
proof -
  have "\<forall>l \<in> set (map line es). \<forall>c \<in> set l. \<not> is_linebreak c"
    using assms line_no_break by auto
  from py_splitlines_concat [OF this] show ?thesis by (simp add: comp_def)
qed

lemma read_file:
  assumes "\<forall>e \<in> set es. ok e"
  shows "map py_split (py_splitlines (concat (map (\<lambda>e. line e @ [CHR 0x0A]) es))) = map fields es"
  using assms line_fields by (simp add: splitlines_file)

end

end
