(* ===== verification/Compare_Trace.thy ===== *)
theory Compare_Trace
  imports Py_Text "HOL-Library.Monad_Syntax"
begin

text \<open>
  The trace comparison of \<open>.github/scripts/compare_with_spike.py\<close>: the parser of Spike's commit
  log, the parser of the trace the simulation writes, the search for the first divergence of two
  traces and the choice between the register and the memory divergence.
\<close>

unbundle bit_operations_syntax

section \<open>Instruction fields\<close>

definition IMPLEMENTATION_DEFINED_CSRS :: "int list" where
  "IMPLEMENTATION_DEFINED_CSRS =
     [0xC00, 0xC01, 0xC02, 0xC80, 0xC81, 0xC82, 0xB00, 0xB02, 0xB80, 0xB82, 0xF11, 0xF12, 0xF13]"

definition reads_implementation_defined_csr :: "int \<Rightarrow> bool" where
  "reads_implementation_defined_csr insn \<longleftrightarrow>
     insn AND 0x7F = 0x73 \<and> (drop_bit 12 insn AND 0x7) \<notin> {0, 4} \<and>
     drop_bit 20 insn \<in> set IMPLEMENTATION_DEFINED_CSRS"

definition store_width :: "int \<Rightarrow> nat py" where
  "store_width insn =
     (let opcode = insn AND 0x7F
      in if opcode = 0x23 then Inr (2 ^ nat (drop_bit 12 insn AND 0x3))
         else if opcode = 0x2F then Inr 4
         else Inl (ValueError (''memory write from non-store instruction 0x'' @ fmt_0x 8 insn)))"

section \<open>Spike's commit log\<close>

text \<open>An entry of Spike's trace: a tuple \<open>(pc, where, value, insn, may_differ, commit)\<close>.\<close>

record spike_entry =
  s_pc :: int
  s_where :: int
  s_value :: int
  s_insn :: int
  s_may_differ :: bool
  s_commit :: nat

text \<open>
  \<open>SPIKE_COMMIT_RE\<close>, \<open>^core\s+\d+:\s+\d\s+0x([0-9a-f]+)\s+\(0x([0-9a-f]+)\)(.*)$\<close>. Adjacent
  classes of the expression are disjoint, so the greedy match without backtracking is the match.
\<close>

definition eat_lit :: "string \<Rightarrow> string \<Rightarrow> string option" where
  "eat_lit p s = (if take (length p) s = p then Some (drop (length p) s) else None)"

definition eat_many :: "(char \<Rightarrow> bool) \<Rightarrow> string \<Rightarrow> (string \<times> string) option" where
  "eat_many P s = (if takeWhile P s = [] then None else Some (takeWhile P s, dropWhile P s))"

definition eat_one :: "(char \<Rightarrow> bool) \<Rightarrow> string \<Rightarrow> string option" where
  "eat_one P s = (case s of [] \<Rightarrow> None | c # cs \<Rightarrow> if P c then Some cs else None)"

definition match_spike_commit :: "string \<Rightarrow> (string \<times> string \<times> string) option" where
  "match_spike_commit line = do {
     s \<leftarrow> eat_lit ''core'' line;
     (_, s) \<leftarrow> eat_many is_space s;
     (_, s) \<leftarrow> eat_many is_digit s;
     s \<leftarrow> eat_lit '':'' s;
     (_, s) \<leftarrow> eat_many is_space s;
     s \<leftarrow> eat_one is_digit s;
     (_, s) \<leftarrow> eat_many is_space s;
     s \<leftarrow> eat_lit ''0x'' s;
     (pc, s) \<leftarrow> eat_many is_hex s;
     (_, s) \<leftarrow> eat_many is_space s;
     s \<leftarrow> eat_lit ''(0x'' s;
     (insn, s) \<leftarrow> eat_many is_hex s;
     s \<leftarrow> eat_lit '')'' s;
     Some (pc, insn, s) }"

text \<open>
  \<open>re.sub(r"\bx\s+(\d+)\b", r"x\1", s)\<close>: Spike pads a one-digit register name with a blank. The
  flag says whether the character before the current position is a word character.
\<close>

definition match_x_reg :: "bool \<Rightarrow> string \<Rightarrow> (string \<times> string) option" where
  "match_x_reg prev_word s =
     (if prev_word then None
      else do {
        s \<leftarrow> eat_lit ''x'' s;
        (_, s) \<leftarrow> eat_many is_space s;
        (ds, s) \<leftarrow> eat_many is_digit s;
        if s = [] \<or> \<not> is_word (hd s) then Some (ds, s) else None })"

lemma match_x_reg_shorter:
  "match_x_reg w s = Some (ds, v) \<Longrightarrow> length v < length s"
proof -
  assume m: "match_x_reg w s = Some (ds, v)"
  then have s: "s \<noteq> []" and v: "v = dropWhile is_digit (dropWhile is_space (drop 1 s))"
    by (auto simp: match_x_reg_def eat_lit_def eat_many_def bind_eq_Some_conv split: if_splits)
  have "length v \<le> length (drop 1 s)"
    unfolding v by (meson length_dropWhile_le le_trans)
  with s show ?thesis by (cases s) auto
qed

function sub_x_reg :: "bool \<Rightarrow> string \<Rightarrow> string" where
  "sub_x_reg prev_word [] = []"
| "sub_x_reg prev_word (c # cs) =
     (case match_x_reg prev_word (c # cs) of
        Some (ds, v) \<Rightarrow> CHR ''x'' # ds @ sub_x_reg True v
      | None \<Rightarrow> c # sub_x_reg (is_word c) cs)"
  by pat_completeness auto
termination
  by (relation "measure (\<lambda>(w, s). length s)") (auto dest!: match_x_reg_shorter)

definition commit_tokens :: "string \<Rightarrow> string list" where
  "commit_tokens rest = py_split (sub_x_reg False rest)"

text \<open>The full matches \<open>x\d+\<close> and \<open>0x[0-9a-f]+\<close> of a token.\<close>

definition is_reg_token :: "string \<Rightarrow> bool" where
  "is_reg_token t \<longleftrightarrow> (case t of [] \<Rightarrow> False | c # ds \<Rightarrow> c = CHR ''x'' \<and> ds \<noteq> [] \<and> list_all is_digit ds)"

definition is_hex_token :: "string \<Rightarrow> bool" where
  "is_hex_token t \<longleftrightarrow> take 2 t = ''0x'' \<and> drop 2 t \<noteq> [] \<and> list_all is_hex (drop 2 t)"

text \<open>The bytes a store of the given width writes, lowest address first.\<close>

definition spike_store_bytes :: "int \<Rightarrow> int \<Rightarrow> nat \<Rightarrow> int \<Rightarrow> int \<Rightarrow> nat \<Rightarrow> spike_entry list" where
  "spike_store_bytes pc insn commit address value width =
     map (\<lambda>index. \<lparr>s_pc = pc, s_where = (address + int index) AND 0xFFFFFFFF,
                   s_value = drop_bit (8 * index) value AND 0xFF,
                   s_insn = insn, s_may_differ = False, s_commit = commit\<rparr>) [0..<width]"

fun scan_tokens ::
  "int \<Rightarrow> int \<Rightarrow> nat \<Rightarrow> string list \<Rightarrow> spike_entry list \<Rightarrow> spike_entry list \<Rightarrow>
     (spike_entry list \<times> spike_entry list) py" where
  "scan_tokens pc insn commit [] writes bytes_written = Inr (writes, bytes_written)"
| "scan_tokens pc insn commit (token # ts) writes bytes_written =
     (if is_reg_token token \<and> ts \<noteq> []
      then py_bind (py_int 10 (drop 1 token)) (\<lambda>reg.
           py_bind (py_int 16 (hd ts)) (\<lambda>value.
             scan_tokens pc insn commit (tl ts)
               (writes @ [\<lparr>s_pc = pc, s_where = reg, s_value = value AND 0xFFFFFFFF, s_insn = insn,
                  s_may_differ = reads_implementation_defined_csr insn, s_commit = commit\<rparr>])
               bytes_written))
      else if token = ''mem'' \<and> ts \<noteq> []
      then py_bind (py_int 16 (hd ts)) (\<lambda>address.
             if 2 \<le> length ts \<and> is_hex_token (ts ! 1)
             then py_bind (py_int 16 (ts ! 1)) (\<lambda>value.
                  py_bind (store_width insn) (\<lambda>width.
                    scan_tokens pc insn commit (drop 2 ts) writes
                      (bytes_written @ spike_store_bytes pc insn commit address value width)))
             else scan_tokens pc insn commit (tl ts) writes bytes_written)
      else scan_tokens pc insn commit ts writes bytes_written)"

text \<open>
  The loop over the enumerated lines. \<open>started\<close> skips Spike's boot ROM; the commit that writes
  \<open>tohost\<close> ends the loop and is dropped whole.
\<close>

fun spike_loop ::
  "int \<Rightarrow> int \<Rightarrow> bool \<Rightarrow> nat \<Rightarrow> string list \<Rightarrow> spike_entry list \<Rightarrow> spike_entry list \<Rightarrow>
     (spike_entry list \<times> spike_entry list) py" where
  "spike_loop entry_pc tohost started commit [] registers memory = Inr (registers, memory)"
| "spike_loop entry_pc tohost started commit (line # ls) registers memory =
     (case match_spike_commit line of
        None \<Rightarrow> spike_loop entry_pc tohost started (Suc commit) ls registers memory
      | Some (g1, g2, g3) \<Rightarrow>
          py_bind (py_int 16 g1) (\<lambda>pc.
          py_bind (py_int 16 g2) (\<lambda>insn.
            let started' = (started \<or> pc = entry_pc) in
            if \<not> started' then spike_loop entry_pc tohost started' (Suc commit) ls registers memory
            else py_bind (scan_tokens pc insn commit (commit_tokens g3) [] []) (\<lambda>(writes, bytes_written).
              if \<exists>e \<in> set bytes_written. s_where e = tohost then Inr (registers, memory)
              else spike_loop entry_pc tohost started' (Suc commit) ls
                     (registers @ writes) (memory @ bytes_written)))))"

definition parse_spike_commits ::
  "string \<Rightarrow> int \<Rightarrow> int \<Rightarrow> (spike_entry list \<times> spike_entry list) py" where
  "parse_spike_commits text entry_pc tohost =
     spike_loop entry_pc tohost False 0 (py_splitlines text) [] []"

section \<open>The simulation's trace\<close>

record rtl_entry =
  r_pc :: int
  r_where :: int
  r_value :: int

definition py_index :: "'a list \<Rightarrow> nat \<Rightarrow> 'a py" where
  "py_index xs i = (if i < length xs then Inr (xs ! i) else Inl IndexError)"

fun rtl_loop ::
  "int \<Rightarrow> string list \<Rightarrow> rtl_entry list \<Rightarrow> rtl_entry list \<Rightarrow> (rtl_entry list \<times> rtl_entry list) py" where
  "rtl_loop tohost [] registers memory = Inr (registers, memory)"
| "rtl_loop tohost (line # ls) registers memory =
     (let fields = py_split line in
      py_bind (py_index fields 0) (\<lambda>f0.
        if f0 = ''x''
        then py_bind (py_bind (py_index fields 1) (py_int 16)) (\<lambda>pc.
             py_bind (py_bind (py_index fields 2) (py_int 10)) (\<lambda>reg.
             py_bind (py_bind (py_index fields 3) (py_int 16)) (\<lambda>value.
               rtl_loop tohost ls (registers @ [\<lparr>r_pc = pc, r_where = reg, r_value = value\<rparr>]) memory)))
        else py_bind (py_bind (py_index fields 2) (py_int 16)) (\<lambda>addr.
             if addr = tohost then Inr (registers, memory)
             else py_bind (py_bind (py_index fields 1) (py_int 16)) (\<lambda>pc.
                  py_bind (py_bind (py_index fields 2) (py_int 16)) (\<lambda>addr.
                  py_bind (py_bind (py_index fields 3) (py_int 16)) (\<lambda>value.
                    rtl_loop tohost ls registers
                      (memory @ [\<lparr>r_pc = pc, r_where = addr, r_value = value\<rparr>])))))))"

definition parse_rtl_trace :: "string \<Rightarrow> int \<Rightarrow> (rtl_entry list \<times> rtl_entry list) py" where
  "parse_rtl_trace text tohost = rtl_loop tohost (py_splitlines text) [] []"

section \<open>The first divergence\<close>

definition entries_differ :: "spike_entry \<Rightarrow> rtl_entry \<Rightarrow> bool" where
  "entries_differ s r \<longleftrightarrow>
     (s_pc s, s_where s) \<noteq> (r_pc r, r_where r) \<or> s_value s \<noteq> r_value r \<and> \<not> s_may_differ s"

definition counts_text :: "spike_entry list \<Rightarrow> rtl_entry list \<Rightarrow> string" where
  "counts_text spike rtl =
     '' (Spike '' @ nat_str 10 (length spike) @ '' entries, RTL '' @ nat_str 10 (length rtl) @ '')''"

definition only_rtl_text :: "string \<Rightarrow> nat \<Rightarrow> rtl_entry \<Rightarrow> spike_entry list \<Rightarrow> rtl_entry list \<Rightarrow> string" where
  "only_rtl_text name index r spike rtl =
     name @ '' '' @ nat_str 10 index @ '': only RTL has pc 0x'' @ fmt_0x 8 (r_pc r) @ '' '' @
     fmt_hash_x (r_where r) @ ''='' @ fmt_hash_x (r_value r) @ counts_text spike rtl"

definition only_spike_text :: "string \<Rightarrow> nat \<Rightarrow> spike_entry \<Rightarrow> spike_entry list \<Rightarrow> rtl_entry list \<Rightarrow> string" where
  "only_spike_text name index s spike rtl =
     name @ '' '' @ nat_str 10 index @ '': only Spike has pc 0x'' @ fmt_0x 8 (s_pc s) @
     '' (insn 0x'' @ fmt_0x 8 (s_insn s) @ '') '' @
     fmt_hash_x (s_where s) @ ''='' @ fmt_hash_x (s_value s) @ counts_text spike rtl"

definition differ_text :: "string \<Rightarrow> nat \<Rightarrow> spike_entry \<Rightarrow> rtl_entry \<Rightarrow> string" where
  "differ_text name index s r =
     name @ '' '' @ nat_str 10 index @ '': Spike pc 0x'' @ fmt_0x 8 (s_pc s) @
     '' (insn 0x'' @ fmt_0x 8 (s_insn s) @ '') '' @
     fmt_hash_x (s_where s) @ ''='' @ fmt_hash_x (s_value s) @ '', RTL pc 0x'' @
     fmt_0x 8 (r_pc r) @ '' '' @ fmt_hash_x (r_where r) @ ''='' @ fmt_hash_x (r_value r)"

text \<open>The body of the loop at one index; the index stays below the longer of the two lengths.\<close>

definition divergence_at ::
  "string \<Rightarrow> spike_entry list \<Rightarrow> rtl_entry list \<Rightarrow> nat \<Rightarrow> (rat \<times> string) option" where
  "divergence_at name spike rtl index =
     (if length spike \<le> index
      then Some (if spike \<noteq> [] then of_nat (s_commit (last spike)) + 1 / 2 else 0,
                 only_rtl_text name index (rtl ! index) spike rtl)
      else if length rtl \<le> index
      then Some (of_nat (s_commit (spike ! index)), only_spike_text name index (spike ! index) spike rtl)
      else if entries_differ (spike ! index) (rtl ! index)
      then Some (of_nat (s_commit (spike ! index)), differ_text name index (spike ! index) (rtl ! index))
      else None)"

fun divergence_loop ::
  "string \<Rightarrow> spike_entry list \<Rightarrow> rtl_entry list \<Rightarrow> nat list \<Rightarrow> (rat \<times> string) option" where
  "divergence_loop name spike rtl [] = None"
| "divergence_loop name spike rtl (index # is) =
     (case divergence_at name spike rtl index of
        Some d \<Rightarrow> Some d
      | None \<Rightarrow> divergence_loop name spike rtl is)"

definition first_divergence ::
  "string \<Rightarrow> spike_entry list \<Rightarrow> rtl_entry list \<Rightarrow> (rat \<times> string) option" where
  "first_divergence name spike rtl =
     divergence_loop name spike rtl [0..<max (length spike) (length rtl)]"

text \<open>\<open>min(found)\<close> compares the pairs: the commit order first, then the text.\<close>

definition compare_traces ::
  "spike_entry list \<times> spike_entry list \<Rightarrow> rtl_entry list \<times> rtl_entry list \<Rightarrow> string option" where
  "compare_traces spike rtl =
     (let found = List.map_filter id
        [first_divergence ''register write'' (fst spike) (fst rtl),
         first_divergence ''memory write'' (snd spike) (snd rtl)]
      in if found \<noteq> [] then Some (snd (fold min (tl found) (hd found))) else None)"

section \<open>Correctness of the comparison\<close>

text \<open>Two entries agree: same place, and the same value unless the value is implementation-defined.\<close>

definition entries_agree :: "spike_entry \<Rightarrow> rtl_entry \<Rightarrow> bool" where
  "entries_agree s r \<longleftrightarrow>
     s_pc s = r_pc r \<and> s_where s = r_where r \<and> (s_may_differ s \<or> s_value s = r_value r)"

lemma entries_differ_iff [simp]: "entries_differ s r \<longleftrightarrow> \<not> entries_agree s r"
  by (auto simp: entries_differ_def entries_agree_def)

lemma divergence_loop_None_iff:
  "divergence_loop name spike rtl is = None \<longleftrightarrow> (\<forall>i \<in> set is. divergence_at name spike rtl i = None)"
  by (induction "is") (auto split: option.splits)

lemma divergence_loop_Some:
  "divergence_loop name spike rtl is = Some d \<Longrightarrow>
     \<exists>us i vs. is = us @ i # vs \<and> divergence_at name spike rtl i = Some d \<and>
       (\<forall>j \<in> set us. divergence_at name spike rtl j = None)"
proof (induction "is")
  case Nil
  then show ?case by simp
next
  case (Cons i "is")
  show ?case
  proof (cases "divergence_at name spike rtl i")
    case None
    with Cons obtain us k vs where "is = us @ k # vs" "divergence_at name spike rtl k = Some d"
        "\<forall>j \<in> set us. divergence_at name spike rtl j = None"
      by auto
    with None have "i # is = (i # us) @ k # vs \<and> divergence_at name spike rtl k = Some d \<and>
        (\<forall>j \<in> set (i # us). divergence_at name spike rtl j = None)"
      by simp
    then show ?thesis by blast
  next
    case (Some e)
    with Cons.prems show ?thesis by (metis append_Nil divergence_loop.simps(2) empty_iff list.set(1)
        option.simps(5))
  qed
qed

lemma divergence_at_None_iff:
  "divergence_at name spike rtl i = None \<longleftrightarrow>
     i < length spike \<and> i < length rtl \<and> entries_agree (spike ! i) (rtl ! i)"
  by (simp add: divergence_at_def)

lemma upt_split: "[0..<n] = us @ i # vs \<Longrightarrow> i = length us \<and> us = [0..<i] \<and> i < n"
proof -
  assume e: "[0..<n] = us @ i # vs"
  then have l: "length us < n"
    by (metis add_less_same_cancel1 diff_zero length_append length_upt linorder_not_less le_add1
        length_Cons less_add_same_cancel1 zero_less_Suc)
  from e have "[0..<n] ! length us = i" by (simp add: nth_append)
  with l have i: "i = length us" by simp
  from e have "us = take (length us) [0..<n]" by simp
  with l have "us = [0..<length us]" by (simp add: take_upt)
  with i l show ?thesis by simp
qed

text \<open>The order key of a divergence: the commit it belongs to, or half a step after the last one.\<close>

definition divergence_order :: "spike_entry list \<Rightarrow> nat \<Rightarrow> rat" where
  "divergence_order spike i =
     (if i < length spike then of_nat (s_commit (spike ! i))
      else if spike = [] then 0 else of_nat (s_commit (last spike)) + 1 / 2)"

lemma divergence_at_order: "divergence_at name spike rtl i = Some (key, msg) \<Longrightarrow> key = divergence_order spike i"
  by (auto simp: divergence_at_def divergence_order_def split: if_splits)

lemma first_divergence_None:
  "first_divergence name spike rtl = None \<longleftrightarrow> list_all2 entries_agree spike rtl"
proof -
  have "first_divergence name spike rtl = None \<longleftrightarrow>
      (\<forall>i < max (length spike) (length rtl).
         i < length spike \<and> i < length rtl \<and> entries_agree (spike ! i) (rtl ! i))"
    unfolding first_divergence_def divergence_loop_None_iff divergence_at_None_iff Ball_def
    by (simp only: set_upt atLeastLessThan_iff) simp
  also have "\<dots> \<longleftrightarrow> length spike = length rtl \<and> (\<forall>i < length spike. entries_agree (spike ! i) (rtl ! i))"
    by (metis less_max_iff_disj linorder_neqE_nat order_less_irrefl)
  finally show ?thesis by (simp add: list_all2_conv_all_nth)
qed

lemma first_divergence_Some:
  assumes "first_divergence name spike rtl = Some (key, msg)"
  obtains i where "i < max (length spike) (length rtl)"
    and "divergence_at name spike rtl i = Some (key, msg)"
    and "list_all2 entries_agree (take i spike) (take i rtl)"
    and "key = divergence_order spike i"
proof -
  from assms obtain us i vs where e: "[0..<max (length spike) (length rtl)] = us @ i # vs"
      and d: "divergence_at name spike rtl i = Some (key, msg)"
      and p: "\<forall>j \<in> set us. divergence_at name spike rtl j = None"
    unfolding first_divergence_def by (blast dest: divergence_loop_Some)
  from upt_split [OF e] have us: "us = [0..<i]" and i: "i < max (length spike) (length rtl)"
    by blast+
  have all: "j < length spike \<and> j < length rtl \<and> entries_agree (spike ! j) (rtl ! j)" if "j < i" for j
  proof -
    from that us have "j \<in> set us" by simp
    with p have "divergence_at name spike rtl j = None" by blast
    then show ?thesis by (simp only: divergence_at_None_iff)
  qed
  then have "i \<le> length spike \<and> i \<le> length rtl"
    by (metis linorder_not_less order_refl)
  with all have "list_all2 entries_agree (take i spike) (take i rtl)"
    unfolding list_all2_conv_all_nth by (metis length_take min.absorb2 nth_take)
  with i d that divergence_at_order [OF d] show ?thesis by blast
qed

text \<open>
  C1. The comparison reports no divergence exactly when both traces agree entry by entry: same
  length, same program counter and place, and the same value except where Spike's entry is the
  read of an implementation-defined CSR.
\<close>

theorem compare_traces_None_iff:
  "compare_traces (sr, sm) (rr, rm) = None \<longleftrightarrow>
     list_all2 (\<lambda>s r. s_pc s = r_pc r \<and> s_where s = r_where r \<and>
                      (s_may_differ s \<or> s_value s = r_value r)) sr rr \<and>
     list_all2 (\<lambda>s r. s_pc s = r_pc r \<and> s_where s = r_where r \<and>
                      (s_may_differ s \<or> s_value s = r_value r)) sm rm"
proof -
  have "compare_traces (sr, sm) (rr, rm) = None \<longleftrightarrow>
      first_divergence ''register write'' sr rr = None \<and> first_divergence ''memory write'' sm rm = None"
    by (auto simp: compare_traces_def Let_def List.map_filter_simps split: option.splits)
  then show ?thesis
    by (simp add: first_divergence_None entries_agree_def [abs_def])
qed

lemma compare_traces_Some:
  assumes "compare_traces (sr, sm) (rr, rm) = Some msg"
  shows "\<exists>d. snd d = msg \<and>
    (first_divergence ''register write'' sr rr = Some d \<or> first_divergence ''memory write'' sm rm = Some d) \<and>
    (\<forall>e. first_divergence ''register write'' sr rr = Some e \<or>
         first_divergence ''memory write'' sm rm = Some e \<longrightarrow> d \<le> e)"
proof (cases "first_divergence ''register write'' sr rr")
  case None
  with assms show ?thesis
    by (auto simp: compare_traces_def Let_def List.map_filter_simps split: option.splits)
next
  case (Some d)
  show ?thesis
  proof (cases "first_divergence ''memory write'' sm rm")
    case None
    with Some assms show ?thesis
      by (intro exI [of _ d]) (auto simp: compare_traces_def Let_def List.map_filter_simps)
  next
    case e: (Some e)
    with Some assms show ?thesis
      by (intro exI [of _ "min e d"])
        (auto simp: compare_traces_def Let_def List.map_filter_simps min_def)
  qed
qed

text \<open>
  C2. A reported divergence is the first one. Its text names an index of the register or of the
  memory trace up to which the two traces agree, and no divergence of the other trace belongs to
  an earlier commit.
\<close>

theorem compare_traces_earliest:
  assumes "compare_traces (sr, sm) (rr, rm) = Some msg"
  shows "\<exists>name s r i.
    (name = ''register write'' \<and> s = sr \<and> r = rr \<or> name = ''memory write'' \<and> s = sm \<and> r = rm) \<and>
    i < max (length s) (length r) \<and>
    list_all2 (\<lambda>a b. s_pc a = r_pc b \<and> s_where a = r_where b \<and> (s_may_differ a \<or> s_value a = r_value b))
      (take i s) (take i r) \<and>
    divergence_at name s r i = Some (divergence_order s i, msg) \<and>
    (\<forall>k m. first_divergence ''register write'' sr rr = Some (k, m) \<or>
           first_divergence ''memory write'' sm rm = Some (k, m) \<longrightarrow> divergence_order s i \<le> k)"
proof -
  from compare_traces_Some [OF assms] obtain key where
    d: "first_divergence ''register write'' sr rr = Some (key, msg) \<or>
        first_divergence ''memory write'' sm rm = Some (key, msg)" and
    least: "\<forall>e. first_divergence ''register write'' sr rr = Some e \<or>
         first_divergence ''memory write'' sm rm = Some e \<longrightarrow> (key, msg) \<le> e"
    by auto
  have least': "\<forall>k m. first_divergence ''register write'' sr rr = Some (k, m) \<or>
           first_divergence ''memory write'' sm rm = Some (k, m) \<longrightarrow> key \<le> k"
  proof (intro allI impI)
    fix k m
    assume "first_divergence ''register write'' sr rr = Some (k, m) \<or>
           first_divergence ''memory write'' sm rm = Some (k, m)"
    with least have "(key, msg) \<le> (k, m)" by blast
    then show "key \<le> k" by (auto simp: less_eq_prod_def)
  qed
  from d obtain name s r where
    nm: "name = ''register write'' \<and> s = sr \<and> r = rr \<or> name = ''memory write'' \<and> s = sm \<and> r = rm" and
    fd: "first_divergence name s r = Some (key, msg)"
    by blast
  from fd obtain i where "i < max (length s) (length r)"
      "divergence_at name s r i = Some (key, msg)"
      "list_all2 entries_agree (take i s) (take i r)" "key = divergence_order s i"
    by (rule first_divergence_Some)
  with nm least' show ?thesis
    unfolding entries_agree_def [abs_def] by blast
qed

theorem compare_traces_earliest_witness:
  "\<exists>i < 1. divergence_at ''register write'' [] [\<lparr>r_pc = 4, r_where = 1, r_value = 7\<rparr>] i =
     Some (0, ''register write 0: only RTL has pc 0x00000004 0x1=0x7 (Spike 0 entries, RTL 1)'')"
proof -
  have "compare_traces ([], []) ([\<lparr>r_pc = 4, r_where = 1, r_value = 7\<rparr>], []) =
      Some ''register write 0: only RTL has pc 0x00000004 0x1=0x7 (Spike 0 entries, RTL 1)''"
    by code_simp
  from compare_traces_earliest [OF this] show ?thesis
    by (auto simp: divergence_order_def)
qed

section \<open>Correctness of the Spike parser\<close>

text \<open>
  A commit of the log: its program counter, instruction, line number and operand tokens. The
  parser is compared with a declarative reading of the log: drop the commits before the entry
  point, keep those before the one that writes \<open>tohost\<close>, collect what they write.
\<close>

type_synonym commit = "int \<times> int \<times> nat \<times> string list"

definition hex_int :: "string \<Rightarrow> int" where
  "hex_int s = (case py_int 16 s of Inl e \<Rightarrow> 0 | Inr v \<Rightarrow> v)"

definition decode_commit :: "nat \<times> string \<Rightarrow> commit option" where
  "decode_commit nl =
     map_option (\<lambda>(g1, g2, g3). (hex_int g1, hex_int g2, fst nl, commit_tokens g3))
       (match_spike_commit (snd nl))"

definition log_commits :: "nat \<Rightarrow> string list \<Rightarrow> commit list" where
  "log_commits n ls = List.map_filter decode_commit (List.enumerate n ls)"

definition commit_effect :: "commit \<Rightarrow> (spike_entry list \<times> spike_entry list) py" where
  "commit_effect c = (case c of (pc, insn, n, ts) \<Rightarrow> scan_tokens pc insn n ts [] [])"

definition commit_writes :: "commit \<Rightarrow> spike_entry list" where
  "commit_writes c = (case commit_effect c of Inl e \<Rightarrow> [] | Inr (w, b) \<Rightarrow> w)"

definition commit_bytes :: "commit \<Rightarrow> spike_entry list" where
  "commit_bytes c = (case commit_effect c of Inl e \<Rightarrow> [] | Inr (w, b) \<Rightarrow> b)"

lemma hex_digit_val: "is_hex c \<Longrightarrow> \<exists>d. digit_val c = Some d \<and> d < 16"
  by (auto simp: is_hex_def digit_val_def is_digit_def)

lemma scan_digits_hex:
  assumes "list_all is_hex s" and "s \<noteq> [] \<or> prev"
  shows "\<exists>n. scan_digits 16 prev acc s = Some n"
  using assms
proof (induction s arbitrary: prev acc)
  case Nil
  then show ?case by simp
next
  case (Cons c s)
  from Cons.prems have "is_hex c" by simp
  then obtain d where "digit_val c = Some d" "d < 16" using hex_digit_val by blast
  moreover from Cons.prems have "c \<noteq> CHR ''_''" by (auto simp: is_hex_def is_digit_def)
  ultimately show ?case using Cons by simp
qed

lemma py_int_hex: "list_all is_hex s \<Longrightarrow> s \<noteq> [] \<Longrightarrow> py_int 16 s = Inr (hex_int s)"
  using scan_digits_hex [of s False 0] by (auto simp: hex_int_def py_int_plain list_all_iff)

lemma eat_many_Some: "eat_many P s = Some (a, b) \<Longrightarrow> a \<noteq> [] \<and> list_all P a"
  by (auto simp: eat_many_def list_all_iff dest: set_takeWhileD split: if_splits)

lemma match_spike_commit_hex:
  "match_spike_commit l = Some (g1, g2, g3) \<Longrightarrow>
     py_int 16 g1 = Inr (hex_int g1) \<and> py_int 16 g2 = Inr (hex_int g2)"
  by (auto simp: match_spike_commit_def bind_eq_Some_conv split: prod.splits
      intro!: py_int_hex dest!: eat_many_Some)

lemma log_commits_simps [simp]:
  "log_commits n [] = []"
  "log_commits n (l # ls) =
     (case decode_commit (n, l) of None \<Rightarrow> log_commits (Suc n) ls | Some c \<Rightarrow> c # log_commits (Suc n) ls)"
  by (simp_all add: log_commits_def List.map_filter_simps split: option.splits)

lemma spike_loop_started:
  assumes "\<forall>c \<in> set (log_commits n ls). \<not> isl (commit_effect c)"
  shows "spike_loop entry_pc tohost True n ls registers memory =
    Inr (registers @ concat (map commit_writes (takeWhile (\<lambda>c. \<forall>e \<in> set (commit_bytes c). s_where e \<noteq> tohost) (log_commits n ls))),
         memory @ concat (map commit_bytes (takeWhile (\<lambda>c. \<forall>e \<in> set (commit_bytes c). s_where e \<noteq> tohost) (log_commits n ls))))"
  using assms
proof (induction ls arbitrary: n registers memory)
  case Nil
  then show ?case by simp
next
  case (Cons l ls)
  show ?case
  proof (cases "match_spike_commit l")
    case None
    with Cons show ?thesis by (simp add: decode_commit_def)
  next
    case (Some g)
    obtain g1 g2 g3 where g: "g = (g1, g2, g3)" by (cases g)
    let ?c = "(hex_int g1, hex_int g2, n, commit_tokens g3)"
    from Some g have dec: "decode_commit (n, l) = Some ?c" by (simp add: decode_commit_def)
    with Cons.prems have "\<not> isl (commit_effect ?c)" by simp
    then obtain w b where wb: "commit_effect ?c = Inr (w, b)" by (cases "commit_effect ?c") auto
    then have "commit_writes ?c = w" "commit_bytes ?c = b"
      by (simp_all add: commit_writes_def commit_bytes_def)
    with Some g dec wb match_spike_commit_hex [of l g1 g2 g3] Cons.IH [of "Suc n"] Cons.prems
    show ?thesis by (auto simp: commit_effect_def)
  qed
qed

lemma spike_loop_skip:
  assumes "\<forall>c \<in> set (dropWhile (\<lambda>c. fst c \<noteq> entry_pc) (log_commits n ls)). \<not> isl (commit_effect c)"
  shows "spike_loop entry_pc tohost False n ls [] [] =
    (let live = takeWhile (\<lambda>c. \<forall>e \<in> set (commit_bytes c). s_where e \<noteq> tohost)
                  (dropWhile (\<lambda>c. fst c \<noteq> entry_pc) (log_commits n ls))
     in Inr (concat (map commit_writes live), concat (map commit_bytes live)))"
  using assms
proof (induction ls arbitrary: n)
  case Nil
  then show ?case by simp
next
  case (Cons l ls)
  show ?case
  proof (cases "match_spike_commit l")
    case None
    with Cons show ?thesis by (simp add: decode_commit_def)
  next
    case (Some g)
    obtain g1 g2 g3 where g: "g = (g1, g2, g3)" by (cases g)
    from Some g have dec: "decode_commit (n, l) = Some (hex_int g1, hex_int g2, n, commit_tokens g3)"
      by (simp add: decode_commit_def)
    note hex = match_spike_commit_hex [of l g1 g2 g3]
    show ?thesis
    proof (cases "hex_int g1 = entry_pc")
      case True
      with Cons.prems dec have all: "\<forall>c \<in> set (log_commits n (l # ls)). \<not> isl (commit_effect c)"
        by simp
      from Some g hex True have "spike_loop entry_pc tohost False n (l # ls) [] [] =
          spike_loop entry_pc tohost True n (l # ls) [] []"
        by simp
      with spike_loop_started [OF all, of entry_pc tohost "[]" "[]"] dec True show ?thesis
        by (simp add: Let_def)
    next
      case False
      with Cons Some g hex dec show ?thesis by simp
    qed
  qed
qed


text \<open>A short log in Spike's format: a boot ROM commit, two commits of the program, the final store.\<close>

definition sample_log :: string where
  "sample_log = concat (map (\<lambda>l. l @ [CHR 0x0A])
     [''core   0: 3 0x00001000 (0x00000297) x 5 0x00001000'',
      ''core   0: 3 0x80000000 (0x00000297) x 5 0x80000000'',
      ''core   0: 3 0x80000004 (0x00512023) mem 0x80002000 0x80000000'',
      ''warning: not a commit'',
      ''core   0: 3 0x80000008 (0x00612023) mem 0x80001000 0x00000001''])"


end
