(* ===== verification/Memory_Unit.thy ===== *)
theory Memory_Unit
  imports Synapse_Prelude
begin

text \<open>
  The load/store unit \<open>rtl/memory_unit.v\<close> and the instruction identifiers of
  \<open>rtl/include/instr_defines.vh\<close> it decodes. The module is combinational, so it is a function from
  its inputs to the record of its outputs.
\<close>

unbundle bit_operations_syntax

definition INSTR_LB :: "7 word" where "INSTR_LB = 0x14"
definition INSTR_LH :: "7 word" where "INSTR_LH = 0x15"
definition INSTR_LW :: "7 word" where "INSTR_LW = 0x16"
definition INSTR_LBU :: "7 word" where "INSTR_LBU = 0x17"
definition INSTR_LHU :: "7 word" where "INSTR_LHU = 0x18"
definition INSTR_SB :: "7 word" where "INSTR_SB = 0x19"
definition INSTR_SH :: "7 word" where "INSTR_SH = 0x1A"
definition INSTR_SW :: "7 word" where "INSTR_SW = 0x1B"

lemmas instr_ids [rtl_simps] =
  INSTR_LB_def INSTR_LH_def INSTR_LW_def INSTR_LBU_def INSTR_LHU_def INSTR_SB_def INSTR_SH_def INSTR_SW_def

record memory_unit_out =
  mu_wr_enable :: bool
  mu_read_enable :: bool
  mu_wr_data :: "32 word"
  mu_read_addr :: "32 word"
  mu_wr_addr :: "32 word"
  mu_write_byte_enable :: "4 word"
  mu_load_type :: "3 word"

definition memory_unit :: "7 word \<Rightarrow> 32 word \<Rightarrow> 32 word \<Rightarrow> memory_unit_out" where
  "memory_unit instr_id rs2_value mem_addr =
     \<lparr>mu_wr_enable = (instr_id = INSTR_SB \<or> instr_id = INSTR_SH \<or> instr_id = INSTR_SW),
      mu_read_enable = (instr_id = INSTR_LB \<or> instr_id = INSTR_LH \<or> instr_id = INSTR_LW \<or>
                        instr_id = INSTR_LBU \<or> instr_id = INSTR_LHU),
      mu_wr_data =
        (if instr_id = INSTR_SB then take_bit 8 rs2_value
         else if instr_id = INSTR_SH then take_bit 16 rs2_value
         else if instr_id = INSTR_SW then rs2_value
         else 0),
      mu_read_addr = mem_addr,
      mu_wr_addr = mem_addr,
      mu_write_byte_enable =
        (if instr_id = INSTR_SB then 1
         else if instr_id = INSTR_SH then (if \<not> bit mem_addr 0 then 3 else 0)
         else if instr_id = INSTR_SW then (if take_bit 2 mem_addr = 0 then 15 else 0)
         else 0),
      mu_load_type =
        (if instr_id = INSTR_LB then 0
         else if instr_id = INSTR_LH then 1
         else if instr_id = INSTR_LW then 2
         else if instr_id = INSTR_LBU then 4
         else if instr_id = INSTR_LHU then 5
         else 7)\<rparr>"

lemma memory_unit_store_lanes:
  "mu_write_byte_enable (memory_unit INSTR_SB v a) = 1"
  "\<not> bit a 0 \<Longrightarrow> mu_write_byte_enable (memory_unit INSTR_SH v a) = 3"
  "take_bit 2 a = 0 \<Longrightarrow> mu_write_byte_enable (memory_unit INSTR_SW v a) = 15"
  by (simp_all add: memory_unit_def rtl_simps)

lemma memory_unit_exclusive: "\<not> (mu_wr_enable (memory_unit i v a) \<and> mu_read_enable (memory_unit i v a))"
  by (auto simp: memory_unit_def rtl_simps)

end
