(* ===== verification/Isa_Harness.thy ===== *)
theory Isa_Harness
  imports Compare_Trace Memory_Unit
begin

text \<open>
  The producer of the simulation's trace, \<open>tests/system_tests/test_riscv_isa.py\<close>, and the store
  path of \<open>rtl/memory_unit.v\<close> that it observes. The simulated core is seen through the signals
  the test samples in each clock cycle.
\<close>

section \<open>The signals sampled in a cycle\<close>

record isa_sample =
  rf_wr_en :: int
  rf_rd_in :: int
  mem_wb_pc :: int
  rf_rd_value :: int
  mem_write_en :: int
  data_rvalid :: int
  store_page_fault :: int
  ex_mem_pc :: int
  mem_write_addr :: int
  mem_write_data :: int
  write_byte_enable :: int

text \<open>Every sampled signal is an unsigned bit vector.\<close>

definition sample_ok :: "isa_sample \<Rightarrow> bool" where
  "sample_ok d \<longleftrightarrow> 0 \<le> mem_wb_pc d \<and> 0 \<le> rf_rd_in d \<and> 0 \<le> rf_rd_value d \<and> 0 \<le> ex_mem_pc d \<and>
     0 \<le> mem_write_addr d \<and> 0 \<le> mem_write_data d"

section \<open>Writing the trace\<close>

definition trace_reg_line :: "int \<Rightarrow> int \<Rightarrow> int \<Rightarrow> string" where
  "trace_reg_line pc rd v = ''x '' @ fmt_0x 8 pc @ '' '' @ fmt_d rd @ '' '' @ fmt_0x 8 v @ [CHR 0x0A]"

definition trace_mem_line :: "int \<Rightarrow> int \<Rightarrow> int \<Rightarrow> string" where
  "trace_mem_line pc addr b = ''m '' @ fmt_0x 8 pc @ '' '' @ fmt_0x 8 addr @ '' '' @ fmt_0x 2 b @ [CHR 0x0A]"

definition trace_registers :: "isa_sample \<Rightarrow> string" where
  "trace_registers d =
     (if rf_wr_en d \<noteq> 0 \<and> rf_rd_in d \<noteq> 0
      then trace_reg_line (mem_wb_pc d) (rf_rd_in d) (rf_rd_value d AND 0xFFFFFFFF) else [])"

definition trace_stores :: "isa_sample \<Rightarrow> string" where
  "trace_stores d =
     (if mem_write_en d \<noteq> 0 \<and> data_rvalid d \<noteq> 0 \<and> store_page_fault d = 0
      then concat (map (\<lambda>index.
             if write_byte_enable d AND push_bit index 1 \<noteq> 0
             then trace_mem_line (ex_mem_pc d) ((mem_write_addr d + int index) AND 0xFFFFFFFF)
                    (drop_bit (8 * index) (mem_write_data d) AND 0xFF)
             else []) [0..<4])
      else [])"

text \<open>
  One iteration of the cycle loop: the trace text is extended, and a store of an odd value to
  \<open>tohost\<close> ends the test, which passes when the value is 1.
\<close>

definition isa_cycle :: "bool \<Rightarrow> int \<Rightarrow> (nat \<Rightarrow> isa_sample) \<Rightarrow> nat \<Rightarrow> string \<Rightarrow> string + (string \<times> unit py)" where
  "isa_cycle tracing tohost_addr dut cycle trace =
     (let d = dut cycle;
          trace' = (if tracing then trace @ trace_registers d @ trace_stores d else trace);
          data = mem_write_data d AND 0xFFFFFFFF
      in if mem_write_en d \<noteq> 0 \<and> mem_write_addr d = tohost_addr \<and> data AND 1 \<noteq> 0
         then Inr (trace', if data = 1 then Inr ()
                   else Inl (AssertionError (''ISA test reported failure via tohost: 0x'' @ fmt_0x 8 data)))
         else Inl trace')"

definition test_riscv_isa_image ::
  "bool \<Rightarrow> int \<Rightarrow> nat \<Rightarrow> (nat \<Rightarrow> isa_sample) \<Rightarrow> string \<times> unit py" where
  "test_riscv_isa_image tracing tohost_addr max_cycles dut =
     (case for_cycles (isa_cycle tracing tohost_addr dut) max_cycles 0 [] of
        Inr r \<Rightarrow> r
      | Inl trace \<Rightarrow>
          (trace, Inl (AssertionError (''ISA test did not finish within '' @ nat_str 10 max_cycles @ '' cycles''))))"

section \<open>The trace file round trip\<close>

datatype trace_event = RegWrite int int int | MemWrite int int int

fun event_line :: "trace_event \<Rightarrow> string" where
  "event_line (RegWrite pc rd v) = ''x '' @ fmt_0x 8 pc @ '' '' @ fmt_d rd @ '' '' @ fmt_0x 8 v"
| "event_line (MemWrite pc addr b) = ''m '' @ fmt_0x 8 pc @ '' '' @ fmt_0x 8 addr @ '' '' @ fmt_0x 2 b"

fun event_ok :: "trace_event \<Rightarrow> bool" where
  "event_ok (RegWrite pc rd v) \<longleftrightarrow> 0 \<le> pc \<and> 0 \<le> rd \<and> 0 \<le> v"
| "event_ok (MemWrite pc addr b) \<longleftrightarrow> 0 \<le> pc \<and> 0 \<le> addr \<and> 0 \<le> b"

fun is_tohost_write :: "int \<Rightarrow> trace_event \<Rightarrow> bool" where
  "is_tohost_write tohost (RegWrite pc rd v) \<longleftrightarrow> False"
| "is_tohost_write tohost (MemWrite pc addr b) \<longleftrightarrow> addr = tohost"

fun reg_entry :: "trace_event \<Rightarrow> rtl_entry option" where
  "reg_entry (RegWrite pc rd v) = Some \<lparr>r_pc = pc, r_where = rd, r_value = v\<rparr>"
| "reg_entry (MemWrite pc addr b) = None"

fun mem_entry :: "trace_event \<Rightarrow> rtl_entry option" where
  "mem_entry (RegWrite pc rd v) = None"
| "mem_entry (MemWrite pc addr b) = Some \<lparr>r_pc = pc, r_where = addr, r_value = b\<rparr>"

text \<open>What one cycle commits, as events.\<close>

definition cycle_events :: "isa_sample \<Rightarrow> trace_event list" where
  "cycle_events d =
     (if rf_wr_en d \<noteq> 0 \<and> rf_rd_in d \<noteq> 0
      then [RegWrite (mem_wb_pc d) (rf_rd_in d) (rf_rd_value d AND 0xFFFFFFFF)] else []) @
     (if mem_write_en d \<noteq> 0 \<and> data_rvalid d \<noteq> 0 \<and> store_page_fault d = 0
      then List.map_filter (\<lambda>index.
             if bit (write_byte_enable d) index
             then Some (MemWrite (ex_mem_pc d) ((mem_write_addr d + int index) mod 2 ^ 32)
                    (mem_write_data d div 2 ^ (8 * index) mod 256))
             else None) [0..<4]
      else [])"

definition render_events :: "trace_event list \<Rightarrow> string" where
  "render_events es = concat (map (\<lambda>e. event_line e @ [CHR 0x0A]) es)"

lemma render_events_simps [simp]:
  "render_events [] = []"
  "render_events (e # es) = event_line e @ CHR 0x0A # render_events es"
  "render_events (es @ fs) = render_events es @ render_events fs"
  by (simp_all add: render_events_def)

lemma and_mask_32: "(x::int) AND 0xFFFFFFFF = x mod 2 ^ 32"
  using take_bit_eq_mask [of 32 x] by (simp add: mask_eq_exp_minus_1 take_bit_eq_mod and.commute)

lemma and_mask_8: "(x::int) AND 0xFF = x mod 256"
  using take_bit_eq_mask [of 8 x] by (simp add: mask_eq_exp_minus_1 take_bit_eq_mod and.commute)

lemma and_exp_nonzero: "(x::int) AND 2 ^ n \<noteq> 0 \<longleftrightarrow> bit x n"
  by (simp add: and_exp_eq_0_iff_not_bit)

lemma trace_stores_events:
  "concat (map (\<lambda>index. if P index then trace_mem_line pc (a index) (b index) else []) is) =
   render_events (List.map_filter (\<lambda>index. if P index then Some (MemWrite pc (a index) (b index)) else None) is)"
  by (induction "is") (simp_all add: List.map_filter_simps trace_mem_line_def)

lemma cycle_trace_events: "trace_registers d @ trace_stores d = render_events (cycle_events d)"
  by (simp add: trace_registers_def trace_stores_def cycle_events_def trace_stores_events
      and_mask_32 and_mask_8 and_exp_nonzero push_bit_of_1 drop_bit_eq_div trace_reg_line_def
      cong: if_cong)

fun event_fields :: "trace_event \<Rightarrow> string list" where
  "event_fields (RegWrite pc rd v) = [''x'', fmt_0x 8 pc, fmt_d rd, fmt_0x 8 v]"
| "event_fields (MemWrite pc addr b) = [''m'', fmt_0x 8 pc, fmt_0x 8 addr, fmt_0x 2 b]"

lemma py_split_four:
  assumes "\<forall>w \<in> {a, b, c, d}. w \<noteq> [] \<and> (\<forall>x \<in> set w. \<not> is_space x)"
  shows "py_split (a @ '' '' @ b @ '' '' @ c @ '' '' @ d) = [a, b, c, d]"
proof -
  have "is_space (CHR '' '')" by (simp add: is_space_def)
  with assms show ?thesis by (simp add: py_split_word py_split_last)
qed

lemma event_line_four:
  "event_line e = event_fields e ! 0 @ '' '' @ event_fields e ! 1 @ '' '' @
     event_fields e ! 2 @ '' '' @ event_fields e ! 3"
  by (cases e) simp_all

lemma event_fields_word:
  assumes "event_ok e" and "w \<in> set (event_fields e)"
  shows "w \<noteq> [] \<and> (\<forall>x \<in> set w. \<not> is_space x)"
proof -
  have "\<not> is_space (CHR ''x'')" "\<not> is_space (CHR ''m'')" by (simp_all add: is_space_def)
  with assms show ?thesis
    by (cases e) (auto dest: fmt_0x_word fmt_d_word)
qed

lemma event_fields_length: "length (event_fields e) = 4"
  by (cases e) simp_all

lemma event_fields_four:
  "event_fields e = [event_fields e ! 0, event_fields e ! 1, event_fields e ! 2, event_fields e ! 3]"
  by (cases e) simp_all

interpretation trace_file: line_format event_line event_fields event_ok
proof unfold_locales
  fix e c
  assume ok: "event_ok e" and c: "c \<in> set (event_line e)"
  have sp: "\<not> is_linebreak (CHR '' '')" by (simp add: is_linebreak_def)
  have w: "\<not> is_linebreak x" if "i < 4" and "x \<in> set (event_fields e ! i)" for i x
    using event_fields_word [OF ok nth_mem, of i] that event_fields_length [of e] linebreak_space
    by auto
  from c sp w [of 0] w [of 1] w [of 2] w [of 3] show "\<not> is_linebreak c"
    by (auto simp: event_line_four [of e])
next
  fix e
  assume ok: "event_ok e"
  have "\<forall>w \<in> set (event_fields e). w \<noteq> [] \<and> (\<forall>x \<in> set w. \<not> is_space x)"
    using event_fields_word [OF ok] by blast
  then have "\<forall>w \<in> {event_fields e ! 0, event_fields e ! 1, event_fields e ! 2, event_fields e ! 3}.
      w \<noteq> [] \<and> (\<forall>x \<in> set w. \<not> is_space x)"
    by (cases e) simp_all
  from py_split_four [OF this] show "py_split (event_line e) = event_fields e"
    unfolding event_line_four [of e] using event_fields_four [of e] by simp
qed

lemma rtl_loop_event:
  assumes "event_ok e"
  shows "rtl_loop tohost (event_line e # ls) registers memory =
    (if is_tohost_write tohost e then Inr (registers, memory)
     else rtl_loop tohost ls (registers @ List.map_filter reg_entry [e]) (memory @ List.map_filter mem_entry [e]))"
proof -
  from assms have "py_split (event_line e) = event_fields e" by (rule trace_file.line_fields)
  with assms show ?thesis
    by (cases e) (simp_all add: py_index_def py_int_fmt_0x py_int_fmt_d List.map_filter_simps)
qed

lemma rtl_loop_events:
  assumes "\<forall>e \<in> set es. event_ok e"
  shows "rtl_loop tohost (map event_line es) registers memory =
    (let live = takeWhile (\<lambda>e. \<not> is_tohost_write tohost e) es
     in Inr (registers @ List.map_filter reg_entry live, memory @ List.map_filter mem_entry live))"
  using assms
proof (induction es arbitrary: registers memory)
  case Nil
  then show ?case by (simp add: List.map_filter_simps)
next
  case (Cons e es)
  then show ?case
    by (simp add: rtl_loop_event Let_def List.map_filter_simps del: rtl_loop.simps
        split: option.splits)
qed

lemma parse_render_events:
  assumes "\<forall>e \<in> set es. event_ok e"
  shows "parse_rtl_trace (render_events es) tohost =
    (let live = takeWhile (\<lambda>e. \<not> is_tohost_write tohost e) es
     in Inr (List.map_filter reg_entry live, List.map_filter mem_entry live))"
  using rtl_loop_events [OF assms, of tohost "[]" "[]"] trace_file.splitlines_file [OF assms]
  by (simp add: parse_rtl_trace_def render_events_def)

section \<open>The run of the test\<close>

definition finishes :: "int \<Rightarrow> isa_sample \<Rightarrow> bool" where
  "finishes tohost_addr d \<longleftrightarrow>
     mem_write_en d \<noteq> 0 \<and> mem_write_addr d = tohost_addr \<and> odd (mem_write_data d)"

text \<open>The number of cycles the loop runs: through the first finishing store, or all of them.\<close>

definition isa_run_length :: "int \<Rightarrow> nat \<Rightarrow> (nat \<Rightarrow> isa_sample) \<Rightarrow> nat" where
  "isa_run_length tohost_addr max_cycles dut =
     min (Suc (length (takeWhile (\<lambda>c. \<not> finishes tohost_addr (dut c)) [0..<max_cycles]))) max_cycles"

definition run_events :: "(nat \<Rightarrow> isa_sample) \<Rightarrow> nat \<Rightarrow> trace_event list" where
  "run_events dut n = concat (map (\<lambda>c. cycle_events (dut c)) [0..<n])"

lemma run_events_Suc: "run_events dut (Suc n) = run_events dut n @ cycle_events (dut n)"
  by (simp add: run_events_def)

lemma takeWhile_upt_first:
  assumes "n < m" and "\<not> P n" and "\<forall>j < n. P j"
  shows "length (takeWhile P [0..<m]) = n"
proof -
  have "[0..<m] = [0..<n] @ n # [Suc n..<m]"
    using assms(1) upt_add_eq_append [of 0 n "m - n"] by (simp add: upt_conv_Cons)
  moreover have "takeWhile P ([0..<n] @ n # [Suc n..<m]) = [0..<n]"
    using assms by (intro takeWhile_append_stop) auto
  ultimately show ?thesis by simp
qed

lemma finishes_test:
  "mem_write_en d \<noteq> 0 \<and> mem_write_addr d = t \<and> (mem_write_data d AND 0xFFFFFFFF) AND 1 \<noteq> 0 \<longleftrightarrow>
   finishes t d"
proof -
  have "(mem_write_data d AND 0xFFFFFFFF) AND 1 = mem_write_data d AND 1"
    by (simp add: and.assoc)
  then show ?thesis by (simp add: finishes_def and_one_eq mod2_eq_if)
qed

definition isa_verdict :: "isa_sample \<Rightarrow> unit py" where
  "isa_verdict d = (let data = mem_write_data d AND 0xFFFFFFFF in
     if data = 1 then Inr ()
     else Inl (AssertionError (''ISA test reported failure via tohost: 0x'' @ fmt_0x 8 data)))"

lemma isa_cycle_tracing:
  "isa_cycle True t dut c trace =
     (let trace' = trace @ render_events (cycle_events (dut c)) in
      if finishes t (dut c) then Inr (trace', isa_verdict (dut c)) else Inl trace')"
  unfolding isa_cycle_def Let_def finishes_test isa_verdict_def by (simp add: cycle_trace_events)

lemma isa_run:
  "case for_cycles (isa_cycle True t dut) m 0 [] of
     Inl trace \<Rightarrow> trace = render_events (run_events dut m) \<and> (\<forall>j < m. \<not> finishes t (dut j))
   | Inr r \<Rightarrow> \<exists>n < m. finishes t (dut n) \<and> (\<forall>j < n. \<not> finishes t (dut j)) \<and>
       r = (render_events (run_events dut (Suc n)), isa_verdict (dut n))"
proof -
  have "case for_cycles (isa_cycle True t dut) m 0 [] of
     Inl trace \<Rightarrow> trace = render_events (run_events dut (0 + m)) \<and> (\<forall>j < 0 + m. \<not> finishes t (dut j))
   | Inr r \<Rightarrow> \<exists>n. 0 \<le> n \<and> n < 0 + m \<and> (finishes t (dut n) \<and> (\<forall>j < n. \<not> finishes t (dut j)) \<and>
       r = (render_events (run_events dut (Suc n)), isa_verdict (dut n)))"
    by (rule for_cycles_rule) (auto simp: isa_cycle_tracing Let_def run_events_Suc less_Suc_eq
        run_events_def [of dut 0] split: if_splits)
  then show ?thesis by (auto split: sum.splits)
qed

lemma isa_image_trace:
  "fst (test_riscv_isa_image True t m dut) = render_events (run_events dut (isa_run_length t m dut))"
proof (cases "for_cycles (isa_cycle True t dut) m 0 []")
  case (Inl trace)
  with isa_run [where t = t and dut = dut and m = m] have tr: "trace = render_events (run_events dut m)"
    and all: "\<forall>j < m. \<not> finishes t (dut j)" by simp_all
  from all have "takeWhile (\<lambda>c. \<not> finishes t (dut c)) [0..<m] = [0..<m]" by simp
  then have "isa_run_length t m dut = m" unfolding isa_run_length_def by (simp only: length_upt)
  with Inl tr show ?thesis by (simp add: test_riscv_isa_image_def)
next
  case (Inr r)
  with isa_run [where t = t and dut = dut and m = m] obtain n where n: "n < m" "finishes t (dut n)" "\<forall>j < n. \<not> finishes t (dut j)"
    and r: "r = (render_events (run_events dut (Suc n)), isa_verdict (dut n))" by auto
  from n have "isa_run_length t m dut = Suc n"
    by (simp add: isa_run_length_def takeWhile_upt_first)
  with Inr r show ?thesis by (simp add: test_riscv_isa_image_def)
qed

lemma cycle_events_ok: "sample_ok d \<Longrightarrow> e \<in> set (cycle_events d) \<Longrightarrow> event_ok e"
  by (auto simp: cycle_events_def sample_ok_def List.map_filter_def and_mask_32 pos_imp_zdiv_nonneg_iff
      split: if_splits)

lemma isa_run_length_le: "isa_run_length t m dut \<le> m"
  by (simp add: isa_run_length_def)

text \<open>
  C6. The trace file is read back as it was written. For any behaviour of the simulated core, the
  comparison's parser of the file written by the ISA test returns the register writes and the
  enabled bytes of the committed stores, in the order the core committed them, cut before the
  first byte stored at \<open>tohost\<close>.
\<close>

theorem trace_file_roundtrip:
  assumes "\<forall>c < max_cycles. sample_ok (dut c)"
  shows "parse_rtl_trace (fst (test_riscv_isa_image True tohost max_cycles dut)) tohost =
    (let live = takeWhile (\<lambda>e. \<not> is_tohost_write tohost e)
                  (run_events dut (isa_run_length tohost max_cycles dut))
     in Inr (List.map_filter reg_entry live, List.map_filter mem_entry live))"
proof -
  have "\<forall>e \<in> set (run_events dut (isa_run_length tohost max_cycles dut)). event_ok e"
  proof
    fix e
    assume "e \<in> set (run_events dut (isa_run_length tohost max_cycles dut))"
    then obtain c where "c < isa_run_length tohost max_cycles dut" "e \<in> set (cycle_events (dut c))"
      by (auto simp: run_events_def)
    with assms isa_run_length_le [of tohost max_cycles dut] show "event_ok e"
      by (meson cycle_events_ok order_less_le_trans)
  qed
  then show ?thesis
    unfolding isa_image_trace by (rule parse_render_events)
qed

text \<open>
  C7. The ISA test passes exactly when, within the cycle limit, the first store of an odd value to
  \<open>tohost\<close> stores 1; every other behaviour of the core, a run that never stores there
  included, is reported as a failure.
\<close>

theorem isa_image_passes_iff:
  "snd (test_riscv_isa_image True tohost max_cycles dut) = Inr () \<longleftrightarrow>
    (\<exists>n < max_cycles. finishes tohost (dut n) \<and> (\<forall>j < n. \<not> finishes tohost (dut j)) \<and>
       mem_write_data (dut n) mod 2 ^ 32 = 1)"
proof (cases "for_cycles (isa_cycle True tohost dut) max_cycles 0 []")
  case (Inl trace)
  with isa_run [where t = tohost and dut = dut and m = max_cycles] have "\<forall>j < max_cycles. \<not> finishes tohost (dut j)" by simp
  with Inl show ?thesis by (auto simp: test_riscv_isa_image_def)
next
  case (Inr r)
  with isa_run [where t = tohost and dut = dut and m = max_cycles] obtain n where n: "n < max_cycles" "finishes tohost (dut n)"
      "\<forall>j < n. \<not> finishes tohost (dut j)" and r: "snd r = isa_verdict (dut n)" by auto
  have uniq: "k = n" if "finishes tohost (dut k)" "\<forall>j < k. \<not> finishes tohost (dut j)" for k
    using n that by (metis linorder_neqE_nat)
  have "isa_verdict (dut n) = Inr () \<longleftrightarrow> mem_write_data (dut n) mod 2 ^ 32 = 1"
    by (simp add: isa_verdict_def Let_def and_mask_32)
  moreover have "snd (test_riscv_isa_image True tohost max_cycles dut) = isa_verdict (dut n)"
    using Inr r by (simp add: test_riscv_isa_image_def)
  ultimately show ?thesis using n uniq by metis
qed

text \<open>A core that writes a register, stores a halfword and then reports success.\<close>

definition sample_run :: "nat \<Rightarrow> isa_sample" where
  "sample_run c =
     (if c = 0 then \<lparr>rf_wr_en = 1, rf_rd_in = 5, mem_wb_pc = 0x80000000, rf_rd_value = 0xBEEF,
        mem_write_en = 1, data_rvalid = 1, store_page_fault = 0, ex_mem_pc = 0x80000004,
        mem_write_addr = 0x80002000, mem_write_data = 0xBEEF, write_byte_enable = 3\<rparr>
      else \<lparr>rf_wr_en = 0, rf_rd_in = 0, mem_wb_pc = 0, rf_rd_value = 0,
        mem_write_en = 1, data_rvalid = 1, store_page_fault = 0, ex_mem_pc = 0x80000008,
        mem_write_addr = 0x80001000, mem_write_data = 1, write_byte_enable = 15\<rparr>)"

theorem trace_file_roundtrip_witness:
  "parse_rtl_trace (fst (test_riscv_isa_image True 0x80001000 3 sample_run)) 0x80001000 =
     Inr ([\<lparr>r_pc = 0x80000000, r_where = 5, r_value = 0xBEEF\<rparr>],
          [\<lparr>r_pc = 0x80000004, r_where = 0x80002000, r_value = 0xEF\<rparr>,
           \<lparr>r_pc = 0x80000004, r_where = 0x80002001, r_value = 0xBE\<rparr>])"
proof -
  have h: "\<forall>c < 3. sample_ok (sample_run c)"
    by (simp add: sample_run_def sample_ok_def)
  have r: "(let live = takeWhile (\<lambda>e. \<not> is_tohost_write 0x80001000 e)
                  (run_events sample_run (isa_run_length 0x80001000 3 sample_run))
     in (List.map_filter reg_entry live, List.map_filter mem_entry live)) =
     ([\<lparr>r_pc = 0x80000000, r_where = 5, r_value = 0xBEEF\<rparr>],
          [\<lparr>r_pc = 0x80000004, r_where = 0x80002000, r_value = 0xEF\<rparr>,
           \<lparr>r_pc = 0x80000004, r_where = 0x80002001, r_value = 0xBE\<rparr>])"
    by code_simp
  show ?thesis
    using r trace_file_roundtrip [OF h, of "0x80001000"] by (simp add: Let_def)
qed

theorem isa_image_passes_iff_witness:
  "snd (test_riscv_isa_image True 0x80001000 3 sample_run) = Inr ()"
  unfolding isa_image_passes_iff
  by (rule exI [of _ 1]) (simp add: sample_run_def finishes_def)

section \<open>Stores in both traces\<close>

text \<open>The sample of a cycle in which the core commits the store that the memory unit drives.\<close>

definition store_sample :: "int \<Rightarrow> memory_unit_out \<Rightarrow> isa_sample" where
  "store_sample pc m =
     \<lparr>rf_wr_en = 0, rf_rd_in = 0, mem_wb_pc = 0, rf_rd_value = 0,
      mem_write_en = of_bool (mu_wr_enable m), data_rvalid = 1, store_page_fault = 0, ex_mem_pc = pc,
      mem_write_addr = uint (mu_wr_addr m), mem_write_data = uint (mu_wr_data m),
      write_byte_enable = uint (mu_write_byte_enable m)\<rparr>"

text \<open>What a trace entry says apart from the instruction and the commit number.\<close>

definition spike_view :: "spike_entry \<Rightarrow> rtl_entry" where
  "spike_view s = \<lparr>r_pc = s_pc s, r_where = s_where s, r_value = s_value s\<rparr>"

lemma store_events:
  "List.map_filter mem_entry (cycle_events (store_sample pc m)) =
     (if mu_wr_enable m then
        List.map_filter (\<lambda>i. if bit (mu_write_byte_enable m) i
          then Some \<lparr>r_pc = pc, r_where = (uint (mu_wr_addr m) + int i) mod 2 ^ 32,
                     r_value = uint (mu_wr_data m) div 2 ^ (8 * i) mod 256\<rparr>
          else None) [0..<4]
      else [])"
  by (simp add: cycle_events_def store_sample_def List.map_filter_simps upt_rec numeral_eq_Suc
      bit_uint_iff split: option.splits)

lemma upt_0_numeral:
  "[0..<1] = [0::nat]" "[0..<2] = [0::nat, 1]" "[0..<4] = [0::nat, 1, 2, 3]"
  by (simp_all add: upt_rec)

lemma store_width_store:
  assumes "insn AND 0x7F = 0x23" and "drop_bit 12 insn AND 7 = f" and "0 \<le> f" and "f < 4"
  shows "store_width insn = Inr (2 ^ nat f)"
proof -
  have "drop_bit 12 insn AND 3 = (drop_bit 12 insn AND 7) AND 3" by (simp add: and.assoc)
  also have "\<dots> = f"
    using assms take_bit_int_eq_self [of f 2]
    by (simp add: take_bit_eq_mask mask_eq_exp_minus_1)
  finally show ?thesis using assms(1) by (simp add: store_width_def)
qed

lemma uint_take_bit: "uint (take_bit k (v :: 32 word)) = uint v mod 2 ^ k"
  by (metis unsigned_take_bit_eq take_bit_eq_mod)

lemma store_bytes_SB:
  "map spike_view (spike_store_bytes pc insn n (uint a) (uint v) 1) =
   List.map_filter mem_entry (cycle_events (store_sample pc (memory_unit INSTR_SB v a)))"
proof -
  have "uint (take_bit 8 v) mod 256 = uint v mod 256"
    by (simp add: uint_take_bit)
  then show ?thesis
    unfolding store_events
    by (simp add: upt_0_numeral List.map_filter_simps spike_store_bytes_def spike_view_def
        memory_unit_def rtl_simps and_mask_32 and_mask_8)
qed

lemma store_bytes_SH:
  assumes "take_bit 1 a = 0"
  shows "map spike_view (spike_store_bytes pc insn n (uint a) (uint v) 2) =
   List.map_filter mem_entry (cycle_events (store_sample pc (memory_unit INSTR_SH v a)))"
proof -
  have al: "\<not> bit a 0" using assms by (simp add: bit_0 even_iff_mod_2_eq_zero)
  have b1: "uint (take_bit 16 v) div 256 mod 256 = uint v div 256 mod 256"
  proof -
    have "uint (take_bit 16 v) div 256 mod 256 = take_bit 8 (drop_bit 8 (take_bit 16 (uint v)))"
      by (simp only: unsigned_take_bit_eq) (simp add: take_bit_eq_mod drop_bit_eq_div)
    also have "\<dots> = take_bit 8 (drop_bit 8 (uint v))"
      by (simp add: drop_bit_take_bit)
    finally show ?thesis by (simp add: take_bit_eq_mod drop_bit_eq_div)
  qed
  have b0: "uint (take_bit 16 v) mod 256 = uint v mod 256"
    by (simp add: uint_take_bit mod_mod_cancel)
  from al b0 b1 show ?thesis
    unfolding store_events
    by (simp add: upt_0_numeral List.map_filter_simps spike_store_bytes_def spike_view_def
      memory_unit_def rtl_simps and_mask_32 and_mask_8 drop_bit_eq_div bit_simps)
qed

lemma store_bytes_SW:
  assumes "take_bit 2 a = 0"
  shows "map spike_view (spike_store_bytes pc insn n (uint a) (uint v) 4) =
   List.map_filter mem_entry (cycle_events (store_sample pc (memory_unit INSTR_SW v a)))"
  using assms unfolding store_events
  by (simp add: upt_0_numeral List.map_filter_simps spike_store_bytes_def spike_view_def
      memory_unit_def rtl_simps and_mask_32 and_mask_8 drop_bit_eq_div bit_simps)



end
