(* ===== verification/Compare_Driver.thy ===== *)
theory Compare_Driver
  imports Compare_Trace
begin

text \<open>
  The driver of \<open>.github/scripts/compare_with_spike.py\<close>: it selects the riscv-tests binaries, runs
  each on Spike and on the simulated core, compares verdicts and traces, and writes the report.
  The operating system (files and subprocesses) is a parameter: a record of operations over a
  world of type \<open>'w\<close>. Console output is not modelled.
\<close>

section \<open>The operating system\<close>

record proc =
  returncode :: int
  stdout_text :: string
  stderr_text :: string

section \<open>Selecting the tests\<close>

definition DEFAULT_SUITES :: string where
  "DEFAULT_SUITES = ''rv32ui,rv32um,rv32ua,rv32mi,rv32si''"

definition parse_suites :: "string \<Rightarrow> string set" where
  "parse_suites suites =
     set (filter (\<lambda>s. s \<noteq> []) (map py_strip (py_split_char (CHR '','') suites)))"

text \<open>
  \<open>TEST_NAME_RE\<close>, \<open>^(rv32(ui|um|ua|mi|si))-p-[A-Za-z0-9_-]+$\<close>; the result is group 1. The anchor
  \<open>$\<close> also matches before a final newline.
\<close>

definition match_test_name :: "string \<Rightarrow> string option" where
  "match_test_name name =
     (let suite = take 6 name; rest = drop 6 name;
          tl9 = drop 3 rest;
          body = (if tl9 \<noteq> [] \<and> last tl9 = CHR 0x0A then butlast tl9 else tl9)
      in if suite \<in> {''rv32ui'', ''rv32um'', ''rv32ua'', ''rv32mi'', ''rv32si''} \<and>
            take 3 rest = ''-p-'' \<and> body \<noteq> [] \<and>
            list_all (\<lambda>c. is_alnum c \<or> c = CHR ''_'' \<or> c = CHR ''-'') body
         then Some suite else None)"

definition SPIKE_ISA :: string where
  "SPIKE_ISA = ''rv32ima_zicsr''"

definition NOT_APPLICABLE :: "(string \<times> string) list" where
  "NOT_APPLICABLE =
     [(''rv32ui-p-ma_data'', ''Zicclsm (misaligned loads/stores) not implemented; core traps''),
      (''rv32mi-p-pmpaddr'', ''PMP not implemented; pmpaddr0/pmpcfg0 are plain registers'')]"

definition TRACE_NOT_COMPARABLE :: "(string \<times> string) list" where
  "TRACE_NOT_COMPARABLE = []"

text \<open>The walk up from the current directory; the root is its own parent.\<close>

function find_repo_root :: "(path \<Rightarrow> bool) \<Rightarrow> path \<Rightarrow> path py" where
  "find_repo_root exists cur =
     (if exists (cur @ [''rtl'']) then Inr cur
      else if path_parent cur = cur
      then Inl (FileNotFoundError ''Could not locate repo root (no rtl/ directory found)'')
      else find_repo_root exists (path_parent cur))"
  by pat_completeness auto
termination
  by (relation "measure (\<lambda>(ex, cur). length cur)") (auto simp: path_parent_def split: if_splits)

declare find_repo_root.simps [simp del]

text \<open>The entries of the directory come as pairs of a name and whether it is a regular file.\<close>

definition discover_tests :: "(string \<times> bool) list \<Rightarrow> string set \<Rightarrow> int \<Rightarrow> string list" where
  "discover_tests entries suites limit =
     (let tests = map fst (filter (\<lambda>(name, is_file). is_file \<and>
            (case match_test_name name of None \<Rightarrow> False | Some suite \<Rightarrow> suite \<in> suites))
            (sort_key fst entries))
      in if 0 < limit then take (nat limit) tests else tests)"

definition discovered_suites :: "string list \<Rightarrow> string set" where
  "discovered_suites tests = set (List.map_filter match_test_name tests)"

definition require_suites :: "string list \<Rightarrow> string set \<Rightarrow> unit py" where
  "require_suites tests required =
     (let missing = sorted_list_of_set (required - discovered_suites tests);
          found = py_join '', '' (sorted_list_of_set (discovered_suites tests))
      in if missing \<noteq> []
         then Inl (RuntimeError (''Missing required riscv-tests suites: '' @ py_join '', '' missing @
                ''. Discovered suites: '' @ (if found = [] then ''<none>'' else found)))
         else Inr ())"

section \<open>Results\<close>

text \<open>A result record of the report; optional fields are those the code adds on some paths only.\<close>

record test_rec =
  t_test :: string
  t_spike_pass :: bool
  t_verilator_pass :: bool
  t_trace_match :: "bool option"
  t_match :: bool
  t_tohost :: "string option"
  t_divergence :: "string option"
  t_error :: "string option"

record mismatch =
  m_rec :: test_rec
  m_log_tails :: "(string \<times> string) option"

record summary =
  sum_mem_latency :: int
  sum_fetch_latency :: int
  sum_total :: nat
  sum_matches :: nat
  sum_mismatches :: nat
  sum_skipped :: "(string \<times> string) list"
  sum_trace_not_comparable :: "(string \<times> string) list"
  sum_results :: "test_rec list"
  sum_mismatch_details :: "mismatch list"

record 'w os =
  os_run :: "string list \<Rightarrow> (string \<times> string) list \<Rightarrow> path option \<Rightarrow> ('w, proc) io"
  os_python :: string
  os_exists :: "path \<Rightarrow> 'w \<Rightarrow> bool"
  os_is_file :: "path \<Rightarrow> 'w \<Rightarrow> bool"
  os_iterdir :: "path \<Rightarrow> 'w \<Rightarrow> (string \<times> bool) list"
  os_mkdir :: "path \<Rightarrow> ('w, unit) io"
  os_unlink :: "path \<Rightarrow> ('w, unit) io"
  os_copy :: "path \<Rightarrow> path \<Rightarrow> ('w, unit) io"
  os_read_text :: "path \<Rightarrow> ('w, string) io"
  os_write_report :: "path \<Rightarrow> summary \<Rightarrow> ('w, unit) io"

section \<open>The tools\<close>

fun find_tohost :: "path \<Rightarrow> string list \<Rightarrow> int py" where
  "find_tohost elf [] = Inl (RuntimeError (''tohost symbol not found in '' @ path_str elf))"
| "find_tohost elf (line # ls) =
     (let parts = py_split (py_strip line)
      in if 3 \<le> length parts \<and> last parts = ''tohost'' then py_int 16 (hd parts)
         else find_tohost elf ls)"

definition tohost_addr :: "'w os \<Rightarrow> path \<Rightarrow> ('w, int) io" where
  "tohost_addr os elf =
     io_bind (os_run os [''riscv64-unknown-elf-nm'', path_str elf] [] None) (\<lambda>nm.
       if returncode nm \<noteq> 0
       then io_raise (RuntimeError (''nm failed for '' @ path_str elf @ '':'' @ [CHR 0x0A] @ stderr_text nm))
       else io_py (find_tohost elf (py_splitlines (stdout_text nm))))"

text \<open>\<open>re.search(r"Entry point address:\s+0x([0-9a-f]+)", s)\<close>: the leftmost position that matches.\<close>

definition match_entry_point :: "string \<Rightarrow> string option" where
  "match_entry_point s = do {
     s \<leftarrow> eat_lit ''Entry point address:'' s;
     (_, s) \<leftarrow> eat_many is_space s;
     s \<leftarrow> eat_lit ''0x'' s;
     (h, _) \<leftarrow> eat_many is_hex s;
     Some h }"

fun search_entry_point :: "string \<Rightarrow> string option" where
  "search_entry_point [] = match_entry_point []"
| "search_entry_point (c # cs) =
     (case match_entry_point (c # cs) of Some h \<Rightarrow> Some h | None \<Rightarrow> search_entry_point cs)"

definition entry_address :: "'w os \<Rightarrow> path \<Rightarrow> ('w, int) io" where
  "entry_address os elf =
     io_bind (os_run os [''riscv64-unknown-elf-readelf'', ''-h'', path_str elf] [] None) (\<lambda>rc.
       if returncode rc \<noteq> 0
       then io_raise (RuntimeError (''readelf failed for '' @ path_str elf @ '':'' @ [CHR 0x0A] @ stderr_text rc))
       else case search_entry_point (stdout_text rc) of
              None \<Rightarrow> io_raise (RuntimeError (''no entry point in '' @ path_str elf))
            | Some h \<Rightarrow> io_py (py_int 16 h))"

definition elf_to_hex :: "'w os \<Rightarrow> path \<Rightarrow> path \<Rightarrow> ('w, unit) io" where
  "elf_to_hex os elf out_hex =
     io_then (os_mkdir os (path_parent out_hex))
     (let bin_file = with_suffix out_hex ''.bin'' in
      io_bind (os_run os [''riscv64-unknown-elf-objcopy'', ''-O'', ''binary'', path_str elf, path_str bin_file] [] None) (\<lambda>rc.
      if returncode rc \<noteq> 0
      then io_raise (RuntimeError (''objcopy binary failed for '' @ path_str elf @ '':'' @ [CHR 0x0A] @ stderr_text rc))
      else io_bind (os_run os [''riscv64-unknown-elf-objcopy'', ''-I'', ''binary'', ''-O'', ''verilog'',
             ''--verilog-data-width=4'', ''--reverse-bytes=4'', path_str bin_file, path_str out_hex] [] None) (\<lambda>rc.
      if returncode rc \<noteq> 0
      then io_raise (RuntimeError (''objcopy verilog failed for '' @ path_str elf @ '':'' @ [CHR 0x0A] @ stderr_text rc))
      else io_return ())))"

definition run_detail :: "proc \<Rightarrow> string" where
  "run_detail rc = py_strip (stdout_text rc @ [CHR 0x0A] @ stderr_text rc)"

definition run_spike :: "'w os \<Rightarrow> path \<Rightarrow> path \<Rightarrow> ('w, bool \<times> string) io" where
  "run_spike os elf commit_log =
     io_bind (os_run os [''spike'', ''--isa='' @ SPIKE_ISA, ''-l'', ''--log-commits'',
        ''--log='' @ path_str commit_log, path_str elf] [] None) (\<lambda>rc.
       io_return (returncode rc = 0, run_detail rc))"

text \<open>The variables \<open>run_verilator\<close> sets in the environment of the simulation.\<close>

definition verilator_env :: "path \<Rightarrow> path \<Rightarrow> int \<Rightarrow> int \<Rightarrow> bool \<Rightarrow> path \<Rightarrow> int \<Rightarrow> int \<Rightarrow> (string \<times> string) list" where
  "verilator_env runtime_hex sim_build tohost max_cycles compile_model trace_file mem_latency fetch_latency =
     [(''ISA_HEX_FILE'', path_str runtime_hex), (''ISA_SIM_HEX_FILE'', path_str runtime_hex),
      (''ISA_SIM_BUILD'', path_str sim_build), (''ISA_FORCE_COMPILE'', if compile_model then ''1'' else ''0''),
      (''ISA_TOHOST_ADDR'', fmt_hash_x tohost), (''ISA_MAX_CYCLES'', fmt_d max_cycles),
      (''ISA_TRACE_FILE'', path_str trace_file), (''ISA_MEM_LATENCY'', fmt_d mem_latency),
      (''ISA_FETCH_LATENCY'', fmt_d fetch_latency)]"

definition run_verilator ::
  "'w os \<Rightarrow> path \<Rightarrow> path \<Rightarrow> path \<Rightarrow> path \<Rightarrow> int \<Rightarrow> int \<Rightarrow> bool \<Rightarrow> path \<Rightarrow> int \<Rightarrow> int \<Rightarrow> ('w, bool \<times> string) io" where
  "run_verilator os repo_root hex_file runtime_hex sim_build tohost max_cycles compile_model trace_file
       mem_latency fetch_latency =
     io_then (os_mkdir os (path_parent runtime_hex))
     (io_then (os_copy os hex_file runtime_hex)
     (io_bind (os_run os [os_python os, ''tests/system_tests/test_riscv_isa.py'']
        (verilator_env runtime_hex sim_build tohost max_cycles compile_model trace_file mem_latency fetch_latency)
        (Some repo_root)) (\<lambda>rc.
       io_return (returncode rc = 0, run_detail rc))))"

section \<open>The main loop\<close>

record args =
  arg_riscv_tests :: path
  arg_limit :: int
  arg_max_cycles :: int
  arg_mem_latency :: int
  arg_fetch_latency :: "int option"
  arg_report :: path
  arg_suites :: string

text \<open>The variables of \<open>main\<close> that the loop over the tests changes, with the world they live in.\<close>

record 'w drv =
  world :: 'w
  results :: "test_rec list"
  mismatches :: "mismatch list"
  skipped :: "(string \<times> string) list"
  trace_not_comparable :: "(string \<times> string) list"
  model_compiled :: bool

definition on_world :: "('w, 'a) io \<Rightarrow> ('w drv, 'a) io" where
  "on_world m d = (case m (world d) of (r, w) \<Rightarrow> (r, d\<lparr>world := w\<rparr>))"

definition drv_update :: "('w drv \<Rightarrow> 'w drv) \<Rightarrow> ('w drv, unit) io" where
  "drv_update f d = (Inr (), f d)"

definition artifacts :: "path \<Rightarrow> path" where
  "artifacts repo_root = repo_root @ [''.github'', ''artifacts'', ''isa'']"

definition log_tail :: "string \<Rightarrow> string" where
  "log_tail s = drop (length s - 8000) s"

text \<open>The divergence of one test, after both simulators have run.\<close>

definition trace_divergence ::
  "'w os \<Rightarrow> path \<Rightarrow> path \<Rightarrow> path \<Rightarrow> int \<Rightarrow> ('w drv, string option) io" where
  "trace_divergence os elf spike_commits rtl_trace th d =
     (case map_of TRACE_NOT_COMPARABLE (path_name elf) of
        Some reason \<Rightarrow>
          (Inr None, d\<lparr>trace_not_comparable := trace_not_comparable d @ [(path_name elf, reason)]\<rparr>)
      | None \<Rightarrow>
          if os_is_file os rtl_trace (world d) \<and> os_is_file os spike_commits (world d)
          then on_world
            (io_bind (entry_address os elf) (\<lambda>entry.
             io_bind (os_read_text os spike_commits) (\<lambda>spike_text.
             io_bind (io_py (parse_spike_commits spike_text entry th)) (\<lambda>spike.
             io_bind (os_read_text os rtl_trace) (\<lambda>rtl_text.
             io_bind (io_py (parse_rtl_trace rtl_text th)) (\<lambda>rtl.
               io_return (compare_traces spike rtl))))))) d
          else (Inr (Some ''commit trace missing''), d))"

definition make_rec :: "string \<Rightarrow> bool \<Rightarrow> bool \<Rightarrow> string option \<Rightarrow> int \<Rightarrow> test_rec" where
  "make_rec name spike_ok verilator_ok divergence th =
     \<lparr>t_test = name, t_spike_pass = spike_ok, t_verilator_pass = verilator_ok,
      t_trace_match = (if map_of TRACE_NOT_COMPARABLE name = None then Some (divergence = None) else None),
      t_match = (spike_ok = verilator_ok \<and> divergence = None),
      t_tohost = Some (''0x'' @ fmt_0x 0 th),
      t_divergence = (case divergence of None \<Rightarrow> None | Some t \<Rightarrow> if t = [] then None else Some t),
      t_error = None\<rparr>"

definition error_rec :: "string \<Rightarrow> string \<Rightarrow> test_rec" where
  "error_rec name msg =
     \<lparr>t_test = name, t_spike_pass = False, t_verilator_pass = False, t_trace_match = None, t_match = False,
      t_tohost = None, t_divergence = None, t_error = Some msg\<rparr>"

text \<open>\<open>str(exc)\<close> of an exception.\<close>

fun py_str :: "py_error \<Rightarrow> string" where
  "py_str (ValueError m) = m"
| "py_str IndexError = ''list index out of range''"
| "py_str (KeyError k) = py_repr k"
| "py_str (RuntimeError m) = m"
| "py_str (FileNotFoundError m) = m"
| "py_str (CalledProcessError m) = m"
| "py_str (AssertionError m) = m"
| "py_str AttributeError = ''attribute not found''"
| "py_str (OSError n) = ''[Errno '' @ fmt_d n @ '']''"

text \<open>The body of the \<open>try\<close> statement for one test.\<close>

definition compare_body :: "'w os \<Rightarrow> args \<Rightarrow> path \<Rightarrow> path \<Rightarrow> ('w drv, unit) io" where
  "compare_body os a repo_root elf =
     (let name = path_name elf;
          hex_file = artifacts repo_root @ [''build_hex'', name @ ''.hex''];
          runtime_hex = artifacts repo_root @ [''runtime.hex''];
          fetch_latency = (case arg_fetch_latency a of None \<Rightarrow> arg_mem_latency a | Some l \<Rightarrow> l);
          sim_build = artifacts repo_root @ [''sim_build_riscv_isa_lat'' @ fmt_d (arg_mem_latency a) @
            ''_fetch'' @ fmt_d fetch_latency];
          spike_commits = artifacts repo_root @ [''traces'', name @ ''.spike.log''];
          rtl_trace = artifacts repo_root @ [''traces'', name @ ''.rtl.trace'']
      in io_bind (on_world (tohost_addr os elf)) (\<lambda>th.
         io_then (on_world (elf_to_hex os elf hex_file))
         (io_then (on_world (os_unlink os rtl_trace))
         (io_bind (on_world (run_spike os elf spike_commits)) (\<lambda>(spike_ok, spike_log).
          io_bind (\<lambda>d. on_world (run_verilator os repo_root hex_file runtime_hex sim_build th (arg_max_cycles a)
             (\<not> model_compiled d) rtl_trace (arg_mem_latency a) fetch_latency) d) (\<lambda>(verilator_ok, verilator_log).
          io_then (drv_update (\<lambda>d. d\<lparr>model_compiled := True\<rparr>))
          (io_bind (trace_divergence os elf spike_commits rtl_trace th) (\<lambda>divergence.
             let rec = make_rec name spike_ok verilator_ok divergence th in
             drv_update (\<lambda>d. d\<lparr>results := results d @ [rec],
               mismatches := (if t_match rec then mismatches d
                 else mismatches d @ [\<lparr>m_rec = rec, m_log_tails = Some (log_tail spike_log, log_tail verilator_log)\<rparr>])\<rparr>)))))))))"

text \<open>One iteration: a test that is not applicable is skipped, an exception becomes an error record.\<close>

definition compare_test :: "'w os \<Rightarrow> args \<Rightarrow> path \<Rightarrow> path \<Rightarrow> 'w drv \<Rightarrow> 'w drv" where
  "compare_test os a repo_root elf d =
     (case map_of NOT_APPLICABLE (path_name elf) of
        Some reason \<Rightarrow> d\<lparr>skipped := skipped d @ [(path_name elf, reason)]\<rparr>
      | None \<Rightarrow>
          (case compare_body os a repo_root elf d of
             (Inr _, d') \<Rightarrow> d'
           | (Inl exc, d') \<Rightarrow>
               let rec = error_rec (path_name elf) (py_str exc) in
               d'\<lparr>results := results d' @ [rec], mismatches := mismatches d' @ [\<lparr>m_rec = rec, m_log_tails = None\<rparr>]\<rparr>))"

definition make_summary :: "args \<Rightarrow> 'w drv \<Rightarrow> summary" where
  "make_summary a d =
     \<lparr>sum_mem_latency = arg_mem_latency a,
      sum_fetch_latency = (case arg_fetch_latency a of None \<Rightarrow> arg_mem_latency a | Some l \<Rightarrow> l),
      sum_total = length (results d),
      sum_matches = length (filter t_match (results d)),
      sum_mismatches = length (mismatches d),
      sum_skipped = skipped d,
      sum_trace_not_comparable = trace_not_comparable d,
      sum_results = results d,
      sum_mismatch_details = mismatches d\<rparr>"

definition init_drv :: "'w \<Rightarrow> 'w drv" where
  "init_drv w = \<lparr>world = w, results = [], mismatches = [], skipped = [], trace_not_comparable = [],
     model_compiled = False\<rparr>"

definition selected_tests :: "args \<Rightarrow> string list \<Rightarrow> string list" where
  "selected_tests a all_tests = (if 0 < arg_limit a then take (nat (arg_limit a)) all_tests else all_tests)"

definition compare_all :: "'w os \<Rightarrow> args \<Rightarrow> path \<Rightarrow> string list \<Rightarrow> 'w \<Rightarrow> 'w drv" where
  "compare_all os a repo_root tests w =
     fold (\<lambda>name. compare_test os a repo_root (arg_riscv_tests a @ [''isa'', name])) tests (init_drv w)"

definition main_py :: "'w os \<Rightarrow> path \<Rightarrow> args \<Rightarrow> ('w, int) io" where
  "main_py os cwd a w =
     (case find_repo_root (\<lambda>p. os_exists os p w) cwd of
        Inl e \<Rightarrow> (Inl e, w)
      | Inr repo_root \<Rightarrow>
          let isa_dir = arg_riscv_tests a @ [''isa''] in
          if \<not> os_exists os isa_dir w then (Inr 2, w)
          else
            let suites = parse_suites (arg_suites a);
                all_tests = discover_tests (os_iterdir os isa_dir w) suites 0
            in case require_suites all_tests suites of
                 Inl e \<Rightarrow> (Inl e, w)
               | Inr _ \<Rightarrow>
                   let tests = selected_tests a all_tests in
                   if tests = [] then (Inr 2, w)
                   else io_then (os_mkdir os (artifacts repo_root @ [''traces'']))
                     (\<lambda>w'. let d = compare_all os a repo_root tests w' in
                       io_then (os_mkdir os (path_parent (arg_report a)))
                       (io_then (os_write_report os (arg_report a) (make_summary a d))
                         (io_return (if mismatches d = [] then 0 else 1))) (world d)) w)"

section \<open>Selection\<close>

lemma path_parent_absolute:
  "path_parent (''/'' # ps) = (if ps = [] then [''/''] else ''/'' # butlast ps)"
  by (simp add: path_parent_def)

lemma find_in_set: "find Q xs = Some n \<Longrightarrow> n \<in> set xs"
  by (auto simp: find_Some_iff)

text \<open>
  C9. From an absolute directory the search for the repository root terminates and returns the
  nearest ancestor (the directory itself included) that has an \<open>rtl\<close> entry; it raises
  \<open>FileNotFoundError\<close> exactly when no ancestor has one.
\<close>

theorem find_repo_root_nearest:
  "find_repo_root exists (''/'' # ps) =
     (case find (\<lambda>n. exists (''/'' # take n ps @ [''rtl''])) (rev [0..<Suc (length ps)]) of
        Some n \<Rightarrow> Inr (''/'' # take n ps)
      | None \<Rightarrow> Inl (FileNotFoundError ''Could not locate repo root (no rtl/ directory found)''))"
proof (induction ps rule: rev_induct)
  case Nil
  show ?case
    by (subst find_repo_root.simps) (simp add: path_parent_absolute)
next
  case (snoc p ps)
  have tk: "find (\<lambda>n. exists (''/'' # take n (ps @ [p]) @ [''rtl''])) (rev [0..<Suc (length ps)]) =
      find (\<lambda>n. exists (''/'' # take n ps @ [''rtl''])) (rev [0..<Suc (length ps)])"
    by (rule find_cong) auto
  have tk': "take n (ps @ [p]) = take n ps"
    if "find Q (rev [0..<Suc (length ps)]) = Some n" for Q n
  proof -
    from that have "n \<in> set (rev [0..<Suc (length ps)])" by (rule find_in_set)
    then show ?thesis by auto
  qed
  show ?case
  proof (cases "exists (''/'' # ps @ [p, ''rtl''])")
    case True
    then show ?thesis by (subst find_repo_root.simps) simp
  next
    case False
    then have "find_repo_root exists (''/'' # ps @ [p]) = find_repo_root exists (''/'' # ps)"
      by (subst find_repo_root.simps) (simp add: path_parent_absolute)
    moreover have "find (\<lambda>n. exists (''/'' # take n (ps @ [p]) @ [''rtl''])) (rev [0..<Suc (length (ps @ [p]))]) =
        find (\<lambda>n. exists (''/'' # take n ps @ [''rtl''])) (rev [0..<Suc (length ps)])"
      using False tk by simp
    ultimately show ?thesis
      unfolding snoc by (cases "find (\<lambda>n. exists (''/'' # take n ps @ [''rtl''])) (rev [0..<Suc (length ps)])")
        (use tk' in \<open>simp_all del: upt_Suc\<close>)
  qed
qed

lemma sort_key_fst_sorted: "sorted (map fst (sort_key fst xs))"
  by simp

text \<open>
  C10. The selection of the tests is deterministic whatever order the directory is listed in: with no
  limit the list is sorted and has exactly the regular files whose name is a riscv-tests binary of a
  requested suite, and the suite check passes exactly when every requested suite has a binary.
\<close>

theorem discover_tests_spec:
  "sorted (discover_tests entries suites 0) \<and>
   set (discover_tests entries suites 0) =
     {name. (name, True) \<in> set entries \<and> (\<exists>s \<in> suites. match_test_name name = Some s)} \<and>
   (finite suites \<longrightarrow>
     (require_suites (discover_tests entries suites 0) suites = Inr () \<longleftrightarrow>
      (\<forall>s \<in> suites. \<exists>name. (name, True) \<in> set entries \<and> match_test_name name = Some s)))"
  (is "sorted ?tests \<and> _ \<and> _")
proof -
  have st: "set ?tests = {name. (name, True) \<in> set entries \<and> (\<exists>s \<in> suites. match_test_name name = Some s)}"
    unfolding discover_tests_def
    by (force split: option.splits)
  have so: "sorted ?tests"
    unfolding discover_tests_def Let_def by (simp add: sorted_filter)
  have disc: "s \<in> discovered_suites ?tests \<longleftrightarrow> (\<exists>name \<in> set ?tests. match_test_name name = Some s)" for s
    by (auto simp: discovered_suites_def List.map_filter_def simp flip: st intro: rev_image_eqI)
  have "require_suites ?tests suites = Inr () \<longleftrightarrow> suites \<subseteq> discovered_suites ?tests" if "finite suites"
    using that by (auto simp: require_suites_def Let_def)
  moreover have "suites \<subseteq> discovered_suites ?tests \<longleftrightarrow>
      (\<forall>s \<in> suites. \<exists>name. (name, True) \<in> set entries \<and> match_test_name name = Some s)"
    unfolding subset_eq disc st by blast
  ultimately show ?thesis using st so by blast
qed

theorem discover_tests_spec_witness:
  "require_suites (discover_tests [(''rv32um-p-mul'', True), (''rv32ui-p-add'', True), (''rv32ui-p-add.dump'', True)]
      {''rv32ui'', ''rv32um''} 0) {''rv32ui'', ''rv32um''} = Inr ()"
proof -
  let ?es = "[(''rv32um-p-mul'', True), (''rv32ui-p-add'', True), (''rv32ui-p-add.dump'', True)]"
  have m: "match_test_name ''rv32um-p-mul'' = Some ''rv32um''" "match_test_name ''rv32ui-p-add'' = Some ''rv32ui''"
    by code_simp+
  have "\<exists>name. (name, True) \<in> set ?es \<and> match_test_name name = Some ''rv32um''"
    by (intro exI [of _ "''rv32um-p-mul''"] conjI m) simp
  moreover have "\<exists>name. (name, True) \<in> set ?es \<and> match_test_name name = Some ''rv32ui''"
    by (intro exI [of _ "''rv32ui-p-add''"] conjI m) simp
  ultimately have "\<forall>s \<in> {''rv32ui'', ''rv32um''}. \<exists>name. (name, True) \<in> set ?es \<and> match_test_name name = Some s"
    by blast
  moreover have "finite {''rv32ui'', ''rv32um''}" by simp
  ultimately show ?thesis
    using discover_tests_spec [of ?es "{''rv32ui'', ''rv32um''}"] by blast
qed

section \<open>Accounting\<close>

text \<open>What the loop reports so far; every step but the last of a test's body leaves it alone.\<close>

definition report :: "'w drv \<Rightarrow> test_rec list \<times> mismatch list \<times> (string \<times> string) list" where
  "report d = (results d, mismatches d, skipped d)"

definition keeps_report :: "('w drv, 'a) io \<Rightarrow> bool" where
  "keeps_report m \<longleftrightarrow> (\<forall>d. report (snd (m d)) = report d)"

text \<open>A record of a test says that verdicts and traces agree exactly when it is a match.\<close>

definition rec_sound :: "test_rec \<Rightarrow> bool" where
  "rec_sound r \<longleftrightarrow>
     (t_match r \<longleftrightarrow> t_error r = None \<and> t_spike_pass r = t_verilator_pass r \<and> t_trace_match r = Some True)"

definition added ::
  "string \<Rightarrow> test_rec list \<times> mismatch list \<times> (string \<times> string) list \<Rightarrow>
     test_rec list \<times> mismatch list \<times> (string \<times> string) list \<Rightarrow> bool" where
  "added name rep rep' \<longleftrightarrow> (\<exists>r logs. t_test r = name \<and> rec_sound r \<and>
     rep' = (fst rep @ [r], fst (snd rep) @ (if t_match r then [] else [\<lparr>m_rec = r, m_log_tails = logs\<rparr>]),
             snd (snd rep)))"

definition adds_record :: "string \<Rightarrow> ('w drv, 'a) io \<Rightarrow> bool" where
  "adds_record name m \<longleftrightarrow> (\<forall>d r d'. m d = (r, d') \<longrightarrow>
     (if isl r then report d' = report d else added name (report d) (report d')))"

lemma keeps_report_on_world [intro]: "keeps_report (on_world m)"
  by (simp add: keeps_report_def on_world_def report_def split: prod.splits)

lemma keeps_report_update [intro]:
  "(\<And>d. report (f d) = report d) \<Longrightarrow> keeps_report (drv_update f)"
  by (simp add: keeps_report_def drv_update_def)

lemma adds_record_bind:
  assumes "keeps_report m" and "\<And>x. adds_record name (f x)"
  shows "adds_record name (io_bind m f)"
  unfolding adds_record_def
proof (intro allI impI)
  fix d r d'
  assume b: "io_bind m f d = (r, d')"
  obtain q d1 where m: "m d = (q, d1)" by (cases "m d")
  with assms(1) have k: "report d1 = report d" by (metis keeps_report_def snd_conv)
  show "if isl r then report d' = report d else added name (report d) (report d')"
  proof (cases q)
    case (Inl e)
    with m k b show ?thesis by (auto simp: io_bind_def)
  next
    case (Inr x)
    with m b have "f x d1 = (r, d')" by (simp add: io_bind_def)
    with assms(2) [of x] k show ?thesis by (metis adds_record_def)
  qed
qed

lemma adds_record_then:
  "keeps_report m \<Longrightarrow> adds_record name n \<Longrightarrow> adds_record name (io_then m n)"
  by (simp add: io_then_def adds_record_bind)

lemma keeps_report_trace_divergence [intro]: "keeps_report (trace_divergence os elf sc rt th)"
  by (auto simp: keeps_report_def trace_divergence_def on_world_def report_def split: option.splits prod.splits)

lemma make_rec_sound: "t_test (make_rec n s v dv th) = n \<and> rec_sound (make_rec n s v dv th)"
  by (auto simp: make_rec_def rec_sound_def TRACE_NOT_COMPARABLE_def)

lemma adds_record_final:
  "adds_record n (let rec = make_rec n s v dv th in
     drv_update (\<lambda>d. d\<lparr>results := results d @ [rec],
       mismatches := (if t_match rec then mismatches d
         else mismatches d @ [\<lparr>m_rec = rec, m_log_tails = logs\<rparr>])\<rparr>))"
  unfolding adds_record_def Let_def drv_update_def
  by (auto simp: report_def added_def make_rec_sound intro!: exI [of _ "make_rec n s v dv th"])

lemma compare_body_adds: "adds_record (path_name elf) (compare_body os a repo_root elf)"
  unfolding compare_body_def Let_def split_beta
  by (intro adds_record_bind adds_record_then keeps_report_on_world keeps_report_update
      keeps_report_trace_divergence adds_record_final [unfolded Let_def])
    (auto simp: report_def keeps_report_def on_world_def split: prod.splits)

text \<open>One iteration adds one record or one skipped test, and one mismatch for a record that is no match.\<close>

lemma compare_test_report:
  "case map_of NOT_APPLICABLE (path_name elf) of
     Some reason \<Rightarrow> report (compare_test os a repo_root elf d) =
        (results d, mismatches d, skipped d @ [(path_name elf, reason)])
   | None \<Rightarrow> added (path_name elf) (report d) (report (compare_test os a repo_root elf d))"
proof (cases "map_of NOT_APPLICABLE (path_name elf)")
  case (Some reason)
  then show ?thesis by (simp add: compare_test_def report_def)
next
  case None
  obtain r d' where b: "compare_body os a repo_root elf d = (r, d')" by (cases "compare_body os a repo_root elf d")
  note ad = compare_body_adds [of elf os a repo_root, unfolded adds_record_def, rule_format, OF b]
  show ?thesis
  proof (cases r)
    case (Inl e)
    with ad have k: "report d' = report d" by simp
    let ?r = "error_rec (path_name elf) (py_str e)"
    have "t_test ?r = path_name elf \<and> rec_sound ?r \<and> \<not> t_match ?r"
      by (simp add: error_rec_def rec_sound_def)
    with None Inl b k show ?thesis
      by (auto simp: compare_test_def report_def added_def Let_def intro!: exI [of _ ?r])
  next
    case (Inr x)
    with b ad None show ?thesis by (simp add: compare_test_def)
  qed
qed

definition drv_inv :: "'w drv \<Rightarrow> bool" where
  "drv_inv d \<longleftrightarrow> list_all rec_sound (results d) \<and> map m_rec (mismatches d) = filter (\<lambda>r. \<not> t_match r) (results d)"

lemma compare_test_inv: "drv_inv d \<Longrightarrow> drv_inv (compare_test os a repo_root elf d)"
  using compare_test_report [where elf = elf and os = os and a = a and repo_root = repo_root and d = d]
  by (auto simp: drv_inv_def report_def added_def split: option.splits)

lemma compare_fold:
  assumes p: "p \<noteq> []" and "drv_inv d"
  shows "drv_inv (fold (\<lambda>name. compare_test os a repo_root (p @ [name])) tests d) \<and>
    map t_test (results (fold (\<lambda>name. compare_test os a repo_root (p @ [name])) tests d)) =
      map t_test (results d) @ filter (\<lambda>n. map_of NOT_APPLICABLE n = None) tests \<and>
    map fst (skipped (fold (\<lambda>name. compare_test os a repo_root (p @ [name])) tests d)) =
      map fst (skipped d) @ filter (\<lambda>n. map_of NOT_APPLICABLE n \<noteq> None) tests"
  using assms(2)
proof (induction tests arbitrary: d)
  case Nil
  then show ?case by simp
next
  case (Cons n tests)
  let ?d = "compare_test os a repo_root (p @ [n]) d"
  have nm: "path_name (p @ [n]) = n"
    using p by (auto simp: path_name_def)
  from Cons.IH [OF compare_test_inv [OF Cons.prems]]
    compare_test_report [where elf = "p @ [n]" and os = os and a = a and repo_root = repo_root and d = d] nm
  show ?case by (auto simp: report_def added_def split: option.splits)
qed

lemma compare_all_report:
  "drv_inv (compare_all os a repo_root tests w) \<and>
   map t_test (results (compare_all os a repo_root tests w)) = filter (\<lambda>n. map_of NOT_APPLICABLE n = None) tests \<and>
   map fst (skipped (compare_all os a repo_root tests w)) = filter (\<lambda>n. map_of NOT_APPLICABLE n \<noteq> None) tests"
proof -
  have "drv_inv (init_drv w)" by (simp add: drv_inv_def init_drv_def)
  from compare_fold [OF _ this, of "arg_riscv_tests a @ [''isa'']" os a repo_root tests]
  show ?thesis by (simp add: compare_all_def init_drv_def)
qed

lemma length_filter_split: "length (filter P xs) + length (filter (\<lambda>x. \<not> P x) xs) = length xs"
  by (induction xs) auto

text \<open>
  C11. The report accounts for every selected test, whatever the tools do, exceptions included: each
  is either skipped or has one result, in order, and matches and mismatches add up to the total.
\<close>

theorem report_accounts:
  "sum_matches (make_summary a (compare_all os a repo_root tests w)) +
     sum_mismatches (make_summary a (compare_all os a repo_root tests w)) =
     sum_total (make_summary a (compare_all os a repo_root tests w)) \<and>
   map t_test (sum_results (make_summary a (compare_all os a repo_root tests w))) =
     filter (\<lambda>n. map_of NOT_APPLICABLE n = None) tests \<and>
   sum_total (make_summary a (compare_all os a repo_root tests w)) +
     length (sum_skipped (make_summary a (compare_all os a repo_root tests w))) = length tests"
proof -
  let ?d = "compare_all os a repo_root tests w"
  note r = compare_all_report [of os a repo_root tests w]
  have "length (mismatches ?d) = length (filter (\<lambda>r. \<not> t_match r) (results ?d))"
    using r by (metis drv_inv_def length_map)
  moreover have "length (results ?d) = length (filter (\<lambda>n. map_of NOT_APPLICABLE n = None) tests)"
    using r by (metis length_map)
  moreover have "length (skipped ?d) = length (filter (\<lambda>n. map_of NOT_APPLICABLE n \<noteq> None) tests)"
    using r by (metis length_map)
  ultimately show ?thesis
    using r length_filter_split [of t_match "results ?d"]
      length_filter_split [of "\<lambda>n. map_of NOT_APPLICABLE n = None" tests]
    by (simp add: make_summary_def)
qed

lemma main_py_zero:
  assumes "main_py os cwd a w = (Inr 0, w')"
  obtains repo_root w1 where
    "require_suites (discover_tests (os_iterdir os (arg_riscv_tests a @ [''isa'']) w) (parse_suites (arg_suites a)) 0)
       (parse_suites (arg_suites a)) = Inr ()"
    "selected_tests a (discover_tests (os_iterdir os (arg_riscv_tests a @ [''isa'']) w) (parse_suites (arg_suites a)) 0) \<noteq> []"
    "mismatches (compare_all os a repo_root (selected_tests a
       (discover_tests (os_iterdir os (arg_riscv_tests a @ [''isa'']) w) (parse_suites (arg_suites a)) 0)) w1) = []"
  using assms
  by (auto simp: main_py_def Let_def io_then_def io_bind_Inr split: sum.splits if_splits)


text \<open>
  A concrete machine on which the driver succeeds: one test binary, tools that all exit with 0, and
  the two traces of a program that writes one register.
\<close>

definition demo_run :: "string list \<Rightarrow> (string \<times> string) list \<Rightarrow> path option \<Rightarrow> (unit, proc) io" where
  "demo_run cmd env cwd w =
     (Inr \<lparr>returncode = 0,
        stdout_text = (if hd cmd = ''riscv64-unknown-elf-nm'' then ''80001000 D tohost''
          else if hd cmd = ''riscv64-unknown-elf-readelf'' then ''  Entry point address:   0x80000000''
          else []),
        stderr_text = []\<rparr>, w)"

definition demo_os :: "unit os" where
  "demo_os =
     \<lparr>os_run = demo_run, os_python = ''python3'',
      os_exists = (\<lambda>p w. True), os_is_file = (\<lambda>p w. True),
      os_iterdir = (\<lambda>p w. [(''rv32ui-p-add'', True)]),
      os_mkdir = (\<lambda>p. io_return ()), os_unlink = (\<lambda>p. io_return ()), os_copy = (\<lambda>p q. io_return ()),
      os_read_text = (\<lambda>p. io_return
        (if path_name p = ''rv32ui-p-add.spike.log''
         then ''core   0: 3 0x80000000 (0x00000297) x 5 0x80000000'' else ''x 80000000 5 80000000'')),
      os_write_report = (\<lambda>p s. io_return ())\<rparr>"

definition demo_args :: args where
  "demo_args = \<lparr>arg_riscv_tests = [''/'', ''rt''], arg_limit = 0, arg_max_cycles = 200000, arg_mem_latency = 0,
     arg_fetch_latency = None, arg_report = [''/'', ''r'', ''report.json''], arg_suites = ''rv32ui''\<rparr>"

lemma demo_main: "main_py demo_os [''/'', ''repo''] demo_args () = (Inr 0, ())"
  by code_simp


end
