(* ===== verification/Uart_Console.thy ===== *)
theory Uart_Console
  imports Py_Text
begin

text \<open>
  The first half of \<open>sim/opensbi_uart.py\<close>: the console that reads bytes off the UART transmitter and
  the serial driver that plays bytes into its receiver.
  The simulator is not part of the repository: what the Python code reads of the design at an edge
  is a parameter, a function from the hierarchical name of a signal to what the simulator says of
  it. What the code drives is a list of actions.
\<close>

unbundle bit_operations_syntax

section \<open>The design under test as cocotb shows it\<close>

text \<open>A signal may be absent from the design, may hold unknown bits, or has an integer value.\<close>

datatype sigval = Missing | Unresolvable | Value int

type_synonym dut = "string \<Rightarrow> sigval"

definition get_handle :: "dut \<Rightarrow> string \<Rightarrow> sigval py" where
  "get_handle dut n =
     (if dut n = Missing then Inl (if n \<noteq> [] \<and> last n = CHR '']'' then IndexError else AttributeError)
      else Inr (dut n))"

definition int_value :: "sigval \<Rightarrow> int py" where
  "int_value h =
     (case h of Value v \<Rightarrow> Inr v | Unresolvable \<Rightarrow> Inl (ValueError ''unresolvable bit'') | Missing \<Rightarrow> Inl AttributeError)"

definition dut_int :: "dut \<Rightarrow> string \<Rightarrow> int py" where
  "dut_int dut n = py_bind (get_handle dut n) int_value"

lemma dut_int_Value [simp, py_simps]: "dut n = Value v \<Longrightarrow> dut_int dut n = Inr v"
  by (simp add: dut_int_def get_handle_def int_value_def)

lemma dut_int_Inr_iff: "dut_int dut n = Inr v \<longleftrightarrow> dut n = Value v"
  by (auto simp: dut_int_def get_handle_def int_value_def split: sigval.splits)

text \<open>What a coroutine does to the design between two of its reads.\<close>

datatype cocotb_act =
    Drive string int
  | ClockCycles nat
  | StartSoon string

fun edge_values :: "cocotb_act list \<Rightarrow> (string \<Rightarrow> int) \<Rightarrow> (string \<Rightarrow> int) list" where
  "edge_values [] p = []"
| "edge_values (Drive n v # as) p = edge_values as (p(n := v))"
| "edge_values (ClockCycles k # as) p = replicate k p @ edge_values as p"
| "edge_values (StartSoon c # as) p = edge_values as p"

section \<open>The console\<close>

record uart_console =
  stream_output :: bool
  prev_tx_state :: int
  received :: "int list"
  pending_cr :: bool
  stdout :: string

definition new_console :: "bool \<Rightarrow> uart_console" where
  "new_console stream =
     \<lparr>stream_output = stream, prev_tx_state = 0, received = [], pending_cr = False, stdout = []\<rparr>"

definition CR :: char where "CR = char_of (0x0D :: nat)"
definition LF :: char where "LF = char_of (0x0A :: nat)"

text \<open>The method reads and clears \<open>pending_cr\<close>; it returns the text and the flag it leaves.\<close>

function (sequential) format_byte :: "bool \<Rightarrow> int \<Rightarrow> string \<times> bool" where
  "format_byte True value =
     (if value = 0x0A then ([CR, LF], False)
      else (case format_byte False value of (t, pending) \<Rightarrow> (CR # t, pending)))"
| "format_byte False value =
     (if value = 0x0D then ([], True)
      else if value = 0x0A then ([CR, LF], False)
      else if value = 0x09 \<or> 32 \<le> value \<and> value \<le> 126 then ([char_of (nat value)], False)
      else (CHR 0x5C # CHR ''x'' # fmt_0x 2 value, False))"
  by pat_completeness auto
termination by (relation "measure (\<lambda>(pending, value). if pending then 1 else 0)") auto

definition poll :: "dut \<Rightarrow> uart_console \<Rightarrow> (int option \<times> uart_console) py" where
  "poll dut con =
     py_bind (dut_int dut ''uart_inst.tx_state'') (\<lambda>tx_state.
       if tx_state = 1 \<and> prev_tx_state con \<noteq> 1 then
         py_bind (dut_int dut ''uart_inst.tx_data'') (\<lambda>data.
           let emitted = data AND 0xFF;
               con = con\<lparr>received := received con @ [emitted]\<rparr>;
               con = (if stream_output con
                      then case format_byte (pending_cr con) emitted of
                             (t, pending) \<Rightarrow> con\<lparr>stdout := stdout con @ t, pending_cr := pending\<rparr>
                      else con)
           in Inr (Some emitted, con\<lparr>prev_tx_state := tx_state\<rparr>))
       else Inr (None, con\<lparr>prev_tx_state := tx_state\<rparr>))"

definition console_text :: "uart_console \<Rightarrow> char option list" where
  "console_text con = decode_ascii_replace (received con)"

text \<open>\<open>next_byte\<close> waits for an edge, so it is \<open>poll\<close> on the design as it is at that edge.\<close>

definition next_byte :: "(nat \<Rightarrow> dut) \<Rightarrow> nat \<Rightarrow> uart_console \<Rightarrow> (int option \<times> uart_console) py" where
  "next_byte duts cycle con = poll (duts cycle) con"

section \<open>The serial driver\<close>

definition uart_baud_cycles :: "dut \<Rightarrow> int option \<Rightarrow> int" where
  "uart_baud_cycles dut baud_cycles =
     (case baud_cycles of Some b \<Rightarrow> b
      | None \<Rightarrow> (case dut_int dut ''uart_inst.baud_div'' of Inr d \<Rightarrow> 16 * max 1 d | Inl e \<Rightarrow> 16))"

definition uart_send_byte :: "dut \<Rightarrow> int \<Rightarrow> int option \<Rightarrow> cocotb_act list" where
  "uart_send_byte dut byte baud_cycles =
     (let bit_cycles = nat (uart_baud_cycles dut baud_cycles)
      in [Drive ''uart_rx'' 0, ClockCycles bit_cycles]
         @ concat (map (\<lambda>i. [Drive ''uart_rx'' (drop_bit i byte AND 1), ClockCycles bit_cycles]) [0..<8])
         @ [Drive ''uart_rx'' 1, ClockCycles bit_cycles])"

text \<open>The design a string's \<open>k\<close>-th character is sent to is the one of that moment.\<close>

fun uart_send_str :: "(nat \<Rightarrow> dut) \<Rightarrow> string \<Rightarrow> int option \<Rightarrow> cocotb_act list" where
  "uart_send_str duts [] baud_cycles = []"
| "uart_send_str duts (ch # s) baud_cycles =
     uart_send_byte (duts 0) (int (ord ch)) baud_cycles @ uart_send_str (duts \<circ> Suc) s baud_cycles"

section \<open>What the console prints\<close>

fun polls :: "dut list \<Rightarrow> uart_console \<Rightarrow> (int option list \<times> uart_console) py" where
  "polls [] con = Inr ([], con)"
| "polls (d # ds) con =
     py_bind (poll d con) (\<lambda>(e, con'). py_bind (polls ds con') (\<lambda>(es, con''). Inr (e # es, con'')))"

text \<open>
  The reference: a line feed is printed as CR LF, a CR LF pair as it is, any other carriage return
  as itself once the next byte has arrived, a printable byte as itself and any other as \<open>\xNN\<close>.
\<close>

definition render_plain :: "int \<Rightarrow> string" where
  "render_plain b =
     (if b = 0x09 \<or> 32 \<le> b \<and> b \<le> 126 then [char_of (nat b)] else CHR 0x5C # CHR ''x'' # fmt_0x 2 b)"

fun render :: "int list \<Rightarrow> string" where
  "render [] = []"
| "render (b # bs) =
     (if b = 0x0A then [CR, LF] @ render bs
      else if b = 0x0D then
        (case bs of [] \<Rightarrow> [] | c # cs \<Rightarrow> if c = 0x0A then render bs else CR # render bs)
      else render_plain b @ render bs)"

definition held_back :: "int list \<Rightarrow> bool" where
  "held_back bs \<longleftrightarrow> bs \<noteq> [] \<and> last bs = 0x0D"

lemma format_byte_False:
  "format_byte False b =
     (if b = 0x0D then ([], True) else if b = 0x0A then ([CR, LF], False) else (render_plain b, False))"
  by (simp add: render_plain_def)

lemma render_snoc:
  "render (bs @ [b]) = render bs @ fst (format_byte (held_back bs) b)"
proof (induction bs rule: render.induct)
  case 1
  then show ?case by (simp add: held_back_def format_byte_False del: format_byte.simps(2))
next
  case (2 x xs)
  consider "x = 0x0A" | "x = 0x0D" "xs = []" | c cs where "x = 0x0D" "xs = c # cs" | "x \<noteq> 0x0A" "x \<noteq> 0x0D"
    by (cases xs) auto
  then show ?case
  proof cases
    case 1
    with 2(1) show ?thesis
      by (cases xs) (simp_all add: held_back_def format_byte_False del: format_byte.simps(2))
  next
    case 2
    then show ?thesis by (simp add: held_back_def format_byte_False del: format_byte.simps(2))
  next
    case 3
    with 2(2-3) show ?thesis by (simp add: held_back_def)
  next
    case 4
    with 2(4) show ?thesis
      by (cases xs) (simp_all add: held_back_def format_byte_False del: format_byte.simps(2))
  qed
qed

lemma format_byte_pending: "snd (format_byte p b) \<longleftrightarrow> b = 0x0D"
  by (cases p) (simp_all add: format_byte_False split: prod.split del: format_byte.simps(2))

definition console_inv :: "uart_console \<Rightarrow> bool" where
  "console_inv con \<longleftrightarrow> stream_output con \<and> stdout con = render (received con) \<and>
     pending_cr con = held_back (received con) \<and> (\<forall>b \<in> set (received con). 0 \<le> b \<and> b < 256)"

lemma and_255: "(v :: int) AND 0xFF = take_bit 8 v"
  by (simp add: take_bit_eq_mask mask_eq_exp_minus_1)

lemma byte_range: "0 \<le> (v :: int) AND 0xFF" "(v :: int) AND 0xFF < 256"
  using take_bit_int_less_exp [of 8 v] by (simp_all add: and_255)

lemma poll_inv:
  assumes "console_inv con" and "poll d con = Inr (e, con')"
  shows "console_inv con' \<and> received con' = received con @ (case e of None \<Rightarrow> [] | Some b \<Rightarrow> [b])"
proof -
  from assms(2) obtain st where st: "dut_int d ''uart_inst.tx_state'' = Inr st"
    by (auto simp: poll_def py_bind_Inr_iff)
  show ?thesis
  proof (cases "st = 1 \<and> prev_tx_state con \<noteq> 1")
    case True
    with st assms(2) obtain v where "dut_int d ''uart_inst.tx_data'' = Inr v"
      by (auto simp: poll_def py_bind_Inr_iff)
    with True st assms have e: "e = Some (v AND 0xFF)"
      and con': "con' = con\<lparr>received := received con @ [v AND 0xFF],
          stdout := stdout con @ fst (format_byte (pending_cr con) (v AND 0xFF)),
          pending_cr := snd (format_byte (pending_cr con) (v AND 0xFF)), prev_tx_state := 1\<rparr>"
      by (auto simp: poll_def Let_def console_inv_def split: prod.splits simp del: format_byte.simps)
    from con' assms(1) byte_range [of v] have "console_inv con'"
      by (auto simp: console_inv_def render_snoc format_byte_pending held_back_def simp del: format_byte.simps)
    with e con' show ?thesis by simp
  next
    case False
    with st assms show ?thesis by (auto simp: poll_def console_inv_def)
  qed
qed

definition emitted_bytes :: "int option list \<Rightarrow> int list" where
  "emitted_bytes es = concat (map (\<lambda>e. case e of None \<Rightarrow> [] | Some b \<Rightarrow> [b]) es)"

lemma polls_inv:
  assumes "console_inv con" and "polls ds con = Inr (es, con')"
  shows "console_inv con' \<and> received con' = received con @ emitted_bytes es"
  using assms
proof (induction ds arbitrary: con es)
  case Nil
  then show ?case by (simp add: emitted_bytes_def)
next
  case (Cons d ds)
  then obtain e con1 es' where "poll d con = Inr (e, con1)" "polls ds con1 = Inr (es', con')" "es = e # es'"
    by (auto simp: py_bind_Inr_iff)
  with Cons.IH [of con1 es'] poll_inv [OF Cons.prems(1)] show ?case by (simp add: emitted_bytes_def)
qed

text \<open>Text a raw terminal shows as lines: printable, tabs, and no line feed without its carriage return.\<close>

fun terminal_safe :: "bool \<Rightarrow> string \<Rightarrow> bool" where
  "terminal_safe after_cr [] = True"
| "terminal_safe after_cr (c # s) \<longleftrightarrow>
     (if c = LF then after_cr else c = CR \<or> ord c = 9 \<or> 32 \<le> ord c \<and> ord c \<le> 126) \<and> terminal_safe (c = CR) s"

lemma terminal_safe_mono: "terminal_safe False s \<Longrightarrow> terminal_safe b s"
  by (cases s) (auto split: if_splits)

lemma ord_CR_LF [simp]: "ord CR = 13" "ord LF = 10" "CR \<noteq> LF" "LF \<noteq> CR"
  by (simp_all add: CR_def LF_def)

lemma hex_printable: "is_hex c \<Longrightarrow> c \<noteq> LF \<and> c \<noteq> CR \<and> 32 \<le> ord c \<and> ord c \<le> 126"
  by (auto simp: is_hex_def is_digit_def LF_def CR_def)

lemma terminal_safe_plain:
  assumes "\<forall>c \<in> set t. c \<noteq> LF \<and> c \<noteq> CR \<and> (ord c = 9 \<or> 32 \<le> ord c \<and> ord c \<le> 126)" and "terminal_safe False s"
  shows "terminal_safe b (t @ s)"
  using assms by (induction t arbitrary: b) (auto intro: terminal_safe_mono)

lemma render_plain_safe:
  assumes "0 \<le> b" "b < 256" "b \<noteq> 0x0A" "b \<noteq> 0x0D" "c \<in> set (render_plain b)"
  shows "c \<noteq> LF \<and> c \<noteq> CR \<and> (ord c = 9 \<or> 32 \<le> ord c \<and> ord c \<le> 126)"
proof (cases "b = 0x09 \<or> 32 \<le> b \<and> b \<le> 126")
  case True
  with assms have "c = char_of (nat b)" "ord c = nat b"
    by (auto simp: render_plain_def of_char_of)
  with True assms(3,4) have "ord c \<noteq> 10" "ord c \<noteq> 13" "ord c = 9 \<or> 32 \<le> ord c \<and> ord c \<le> 126" by auto
  then show ?thesis using ord_CR_LF(1,2) by metis
next
  case False
  with assms have "c = CHR 0x5C \<or> c = CHR ''x'' \<or> c \<in> set (fmt_0x 2 b)" by (simp add: render_plain_def)
  with assms(1) have "32 \<le> ord c \<and> ord c \<le> 126"
    by (auto simp: fmt_0x_def dest!: zero_pad_hex hex_printable)
  then show ?thesis using ord_CR_LF(1,2) by fastforce
qed

lemma render_CR_Cons:
  "render (0x0D # c # cs) = (if c = 0x0A then render (c # cs) else CR # render (c # cs))"
  by simp

lemma render_safe: "\<forall>b \<in> set bs. 0 \<le> b \<and> b < 256 \<Longrightarrow> terminal_safe False (render bs)"
proof (induction bs rule: render.induct)
  case 1
  then show ?case by simp
next
  case (2 b bs)
  consider "b = 0x0A" | "b = 0x0D" "bs = []" | c cs where "b = 0x0D" "bs = c # cs" | "b \<noteq> 0x0A" "b \<noteq> 0x0D"
    by (cases bs) auto
  then show ?case
  proof cases
    case 1
    with "2.IH"(1) "2.prems" show ?thesis by simp
  next
    case 2
    then show ?thesis by simp
  next
    case 3
    have safe: "terminal_safe False (render (c # cs))"
      using "2.IH"(2,3) [of c cs] "2.prems" 3 by (cases "c = 0x0A") simp_all
    then have "terminal_safe False (CR # render (c # cs))"
      by (simp only: terminal_safe.simps ord_CR_LF) (simp only: terminal_safe_mono simp_thms if_False)
    with safe 3 show ?thesis by (simp only: render_CR_Cons simp_thms split: if_split)
  next
    case 4
    with "2.IH"(4) "2.prems" render_plain_safe [of b] show ?thesis
      using terminal_safe_plain [of "render_plain b" "render bs" False] by simp
  qed
qed

lemma console_inv_new: "console_inv (new_console True)"
  by (simp add: console_inv_def new_console_def held_back_def)

text \<open>
  C30. Whatever sequence of designs a streaming \<open>UartConsole\<close> polls, \<open>received\<close> is the bytes its
  \<open>poll\<close> calls returned, in order, and what it has written to standard output is the reference
  rendering of those bytes: CR LF pairs and bare line feeds become CR LF, a trailing carriage return
  is held back until the next byte, unprintable bytes are shown as \<open>\xNN\<close>. So the output is always
  safe for a raw terminal: it has no control character but tab, CR and LF, and no LF without a CR.
\<close>

theorem console_transcript:
  assumes "polls ds (new_console True) = Inr (es, con)"
  shows "received con = emitted_bytes es \<and> stdout con = render (emitted_bytes es) \<and>
         terminal_safe False (stdout con)"
proof -
  from polls_inv [OF console_inv_new assms]
  have "console_inv con" and r: "received con = emitted_bytes es" by (simp_all add: new_console_def)
  with r render_safe [of "received con"] show ?thesis by (simp add: console_inv_def)
qed

definition tx_sample :: "int \<Rightarrow> int \<Rightarrow> dut" where
  "tx_sample st data n =
     (if n = ''uart_inst.tx_state'' then Value st else if n = ''uart_inst.tx_data'' then Value data else Missing)"

lemma tx_sample_polls:
  "polls [tx_sample 0 0, tx_sample 1 0x41, tx_sample 1 0x41, tx_sample 2 0x41, tx_sample 1 0x0D, tx_sample 2 0x0D,
      tx_sample 1 0x0A, tx_sample 3 0x0A, tx_sample 1 0x1B] (new_console True) =
    Inr ([None, Some 0x41, None, None, Some 0x0D, None, Some 0x0A, None, Some 0x1B],
      \<lparr>stream_output = True, prev_tx_state = 1, received = [0x41, 0x0D, 0x0A, 0x1B], pending_cr = False,
       stdout = CHR ''A'' # CR # LF # CHR 0x5C # ''x1b''\<rparr>)"
  by code_simp

theorem console_transcript_witness:
  "render [0x41, 0x0D, 0x0A, 0x1B] = CHR ''A'' # CR # LF # CHR 0x5C # ''x1b'' \<and>
   terminal_safe False (render [0x41, 0x0D, 0x0A, 0x1B])"
  using console_transcript [OF tx_sample_polls]
  by (simp add: emitted_bytes_def eq_commute [of _ "render _"] del: render.simps terminal_safe.simps)


section \<open>The emissions of a run\<close>

text \<open>
  What a console started at edge 0 finds, as a function of the sampled signals alone: the byte
  emitted at an edge, the bytes emitted before an edge, and the last edge before \<open>n\<close> with an
  emission.
\<close>

definition sig :: "(nat \<Rightarrow> dut) \<Rightarrow> string \<Rightarrow> nat \<Rightarrow> int" where
  "sig duts n c = (case duts c n of Value v \<Rightarrow> v | _ \<Rightarrow> 0)"

definition readable :: "(nat \<Rightarrow> dut) \<Rightarrow> string \<Rightarrow> bool" where
  "readable duts n \<longleftrightarrow> (\<forall>c. duts c n = Value (sig duts n c))"

definition tx_readable :: "(nat \<Rightarrow> dut) \<Rightarrow> bool" where
  "tx_readable duts \<longleftrightarrow> readable duts ''uart_inst.tx_state'' \<and> readable duts ''uart_inst.tx_data''"

definition prev_state :: "(nat \<Rightarrow> dut) \<Rightarrow> nat \<Rightarrow> int" where
  "prev_state duts c = (case c of 0 \<Rightarrow> 0 | Suc k \<Rightarrow> sig duts ''uart_inst.tx_state'' k)"

definition emission :: "(nat \<Rightarrow> dut) \<Rightarrow> nat \<Rightarrow> int option" where
  "emission duts c =
     (if sig duts ''uart_inst.tx_state'' c = 1 \<and> prev_state duts c \<noteq> 1
      then Some (sig duts ''uart_inst.tx_data'' c AND 0xFF) else None)"

definition captured :: "(nat \<Rightarrow> dut) \<Rightarrow> nat \<Rightarrow> int list" where
  "captured duts n = emitted_bytes (map (emission duts) [0..<n])"

fun last_emission :: "(nat \<Rightarrow> dut) \<Rightarrow> nat \<Rightarrow> nat option" where
  "last_emission duts 0 = None"
| "last_emission duts (Suc c) = (if emission duts c \<noteq> None then Some c else last_emission duts c)"

lemma captured_Suc:
  "captured duts (Suc c) = captured duts c @ (case emission duts c of None \<Rightarrow> [] | Some b \<Rightarrow> [b])"
  by (simp add: captured_def emitted_bytes_def)

lemma captured_0 [simp]: "captured duts 0 = []"
  by (simp add: captured_def emitted_bytes_def)

lemma captured_mono: "m \<le> n \<Longrightarrow> \<exists>more. captured duts n = captured duts m @ more"
proof (induction n)
  case (Suc n)
  then show ?case by (cases "m = Suc n") (auto simp: captured_Suc)
qed simp

lemma last_emission_None_iff: "last_emission duts n = None \<longleftrightarrow> captured duts n = []"
  by (induction n) (auto simp: captured_Suc split: option.splits)

lemma last_emission_less: "last_emission duts n = Some l \<Longrightarrow> l < n \<and> emission duts l \<noteq> None"
  by (induction n) (auto split: if_splits)

lemma poll_emission:
  assumes "tx_readable duts" and "prev_tx_state con = prev_state duts c" and "received con = captured duts c"
  obtains con' where "poll (duts c) con = Inr (emission duts c, con')"
    and "prev_tx_state con' = prev_state duts (Suc c)" and "received con' = captured duts (Suc c)"
    and "stream_output con' = stream_output con"
proof -
  have st: "dut_int (duts c) ''uart_inst.tx_state'' = Inr (sig duts ''uart_inst.tx_state'' c)"
    and data: "dut_int (duts c) ''uart_inst.tx_data'' = Inr (sig duts ''uart_inst.tx_data'' c)"
    using assms(1) by (simp_all add: tx_readable_def readable_def)
  show thesis
  proof (cases "emission duts c")
    case None
    with st assms(2) have "poll (duts c) con = Inr (None, con\<lparr>prev_tx_state := prev_state duts (Suc c)\<rparr>)"
      by (auto simp: poll_def emission_def prev_state_def split: if_splits)
    with None assms(3) that show thesis by (simp add: captured_Suc)
  next
    case (Some b)
    with st data assms(2) obtain con' where "poll (duts c) con = Inr (Some b, con')"
      "prev_tx_state con' = prev_state duts (Suc c)" "received con' = received con @ [b]"
      "stream_output con' = stream_output con"
      by (auto simp: poll_def emission_def prev_state_def Let_def split: if_splits prod.splits
          simp del: format_byte.simps)
    with Some assms(3) that show thesis by (simp add: captured_Suc)
  qed
qed

end
