(* ===== verification/Isa_Runner.thy ===== *)
theory Isa_Runner
  imports Isa_Harness Compare_Driver Uart_Console
begin

text \<open>
  The set-up of the ISA test \<open>tests/system_tests/test_riscv_isa.py\<close>: \<open>runCocotbTests\<close>, which starts
  the simulation, and the variables the test itself reads, put together with the driver that sets
  them. The file system and the simulator are a record of operations over a world of type \<open>'w\<close>.
\<close>

section \<open>Paths and the environment\<close>

type_synonym environ = "string \<Rightarrow> string option"

text \<open>\<open>Path(s)\<close> on POSIX: empty and \<open>.\<close> components vanish; exactly two leading slashes are a root of their own.\<close>

definition py_path :: "string \<Rightarrow> path" where
  "py_path s =
     (if take 1 s = ''/'' then if take 2 s = ''//'' \<and> take 3 s \<noteq> ''///'' then [''//''] else [''/''] else []) @
     filter (\<lambda>c. c \<noteq> [] \<and> c \<noteq> ''.'') (py_split_char (CHR ''/'') s)"

definition env_get :: "environ \<Rightarrow> string \<Rightarrow> string \<Rightarrow> string" where
  "env_get env name default_text = (case env name of None \<Rightarrow> default_text | Some v \<Rightarrow> v)"

definition env_item :: "environ \<Rightarrow> string \<Rightarrow> string py" where
  "env_item env name = (case env name of None \<Rightarrow> Inl (KeyError name) | Some v \<Rightarrow> Inr v)"

definition py_endswith :: "string \<Rightarrow> string \<Rightarrow> bool" where
  "py_endswith s e \<longleftrightarrow> length e \<le> length s \<and> drop (length s - length e) s = e"

section \<open>Starting the simulation\<close>

record sim_run =
  verilog_sources :: "string list"
  sim_toplevel :: string
  sim_module :: string
  sim_testcase :: string
  sim_includes :: "string list"
  sim_simulator :: string
  sim_timescale :: string
  sim_defines :: "string list"
  sim_parameters :: "(string \<times> int) list"
  sim_build_dir :: string
  sim_force_compile :: bool

text \<open>
  \<open>os.walk\<close> gives a directory, its subdirectories and its files per step; \<open>run\<close> is the runner of
  cocotb-test.
\<close>

record 'w sim_host =
  sh_cwd :: path
  sh_exists :: "path \<Rightarrow> 'w \<Rightarrow> bool"
  sh_walk :: "path \<Rightarrow> 'w \<Rightarrow> (string \<times> string list \<times> string list) list"
  sh_rmtree :: "path \<Rightarrow> ('w, unit) io"
  sh_run :: "sim_run \<Rightarrow> ('w, unit) io"

datatype runner_error = Skipped string | Error py_error

definition rtl_sources :: "(string \<times> string list \<times> string list) list \<Rightarrow> string list" where
  "rtl_sources steps =
     concat (map (\<lambda>(root, dirs, files).
       map (\<lambda>f. root @ ''/'' @ f) (filter (\<lambda>f. py_endswith f ''.v'' \<or> py_endswith f ''.sv'') files)) steps)"

definition hex_file_for :: "environ \<Rightarrow> string py" where
  "hex_file_for env =
     (if env_get env ''ISA_SIM_HEX_FILE'' [] \<noteq> [] then Inr (env_get env ''ISA_SIM_HEX_FILE'' [])
      else env_item env ''ISA_HEX_FILE'')"

definition sim_build_for :: "path \<Rightarrow> environ \<Rightarrow> path" where
  "sim_build_for cwd env =
     py_path (env_get env ''ISA_SIM_BUILD'' (path_str (cwd @ [''sim_build'', ''sim_build_riscv_isa''])))"

definition latencies :: "environ \<Rightarrow> (int \<times> int) py" where
  "latencies env =
     py_bind (py_int 10 (env_get env ''ISA_MEM_LATENCY'' ''0'')) (\<lambda>mem.
     py_bind (py_int 10 (env_get env ''ISA_FETCH_LATENCY'' (env_get env ''ISA_MEM_LATENCY'' ''0''))) (\<lambda>fetch.
       Inr (mem, fetch)))"

definition sim_run_for :: "path \<Rightarrow> string list \<Rightarrow> string \<Rightarrow> int \<times> int \<Rightarrow> path \<Rightarrow> bool \<Rightarrow> sim_run" where
  "sim_run_for repo_root sources hex_file lat sim_build force_compile =
     \<lparr>verilog_sources = sources, sim_toplevel = ''top'', sim_module = ''test_riscv_isa'',
      sim_testcase = ''test_riscv_isa_image'', sim_includes = [path_str (repo_root @ [''rtl'', ''include''])],
      sim_simulator = ''verilator'', sim_timescale = ''1ns/1ps'',
      sim_defines = [''INSTR_HEX_FILE='' @ [CHR 0x22] @ hex_file @ [CHR 0x22]],
      sim_parameters = [(''MEM_LATENCY'', fst lat), (''FETCH_LATENCY'', snd lat)],
      sim_build_dir = path_str sim_build, sim_force_compile = force_compile\<rparr>"

text \<open>The body after the check of the required variables.\<close>

definition start_simulation :: "'w sim_host \<Rightarrow> environ \<Rightarrow> ('w, unit) io" where
  "start_simulation h env w =
     (case find_repo_root (\<lambda>p. sh_exists h p w) (sh_cwd h) of
        Inl e \<Rightarrow> (Inl e, w)
      | Inr repo_root \<Rightarrow>
          (case hex_file_for env of
             Inl e \<Rightarrow> (Inl e, w)
           | Inr hex_file \<Rightarrow>
               let sources = rtl_sources (sh_walk h (repo_root @ [''rtl'']) w);
                   sim_build = sim_build_for (sh_cwd h) env;
                   force_compile = (env_get env ''ISA_FORCE_COMPILE'' ''0'' = ''1'')
               in io_then (io_when (force_compile \<and> sh_exists h sim_build w) (sh_rmtree h sim_build))
                    (io_bind (io_py (latencies env)) (\<lambda>lat.
                       sh_run h (sim_run_for repo_root sources hex_file lat sim_build force_compile))) w))"

definition missing_env :: "environ \<Rightarrow> string list" where
  "missing_env env = filter (\<lambda>name. env name = None) [''ISA_HEX_FILE'', ''ISA_TOHOST_ADDR'']"

definition raises_as_error :: "'a py \<times> 'w \<Rightarrow> (runner_error + 'a) \<times> 'w" where
  "raises_as_error r = (case r of (Inl e, w) \<Rightarrow> (Inl (Error e), w) | (Inr x, w) \<Rightarrow> (Inr x, w))"

definition runCocotbTests :: "'w sim_host \<Rightarrow> environ \<Rightarrow> 'w \<Rightarrow> (runner_error + unit) \<times> 'w" where
  "runCocotbTests h env w =
     (if missing_env env \<noteq> []
      then (Inl (Skipped (''Skipping ISA harness in full pytest run (missing env: '' @
                          py_join '', '' (missing_env env) @ '')'')), w)
      else raises_as_error (start_simulation h env w))"

section \<open>The variables of the test\<close>

record isa_settings =
  set_tohost :: int
  set_max_cycles :: int
  set_trace_isa :: bool
  set_trace_path :: "string option"

definition isa_settings_from :: "environ \<Rightarrow> isa_settings py" where
  "isa_settings_from env =
     py_bind (env_item env ''ISA_TOHOST_ADDR'') (\<lambda>t.
     py_bind (py_int 16 t) (\<lambda>tohost.
     py_bind (py_int 10 (env_get env ''ISA_MAX_CYCLES'' ''200000'')) (\<lambda>max_cycles.
       Inr \<lparr>set_tohost = tohost, set_max_cycles = max_cycles,
            set_trace_isa = (env_get env ''TRACE_ISA'' ''0'' = ''1''),
            set_trace_path = (case env ''ISA_TRACE_FILE'' of
                                None \<Rightarrow> None | Some p \<Rightarrow> if p = [] then None else Some p)\<rparr>)))"

definition isa_start :: "cocotb_act list" where
  "isa_start =
     [StartSoon ''clk.start'', Drive ''software_interrupt'' 0, Drive ''external_interrupt'' 0, Drive ''rst'' 1,
      ClockCycles 5, Drive ''rst'' 0]"

text \<open>
  The whole test: what it does to the core before the first sample, what it writes to the trace file,
  if it has one, and its outcome. \<open>opens\<close> is what \<open>open(trace_path, "w")\<close> raises, if it raises.
\<close>

definition isa_test ::
  "(string \<Rightarrow> py_error option) \<Rightarrow> environ \<Rightarrow> (nat \<Rightarrow> isa_sample) \<Rightarrow>
   cocotb_act list \<times> (string \<times> string) option \<times> unit py" where
  "isa_test opens env dut =
     (case isa_settings_from env of
        Inl e \<Rightarrow> ([], None, Inl e)
      | Inr st \<Rightarrow>
          (case Option.bind (set_trace_path st) opens of
             Some e \<Rightarrow> (isa_start, None, Inl e)
           | None \<Rightarrow>
               (case test_riscv_isa_image (set_trace_path st \<noteq> None) (set_tohost st) (nat (set_max_cycles st)) dut of
                  (written, r) \<Rightarrow> (isa_start, map_option (\<lambda>p. (p, written)) (set_trace_path st), r))))"

section \<open>Paths survive their text\<close>

definition comp_ok :: "string \<Rightarrow> bool" where
  "comp_ok c \<longleftrightarrow> c \<noteq> [] \<and> c \<noteq> ''.'' \<and> CHR ''/'' \<notin> set c"

definition path_ok :: "path \<Rightarrow> bool" where
  "path_ok p \<longleftrightarrow> p \<noteq> [] \<and> list_all comp_ok (if hd p = ''/'' then tl p else p)"

lemma split_on_word: "d \<notin> set c \<Longrightarrow> split_on d w (c @ d # r) = (rev w @ c) # split_on d [] r"
  by (induction c arbitrary: w) auto

lemma split_on_last: "d \<notin> set c \<Longrightarrow> split_on d w c = [rev w @ c]"
  by (induction c arbitrary: w) auto

lemma split_join:
  "\<forall>c \<in> set (p # ps). d \<notin> set c \<Longrightarrow> split_on d [] (p @ concat (map (\<lambda>q. d # q) ps)) = p # ps"
proof (induction ps arbitrary: p)
  case Nil
  then show ?case by (simp add: split_on_last)
next
  case (Cons q ps)
  then show ?case using split_on_word [of d p "[]" "q @ concat (map (\<lambda>q. d # q) ps)"] by simp
qed

lemma path_str_abs: "path_str (''/'' # p # ps) = CHR ''/'' # p @ concat (map (\<lambda>q. CHR ''/'' # q) ps)"
proof -
  have "map (\<lambda>i. (if i = 0 then [] else ''/'') @ (p # ps) ! i) [0..<length (p # ps)] =
      p # map (\<lambda>i. CHR ''/'' # ps ! i) [0..<length ps]"
    by (simp add: upt_conv_Cons map_Suc_upt [symmetric] comp_def del: upt_Suc)
  also have "map (\<lambda>i. CHR ''/'' # ps ! i) [0..<length ps] = map (\<lambda>q. CHR ''/'' # q) (map ((!) ps) [0..<length ps])"
    by simp
  also have "\<dots> = map (\<lambda>q. CHR ''/'' # q) ps" by (simp only: map_nth)
  finally show ?thesis by (simp add: path_str_def)
qed

lemma comp_ok_filter: "list_all comp_ok ps \<Longrightarrow> filter (\<lambda>c. c \<noteq> [] \<and> c \<noteq> ''.'') ps = ps"
  by (induction ps) (auto simp: comp_ok_def)

lemma comp_ok_chars: "list_all comp_ok ps \<Longrightarrow> \<forall>c \<in> set ps. CHR ''/'' \<notin> set c"
  by (auto simp: list_all_iff comp_ok_def)

lemma comp_ok_hd: "comp_ok p \<Longrightarrow> \<exists>c cs. p = c # cs \<and> c \<noteq> CHR ''/''"
  by (cases p) (auto simp: comp_ok_def)

lemma py_path_str:
  assumes "path_ok p"
  shows "py_path (path_str p) = p" and "path_str p \<noteq> []"
proof -
  obtain r ps where p: "p = r # ps" using assms by (cases p) (auto simp: path_ok_def)
  have "py_path (path_str p) = p \<and> path_str p \<noteq> []"
  proof (cases "r = ''/''")
    case True
    show ?thesis
    proof (cases ps)
      case Nil
      have "py_path (path_str [''/'']) = [''/''] \<and> path_str [''/''] \<noteq> []" by code_simp
      then show ?thesis using Nil True p by simp
    next
      case (Cons q qs)
      with assms True p have ok: "list_all comp_ok (q # qs)" by (simp add: path_ok_def)
      then have "comp_ok q" by simp
      then obtain c cs where q: "q = c # cs" "c \<noteq> CHR ''/''" using comp_ok_hd [of q] by blast
      have "py_split_char (CHR ''/'') (path_str (''/'' # q # qs)) = [] # q # qs"
        using split_join [OF comp_ok_chars [OF ok]] by (simp add: py_split_char_def path_str_abs)
      then have "py_path (path_str (''/'' # q # qs)) = ''/'' # q # qs"
        using comp_ok_filter [OF ok] q by (simp add: py_path_def path_str_abs)
      then show ?thesis using Cons True p by (simp add: path_str_abs)
    qed
  next
    case False
    then have ok: "list_all comp_ok (r # ps)" using assms p by (simp add: path_ok_def)
    then have "comp_ok r" by simp
    then obtain c cs where r: "r = c # cs" "c \<noteq> CHR ''/''" using comp_ok_hd [of r] by blast
    have slash: "(@) ''/'' = (#) (CHR ''/'')" by (rule ext) simp
    have str: "path_str (r # ps) = r @ concat (map (\<lambda>q. CHR ''/'' # q) ps)"
      using False \<open>comp_ok r\<close> slash by (auto simp: path_str_def comp_ok_def)
    have "py_split_char (CHR ''/'') (path_str (r # ps)) = r # ps"
      using split_join [OF comp_ok_chars [OF ok]] by (simp add: py_split_char_def str)
    moreover have "take 1 (path_str (r # ps)) \<noteq> ''/''" by (subst str) (use r in simp)
    ultimately have "py_path (path_str (r # ps)) = r # ps"
      using comp_ok_filter [OF ok] by (simp add: py_path_def)
    moreover have "path_str (r # ps) \<noteq> []" by (subst str) (use r in simp)
    ultimately show ?thesis using p by simp
  qed
  then show "py_path (path_str p) = p" and "path_str p \<noteq> []" by auto
qed

section \<open>The driver and the test agree\<close>

text \<open>The environment of the child process: the driver's own, with the variables it sets.\<close>

definition driver_env ::
  "environ \<Rightarrow> path \<Rightarrow> path \<Rightarrow> int \<Rightarrow> int \<Rightarrow> bool \<Rightarrow> path \<Rightarrow> int \<Rightarrow> int \<Rightarrow> environ" where
  "driver_env base hex build tohost cycles compile trace mem fetch =
     base ++ map_of (verilator_env hex build tohost cycles compile trace mem fetch)"

lemma driver_env_lookup:
  "driver_env base hex build tohost cycles compile trace mem fetch ''ISA_HEX_FILE'' =
     Some (path_str hex)"
  "driver_env base hex build tohost cycles compile trace mem fetch ''ISA_SIM_HEX_FILE'' =
     Some (path_str hex)"
  "driver_env base hex build tohost cycles compile trace mem fetch ''ISA_SIM_BUILD'' =
     Some (path_str build)"
  "driver_env base hex build tohost cycles compile trace mem fetch ''ISA_FORCE_COMPILE'' =
     Some (if compile then ''1'' else ''0'')"
  "driver_env base hex build tohost cycles compile trace mem fetch ''ISA_TOHOST_ADDR'' =
     Some (fmt_hash_x tohost)"
  "driver_env base hex build tohost cycles compile trace mem fetch ''ISA_MAX_CYCLES'' =
     Some (fmt_d cycles)"
  "driver_env base hex build tohost cycles compile trace mem fetch ''ISA_TRACE_FILE'' =
     Some (path_str trace)"
  "driver_env base hex build tohost cycles compile trace mem fetch ''ISA_MEM_LATENCY'' =
     Some (fmt_d mem)"
  "driver_env base hex build tohost cycles compile trace mem fetch ''ISA_FETCH_LATENCY'' =
     Some (fmt_d fetch)"
  "driver_env base hex build tohost cycles compile trace mem fetch ''TRACE_ISA'' =
     base ''TRACE_ISA''"
  by (simp_all add: driver_env_def verilator_env_def)

lemma child_settings:
  assumes "0 \<le> tohost" "0 \<le> cycles" "path_ok trace"
  shows "isa_settings_from (driver_env base hex build tohost cycles compile trace mem fetch) =
    Inr \<lparr>set_tohost = tohost, set_max_cycles = cycles, set_trace_isa = (env_get base ''TRACE_ISA'' ''0'' = ''1''),
         set_trace_path = Some (path_str trace)\<rparr>"
  unfolding isa_settings_from_def env_item_def env_get_def driver_env_lookup
  using assms py_path_str(2) [OF assms(3)] by (simp add: py_int_fmt_hash_x py_int_fmt_d)

lemma child_latencies:
  "0 \<le> mem \<Longrightarrow> 0 \<le> fetch \<Longrightarrow>
   latencies (driver_env base hex build tohost cycles compile trace mem fetch) = Inr (mem, fetch)"
  unfolding latencies_def env_get_def driver_env_lookup by (simp add: py_int_fmt_d)

lemma child_files:
  assumes "path_ok hex" "path_ok build"
  shows "hex_file_for (driver_env base hex build tohost cycles compile trace mem fetch) = Inr (path_str hex)"
    and "sim_build_for cwd (driver_env base hex build tohost cycles compile trace mem fetch) = build"
    and "missing_env (driver_env base hex build tohost cycles compile trace mem fetch) = []"
    and "env_get (driver_env base hex build tohost cycles compile trace mem fetch)
           ''ISA_FORCE_COMPILE'' ''0'' = (if compile then ''1'' else ''0'')"
  unfolding hex_file_for_def sim_build_for_def missing_env_def env_get_def driver_env_lookup
  using py_path_str [OF assms(1)] py_path_str [OF assms(2)] by (simp_all add: driver_env_lookup)

text \<open>
  C13. The driver and the ISA test agree on the interface they share, the environment. Let the driver
  start the test for a runtime image, a build directory and a trace file, with non-negative numbers.
  Then the test reads back exactly the \<open>tohost\<close> address, the number of cycles and the trace file
  the driver meant, resets the core and writes its commit trace to that file. \<open>runCocotbTests\<close>
  starts the simulator once, on the sources found under the \<open>rtl\<close> directory, with the runtime
  image in its define, the two latencies as its parameters and the driver's build directory, which
  it removes first exactly when a new model is asked for and the directory exists. Without the
  driver's variables the test is skipped and nothing is touched.
\<close>

theorem driver_runs_harness:
  assumes "0 \<le> tohost" "0 \<le> cycles" "0 \<le> mem" "0 \<le> fetch" "path_ok hex" "path_ok build" "path_ok trace"
    and "find_repo_root (\<lambda>p. sh_exists h p w) (sh_cwd h) = Inr repo"
    and "opens (path_str trace) = None"
  shows "isa_settings_from (driver_env base hex build tohost cycles compile trace mem fetch) =
           Inr \<lparr>set_tohost = tohost, set_max_cycles = cycles, set_trace_isa = (env_get base ''TRACE_ISA'' ''0'' = ''1''),
                set_trace_path = Some (path_str trace)\<rparr> \<and>
         runCocotbTests h (driver_env base hex build tohost cycles compile trace mem fetch) w =
           raises_as_error
             (io_then (io_when (compile \<and> sh_exists h build w) (sh_rmtree h build))
                (sh_run h (sim_run_for repo (rtl_sources (sh_walk h (repo @ [''rtl'']) w)) (path_str hex) (mem, fetch)
                   build compile)) w) \<and>
         isa_test opens (driver_env base hex build tohost cycles compile trace mem fetch) dut =
           (case test_riscv_isa_image True tohost (nat cycles) dut of
              (written, r) \<Rightarrow> (isa_start, Some (path_str trace, written), r)) \<and>
         (base ''ISA_HEX_FILE'' = None \<longrightarrow>
           (\<exists>why. runCocotbTests h base w = (Inl (Skipped why), w)))"
proof (intro conjI impI)
  show settings: "isa_settings_from (driver_env base hex build tohost cycles compile trace mem fetch) =
      Inr \<lparr>set_tohost = tohost, set_max_cycles = cycles, set_trace_isa = (env_get base ''TRACE_ISA'' ''0'' = ''1''),
           set_trace_path = Some (path_str trace)\<rparr>"
    using assms(1,2,7) by (rule child_settings)
  have bind: "io_bind (io_py (Inr x)) f = f x" for x :: "int \<times> int" and f :: "int \<times> int \<Rightarrow> ('a, unit) io"
    by (rule ext) simp
  show "runCocotbTests h (driver_env base hex build tohost cycles compile trace mem fetch) w = raises_as_error
      (io_then (io_when (compile \<and> sh_exists h build w) (sh_rmtree h build))
         (sh_run h (sim_run_for repo (rtl_sources (sh_walk h (repo @ [''rtl'']) w)) (path_str hex) (mem, fetch)
            build compile)) w)"
    using child_files [OF assms(5,6)] child_latencies [OF assms(3,4)]
    by (simp add: runCocotbTests_def start_simulation_def Let_def assms(8) bind)
  show "isa_test opens (driver_env base hex build tohost cycles compile trace mem fetch) dut =
      (case test_riscv_isa_image True tohost (nat cycles) dut of
         (written, r) \<Rightarrow> (isa_start, Some (path_str trace, written), r))"
    using assms(9) by (simp add: isa_test_def settings split: prod.splits)
next
  assume "base ''ISA_HEX_FILE'' = None"
  then show "\<exists>why. runCocotbTests h base w = (Inl (Skipped why), w)"
    by (simp add: runCocotbTests_def missing_env_def)
qed

text \<open>A host whose world says whether the build directory of an earlier model is there.\<close>

definition small_host :: "bool sim_host" where
  "small_host =
     \<lparr>sh_cwd = [''/'', ''r''], sh_exists = (\<lambda>p w. p = [''/'', ''r'', ''rtl''] \<or> w \<and> p = [''/'', ''b'']),
      sh_walk = (\<lambda>p w. [(''/r/rtl'', [], [''top.v'', ''x.md''])]),
      sh_rmtree = (\<lambda>p w. (Inr (), False)), sh_run = (\<lambda>r w. (Inr (), w))\<rparr>"

text \<open>A core that writes 1 to address 4096 in every cycle.\<close>

definition passing_dut :: "nat \<Rightarrow> isa_sample" where
  "passing_dut _ =
     \<lparr>rf_wr_en = 0, rf_rd_in = 0, mem_wb_pc = 0, rf_rd_value = 0, mem_write_en = 1, data_rvalid = 0,
      store_page_fault = 0, ex_mem_pc = 0, mem_write_addr = 4096, mem_write_data = 1, write_byte_enable = 15\<rparr>"

theorem driver_runs_harness_witness:
  "isa_settings_from (driver_env (\<lambda>_. None) [''/'', ''h''] [''/'', ''b''] 4096 10 True [''/'', ''t''] 0 0) =
     Inr \<lparr>set_tohost = 4096, set_max_cycles = 10, set_trace_isa = False, set_trace_path = Some ''/t''\<rparr> \<and>
   runCocotbTests small_host (driver_env (\<lambda>_. None) [''/'', ''h''] [''/'', ''b''] 4096 10 True [''/'', ''t''] 0 0) True =
     (Inr (), False) \<and>
   isa_test (\<lambda>_. None) (driver_env (\<lambda>_. None) [''/'', ''h''] [''/'', ''b''] 4096 10 True [''/'', ''t''] 0 0) passing_dut =
     (isa_start, Some (''/t'', []), Inr ())"
proof -
  have root: "find_repo_root (\<lambda>p. sh_exists small_host p True) (sh_cwd small_host) = Inr [''/'', ''r'']"
    by (subst find_repo_root.simps) (simp add: small_host_def)
  have ok: "path_ok [''/'', ''h'']" "path_ok [''/'', ''b'']" "path_ok [''/'', ''t'']"
    by (simp_all add: path_ok_def comp_ok_def)
  have passes: "test_riscv_isa_image True 4096 (nat 10) passing_dut = ([], Inr ())" by code_simp
  have removed: "raises_as_error (io_then (io_when (True \<and> sh_exists small_host [''/'', ''b''] True)
      (sh_rmtree small_host [''/'', ''b''])) (sh_run small_host r) True) = (Inr (), False)" for r
    by (simp add: small_host_def io_then_def io_when_def io_bind_def raises_as_error_def)
  have str: "path_str [''/'', ''t''] = ''/t''" by code_simp
  have quiet: "env_get (\<lambda>_. None) ''TRACE_ISA'' ''0'' = ''0''" by (simp add: env_get_def)
  show ?thesis
    using driver_runs_harness [where tohost = 4096 and cycles = 10 and mem = 0 and fetch = 0 and base = "\<lambda>_. None"
        and compile = True and opens = "\<lambda>_. None" and dut = passing_dut, OF _ _ _ _ ok root]
    unfolding passes removed str quiet by simp
qed

end
