(* ===== verification/Ring_Fifo.thy ===== *)
theory Ring_Fifo
  imports Synapse_Prelude
begin

text \<open>
  The ring buffers of the UART: sixteen bytes behind a 4-bit head, a 4-bit tail and a 5-bit count.
  The first part relates the registers to a list, the second states what a client may rely on: a
  FIFO of bounded length that loses and reorders nothing.
\<close>

section \<open>Registers and their list\<close>

type_synonym ring_mem = "4 word \<Rightarrow> 8 word"

definition ring_list :: "ring_mem \<Rightarrow> 4 word \<Rightarrow> 5 word \<Rightarrow> 8 word list" where
  "ring_list mem head count = map (\<lambda>k. mem (head + of_nat k)) [0..<unat count]"

definition ring_ok :: "4 word \<Rightarrow> 4 word \<Rightarrow> 5 word \<Rightarrow> bool" where
  "ring_ok head tail count \<longleftrightarrow> unat count \<le> 16 \<and> tail = head + of_nat (unat count)"

lemma ring_list_length [simp]: "length (ring_list mem head count) = unat count"
  by (simp add: ring_list_def)

lemma ring_list_empty [simp]: "ring_list mem head 0 = []"
  by (simp add: ring_list_def)

lemma ring_ok_empty [simp]: "ring_ok head head 0"
  by (simp add: ring_ok_def)

lemma unat_count_Suc: "unat (count :: 5 word) < 16 \<Longrightarrow> unat (count + 1) = Suc (unat count)"
  by (simp add: unat_word_ariths)

lemma unat_count_pred: "(count :: 5 word) \<noteq> 0 \<Longrightarrow> unat (count - 1) = unat count - 1"
  by (simp add: unat_minus_one)

lemma of_nat_4_inj:
  assumes "i < 16" and "j < 16" and "(of_nat i :: 4 word) = of_nat j"
  shows "i = j"
proof -
  from assms(3) have "unat (of_nat i :: 4 word) = unat (of_nat j :: 4 word)" by simp
  with assms(1,2) show ?thesis by (simp add: unat_of_nat)
qed

text \<open>Writing behind the last element leaves the elements alone.\<close>

lemma ring_list_write_tail:
  assumes "ring_ok head tail count" and "unat count < 16"
  shows "ring_list (mem(tail := x)) head count = ring_list mem head count"
proof -
  have "head + of_nat k \<noteq> tail" if "k < unat count" for k
  proof
    assume "head + of_nat k = tail"
    with assms(1) have "(of_nat k :: 4 word) = of_nat (unat count)" by (simp add: ring_ok_def)
    with that assms(2) show False using of_nat_4_inj [of k "unat count"] by simp
  qed
  then show ?thesis by (simp add: ring_list_def)
qed

lemma ring_push:
  assumes "ring_ok head tail count" and "unat count < 16"
  shows "ring_ok head (tail + 1) (count + 1)"
    and "ring_list (mem(tail := x)) head (count + 1) = ring_list mem head count @ [x]"
proof -
  show "ring_ok head (tail + 1) (count + 1)"
    using assms by (simp add: ring_ok_def unat_count_Suc)
  have "ring_list (mem(tail := x)) head (count + 1) =
      ring_list (mem(tail := x)) head count @ [(mem(tail := x)) (head + of_nat (unat count))]"
    using assms(2) by (simp add: ring_list_def unat_count_Suc)
  with assms show "ring_list (mem(tail := x)) head (count + 1) = ring_list mem head count @ [x]"
    by (simp only: ring_list_write_tail [OF assms]) (simp add: ring_ok_def)
qed

lemma ring_list_Cons:
  assumes "count \<noteq> 0"
  shows "ring_list mem head count = mem head # ring_list mem (head + 1) (count - 1)"
proof -
  have "0 < unat count" using assms by (simp add: unat_gt_0)
  then obtain n where n: "unat count = Suc n" by (cases "unat count") auto
  then have "[0..<unat count] = 0 # map Suc [0..<n]" by (simp add: map_Suc_upt upt_conv_Cons)
  moreover have "unat (count - 1) = n" using assms n by (simp add: unat_count_pred)
  ultimately show ?thesis by (simp add: ring_list_def add.assoc)
qed

lemma ring_pop:
  assumes "ring_ok head tail count" and "count \<noteq> 0"
  shows "ring_ok (head + 1) tail (count - 1)"
    and "ring_list mem (head + 1) (count - 1) = tl (ring_list mem head count)"
proof -
  have c: "unat count = Suc (unat (count - 1))"
    using assms(2) by (simp add: unat_count_pred unat_gt_0 Suc_diff_1)
  then have "tail = head + 1 + of_nat (unat (count - 1))"
    using assms(1) by (simp add: ring_ok_def)
  with c assms(1) show "ring_ok (head + 1) tail (count - 1)"
    by (simp add: ring_ok_def)
  show "ring_list mem (head + 1) (count - 1) = tl (ring_list mem head count)"
    by (simp add: ring_list_Cons [OF assms(2)])
qed

text \<open>A push and a pop at the same edge keep the count, also on a full ring.\<close>

lemma ring_push_pop:
  assumes "ring_ok head tail count" and "count \<noteq> 0"
  shows "ring_ok (head + 1) (tail + 1) count"
    and "ring_list (mem(tail := x)) (head + 1) count = tl (ring_list mem head count) @ [x]"
proof -
  from ring_pop [OF assms] have ok: "ring_ok (head + 1) tail (count - 1)"
    and tl: "ring_list mem (head + 1) (count - 1) = tl (ring_list mem head count)" by auto
  have "unat (count - 1) < 16"
    using assms by (simp add: ring_ok_def unat_count_pred unat_gt_0) (metis One_nat_def Suc_pred less_eq_Suc_le unat_gt_0)
  then have "ring_ok (head + 1) (tail + 1) (count - 1 + 1)"
    and "ring_list (mem(tail := x)) (head + 1) (count - 1 + 1) = ring_list mem (head + 1) (count - 1) @ [x]"
    using ring_push(1) [OF ok] ring_push(2) [OF ok] by auto
  with tl show "ring_ok (head + 1) (tail + 1) count"
    and "ring_list (mem(tail := x)) (head + 1) count = tl (ring_list mem head count) @ [x]"
    by simp_all
qed

section \<open>The interface of a byte FIFO\<close>

text \<open>
  A clocked component holds a FIFO when each step's effect on its queue is a clear, or the removal
  of the head if one was consumed and then the append of the byte if one was accepted.
\<close>

locale byte_fifo =
  fixes ok :: "'s \<Rightarrow> bool"
    and queue :: "'s \<Rightarrow> 8 word list"
    and "next" :: "'s \<Rightarrow> 'i \<Rightarrow> 's"
    and accepted :: "'s \<Rightarrow> 'i \<Rightarrow> 8 word option"
    and consumed :: "'s \<Rightarrow> 'i \<Rightarrow> bool"
    and cleared :: "'s \<Rightarrow> 'i \<Rightarrow> bool"
  assumes ok_next: "ok s \<Longrightarrow> ok (next s i)"
    and queue_bound: "ok s \<Longrightarrow> length (queue s) \<le> 16"
    and consumed_nonempty: "ok s \<Longrightarrow> consumed s i \<Longrightarrow> queue s \<noteq> []"
    and queue_next: "ok s \<Longrightarrow> queue (next s i) =
          (if cleared s i then []
           else (if consumed s i then tl (queue s) else queue s) @
                (case accepted s i of None \<Rightarrow> [] | Some b \<Rightarrow> [b]))"
begin

fun run :: "'s \<Rightarrow> 'i list \<Rightarrow> 's" where
  "run s [] = s"
| "run s (i # is) = run (next s i) is"

fun accepted_log :: "'s \<Rightarrow> 'i list \<Rightarrow> 8 word list" where
  "accepted_log s [] = []"
| "accepted_log s (i # is) = (case accepted s i of None \<Rightarrow> [] | Some b \<Rightarrow> [b]) @ accepted_log (next s i) is"

fun consumed_log :: "'s \<Rightarrow> 'i list \<Rightarrow> 8 word list" where
  "consumed_log s [] = []"
| "consumed_log s (i # is) = (if consumed s i then [hd (queue s)] else []) @ consumed_log (next s i) is"

fun never_cleared :: "'s \<Rightarrow> 'i list \<Rightarrow> bool" where
  "never_cleared s [] = True"
| "never_cleared s (i # is) \<longleftrightarrow> \<not> cleared s i \<and> never_cleared (next s i) is"

lemma ok_run: "ok s \<Longrightarrow> ok (run s is)"
  by (induction "is" arbitrary: s) (simp_all add: ok_next)

lemma run_append: "run s (is @ js) = run (run s is) js"
  by (induction "is" arbitrary: s) simp_all

lemma consumed_log_append: "consumed_log s (is @ js) = consumed_log s is @ consumed_log (run s is) js"
  by (induction "is" arbitrary: s) simp_all

lemma accepted_log_append: "accepted_log s (is @ js) = accepted_log s is @ accepted_log (run s is) js"
  by (induction "is" arbitrary: s) simp_all

lemma accepted_log_steps:
  "accepted_log s is =
     concat (map (\<lambda>n. case accepted (run s (take n is)) (is ! n) of None \<Rightarrow> [] | Some b \<Rightarrow> [b]) [0..<length is])"
proof (induction "is" rule: rev_induct)
  case (snoc i "is")
  have eq: "map (\<lambda>n. case accepted (run s (take n (is @ [i]))) ((is @ [i]) ! n) of None \<Rightarrow> [] | Some b \<Rightarrow> [b]) [0..<length is]
      = map (\<lambda>n. case accepted (run s (take n is)) (is ! n) of None \<Rightarrow> [] | Some b \<Rightarrow> [b]) [0..<length is]"
    by (rule map_cong) (simp_all add: nth_append)
  show ?case
    unfolding accepted_log_append snoc.IH by (simp del: take_append add: eq) simp
qed simp

lemma run_bound: "ok s \<Longrightarrow> length (queue (run s is)) \<le> 16"
  by (simp add: queue_bound ok_run)

text \<open>Nothing is lost, duplicated or reordered between acceptance and consumption.\<close>

lemma conservation:
  assumes "ok s" and "never_cleared s is"
  shows "consumed_log s is @ queue (run s is) = queue s @ accepted_log s is"
  using assms
proof (induction "is" arbitrary: s)
  case Nil
  then show ?case by simp
next
  case (Cons i "is")
  then have step: "consumed_log (next s i) is @ queue (run (next s i) is) =
      queue (next s i) @ accepted_log (next s i) is"
    using ok_next by simp
  show ?case
  proof (cases "consumed s i")
    case True
    with Cons.prems have "queue s = hd (queue s) # tl (queue s)"
      using consumed_nonempty by (metis list.collapse)
    with Cons.prems True step show ?thesis
      by (simp add: queue_next)
  next
    case False
    with Cons.prems step show ?thesis by (simp add: queue_next)
  qed
qed

end

end
