(* ===== verification/Uart_Rtl.thy ===== *)
theory Uart_Rtl
  imports Ring_Fifo
begin

text \<open>
  The UART \<open>rtl/core_modules/uart.v\<close>: its registers, its wires, and one clock edge.
  The clocked block assigns registers without blocking: every right-hand side reads the registers
  of before the edge, and where two sections assign one register the later one wins. So each
  section is a function \<open>section s i t\<close> that reads the old registers \<open>s\<close> and the inputs \<open>i\<close> and
  writes into \<open>t\<close>. The six FIFO flags are assigned with blocking assignments and are read back in
  the same edge, so they are read from \<open>t\<close>.
\<close>

unbundle bit_operations_syntax

section \<open>Registers and inputs\<close>

record uart =
  lcr :: "8 word"
  ier :: "8 word"
  fcr :: "8 word"
  scr :: "8 word"
  dll :: "8 word"
  dlh :: "8 word"
  tx_data :: "8 word"
  tx_busy :: bool
  tx_start_pending :: bool
  tx_state :: "4 word"
  tx_bit_count :: "4 word"
  tx_out :: bool
  tx_tick_count :: "4 word"
  baud_tick_counter :: "16 word"
  baud_div :: "16 word"
  tx_fifo :: ring_mem
  tx_fifo_head :: "4 word"
  tx_fifo_tail :: "4 word"
  tx_fifo_count :: "5 word"
  tx_fifo_pushed :: bool
  tx_fifo_popped :: bool
  tx_fifo_cleared :: bool
  rx_state :: "3 word"
  rx_shift :: "8 word"
  rx_bit_count :: "3 word"
  rx_tick_count :: "4 word"
  rx_meta :: bool
  rx_sync :: bool
  rbr :: "8 word"
  rx_oe :: bool
  rx_fifo :: ring_mem
  rx_fifo_head :: "4 word"
  rx_fifo_tail :: "4 word"
  rx_fifo_count :: "5 word"
  rx_fifo_pushed :: bool
  rx_fifo_popped :: bool
  rx_fifo_cleared :: bool
  thre_irq :: bool
  tx_thre_prev :: bool

record uart_in =
  in_rst :: bool
  in_addr :: "32 word"
  in_write_data :: "32 word"
  in_write_enable :: bool
  in_read_enable :: bool
  in_rx :: bool

definition UART_BASE :: "32 word" where "UART_BASE = 0x20000000"

definition TX_IDLE :: "4 word" where "TX_IDLE = 0"
definition TX_START :: "4 word" where "TX_START = 1"
definition TX_DATA :: "4 word" where "TX_DATA = 2"
definition TX_STOP :: "4 word" where "TX_STOP = 3"

definition RX_IDLE :: "3 word" where "RX_IDLE = 0"
definition RX_START :: "3 word" where "RX_START = 1"
definition RX_DATA :: "3 word" where "RX_DATA = 2"
definition RX_STOP :: "3 word" where "RX_STOP = 3"

lemmas tx_states [rtl_simps] = TX_IDLE_def TX_START_def TX_DATA_def TX_STOP_def
lemmas rx_states [rtl_simps] = RX_IDLE_def RX_START_def RX_DATA_def RX_STOP_def

section \<open>Wires\<close>

definition reg_sel :: "uart_in \<Rightarrow> 3 word" where
  "reg_sel i = ucast (drop_bit 2 (in_addr i))"

definition uart_valid :: "uart_in \<Rightarrow> bool" where
  "uart_valid i \<longleftrightarrow> UART_BASE \<le> in_addr i \<and> in_addr i \<le> UART_BASE + 7 * 4"

definition dlab :: "uart \<Rightarrow> bool" where "dlab s = bit (lcr s) 7"
definition fifo_enabled :: "uart \<Rightarrow> bool" where "fifo_enabled s = bit (fcr s) 0"
definition baud_tick :: "uart \<Rightarrow> bool" where "baud_tick s \<longleftrightarrow> baud_tick_counter s = 0"

definition tx_bit_tick :: "uart \<Rightarrow> bool" where
  "tx_bit_tick s \<longleftrightarrow> baud_tick s \<and> tx_tick_count s = 15"

definition tx_fifo_empty :: "uart \<Rightarrow> bool" where "tx_fifo_empty s \<longleftrightarrow> tx_fifo_count s = 0"
definition tx_fifo_full :: "uart \<Rightarrow> bool" where "tx_fifo_full s \<longleftrightarrow> tx_fifo_count s = 16"

definition tx_temt :: "uart \<Rightarrow> bool" where
  "tx_temt s \<longleftrightarrow> \<not> tx_busy s \<and> \<not> tx_start_pending s \<and> tx_fifo_empty s"

definition tx_thre :: "uart \<Rightarrow> bool" where
  "tx_thre s = (if fifo_enabled s then tx_fifo_empty s else \<not> tx_busy s \<and> \<not> tx_start_pending s)"

definition rx_dr :: "uart \<Rightarrow> bool" where "rx_dr s \<longleftrightarrow> rx_fifo_count s \<noteq> 0"
definition rx_fifo_full :: "uart \<Rightarrow> bool" where "rx_fifo_full s \<longleftrightarrow> rx_fifo_count s = 16"
definition rx_fifo_data :: "uart \<Rightarrow> 8 word" where "rx_fifo_data s = rx_fifo s (rx_fifo_head s)"

definition rx_fifo_pop_request :: "uart \<Rightarrow> uart_in \<Rightarrow> bool" where
  "rx_fifo_pop_request s i \<longleftrightarrow> in_read_enable i \<and> uart_valid i \<and> reg_sel i = 0 \<and> \<not> dlab s \<and> rx_dr s"

definition rx_fifo_clear_request :: "uart_in \<Rightarrow> bool" where
  "rx_fifo_clear_request i \<longleftrightarrow>
     in_write_enable i \<and> uart_valid i \<and> reg_sel i = 2 \<and> bit (in_write_data i) 1"

definition lsr :: "uart \<Rightarrow> 8 word" where
  "lsr s = (if tx_temt s then 0x40 else 0) OR (if tx_thre s then 0x20 else 0) OR
           (if rx_oe s then 2 else 0) OR (if rx_dr s then 1 else 0)"

definition rx_irq_pending :: "uart \<Rightarrow> bool" where
  "rx_irq_pending s \<longleftrightarrow> bit (ier s) 0 \<and> rx_dr s"

definition thre_irq_set :: "uart \<Rightarrow> bool" where
  "thre_irq_set s \<longleftrightarrow> tx_thre s \<and> \<not> tx_thre_prev s"

definition thre_irq_clear :: "uart \<Rightarrow> uart_in \<Rightarrow> bool" where
  "thre_irq_clear s i \<longleftrightarrow>
     (in_read_enable i \<and> uart_valid i \<and> reg_sel i = 2 \<and> \<not> rx_irq_pending s) \<or>
     (in_write_enable i \<and> uart_valid i \<and> reg_sel i = 0 \<and> \<not> dlab s)"

definition thre_irq_pending :: "uart \<Rightarrow> bool" where
  "thre_irq_pending s \<longleftrightarrow> bit (ier s) 1 \<and> thre_irq s"

definition uart_interrupt :: "uart \<Rightarrow> bool" where
  "uart_interrupt s \<longleftrightarrow> rx_irq_pending s \<or> thre_irq_pending s"

definition iir :: "uart \<Rightarrow> 8 word" where
  "iir s =
     (if rx_irq_pending s then (if fifo_enabled s then 0xC4 else 0x04)
      else if thre_irq_pending s then (if fifo_enabled s then 0xC2 else 0x02)
      else (if fifo_enabled s then 0xC1 else 0x01))"

definition uart_read_data :: "uart \<Rightarrow> uart_in \<Rightarrow> 32 word" where
  "uart_read_data s i =
     (if in_read_enable i \<and> uart_valid i then
        (if reg_sel i = 0 then
           (if dlab s then ucast (dll s) else ucast (if rx_dr s then rx_fifo_data s else rbr s))
         else if reg_sel i = 1 then (if dlab s then ucast (dlh s) else ucast (ier s))
         else if reg_sel i = 2 then ucast (iir s)
         else if reg_sel i = 3 then ucast (lcr s)
         else if reg_sel i = 4 then 0
         else if reg_sel i = 5 then ucast (lsr s)
         else if reg_sel i = 6 then 0
         else ucast (scr s))
      else 0)"

section \<open>One clock edge\<close>

definition uart_reset :: "uart \<Rightarrow> uart" where
  "uart_reset s = s
     \<lparr>lcr := 0, ier := 0, fcr := 0, scr := 0, dll := 1, dlh := 0, tx_data := 0, tx_busy := False,
      tx_start_pending := False, tx_state := TX_IDLE, tx_bit_count := 0, tx_out := True,
      baud_div := 1, baud_tick_counter := 0, tx_tick_count := 0, tx_fifo_head := 0,
      tx_fifo_tail := 0, tx_fifo_count := 0, rx_state := RX_IDLE, rx_shift := 0,
      rx_bit_count := 0, rx_tick_count := 0, rx_meta := True, rx_sync := True, rbr := 0,
      rx_oe := False, rx_fifo_head := 0, rx_fifo_tail := 0, rx_fifo_count := 0,
      thre_irq := False, tx_thre_prev := True\<rparr>"

definition uart_flags :: "uart \<Rightarrow> uart" where
  "uart_flags t = t
     \<lparr>tx_fifo_pushed := False, tx_fifo_popped := False, tx_fifo_cleared := False,
      rx_fifo_pushed := False, rx_fifo_popped := False, rx_fifo_cleared := False\<rparr>"

definition uart_baud :: "uart \<Rightarrow> uart \<Rightarrow> uart" where
  "uart_baud s t =
     (if baud_tick s then
        t\<lparr>baud_tick_counter := (if 1 < baud_div s then baud_div s - 1 else 0),
          tx_tick_count := tx_tick_count s + 1\<rparr>
      else t\<lparr>baud_tick_counter := baud_tick_counter s - 1\<rparr>)"

definition uart_tx_fsm :: "uart \<Rightarrow> uart \<Rightarrow> uart" where
  "uart_tx_fsm s t =
     (if \<not> tx_bit_tick s then t
      else if tx_state s = TX_IDLE then
        (if tx_start_pending s then
           t\<lparr>tx_state := TX_START, tx_out := False, tx_bit_count := 0, tx_start_pending := False\<rparr>
         else if \<not> tx_fifo_empty s then
           t\<lparr>tx_data := tx_fifo s (tx_fifo_head s), tx_fifo_head := tx_fifo_head s + 1,
             tx_fifo_popped := True, tx_state := TX_START, tx_out := False, tx_bit_count := 0,
             tx_busy := True\<rparr>
         else t\<lparr>tx_out := True\<rparr>)
      else if tx_state s = TX_START then
        t\<lparr>tx_state := TX_DATA, tx_out := bit (tx_data s) 0, tx_bit_count := 1\<rparr>
      else if tx_state s = TX_DATA then
        (if tx_bit_count s < 8 then
           t\<lparr>tx_out := bit (tx_data s) (unat (ucast (tx_bit_count s) :: 3 word)),
             tx_bit_count := tx_bit_count s + 1\<rparr>
         else t\<lparr>tx_state := TX_STOP, tx_out := True\<rparr>)
      else if tx_state s = TX_STOP then
        (if \<not> tx_fifo_empty s then
           t\<lparr>tx_data := tx_fifo s (tx_fifo_head s), tx_fifo_head := tx_fifo_head s + 1,
             tx_fifo_popped := True, tx_state := TX_START, tx_out := False, tx_bit_count := 0\<rparr>
         else t\<lparr>tx_state := TX_IDLE, tx_busy := False\<rparr>)
      else t\<lparr>tx_state := TX_IDLE\<rparr>)"

definition uart_write_thr :: "uart \<Rightarrow> uart_in \<Rightarrow> uart \<Rightarrow> uart" where
  "uart_write_thr s i t =
     (if dlab s then t\<lparr>dll := ucast (in_write_data i)\<rparr>
      else if fifo_enabled s then
        (if \<not> tx_fifo_full s then
           t\<lparr>tx_fifo := (tx_fifo s)(tx_fifo_tail s := ucast (in_write_data i)),
             tx_fifo_tail := tx_fifo_tail s + 1, tx_fifo_pushed := True\<rparr>
         else t)
      else if \<not> tx_busy s \<and> \<not> tx_start_pending s then
        t\<lparr>tx_data := ucast (in_write_data i), tx_start_pending := True, tx_busy := True\<rparr>
      else t)"

definition uart_clear_rx :: "uart \<Rightarrow> uart" where
  "uart_clear_rx t =
     t\<lparr>rx_fifo_head := 0, rx_fifo_tail := 0, rx_fifo_cleared := True, rx_oe := False\<rparr>"

definition uart_clear_tx :: "uart \<Rightarrow> uart \<Rightarrow> uart" where
  "uart_clear_tx s t =
     (let t = t\<lparr>tx_fifo_head := 0, tx_fifo_tail := 0, tx_fifo_cleared := True\<rparr>
      in if tx_start_pending s \<and> tx_state s = TX_IDLE
         then t\<lparr>tx_start_pending := False, tx_busy := False\<rparr> else t)"

definition uart_write_fcr :: "uart \<Rightarrow> uart_in \<Rightarrow> uart \<Rightarrow> uart" where
  "uart_write_fcr s i t =
     (let t = t\<lparr>fcr := ucast (in_write_data i)\<rparr>;
          t = (if bit (in_write_data i) 1 then uart_clear_rx t else t)
      in if bit (in_write_data i) 2 then uart_clear_tx s t else t)"

definition uart_write_lcr :: "uart \<Rightarrow> uart_in \<Rightarrow> uart \<Rightarrow> uart" where
  "uart_write_lcr s i t =
     (let t = (if bit (lcr s) 7 \<and> \<not> bit (in_write_data i) 7
               then t\<lparr>baud_div := word_cat (dlh s) (dll s)\<rparr> else t)
      in t\<lparr>lcr := ucast (in_write_data i)\<rparr>)"

definition uart_writes :: "uart \<Rightarrow> uart_in \<Rightarrow> uart \<Rightarrow> uart" where
  "uart_writes s i t =
     (if \<not> (in_write_enable i \<and> uart_valid i) then t
      else if reg_sel i = 0 then uart_write_thr s i t
      else if reg_sel i = 1 then
        (if dlab s then t\<lparr>dlh := ucast (in_write_data i)\<rparr> else t\<lparr>ier := ucast (in_write_data i)\<rparr>)
      else if reg_sel i = 2 then uart_write_fcr s i t
      else if reg_sel i = 3 then uart_write_lcr s i t
      else if reg_sel i = 7 then t\<lparr>scr := ucast (in_write_data i)\<rparr>
      else t)"

definition uart_tx_count :: "uart \<Rightarrow> uart \<Rightarrow> uart" where
  "uart_tx_count s t =
     (if tx_fifo_cleared t then t\<lparr>tx_fifo_count := 0\<rparr>
      else if tx_fifo_pushed t \<and> \<not> tx_fifo_popped t then t\<lparr>tx_fifo_count := tx_fifo_count s + 1\<rparr>
      else if \<not> tx_fifo_pushed t \<and> tx_fifo_popped t then t\<lparr>tx_fifo_count := tx_fifo_count s - 1\<rparr>
      else t)"

definition uart_rx_sync :: "uart \<Rightarrow> uart_in \<Rightarrow> uart \<Rightarrow> uart" where
  "uart_rx_sync s i t = t\<lparr>rx_meta := in_rx i, rx_sync := rx_meta s\<rparr>"

definition uart_rx_frame :: "uart \<Rightarrow> uart_in \<Rightarrow> uart \<Rightarrow> uart" where
  "uart_rx_frame s i t =
     (if rx_sync s \<and> \<not> rx_fifo_clear_request i then
        (if rx_fifo_full s \<and> \<not> rx_fifo_pop_request s i then t\<lparr>rx_oe := True\<rparr>
         else t\<lparr>rx_fifo := (rx_fifo s)(rx_fifo_tail s := rx_shift s),
                rx_fifo_tail := rx_fifo_tail s + 1, rx_fifo_pushed := True, rbr := rx_shift s\<rparr>)
      else t)"

definition uart_rx_fsm :: "uart \<Rightarrow> uart_in \<Rightarrow> uart \<Rightarrow> uart" where
  "uart_rx_fsm s i t =
     (if rx_state s = RX_IDLE then
        (if baud_tick s \<and> \<not> rx_sync s then t\<lparr>rx_tick_count := 0, rx_state := RX_START\<rparr> else t)
      else if rx_state s = RX_START then
        (if baud_tick s \<and> rx_tick_count s \<noteq> 6 then t\<lparr>rx_tick_count := rx_tick_count s + 1\<rparr>
         else if baud_tick s then
           (if \<not> rx_sync s then
              t\<lparr>rx_tick_count := 0, rx_state := RX_DATA, rx_bit_count := 0, rx_shift := 0\<rparr>
            else t\<lparr>rx_state := RX_IDLE\<rparr>)
         else t)
      else if rx_state s = RX_DATA then
        (if baud_tick s \<and> rx_tick_count s \<noteq> 15 then t\<lparr>rx_tick_count := rx_tick_count s + 1\<rparr>
         else if baud_tick s then
           (let t = t\<lparr>rx_tick_count := 0,
                      rx_shift := (if rx_sync s then set_bit else unset_bit)
                                    (unat (rx_bit_count s)) (rx_shift s)\<rparr>
            in if rx_bit_count s = 7 then t\<lparr>rx_state := RX_STOP\<rparr>
               else t\<lparr>rx_bit_count := rx_bit_count s + 1\<rparr>)
         else t)
      else if rx_state s = RX_STOP then
        (if baud_tick s \<and> rx_tick_count s \<noteq> 15 then t\<lparr>rx_tick_count := rx_tick_count s + 1\<rparr>
         else if baud_tick s then (uart_rx_frame s i t)\<lparr>rx_state := RX_IDLE\<rparr>
         else t)
      else t\<lparr>rx_state := RX_IDLE\<rparr>)"

definition uart_rx_pop :: "uart \<Rightarrow> uart_in \<Rightarrow> uart \<Rightarrow> uart" where
  "uart_rx_pop s i t =
     (if rx_fifo_pop_request s i
      then t\<lparr>rx_fifo_head := rx_fifo_head s + 1, rx_fifo_popped := True\<rparr> else t)"

definition uart_rx_count :: "uart \<Rightarrow> uart \<Rightarrow> uart" where
  "uart_rx_count s t =
     (if rx_fifo_cleared t then t\<lparr>rx_fifo_count := 0\<rparr>
      else if rx_fifo_pushed t \<and> \<not> rx_fifo_popped t then t\<lparr>rx_fifo_count := rx_fifo_count s + 1\<rparr>
      else if \<not> rx_fifo_pushed t \<and> rx_fifo_popped t then t\<lparr>rx_fifo_count := rx_fifo_count s - 1\<rparr>
      else t)"

definition uart_thre :: "uart \<Rightarrow> uart_in \<Rightarrow> uart \<Rightarrow> uart" where
  "uart_thre s i t =
     (let t = t\<lparr>tx_thre_prev := tx_thre s\<rparr>;
          t = (if thre_irq_set s then t\<lparr>thre_irq := True\<rparr> else t)
      in if thre_irq_clear s i then t\<lparr>thre_irq := False\<rparr> else t)"

definition uart_step :: "uart \<Rightarrow> uart_in \<Rightarrow> uart" where
  "uart_step s i =
     (if in_rst i then uart_reset s
      else uart_thre s i (uart_rx_count s (uart_rx_pop s i (uart_rx_fsm s i (uart_rx_sync s i
             (uart_tx_count s (uart_writes s i (uart_tx_fsm s (uart_baud s (uart_flags s))))))))))"

section \<open>The registers each section assigns\<close>

text \<open>
  Each section as one unconditional update of the registers it may assign. Any register of
  \<open>uart_step s i\<close> is read off these by the simplifier, without unfolding the sections.
\<close>

definition wr :: "uart_in \<Rightarrow> 3 word \<Rightarrow> bool" where
  "wr i r \<longleftrightarrow> in_write_enable i \<and> uart_valid i \<and> reg_sel i = r"

definition tx_pop :: "uart \<Rightarrow> bool" where
  "tx_pop s \<longleftrightarrow> tx_bit_tick s \<and> \<not> tx_fifo_empty s \<and>
     (tx_state s = TX_IDLE \<and> \<not> tx_start_pending s \<or> tx_state s = TX_STOP)"

definition tx_push :: "uart \<Rightarrow> uart_in \<Rightarrow> bool" where
  "tx_push s i \<longleftrightarrow> wr i 0 \<and> \<not> dlab s \<and> fifo_enabled s \<and> \<not> tx_fifo_full s"

definition tx_load :: "uart \<Rightarrow> uart_in \<Rightarrow> bool" where
  "tx_load s i \<longleftrightarrow> wr i 0 \<and> \<not> dlab s \<and> \<not> fifo_enabled s \<and> \<not> tx_busy s \<and> \<not> tx_start_pending s"

definition tx_clear :: "uart_in \<Rightarrow> bool" where
  "tx_clear i \<longleftrightarrow> wr i 2 \<and> bit (in_write_data i) 2"

definition rx_push :: "uart \<Rightarrow> uart_in \<Rightarrow> bool" where
  "rx_push s i \<longleftrightarrow> rx_state s = RX_STOP \<and> baud_tick s \<and> rx_tick_count s = 15 \<and> rx_sync s \<and>
     \<not> rx_fifo_clear_request i \<and> \<not> (rx_fifo_full s \<and> \<not> rx_fifo_pop_request s i)"

definition rx_overrun :: "uart \<Rightarrow> uart_in \<Rightarrow> bool" where
  "rx_overrun s i \<longleftrightarrow> rx_state s = RX_STOP \<and> baud_tick s \<and> rx_tick_count s = 15 \<and> rx_sync s \<and>
     \<not> rx_fifo_clear_request i \<and> rx_fifo_full s \<and> \<not> rx_fifo_pop_request s i"

lemma rx_clear_wr: "rx_fifo_clear_request i \<longleftrightarrow> wr i 2 \<and> bit (in_write_data i) 1"
  by (auto simp: rx_fifo_clear_request_def wr_def)

lemma uart_baud_upd:
  "uart_baud s t = t
     \<lparr>baud_tick_counter := (if baud_tick s then if 1 < baud_div s then baud_div s - 1 else 0
                            else baud_tick_counter s - 1),
      tx_tick_count := (if baud_tick s then tx_tick_count s + 1 else tx_tick_count t)\<rparr>"
  by (simp add: uart_baud_def)

definition tx_state_next :: "uart \<Rightarrow> 4 word" where
  "tx_state_next s =
     (if \<not> tx_bit_tick s then tx_state s
      else if tx_state s = TX_IDLE then (if tx_start_pending s \<or> \<not> tx_fifo_empty s then TX_START else TX_IDLE)
      else if tx_state s = TX_START then TX_DATA
      else if tx_state s = TX_DATA then (if tx_bit_count s < 8 then TX_DATA else TX_STOP)
      else if tx_state s = TX_STOP then (if tx_fifo_empty s then TX_IDLE else TX_START)
      else TX_IDLE)"

definition tx_bit_count_next :: "uart \<Rightarrow> 4 word" where
  "tx_bit_count_next s =
     (if \<not> tx_bit_tick s then tx_bit_count s
      else if tx_state_next s = TX_START then 0
      else if tx_state s = TX_START then 1
      else if tx_state s = TX_DATA \<and> tx_bit_count s < 8 then tx_bit_count s + 1
      else tx_bit_count s)"

definition tx_out_next :: "uart \<Rightarrow> bool" where
  "tx_out_next s =
     (if \<not> tx_bit_tick s then tx_out s
      else if tx_state_next s = TX_START then False
      else if tx_state s = TX_IDLE then True
      else if tx_state s = TX_START then bit (tx_data s) 0
      else if tx_state s = TX_DATA
      then (if tx_bit_count s < 8 then bit (tx_data s) (unat (ucast (tx_bit_count s) :: 3 word)) else True)
      else tx_out s)"

definition tx_busy_fsm :: "uart \<Rightarrow> bool" where
  "tx_busy_fsm s =
     (if tx_bit_tick s \<and> tx_state s = TX_STOP \<and> tx_fifo_empty s then False else tx_busy s \<or> tx_pop s \<and> tx_state s = TX_IDLE)"

lemma uart_tx_fsm_upd:
  assumes "tx_state t = tx_state s" "tx_start_pending t = tx_start_pending s" "tx_data t = tx_data s"
    "tx_fifo_head t = tx_fifo_head s" "\<not> tx_fifo_popped t" "tx_out t = tx_out s"
    "tx_bit_count t = tx_bit_count s" "tx_busy t = tx_busy s"
  shows "uart_tx_fsm s t = t
     \<lparr>tx_state := tx_state_next s,
      tx_start_pending := (tx_start_pending s \<and> \<not> (tx_bit_tick s \<and> tx_state s = TX_IDLE)),
      tx_data := (if tx_pop s then tx_fifo s (tx_fifo_head s) else tx_data s),
      tx_fifo_head := (if tx_pop s then tx_fifo_head s + 1 else tx_fifo_head s),
      tx_fifo_popped := tx_pop s,
      tx_out := tx_out_next s, tx_bit_count := tx_bit_count_next s, tx_busy := tx_busy_fsm s\<rparr>"
  using assms
  by (intro uart.equality) (auto simp: uart_tx_fsm_def tx_state_next_def tx_bit_count_next_def tx_out_next_def tx_busy_fsm_def tx_pop_def rtl_simps)

lemma uart_writes_upd:
  "uart_writes s i t = t
     \<lparr>tx_fifo := (if tx_push s i then (tx_fifo s)(tx_fifo_tail s := ucast (in_write_data i)) else tx_fifo t),
      tx_fifo_tail := (if tx_clear i then 0 else if tx_push s i then tx_fifo_tail s + 1 else tx_fifo_tail t),
      tx_fifo_head := (if tx_clear i then 0 else tx_fifo_head t),
      tx_fifo_pushed := (tx_push s i \<or> tx_fifo_pushed t),
      tx_fifo_cleared := (tx_clear i \<or> tx_fifo_cleared t),
      tx_data := (if tx_load s i then ucast (in_write_data i) else tx_data t),
      tx_start_pending := (if tx_clear i \<and> tx_start_pending s \<and> tx_state s = TX_IDLE then False
                           else tx_load s i \<or> tx_start_pending t),
      tx_busy := (if tx_clear i \<and> tx_start_pending s \<and> tx_state s = TX_IDLE then False
                  else tx_load s i \<or> tx_busy t),
      rx_fifo_head := (if rx_fifo_clear_request i then 0 else rx_fifo_head t),
      rx_fifo_tail := (if rx_fifo_clear_request i then 0 else rx_fifo_tail t),
      rx_fifo_cleared := (rx_fifo_clear_request i \<or> rx_fifo_cleared t),
      rx_oe := (\<not> rx_fifo_clear_request i \<and> rx_oe t),
      fcr := (if wr i 2 then ucast (in_write_data i) else fcr t),
      lcr := (if wr i 3 then ucast (in_write_data i) else lcr t),
      ier := (if wr i 1 \<and> \<not> dlab s then ucast (in_write_data i) else ier t),
      dlh := (if wr i 1 \<and> dlab s then ucast (in_write_data i) else dlh t),
      dll := (if wr i 0 \<and> dlab s then ucast (in_write_data i) else dll t),
      scr := (if wr i 7 then ucast (in_write_data i) else scr t),
      baud_div := (if wr i 3 \<and> dlab s \<and> \<not> bit (in_write_data i) 7 then word_cat (dlh s) (dll s)
                   else baud_div t)\<rparr>"
  by (intro uart.equality)
    (auto simp: uart_writes_def uart_write_thr_def uart_write_fcr_def uart_write_lcr_def uart_clear_rx_def
      uart_clear_tx_def tx_push_def tx_load_def tx_clear_def rx_clear_wr wr_def dlab_def Let_def)

lemma uart_tx_count_upd:
  "uart_tx_count s t = t
     \<lparr>tx_fifo_count :=
        (if tx_fifo_cleared t then 0
         else if tx_fifo_pushed t \<and> \<not> tx_fifo_popped t then tx_fifo_count s + 1
         else if \<not> tx_fifo_pushed t \<and> tx_fifo_popped t then tx_fifo_count s - 1
         else tx_fifo_count t)\<rparr>"
  by (simp add: uart_tx_count_def)

text \<open>The receiver's state machine alone: state, tick count, bit count and shift register.\<close>

type_synonym rx_fsm = "3 word \<times> 4 word \<times> 3 word \<times> 8 word"

definition rx_fsm_of :: "uart \<Rightarrow> rx_fsm" where
  "rx_fsm_of s = (rx_state s, rx_tick_count s, rx_bit_count s, rx_shift s)"

fun rx_tick :: "bool \<Rightarrow> rx_fsm \<Rightarrow> rx_fsm" where
  "rx_tick b (st, tc, bc, sh) =
     (if st = RX_IDLE then (if b then (st, tc, bc, sh) else (RX_START, 0, bc, sh))
      else if st = RX_START then
        (if tc \<noteq> 6 then (st, tc + 1, bc, sh)
         else if b then (RX_IDLE, tc, bc, sh) else (RX_DATA, 0, 0, 0))
      else if st = RX_DATA then
        (if tc \<noteq> 15 then (st, tc + 1, bc, sh)
         else (if bc = 7 then RX_STOP else st, 0, if bc = 7 then bc else bc + 1,
               (if b then set_bit else unset_bit) (unat bc) sh))
      else if st = RX_STOP then
        (if tc \<noteq> 15 then (st, tc + 1, bc, sh) else (RX_IDLE, tc, bc, sh))
      else (RX_IDLE, tc, bc, sh))"

definition rx_fsm_next :: "uart \<Rightarrow> rx_fsm" where
  "rx_fsm_next s =
     (if baud_tick s then rx_tick (rx_sync s) (rx_fsm_of s)
      else (if rx_state s \<in> {RX_IDLE, RX_START, RX_DATA, RX_STOP} then rx_state s else RX_IDLE,
            rx_tick_count s, rx_bit_count s, rx_shift s))"

lemma uart_rx_fsm_upd:
  assumes "rx_fsm_of t = rx_fsm_of s" "\<not> rx_fifo_pushed t"
  shows "uart_rx_fsm s i t = t
     \<lparr>rx_state := fst (rx_fsm_next s), rx_tick_count := fst (snd (rx_fsm_next s)),
      rx_bit_count := fst (snd (snd (rx_fsm_next s))), rx_shift := snd (snd (snd (rx_fsm_next s))),
      rx_fifo := (if rx_push s i then (rx_fifo s)(rx_fifo_tail s := rx_shift s) else rx_fifo t),
      rx_fifo_tail := (if rx_push s i then rx_fifo_tail s + 1 else rx_fifo_tail t),
      rx_fifo_pushed := rx_push s i,
      rbr := (if rx_push s i then rx_shift s else rbr t),
      rx_oe := (rx_overrun s i \<or> rx_oe t)\<rparr>"
  using assms
  by (intro uart.equality)
    (auto simp: uart_rx_fsm_def uart_rx_frame_def rx_fsm_next_def rx_fsm_of_def rx_push_def
      rx_overrun_def rtl_simps Let_def)

lemma uart_rx_pop_upd:
  "uart_rx_pop s i t = t
     \<lparr>rx_fifo_head := (if rx_fifo_pop_request s i then rx_fifo_head s + 1 else rx_fifo_head t),
      rx_fifo_popped := (rx_fifo_pop_request s i \<or> rx_fifo_popped t)\<rparr>"
  by (simp add: uart_rx_pop_def)

lemma uart_rx_count_upd:
  "uart_rx_count s t = t
     \<lparr>rx_fifo_count :=
        (if rx_fifo_cleared t then 0
         else if rx_fifo_pushed t \<and> \<not> rx_fifo_popped t then rx_fifo_count s + 1
         else if \<not> rx_fifo_pushed t \<and> rx_fifo_popped t then rx_fifo_count s - 1
         else rx_fifo_count t)\<rparr>"
  by (simp add: uart_rx_count_def)

lemma uart_thre_upd:
  "uart_thre s i t = t
     \<lparr>tx_thre_prev := tx_thre s,
      thre_irq := (\<not> thre_irq_clear s i \<and> (thre_irq_set s \<or> thre_irq t))\<rparr>"
  by (simp add: uart_thre_def Let_def)

section \<open>The registers after an edge\<close>

lemmas uart_upds = uart_step_def uart_flags_def uart_baud_upd uart_tx_fsm_upd uart_writes_upd uart_tx_count_upd
  uart_rx_sync_def uart_rx_fsm_upd uart_rx_pop_upd uart_rx_count_upd uart_thre_upd rx_fsm_of_def

lemma uart_step_rst: "in_rst i \<Longrightarrow> uart_step s i = uart_reset s"
  by (simp add: uart_step_def)

lemma uart_step_baud:
  assumes "\<not> in_rst i"
  shows "baud_tick_counter (uart_step s i) =
      (if baud_tick s then if 1 < baud_div s then baud_div s - 1 else 0 else baud_tick_counter s - 1)"
    and "baud_div (uart_step s i) =
      (if wr i 3 \<and> dlab s \<and> \<not> bit (in_write_data i) 7 then word_cat (dlh s) (dll s) else baud_div s)"
    and "lcr (uart_step s i) = (if wr i 3 then ucast (in_write_data i) else lcr s)"
    and "fcr (uart_step s i) = (if wr i 2 then ucast (in_write_data i) else fcr s)"
  using assms by (simp_all add: uart_upds)

lemma uart_step_tx:
  assumes "\<not> in_rst i"
  shows "tx_state (uart_step s i) = tx_state_next s"
    and "tx_start_pending (uart_step s i) =
      (if tx_clear i \<and> tx_start_pending s \<and> tx_state s = TX_IDLE then False
       else tx_load s i \<or> tx_start_pending s \<and> \<not> (tx_bit_tick s \<and> tx_state s = TX_IDLE))"
    and "tx_data (uart_step s i) =
      (if tx_load s i then ucast (in_write_data i) else if tx_pop s then tx_fifo s (tx_fifo_head s) else tx_data s)"
  using assms by (simp_all add: uart_upds)

lemma uart_step_tx_fifo:
  assumes "\<not> in_rst i"
  shows "tx_fifo (uart_step s i) =
      (if tx_push s i then (tx_fifo s)(tx_fifo_tail s := ucast (in_write_data i)) else tx_fifo s)"
    and "tx_fifo_head (uart_step s i) =
      (if tx_clear i then 0 else if tx_pop s then tx_fifo_head s + 1 else tx_fifo_head s)"
    and "tx_fifo_tail (uart_step s i) =
      (if tx_clear i then 0 else if tx_push s i then tx_fifo_tail s + 1 else tx_fifo_tail s)"
    and "tx_fifo_count (uart_step s i) =
      (if tx_clear i then 0
       else if tx_push s i \<and> \<not> tx_pop s then tx_fifo_count s + 1
       else if \<not> tx_push s i \<and> tx_pop s then tx_fifo_count s - 1
       else tx_fifo_count s)"
  using assms by (simp_all add: uart_upds)

lemma uart_step_rx:
  assumes "\<not> in_rst i"
  shows "rx_fsm_of (uart_step s i) = rx_fsm_next s"
    and "rx_meta (uart_step s i) = in_rx i"
    and "rx_sync (uart_step s i) = rx_meta s"
    and "rx_oe (uart_step s i) = (rx_overrun s i \<or> \<not> rx_fifo_clear_request i \<and> rx_oe s)"
  using assms by (simp_all add: uart_upds)

lemma uart_step_rx_fifo:
  assumes "\<not> in_rst i"
  shows "rx_fifo (uart_step s i) = (if rx_push s i then (rx_fifo s)(rx_fifo_tail s := rx_shift s) else rx_fifo s)"
    and "rx_fifo_head (uart_step s i) =
      (if rx_fifo_pop_request s i then rx_fifo_head s + 1 else if rx_fifo_clear_request i then 0 else rx_fifo_head s)"
    and "rx_fifo_tail (uart_step s i) =
      (if rx_push s i then rx_fifo_tail s + 1 else if rx_fifo_clear_request i then 0 else rx_fifo_tail s)"
    and "rx_fifo_count (uart_step s i) =
      (if rx_fifo_clear_request i then 0
       else if rx_push s i \<and> \<not> rx_fifo_pop_request s i then rx_fifo_count s + 1
       else if \<not> rx_push s i \<and> rx_fifo_pop_request s i then rx_fifo_count s - 1
       else rx_fifo_count s)"
  using assms by (simp_all add: uart_upds)

section \<open>The transmit and the receive FIFO\<close>

definition uart_ok :: "uart \<Rightarrow> bool" where
  "uart_ok s \<longleftrightarrow> ring_ok (tx_fifo_head s) (tx_fifo_tail s) (tx_fifo_count s) \<and>
     ring_ok (rx_fifo_head s) (rx_fifo_tail s) (rx_fifo_count s)"

definition tx_queue :: "uart \<Rightarrow> 8 word list" where
  "tx_queue s = ring_list (tx_fifo s) (tx_fifo_head s) (tx_fifo_count s)"

definition rx_queue :: "uart \<Rightarrow> 8 word list" where
  "rx_queue s = ring_list (rx_fifo s) (rx_fifo_head s) (rx_fifo_count s)"

definition tx_accepted :: "uart \<Rightarrow> uart_in \<Rightarrow> 8 word option" where
  "tx_accepted s i = (if \<not> in_rst i \<and> tx_push s i then Some (ucast (in_write_data i)) else None)"

definition tx_consumed :: "uart \<Rightarrow> uart_in \<Rightarrow> bool" where
  "tx_consumed s i \<longleftrightarrow> \<not> in_rst i \<and> tx_pop s"

definition tx_cleared :: "uart \<Rightarrow> uart_in \<Rightarrow> bool" where
  "tx_cleared s i \<longleftrightarrow> in_rst i \<or> tx_clear i"

definition rx_accepted :: "uart \<Rightarrow> uart_in \<Rightarrow> 8 word option" where
  "rx_accepted s i = (if \<not> in_rst i \<and> rx_push s i then Some (rx_shift s) else None)"

definition rx_consumed :: "uart \<Rightarrow> uart_in \<Rightarrow> bool" where
  "rx_consumed s i \<longleftrightarrow> \<not> in_rst i \<and> rx_fifo_pop_request s i"

definition rx_cleared :: "uart \<Rightarrow> uart_in \<Rightarrow> bool" where
  "rx_cleared s i \<longleftrightarrow> in_rst i \<or> rx_fifo_clear_request i"

lemma uart_ok_reset [simp]: "uart_ok (uart_reset s)"
  by (simp add: uart_ok_def uart_reset_def)

lemma rx_pop_not_clear: "rx_fifo_pop_request s i \<Longrightarrow> \<not> rx_fifo_clear_request i"
  by (auto simp: rx_fifo_pop_request_def rx_fifo_clear_request_def)

lemma count_not_16: "ring_ok h t c \<Longrightarrow> c \<noteq> 16 \<Longrightarrow> unat c < 16"
proof -
  assume "ring_ok h t c" and "c \<noteq> 16"
  moreover from this(2) have "unat c \<noteq> 16" by (simp add: word_unat_eq_iff)
  ultimately show "unat c < 16" by (simp add: ring_ok_def)
qed

lemma rx_push_not_clear: "rx_push s i \<Longrightarrow> \<not> rx_fifo_clear_request i"
  by (simp add: rx_push_def)

lemma tx_push_room: "ring_ok h t (tx_fifo_count s) \<Longrightarrow> tx_push s i \<Longrightarrow> pop \<or> unat (tx_fifo_count s) < 16"
  by (auto simp: tx_push_def tx_fifo_full_def dest: count_not_16)

lemma tx_pop_nonempty: "tx_pop s \<Longrightarrow> tx_fifo_count s \<noteq> 0"
  by (simp add: tx_pop_def tx_fifo_empty_def)

lemma rx_push_room:
  "ring_ok h t (rx_fifo_count s) \<Longrightarrow> rx_push s i \<Longrightarrow> rx_fifo_pop_request s i \<or> unat (rx_fifo_count s) < 16"
  by (auto simp: rx_push_def rx_fifo_full_def dest: count_not_16)

lemma rx_pop_nonempty: "rx_fifo_pop_request s i \<Longrightarrow> rx_fifo_count s \<noteq> 0"
  by (simp add: rx_fifo_pop_request_def rx_dr_def)

text \<open>The registers of one ring after an edge at which it may be pushed, popped, both or neither.\<close>

lemma ring_edge:
  assumes "ring_ok h t c" and "push \<Longrightarrow> pop \<or> unat c < 16" and "pop \<Longrightarrow> c \<noteq> 0"
  defines "h' \<equiv> if pop then h + 1 else h" and "t' \<equiv> if push then t + 1 else t"
    and "c' \<equiv> if push \<and> \<not> pop then c + 1 else if \<not> push \<and> pop then c - 1 else c"
  shows "ring_ok h' t' c'"
    and "ring_list (if push then m(t := x) else m) h' c' =
         (if pop then tl (ring_list m h c) else ring_list m h c) @ (if push then [x] else [])"
  using assms ring_push [OF assms(1)] ring_pop [OF assms(1)] ring_push_pop [OF assms(1)] by auto

lemma tx_ring_step:
  assumes "uart_ok s" and "\<not> in_rst i" and "\<not> tx_clear i"
  shows "ring_ok (tx_fifo_head (uart_step s i)) (tx_fifo_tail (uart_step s i)) (tx_fifo_count (uart_step s i))"
    and "tx_queue (uart_step s i) =
      (if tx_pop s then tl (tx_queue s) else tx_queue s) @ (if tx_push s i then [ucast (in_write_data i)] else [])"
proof -
  from assms(1) have tx: "ring_ok (tx_fifo_head s) (tx_fifo_tail s) (tx_fifo_count s)" by (simp add: uart_ok_def)
  note edge = ring_edge [OF tx, of "tx_push s i" "tx_pop s", OF tx_push_room [OF tx, of i "tx_pop s"] tx_pop_nonempty]
  from edge(1) assms(2,3)
  show "ring_ok (tx_fifo_head (uart_step s i)) (tx_fifo_tail (uart_step s i)) (tx_fifo_count (uart_step s i))"
    by (simp add: uart_step_tx_fifo)
  from edge(2) [of "tx_fifo s" "ucast (in_write_data i)"] assms(2,3)
  show "tx_queue (uart_step s i) =
      (if tx_pop s then tl (tx_queue s) else tx_queue s) @ (if tx_push s i then [ucast (in_write_data i)] else [])"
    by (simp add: uart_step_tx_fifo tx_queue_def)
qed

lemma rx_ring_step:
  assumes "uart_ok s" and "\<not> in_rst i" and "\<not> rx_fifo_clear_request i"
  shows "ring_ok (rx_fifo_head (uart_step s i)) (rx_fifo_tail (uart_step s i)) (rx_fifo_count (uart_step s i))"
    and "rx_queue (uart_step s i) =
      (if rx_fifo_pop_request s i then tl (rx_queue s) else rx_queue s) @ (if rx_push s i then [rx_shift s] else [])"
proof -
  from assms(1) have rx: "ring_ok (rx_fifo_head s) (rx_fifo_tail s) (rx_fifo_count s)" by (simp add: uart_ok_def)
  note edge = ring_edge [OF rx, of "rx_push s i" "rx_fifo_pop_request s i", OF rx_push_room [OF rx, of i] rx_pop_nonempty [of s i]]
  from edge(1) assms(2,3)
  show "ring_ok (rx_fifo_head (uart_step s i)) (rx_fifo_tail (uart_step s i)) (rx_fifo_count (uart_step s i))"
    by (simp add: uart_step_rx_fifo split: if_splits)
  from edge(2) [of "rx_fifo s" "rx_shift s"] assms(2,3)
  show "rx_queue (uart_step s i) =
      (if rx_fifo_pop_request s i then tl (rx_queue s) else rx_queue s) @ (if rx_push s i then [rx_shift s] else [])"
    by (simp add: uart_step_rx_fifo rx_queue_def split: if_splits)
qed

lemma uart_step_ok:
  assumes "uart_ok s"
  shows "uart_ok (uart_step s i)"
proof (cases "in_rst i")
  case True
  then show ?thesis by (simp add: uart_step_def)
next
  case False
  have "ring_ok (tx_fifo_head (uart_step s i)) (tx_fifo_tail (uart_step s i)) (tx_fifo_count (uart_step s i))"
    using tx_ring_step(1) [OF assms False] uart_step_tx_fifo [OF False, of s] by (cases "tx_clear i") simp_all
  moreover have "ring_ok (rx_fifo_head (uart_step s i)) (rx_fifo_tail (uart_step s i)) (rx_fifo_count (uart_step s i))"
    using rx_ring_step(1) [OF assms False] uart_step_rx_fifo [OF False, of s] rx_pop_not_clear [of s i]
      rx_push_not_clear [of s i] by (cases "rx_fifo_clear_request i") auto
  ultimately show ?thesis by (simp add: uart_ok_def)
qed

lemma uart_reset_queues [simp]: "tx_queue (uart_reset s) = []" "rx_queue (uart_reset s) = []"
  by (simp_all add: tx_queue_def rx_queue_def uart_reset_def)

lemma tx_queue_step:
  assumes "uart_ok s"
  shows "tx_queue (uart_step s i) =
    (if tx_cleared s i then []
     else (if tx_consumed s i then tl (tx_queue s) else tx_queue s) @
          (case tx_accepted s i of None \<Rightarrow> [] | Some b \<Rightarrow> [b]))"
proof (cases "tx_cleared s i")
  case True
  then show ?thesis
    by (cases "in_rst i") (simp_all add: tx_cleared_def uart_step_rst tx_queue_def [of "uart_step s i"] uart_step_tx_fifo)
next
  case False
  then show ?thesis
    using tx_ring_step(2) [OF assms, of i] by (simp add: tx_cleared_def tx_consumed_def tx_accepted_def)
qed

lemma rx_queue_step:
  assumes "uart_ok s"
  shows "rx_queue (uart_step s i) =
    (if rx_cleared s i then []
     else (if rx_consumed s i then tl (rx_queue s) else rx_queue s) @
          (case rx_accepted s i of None \<Rightarrow> [] | Some b \<Rightarrow> [b]))"
proof (cases "rx_cleared s i")
  case True
  then show ?thesis
    by (cases "in_rst i") (simp_all add: rx_cleared_def uart_step_rst rx_queue_def [of "uart_step s i"] uart_step_rx_fifo)
next
  case False
  then show ?thesis
    using rx_ring_step(2) [OF assms, of i] by (simp add: rx_cleared_def rx_consumed_def rx_accepted_def)
qed

lemma queue_length: "length (tx_queue s) = unat (tx_fifo_count s)" "length (rx_queue s) = unat (rx_fifo_count s)"
  by (simp_all add: tx_queue_def rx_queue_def)

interpretation txf: byte_fifo uart_ok tx_queue uart_step tx_accepted tx_consumed tx_cleared
proof unfold_locales
  show "uart_ok s \<Longrightarrow> length (tx_queue s) \<le> 16" for s
    by (simp add: queue_length uart_ok_def ring_ok_def)
  show "uart_ok s \<Longrightarrow> tx_consumed s i \<Longrightarrow> tx_queue s \<noteq> []" for s i
    using tx_pop_nonempty [of s] by (metis tx_consumed_def queue_length(1) list.size(3) unat_eq_zero)
qed (simp_all add: uart_step_ok tx_queue_step)

interpretation rxf: byte_fifo uart_ok rx_queue uart_step rx_accepted rx_consumed rx_cleared
proof unfold_locales
  show "uart_ok s \<Longrightarrow> length (rx_queue s) \<le> 16" for s
    by (simp add: queue_length uart_ok_def ring_ok_def)
  show "uart_ok s \<Longrightarrow> rx_consumed s i \<Longrightarrow> rx_queue s \<noteq> []" for s i
    using rx_pop_nonempty [of s i] by (metis rx_consumed_def queue_length(2) list.size(3) unat_eq_zero)
qed (simp_all add: uart_step_ok rx_queue_step)

end
