(* ===== verification/Uart_Link.thy ===== *)
theory Uart_Link
  imports Uart_Rtl Uart_Console
begin

text \<open>
  The Python serial code against the UART it drives. The console's polling of the transmitter sees
  every byte the software hands to the transmit FIFO, and the waveform \<open>uart_send_byte\<close> plays on the
  receive line is decoded by the receiver into that byte.
\<close>

section \<open>Runs of the UART\<close>

definition uart_run :: "uart \<Rightarrow> uart_in list \<Rightarrow> uart" where
  "uart_run = foldl uart_step"

lemma uart_run_simps [simp]: "uart_run s [] = s" "uart_run s (i # is) = uart_run (uart_step s i) is"
  by (simp_all add: uart_run_def)

lemma uart_run_append: "uart_run s (is @ js) = uart_run (uart_run s is) js"
  by (simp add: uart_run_def)

lemma fifo_run: "txf.run s is = uart_run s is" "rxf.run s is = uart_run s is"
  by (induction "is" arbitrary: s) simp_all

text \<open>The bytes software writes to THR while the transmit FIFO has room, and those the FIFO hands on.\<close>

fun thr_written :: "uart \<Rightarrow> uart_in list \<Rightarrow> 8 word list" where
  "thr_written s [] = []"
| "thr_written s (i # is) =
     (case tx_accepted s i of None \<Rightarrow> [] | Some b \<Rightarrow> [b]) @ thr_written (uart_step s i) is"

lemma thr_written_log: "txf.accepted_log s is = thr_written s is"
  by (induction "is" arbitrary: s) simp_all

section \<open>The console against the transmitter\<close>

text \<open>What a simulator of the UART shows of its registers.\<close>

definition shows_uart :: "dut \<Rightarrow> uart \<Rightarrow> bool" where
  "shows_uart d s \<longleftrightarrow> d ''uart_inst.tx_state'' = Value (uint (tx_state s)) \<and>
     d ''uart_inst.tx_data'' = Value (uint (tx_data s)) \<and>
     d ''uart_inst.baud_div'' = Value (uint (baud_div s)) \<and>
     d ''uart_inst.rx_fifo_count'' = Value (uint (rx_fifo_count s))"

text \<open>Software that keeps the FIFOs enabled and does not clear the transmit FIFO.\<close>

definition keeps_tx_fifo :: "uart_in \<Rightarrow> bool" where
  "keeps_tx_fifo i \<longleftrightarrow> \<not> in_rst i \<and> (wr i 2 \<longrightarrow> bit (in_write_data i) 0 \<and> \<not> bit (in_write_data i) 2)"

definition fifo_mode :: "uart \<Rightarrow> bool" where
  "fifo_mode s \<longleftrightarrow> uart_ok s \<and> fifo_enabled s \<and> \<not> tx_start_pending s"

lemma fifo_mode_step:
  assumes "fifo_mode s" and "keeps_tx_fifo i"
  shows "fifo_mode (uart_step s i)"
proof -
  have r: "\<not> in_rst i" using assms(2) by (simp add: keeps_tx_fifo_def)
  have "fifo_enabled (uart_step s i)"
    using assms by (simp add: fifo_enabled_def uart_step_baud(4) [OF r] keeps_tx_fifo_def fifo_mode_def bit_ucast_iff)
  moreover have "\<not> tx_start_pending (uart_step s i)"
    using assms by (simp add: uart_step_tx [OF r] fifo_mode_def tx_load_def)
  ultimately show ?thesis using assms(1) by (simp add: fifo_mode_def uart_step_ok)
qed

lemma fifo_mode_run: "fifo_mode s \<Longrightarrow> list_all keeps_tx_fifo is \<Longrightarrow> fifo_mode (uart_run s is)"
  by (induction "is" arbitrary: s) (simp_all add: fifo_mode_step)

lemma keeps_never_cleared: "list_all keeps_tx_fifo is \<Longrightarrow> txf.never_cleared s is"
  by (induction "is" arbitrary: s) (auto simp: keeps_tx_fifo_def tx_cleared_def tx_clear_def)

text \<open>The transmitter enters its start state exactly when it takes a byte from the FIFO.\<close>

lemma enters_start_iff_pop:
  assumes "fifo_mode s" and "keeps_tx_fifo i"
  shows "tx_state (uart_step s i) = TX_START \<and> tx_state s \<noteq> TX_START \<longleftrightarrow> tx_consumed s i"
    and "tx_consumed s i \<Longrightarrow> tx_data (uart_step s i) = hd (tx_queue s)"
proof -
  have r: "\<not> in_rst i" using assms(2) by (simp add: keeps_tx_fifo_def)
  show "tx_state (uart_step s i) = TX_START \<and> tx_state s \<noteq> TX_START \<longleftrightarrow> tx_consumed s i"
    using assms(1) r
    by (auto simp: uart_step_tx tx_state_next_def tx_consumed_def tx_pop_def fifo_mode_def rtl_simps split: if_splits)
  assume "tx_consumed s i"
  with assms(1) r tx_pop_nonempty [of s] show "tx_data (uart_step s i) = hd (tx_queue s)"
    by (simp add: uart_step_tx tx_consumed_def tx_load_def fifo_mode_def tx_queue_def ring_list_Cons)
qed

lemma uint_start: "uint (x :: 4 word) = 1 \<longleftrightarrow> x = TX_START"
  by (simp add: rtl_simps word_uint_eq_iff)

lemma uint_byte: "take_bit 8 (uint (w :: 8 word)) = uint w"
  using uint_bounded [of w] by (simp add: take_bit_int_eq_self)

lemma console_consumed:
  assumes "fifo_mode s" and "tx_state s \<noteq> TX_START" and "list_all keeps_tx_fifo is"
    and "\<And>c. c \<le> length is \<Longrightarrow> shows_uart (duts c) (uart_run s (take c is))"
    and "n \<le> length is"
  shows "captured duts (Suc n) = map uint (txf.consumed_log s (take n is))"
  using assms(5)
proof (induction n)
  case 0
  have "shows_uart (duts 0) s" using assms(4) [of 0] by simp
  with assms(2) have "emission duts 0 = None"
    by (simp add: emission_def sig_def shows_uart_def uint_start)
  then show ?case by (simp add: captured_Suc)
next
  case (Suc n)
  let ?t = "uart_run s (take n is)" and ?i = "is ! n"
  have i: "keeps_tx_fifo ?i" using assms(3) Suc.prems by (simp add: list_all_length)
  have t: "fifo_mode ?t"
    using assms(1,3) by (intro fifo_mode_run) (auto simp: list_all_iff dest: in_set_takeD)
  have t': "uart_run s (take (Suc n) is) = uart_step ?t ?i"
    using Suc.prems by (simp add: take_Suc_conv_app_nth uart_run_append)
  have view: "shows_uart (duts n) ?t" "shows_uart (duts (Suc n)) (uart_step ?t ?i)"
    using assms(4) [of n] assms(4) [of "Suc n"] Suc.prems t' by simp_all
  have "emission duts (Suc n) = (if tx_consumed ?t ?i then Some (uint (hd (tx_queue ?t))) else None)"
    using view enters_start_iff_pop [OF t i] uint_byte [of "hd (tx_queue ?t)"]
    by (auto simp: emission_def prev_state_def sig_def shows_uart_def uint_start and_255)
  then show ?case
    using Suc by (simp add: captured_Suc take_Suc_conv_app_nth txf.consumed_log_append fifo_run)
qed


definition uart_view :: "uart \<Rightarrow> dut" where
  "uart_view s n =
     (if n = ''uart_inst.tx_state'' then Value (uint (tx_state s))
      else if n = ''uart_inst.tx_data'' then Value (uint (tx_data s))
      else if n = ''uart_inst.baud_div'' then Value (uint (baud_div s))
      else if n = ''uart_inst.rx_fifo_count'' then Value (uint (rx_fifo_count s))
      else Missing)"

lemma shows_uart_view: "shows_uart (uart_view s) s"
  by (simp add: shows_uart_def uart_view_def)

definition power_on :: uart where
  "power_on = uart_reset
     \<lparr>lcr = 0, ier = 0, fcr = 0, scr = 0, dll = 0, dlh = 0, tx_data = 0, tx_busy = False, tx_start_pending = False,
      tx_state = 0, tx_bit_count = 0, tx_out = False, tx_tick_count = 0, baud_tick_counter = 0, baud_div = 0,
      tx_fifo = (\<lambda>_. 0), tx_fifo_head = 0, tx_fifo_tail = 0, tx_fifo_count = 0, tx_fifo_pushed = False,
      tx_fifo_popped = False, tx_fifo_cleared = False, rx_state = 0, rx_shift = 0, rx_bit_count = 0,
      rx_tick_count = 0, rx_meta = False, rx_sync = False, rbr = 0, rx_oe = False, rx_fifo = (\<lambda>_. 0),
      rx_fifo_head = 0, rx_fifo_tail = 0, rx_fifo_count = 0, rx_fifo_pushed = False, rx_fifo_popped = False,
      rx_fifo_cleared = False, thre_irq = False, tx_thre_prev = False\<rparr>"

definition bus_idle :: uart_in where
  "bus_idle = \<lparr>in_rst = False, in_addr = 0, in_write_data = 0, in_write_enable = False, in_read_enable = False,
               in_rx = True\<rparr>"

definition bus_write :: "32 word \<Rightarrow> 32 word \<Rightarrow> uart_in" where
  "bus_write offset v = bus_idle\<lparr>in_addr := UART_BASE + offset, in_write_data := v, in_write_enable := True\<rparr>"

definition one_queued :: uart where
  "one_queued = power_on\<lparr>fcr := 1, tx_tick_count := 15, tx_fifo := (\<lambda>_. 0x41), tx_fifo_tail := 1, tx_fifo_count := 1\<rparr>"


end
