(* ===== verification/Uart_Receiver.thy ===== *)
theory Uart_Receiver
  imports Uart_Link
begin

text \<open>
  The receiver of the UART decodes what \<open>uart_send_byte\<close> plays. The receiver samples only on baud
  ticks, so its state machine is followed from tick to tick: with a divisor \<open>d\<close> the ticks are \<open>d\<close>
  edges apart, and whatever their phase when the start bit arrives, tick \<open>u\<close> after the first one that
  sees it falls into bit \<open>u div 16\<close> of the frame. The frame is then decoded independently of \<open>d\<close>.
\<close>

unbundle bit_operations_syntax

section \<open>One frame, tick by tick\<close>

lemma rx_states_distinct [simp]:
  "RX_START \<noteq> RX_IDLE" "RX_DATA \<noteq> RX_IDLE" "RX_STOP \<noteq> RX_IDLE" "RX_DATA \<noteq> RX_START" "RX_STOP \<noteq> RX_START"
  "RX_STOP \<noteq> RX_DATA" "RX_IDLE \<noteq> RX_START" "RX_IDLE \<noteq> RX_DATA" "RX_IDLE \<noteq> RX_STOP" "RX_START \<noteq> RX_DATA"
  "RX_START \<noteq> RX_STOP" "RX_DATA \<noteq> RX_STOP"
  by (simp_all add: rtl_simps)

lemma rx_tick_rules:
  "rx_tick b (RX_IDLE, tc, bc, sh) = (if b then (RX_IDLE, tc, bc, sh) else (RX_START, 0, bc, sh))"
  "tc \<noteq> 6 \<Longrightarrow> rx_tick b (RX_START, tc, bc, sh) = (RX_START, tc + 1, bc, sh)"
  "rx_tick False (RX_START, 6, bc, sh) = (RX_DATA, 0, 0, 0)"
  "tc \<noteq> 15 \<Longrightarrow> rx_tick b (RX_DATA, tc, bc, sh) = (RX_DATA, tc + 1, bc, sh)"
  "bc \<noteq> 7 \<Longrightarrow> rx_tick b (RX_DATA, 15, bc, sh) =
     (RX_DATA, 0, bc + 1, (if b then set_bit else unset_bit) (unat bc) sh)"
  "rx_tick b (RX_DATA, 15, 7, sh) = (RX_STOP, 0, 7, (if b then set_bit else unset_bit) 7 sh)"
  "tc \<noteq> 15 \<Longrightarrow> rx_tick b (RX_STOP, tc, bc, sh) = (RX_STOP, tc + 1, bc, sh)"
  "rx_tick b (RX_STOP, 15, bc, sh) = (RX_IDLE, 15, bc, sh)"
  by simp_all

text \<open>The bits of a frame on the line: start, eight data bits, stop.\<close>

definition frame_bit :: "8 word \<Rightarrow> nat \<Rightarrow> bool" where
  "frame_bit b k = (if k = 0 then False else if k \<le> 8 then bit b (k - 1) else True)"

fun frame_fsm :: "8 word \<Rightarrow> rx_fsm \<Rightarrow> nat \<Rightarrow> rx_fsm" where
  "frame_fsm b f 0 = f"
| "frame_fsm b f (Suc u) = rx_tick (frame_bit b (u div 16)) (frame_fsm b f u)"

declare rx_tick.simps [simp del]

lemma frame_next: "n = Suc u \<Longrightarrow> frame_fsm b f n = rx_tick (frame_bit b (u div 16)) (frame_fsm b f u)"
  by simp

lemma of_nat_tick_neq: "m < 6 \<Longrightarrow> (of_nat m :: 4 word) \<noteq> 6" "m < 15 \<Longrightarrow> (of_nat m :: 4 word) \<noteq> 15"
  using of_nat_4_inj [of m 6] of_nat_4_inj [of m 15] by auto

lemma frame_start:
  assumes "f = (RX_IDLE, tc, bc, sh)" and "m \<le> 6"
  shows "frame_fsm b f (Suc m) = (RX_START, of_nat m, bc, sh)"
  using assms(2)
proof (induction m)
  case 0
  then show ?case using assms(1) by (simp add: frame_bit_def rx_tick_rules(1))
next
  case (Suc m)
  then have "frame_fsm b f (Suc m) = (RX_START, of_nat m, bc, sh)" by simp
  with Suc.prems of_nat_tick_neq(1) [of m] show ?case
    by (simp add: frame_next [of "Suc (Suc m)" "Suc m"] rx_tick_rules(2) add.commute del: frame_fsm.simps)
qed

lemma frame_confirm:
  assumes "f = (RX_IDLE, tc, bc, sh)"
  shows "frame_fsm b f 8 = (RX_DATA, 0, 0, 0)"
proof -
  have "frame_fsm b f 7 = (RX_START, 6, bc, sh)"
    using frame_start [OF assms, of 6 b] by (simp del: frame_fsm.simps)
  then show ?thesis
    using frame_next [of 8 7 b f] by (simp add: frame_bit_def rx_tick_rules(3) del: frame_fsm.simps)
qed

lemma shift_bit:
  "(if bit b i then set_bit else unset_bit) i (take_bit i b) = take_bit (Suc i) (b :: 8 word)"
  by (rule bit_eqI) (auto simp: bit_simps less_Suc_eq)

lemma of_nat_bit_count: "i < 8 \<Longrightarrow> unat (of_nat i :: 3 word) = i" "i < 7 \<Longrightarrow> (of_nat i :: 3 word) \<noteq> 7"
proof -
  show u: "unat (of_nat i :: 3 word) = i" if "i < 8" for i
    using that by (simp add: unat_of_nat)
  assume "i < 7"
  with u [of i] show "(of_nat i :: 3 word) \<noteq> 7" by auto
qed

text \<open>Sixteen ticks of a state that only counts them.\<close>

lemma frame_count:
  assumes "frame_fsm b f u = (st, 0, bc, sh)" and "st = RX_DATA \<or> st = RX_STOP" and "m \<le> 15"
  shows "frame_fsm b f (u + m) = (st, of_nat m, bc, sh)"
  using assms(3)
proof (induction m)
  case 0
  then show ?case using assms(1) by simp
next
  case (Suc m)
  then have "frame_fsm b f (u + m) = (st, of_nat m, bc, sh)" "(of_nat m :: 4 word) \<noteq> 15"
    using of_nat_tick_neq(2) [of m] by simp_all
  with assms(2) show ?case
    by (auto simp: rx_tick_rules(4,7) add.commute)
qed

lemma frame_data:
  assumes "f = (RX_IDLE, tc, bc, sh)" and "i < 8"
  shows "frame_fsm b f (8 + 16 * i) = (RX_DATA, 0, of_nat i, take_bit i b)"
  using assms(2)
proof (induction i)
  case 0
  then show ?case using frame_confirm [OF assms(1)] by simp
next
  case (Suc i)
  then have "frame_fsm b f (8 + 16 * i + 15) = (RX_DATA, 15, of_nat i, take_bit i b)"
    using frame_count [of b f "8 + 16 * i" RX_DATA "of_nat i" "take_bit i b" 15] by (simp del: frame_fsm.simps)
  moreover have "(8 + 16 * i + 15) div 16 = Suc i" by simp
  moreover have "8 + 16 * Suc i = Suc (8 + 16 * i + 15)" by simp
  ultimately have "frame_fsm b f (8 + 16 * Suc i) = rx_tick (frame_bit b (Suc i)) (RX_DATA, 15, of_nat i, take_bit i b)"
    by (metis frame_next)
  then show ?case
    using Suc.prems shift_bit [of b i] of_nat_bit_count [of i]
    by (simp add: frame_bit_def rx_tick_rules(5) add.commute del: frame_fsm.simps)
qed

lemma frame_stop:
  assumes "f = (RX_IDLE, tc, bc, sh)"
  shows "frame_fsm b f 136 = (RX_STOP, 0, 7, b)"
proof -
  have "frame_fsm b f 135 = (RX_DATA, 15, 7, take_bit 7 b)"
    using frame_count [OF frame_data [OF assms, of 7 b], of 15] by (simp del: frame_fsm.simps)
  then have "frame_fsm b f 136 = rx_tick (frame_bit b 8) (RX_DATA, 15, 7, take_bit 7 b)"
    using frame_next [of 136 135 b f] by (simp del: frame_fsm.simps)
  moreover have "take_bit 8 b = b" by (rule bit_eqI) (simp add: bit_simps)
  ultimately show ?thesis
    using shift_bit [of b 7] by (simp add: frame_bit_def rx_tick_rules(6) del: frame_fsm.simps)
qed

lemma frame_stop_last:
  assumes "f = (RX_IDLE, tc, bc, sh)"
  shows "frame_fsm b f 151 = (RX_STOP, 15, 7, b)"
  using frame_count [OF frame_stop [OF assms, of b], of 15] by (simp del: frame_fsm.simps)

lemma frame_end:
  assumes "f = (RX_IDLE, tc, bc, sh)" and "152 \<le> u" and "u \<le> 160"
  shows "frame_fsm b f u = (RX_IDLE, 15, 7, b)"
proof -
  have "frame_fsm b f 152 = (RX_IDLE, 15, 7, b)"
    using frame_next [of 152 151 b f] frame_stop_last [OF assms(1)] by (simp add: rx_tick_rules(8) del: frame_fsm.simps)
  then have "152 + m \<le> 160 \<Longrightarrow> frame_fsm b f (152 + m) = (RX_IDLE, 15, 7, b)" for m
  proof (induction m)
    case (Suc m)
    then have "(152 + m) div 16 = 9" by simp
    moreover have "frame_fsm b f (152 + Suc m) = rx_tick (frame_bit b ((152 + m) div 16)) (frame_fsm b f (152 + m))"
      by (rule frame_next) simp
    ultimately show ?case using Suc by (simp only: frame_bit_def rx_tick_rules(1)) simp
  qed simp
  from this [of "u - 152"] assms(2,3) show ?thesis by simp
qed

section \<open>From edges to ticks\<close>

definition rx_quiet :: "uart_in \<Rightarrow> bool" where
  "rx_quiet i \<longleftrightarrow> \<not> in_rst i \<and> \<not> wr i 2 \<and> \<not> wr i 3"

text \<open>The divisor in effect, the number of edges between two ticks.\<close>

definition eff_div :: "uart \<Rightarrow> nat" where
  "eff_div s = max 1 (unat (baud_div s))"

definition rx_ready :: "uart \<Rightarrow> bool" where
  "rx_ready s \<longleftrightarrow> uart_ok s \<and> rx_state s = RX_IDLE \<and> rx_meta s \<and> rx_sync s \<and>
     unat (baud_tick_counter s) < eff_div s"

text \<open>The line as the receiver sees it, two flip-flops behind.\<close>

definition synced :: "uart_in list \<Rightarrow> nat \<Rightarrow> bool" where
  "synced is n = (if n < 2 then True else in_rx (is ! (n - 2)))"

fun tick_fsm :: "rx_fsm \<Rightarrow> (nat \<Rightarrow> bool) \<Rightarrow> nat \<Rightarrow> rx_fsm" where
  "tick_fsm f sample 0 = f"
| "tick_fsm f sample (Suc k) = rx_tick (sample k) (tick_fsm f sample k)"

definition legal_fsm :: "rx_fsm \<Rightarrow> bool" where
  "legal_fsm f \<longleftrightarrow> fst f \<in> {RX_IDLE, RX_START, RX_DATA, RX_STOP}"

lemma legal_rx_tick: "legal_fsm (rx_tick b f)"
  by (cases f) (simp add: legal_fsm_def rx_tick.simps)

lemma legal_tick_fsm: "legal_fsm f \<Longrightarrow> legal_fsm (tick_fsm f sample k)"
  by (cases k) (simp_all add: legal_rx_tick)

definition rx_follows :: "uart \<Rightarrow> uart_in list \<Rightarrow> nat \<Rightarrow> nat \<Rightarrow> uart \<Rightarrow> bool" where
  "rx_follows s is n k t \<longleftrightarrow>
     baud_div t = baud_div s \<and> unat (baud_tick_counter t) < eff_div s \<and>
     n + unat (baud_tick_counter t) = unat (baud_tick_counter s) + k * eff_div s \<and>
     rx_fsm_of t = tick_fsm (rx_fsm_of s) (\<lambda>k. synced is (unat (baud_tick_counter s) + k * eff_div s)) k \<and>
     rx_sync t = synced is n \<and> rx_meta t = synced is (Suc n)"

lemma rx_follows_step:
  assumes "rx_follows s is n k t" and "legal_fsm (rx_fsm_of s)" and "rx_quiet i" and "in_rx i = synced is (Suc (Suc n))"
  shows "rx_follows s is (Suc n) (if baud_tick t then Suc k else k) (uart_step t i)"
proof -
  have r: "\<not> in_rst i" and w: "\<not> wr i 3" using assms(3) by (simp_all add: rx_quiet_def)
  have c: "unat (baud_tick_counter (uart_step t i)) =
      (if baud_tick t then eff_div s - 1 else unat (baud_tick_counter t) - 1)"
    using assms(1) uart_step_baud(1) [OF r, of t]
    by (auto simp: rx_follows_def eff_div_def baud_tick_def unat_minus_one word_less_nat_alt unat_gt_0)
  have nz: "\<not> baud_tick t \<Longrightarrow> 0 < unat (baud_tick_counter t)" by (simp add: baud_tick_def unat_gt_0)
  have z: "baud_tick t \<Longrightarrow> n = unat (baud_tick_counter s) + k * eff_div s"
    using assms(1) by (simp add: rx_follows_def baud_tick_def)
  have "legal_fsm (rx_fsm_of t)" using assms(1,2) by (simp add: rx_follows_def legal_tick_fsm)
  then have f: "rx_fsm_of (uart_step t i) = (if baud_tick t then rx_tick (rx_sync t) (rx_fsm_of t) else rx_fsm_of t)"
    using uart_step_rx(1) [OF r, of t] by (auto simp: rx_fsm_next_def legal_fsm_def rx_fsm_of_def)
  have d: "0 < eff_div s" by (simp add: eff_div_def)
  show ?thesis
    unfolding rx_follows_def c f
    using assms(1,4) uart_step_rx(2,3) [OF r, of t] uart_step_baud(2) [OF r, of t] w nz z d
    by (auto simp: rx_follows_def)
qed

lemma rx_follows_run:
  assumes "rx_ready s" and "list_all rx_quiet is" and "n \<le> length is"
  shows "\<exists>k. rx_follows s is n k (uart_run s (take n is))"
  using assms(3)
proof (induction n)
  case 0
  have "rx_follows s is 0 0 s" using assms(1) by (simp add: rx_follows_def rx_ready_def synced_def)
  then show ?case by auto
next
  case (Suc n)
  then obtain k where "rx_follows s is n k (uart_run s (take n is))" by auto
  moreover have "legal_fsm (rx_fsm_of s)" using assms(1) by (simp add: rx_ready_def legal_fsm_def rx_fsm_of_def)
  moreover have "rx_quiet (is ! n)" using assms(2) Suc.prems by (simp add: list_all_length)
  moreover have "in_rx (is ! n) = synced is (Suc (Suc n))" by (simp add: synced_def)
  ultimately have "\<exists>k. rx_follows s is (Suc n) k (uart_step (uart_run s (take n is)) (is ! n))"
    using rx_follows_step by blast
  with Suc.prems show ?case by (simp add: take_Suc_conv_app_nth uart_run_append)
qed

section \<open>A frame on the line\<close>

text \<open>Inputs that carry one frame: bit \<open>j div (16 * d)\<close> of it at edge \<open>j\<close>.\<close>

definition carries_frame :: "uart \<Rightarrow> 8 word \<Rightarrow> uart_in list \<Rightarrow> bool" where
  "carries_frame s b is \<longleftrightarrow> length is = 160 * eff_div s \<and>
     (\<forall>j < length is. in_rx (is ! j) = frame_bit b (j div (16 * eff_div s)))"

lemma synced_frame:
  assumes "carries_frame s b is" and "e < eff_div s" and "u < 160"
  shows "synced is (2 + e + u * eff_div s) = frame_bit b (u div 16)"
proof -
  have "e + u * eff_div s < (u + 1) * eff_div s" using assms(2) by simp
  also have "\<dots> \<le> 160 * eff_div s" using assms(3) by (intro mult_right_mono) auto
  finally have "e + u * eff_div s < length is" using assms(1) by (simp add: carries_frame_def)
  moreover have "(e + u * eff_div s) div (16 * eff_div s) = u div 16"
    using assms(2) by (simp add: div_mult2_eq mult.commute [of 16])
  ultimately show ?thesis using assms(1) by (simp add: synced_def carries_frame_def)
qed

text \<open>The first tick that sees the start bit is one of the first three.\<close>

lemma first_tick:
  assumes "(c :: nat) < d"
  obtains j e where "j \<le> 2" and "e < d" and "c + j * d = 2 + e" and "\<And>k. k < j \<Longrightarrow> c + k * d < 2"
proof -
  consider "2 \<le> c" | "c = 1" | "c = 0" "2 \<le> d" | "c = 0" "d = 1" using assms by linarith
  then show thesis
  proof cases
    case 1
    then show thesis using that [of 0 "c - 2"] assms by auto
  next
    case 2
    then show thesis using that [of 1 "d - 1"] assms by auto
  next
    case 3
    then show thesis using that [of 1 "d - 2"] by auto
  next
    case 4
    then show thesis using that [of 2 0] by auto
  qed
qed

lemma tick_frame:
  assumes "\<And>k. k < j \<Longrightarrow> sample k" and "\<And>u. u < 160 \<Longrightarrow> sample (j + u) = frame_bit b (u div 16)"
    and "f = (RX_IDLE, tc, bc, sh)" and "u \<le> 160"
  shows "k \<le> j \<Longrightarrow> tick_fsm f sample k = f" and "tick_fsm f sample (j + u) = frame_fsm b f u"
proof -
  show idle: "k \<le> j \<Longrightarrow> tick_fsm f sample k = f" for k
    by (induction k) (simp_all add: assms(1,3) rx_tick_rules(1))
  show "tick_fsm f sample (j + u) = frame_fsm b f u"
    using assms(4) by (induction u) (simp_all add: idle assms(2))
qed

lemma frame_stop_unique:
  assumes "f = (RX_IDLE, tc, bc, sh)" and "u \<le> 160" and "frame_fsm b f u = (RX_STOP, 15, bc', sh')"
  shows "u = 151"
proof -
  consider "u = 0" | m where "u = Suc m" "m \<le> 6" | i m where "u = 8 + 16 * i + m" "i < 8" "m \<le> 15"
    | m where "u = 136 + m" "m \<le> 15" | "152 \<le> u"
  proof -
    have "8 \<le> u \<Longrightarrow> u < 136 \<Longrightarrow> u = 8 + 16 * ((u - 8) div 16) + (u - 8) mod 16 \<and> (u - 8) div 16 < 8 \<and> (u - 8) mod 16 \<le> 15"
      by auto
    moreover have "136 \<le> u \<Longrightarrow> u < 152 \<Longrightarrow> u = 136 + (u - 136) \<and> u - 136 \<le> 15" by simp
    moreover have "0 < u \<Longrightarrow> u < 8 \<Longrightarrow> u = Suc (u - 1) \<and> u - 1 \<le> 6" by simp
    ultimately show thesis using that by (metis neq0_conv not_le)
  qed
  then show ?thesis
  proof cases
    case 1
    then show ?thesis using assms(1,3) by simp
  next
    case (2 m)
    then show ?thesis using assms(3) frame_start [OF assms(1), of m b] by (simp del: frame_fsm.simps)
  next
    case (3 i m)
    then show ?thesis using assms(3) frame_count [OF frame_data [OF assms(1), of i b], of m] by simp
  next
    case (4 m)
    then have "(of_nat m :: 4 word) = 15" using assms(3) frame_count [OF frame_stop [OF assms(1), of b], of m] by simp
    with 4 of_nat_tick_neq(2) [of m] show ?thesis by (cases "m = 15") auto
  next
    case 5
    then show ?thesis using assms(3) frame_end [OF assms(1) _ assms(2), of b] by simp
  qed
qed

definition frame_done :: "uart \<Rightarrow> bool" where
  "frame_done t \<longleftrightarrow> rx_state t = RX_STOP \<and> baud_tick t \<and> rx_tick_count t = 15 \<and> rx_sync t"

lemma rx_push_iff:
  "rx_push t i \<longleftrightarrow> frame_done t \<and> \<not> rx_fifo_clear_request i \<and> \<not> (rx_fifo_full t \<and> \<not> rx_fifo_pop_request t i)"
  "rx_overrun t i \<longleftrightarrow> frame_done t \<and> \<not> rx_fifo_clear_request i \<and> rx_fifo_full t \<and> \<not> rx_fifo_pop_request t i"
  by (auto simp: rx_push_def rx_overrun_def frame_done_def)

text \<open>
  At every edge the state machine is as many ticks into the frame as have passed since the first tick
  that saw the start bit.
\<close>

definition in_frame :: "uart \<Rightarrow> 8 word \<Rightarrow> uart_in list \<Rightarrow> nat \<Rightarrow> nat \<Rightarrow> bool" where
  "in_frame s b is j n \<longleftrightarrow> (\<exists>k \<le> 160. rx_follows s is n k (uart_run s (take n is)) \<and>
     rx_fsm_of (uart_run s (take n is)) = frame_fsm b (rx_fsm_of s) (k - j))"

lemma frame_follow:
  assumes "rx_ready s" and "list_all rx_quiet is" and "carries_frame s b is"
  obtains j where "j \<le> 2" and "\<And>n. n \<le> length is \<Longrightarrow> in_frame s b is j n"
    and "Suc (unat (baud_tick_counter s) + (j + 151) * eff_div s) < length is"
    and "synced is (unat (baud_tick_counter s) + (j + 151) * eff_div s)"
proof -
  define c d sample where "c = unat (baud_tick_counter s)" and "d = eff_div s" and "sample = (\<lambda>k. synced is (c + k * d))"
  let ?f = "rx_fsm_of s"
  have f: "?f = (RX_IDLE, rx_tick_count s, rx_bit_count s, rx_shift s)" and cd: "c < d" and d: "1 \<le> d"
    using assms(1) by (simp_all add: c_def d_def rx_ready_def rx_fsm_of_def eff_div_def)
  have len: "length is = 160 * d" using assms(3) by (simp add: carries_frame_def d_def)
  obtain j e where j: "j \<le> 2" "e < d" "c + j * d = 2 + e" and early: "\<And>k. k < j \<Longrightarrow> c + k * d < 2"
    using first_tick [OF cd] by blast
  have low: "sample k" if "k < j" for k
    using early [OF that] by (simp add: sample_def synced_def)
  have bits: "sample (j + u) = frame_bit b (u div 16)" if "u < 160" for u
  proof -
    have "c + (j + u) * d = 2 + e + u * d" using j(3) by (simp add: algebra_simps)
    then show ?thesis using synced_frame [OF assms(3), of e u] j(2) that by (simp add: sample_def d_def)
  qed
  have fsm: "tick_fsm ?f sample k = frame_fsm b ?f (k - j)" if "k \<le> 160" for k
  proof (cases "k \<le> j")
    case True
    then show ?thesis using tick_frame(1) [OF low bits f, of 0 k] by simp
  next
    case False
    then show ?thesis using tick_frame(2) [OF low bits f, of "k - j"] that by simp
  qed
  have follow: "in_frame s b is j n" if n: "n \<le> length is" for n
  proof -
    obtain k where k: "rx_follows s is n k (uart_run s (take n is))"
      using rx_follows_run [OF assms(1,2) n] by blast
    then have "c + k * d < 160 * d + d" using n len by (simp add: rx_follows_def c_def d_def)
    then have "k * d < 161 * d" by linarith
    with k fsm [of k] show ?thesis by (auto simp: in_frame_def rx_follows_def c_def d_def sample_def)
  qed
  have "Suc (c + (j + 151) * d) < 160 * d" using j d by (simp add: algebra_simps)
  moreover have "sample (j + 151)" using bits [of 151] by (simp add: frame_bit_def)
  ultimately show thesis using that [OF j(1) follow] len by (simp add: c_def d_def sample_def)
qed

lemma in_frame_done:
  assumes "rx_ready s" and "in_frame s b is j n" and "j \<le> 2"
    and "synced is (unat (baud_tick_counter s) + (j + 151) * eff_div s)"
  shows "frame_done (uart_run s (take n is)) \<longleftrightarrow> n = unat (baud_tick_counter s) + (j + 151) * eff_div s"
    and "frame_done (uart_run s (take n is)) \<Longrightarrow> rx_shift (uart_run s (take n is)) = b"
proof -
  let ?t = "uart_run s (take n is)" and ?d = "eff_div s"
  have f: "rx_fsm_of s = (RX_IDLE, rx_tick_count s, rx_bit_count s, rx_shift s)"
    using assms(1) by (simp add: rx_ready_def rx_fsm_of_def)
  obtain k where k: "k \<le> 160" "rx_follows s is n k ?t" "rx_fsm_of ?t = frame_fsm b (rx_fsm_of s) (k - j)"
    using assms(2) by (auto simp: in_frame_def)
  have n: "n + unat (baud_tick_counter ?t) = unat (baud_tick_counter s) + k * ?d"
    and cnt: "unat (baud_tick_counter ?t) < ?d" and sync: "rx_sync ?t = synced is n"
    using k(2) by (simp_all add: rx_follows_def)
  have fin: "k = j + 151 \<and> rx_shift ?t = b \<and> n = unat (baud_tick_counter s) + k * ?d" if fd: "frame_done ?t"
  proof -
    have "frame_fsm b (rx_fsm_of s) (k - j) = (RX_STOP, 15, rx_bit_count ?t, rx_shift ?t)"
      using fd k(3) by (simp add: frame_done_def rx_fsm_of_def)
    moreover from this have "k - j = 151" using frame_stop_unique [OF f] k(1) by (metis diff_le_self le_trans)
    ultimately show ?thesis
      using frame_stop_last [OF f, of b] fd n by (simp add: frame_done_def baud_tick_def)
  qed
  then show "frame_done ?t \<Longrightarrow> rx_shift ?t = b" by blast
  show "frame_done ?t \<longleftrightarrow> n = unat (baud_tick_counter s) + (j + 151) * ?d"
  proof
    assume "n = unat (baud_tick_counter s) + (j + 151) * ?d"
    with n cnt have "(j + 151) * ?d \<le> k * ?d" "k * ?d < (j + 152) * ?d" by (simp_all add: algebra_simps)
    then have "k = j + 151" by simp
    with k(3) n frame_stop_last [OF f, of b] assms(4) sync \<open>n = unat (baud_tick_counter s) + (j + 151) * ?d\<close>
    show "frame_done ?t" by (simp add: frame_done_def rx_fsm_of_def baud_tick_def unat_eq_zero)
  qed (use fin in blast)
qed

text \<open>After the frame the receiver is as it was before it.\<close>

lemma in_frame_end:
  assumes "rx_ready s" and "list_all rx_quiet is" and "carries_frame s b is"
  shows "rx_ready (uart_run s is)" and "baud_div (uart_run s is) = baud_div s"
proof -
  obtain j where j: "j \<le> 2" "in_frame s b is j (length is)" using frame_follow [OF assms] by blast
  have f: "rx_fsm_of s = (RX_IDLE, rx_tick_count s, rx_bit_count s, rx_shift s)"
    using assms(1) by (simp add: rx_ready_def rx_fsm_of_def)
  have len: "length is = 160 * eff_div s" and d: "1 \<le> eff_div s"
    using assms(3) by (simp_all add: carries_frame_def eff_div_def)
  obtain k where k: "k \<le> 160" "rx_follows s is (length is) k (uart_run s is)"
    "rx_fsm_of (uart_run s is) = frame_fsm b (rx_fsm_of s) (k - j)"
    using j(2) by (auto simp: in_frame_def)
  have "unat (baud_tick_counter s) < eff_div s" using assms(1) by (simp add: rx_ready_def)
  then have "159 * eff_div s < k * eff_div s" using k(2) len unfolding rx_follows_def by linarith
  then have "k = 160" using k(1) by simp
  then have idle: "rx_state (uart_run s is) = RX_IDLE"
    using k(3) frame_end [OF f, of "160 - j" b] j(1) by (simp add: rx_fsm_of_def)
  have "synced is (length is)"
  proof (cases "eff_div s = 1")
    case True
    then show ?thesis using synced_frame [OF assms(3), of 0 158] len by (simp add: frame_bit_def)
  next
    case False
    then have "2 + (eff_div s - 2) + 159 * eff_div s = length is" using d len by linarith
    with synced_frame [OF assms(3), of "eff_div s - 2" 159] d show ?thesis by (simp add: frame_bit_def)
  qed
  moreover have "synced is (Suc (length is))"
    using synced_frame [OF assms(3), of "eff_div s - 1" 159] d len by (simp add: frame_bit_def)
  moreover have "uart_ok (uart_run s is)" using rxf.ok_run [of s "is"] assms(1) by (simp add: fifo_run rx_ready_def)
  ultimately show "rx_ready (uart_run s is)" "baud_div (uart_run s is) = baud_div s"
    using idle k(2) by (simp_all add: rx_ready_def rx_follows_def eff_div_def)
qed

section \<open>Bytes received\<close>

fun rx_received :: "uart \<Rightarrow> uart_in list \<Rightarrow> 8 word list" where
  "rx_received s [] = []"
| "rx_received s (i # is) =
     (case rx_accepted s i of None \<Rightarrow> [] | Some b \<Rightarrow> [b]) @ rx_received (uart_step s i) is"

text \<open>The bytes software takes by reading RBR.\<close>

fun rbr_read :: "uart \<Rightarrow> uart_in list \<Rightarrow> 8 word list" where
  "rbr_read s [] = []"
| "rbr_read s (i # is) = (if rx_consumed s i then [hd (rx_queue s)] else []) @ rbr_read (uart_step s i) is"

lemma rx_logs: "rxf.accepted_log s is = rx_received s is" "rxf.consumed_log s is = rbr_read s is"
  by (induction "is" arbitrary: s) simp_all

lemma quiet_not_clear: "rx_quiet i \<Longrightarrow> \<not> rx_cleared s i \<and> \<not> rx_fifo_clear_request i \<and> \<not> in_rst i"
  by (simp add: rx_quiet_def rx_cleared_def rx_clear_wr)

lemma quiet_never_cleared: "list_all rx_quiet is \<Longrightarrow> rxf.never_cleared s is"
  by (induction "is" arbitrary: s) (simp_all add: quiet_not_clear)

lemma take_quiet: "list_all rx_quiet is \<Longrightarrow> list_all rx_quiet (take n is)"
  by (auto simp: list_all_iff dest: in_set_takeD)

lemma concat_single:
  assumes "m < n" and "\<And>i. i < n \<Longrightarrow> f i = (if i = m then [x] else [])"
  shows "concat (map f [0..<n]) = [x]"
proof -
  have "concat (map f [0..<k]) = (if m < k then [x] else [])" if "k \<le> n" for k
    using that by (induction k) (auto simp: assms(2))
  with assms(1) show ?thesis by simp
qed

lemma queue_before_frame:
  assumes "uart_ok s" and "list_all rx_quiet is" and "\<And>k. k < n \<Longrightarrow> \<not> frame_done (uart_run s (take k is))"
    and "n \<le> length is"
  shows "length (rx_queue (uart_run s (take n is))) \<le> length (rx_queue s)"
  using assms(3,4)
proof (induction n)
  case (Suc n)
  let ?t = "uart_run s (take n is)"
  have "uart_ok ?t" using rxf.ok_run [OF assms(1), of "take n is"] by (simp add: fifo_run)
  moreover have "rx_accepted ?t (is ! n) = None"
    using Suc.prems by (simp add: rx_accepted_def rx_push_iff)
  ultimately have "length (rx_queue (uart_step ?t (is ! n))) \<le> length (rx_queue ?t)"
    by (simp add: rx_queue_step)
  with Suc show ?case by (simp add: take_Suc_conv_app_nth uart_run_append)
qed simp

lemma frame_received:
  assumes "rx_ready s" and "list_all rx_quiet is" and "carries_frame s b is" and "length (rx_queue s) < 16"
  shows "rx_received s is = [b]" and "n \<le> length is \<Longrightarrow> rx_oe (uart_run s (take n is)) = rx_oe s"
    and "length (rx_queue (uart_run s is)) \<le> length (rx_queue (uart_run s (butlast is)))"
proof -
  obtain j where j: "j \<le> 2" and follow: "\<And>n. n \<le> length is \<Longrightarrow> in_frame s b is j n"
    and m': "Suc (unat (baud_tick_counter s) + (j + 151) * eff_div s) < length is"
    and sync: "synced is (unat (baud_tick_counter s) + (j + 151) * eff_div s)"
    using frame_follow [OF assms(1-3)] by blast
  define m where "m = unat (baud_tick_counter s) + (j + 151) * eff_div s"
  have m: "unat (baud_tick_counter s) + (j + 151) * eff_div s < length is" using m' by simp
  let ?t = "\<lambda>n. uart_run s (take n is)"
  have done_iff: "frame_done (?t n) \<longleftrightarrow> n = m" if "n < length is" for n
    using in_frame_done(1) [OF assms(1) follow j sync, of n] that by (simp add: m_def)
  have shift: "rx_shift (?t m) = b"
    using in_frame_done(2) [OF assms(1) follow j sync, of m] done_iff [of m] m by (simp add: m_def)
  have ok: "uart_ok s" using assms(1) by (simp add: rx_ready_def)
  have "length (rx_queue (?t m)) < 16"
    using queue_before_frame [OF ok assms(2), of m] done_iff m assms(4) by (fastforce simp: m_def)
  then have room: "\<not> rx_fifo_full (?t m)" by (auto simp: rx_fifo_full_def queue_length)
  have quiet: "rx_quiet (is ! n)" if "n < length is" for n
    using assms(2) that by (simp add: list_all_length)
  have "rx_accepted (?t n) (is ! n) = (if n = m then Some b else None)" if "n < length is" for n
    using done_iff [OF that] shift room quiet_not_clear [OF quiet [OF that]]
    by (auto simp: rx_accepted_def rx_push_iff)
  then have "rxf.accepted_log s is = [b]"
    unfolding rxf.accepted_log_steps fifo_run using m by (intro concat_single [of m]) (auto simp: m_def)
  then show "rx_received s is = [b]" by (simp add: rx_logs)
  show "rx_oe (?t n) = rx_oe s" if "n \<le> length is" for n
    using that
  proof (induction n)
    case (Suc n)
    then have "\<not> rx_overrun (?t n) (is ! n)" using done_iff [of n] room by (auto simp: rx_push_iff)
    with Suc quiet_not_clear [OF quiet [of n]] show ?case
      by (simp add: take_Suc_conv_app_nth uart_run_append uart_step_rx(4))
  qed simp
  let ?l = "length is - 1"
  have l: "?l < length is" "?l \<noteq> m" "take ?l is = butlast is" using m' by (auto simp: m_def butlast_conv_take)
  then have "uart_run s is = uart_step (?t ?l) (is ! ?l)"
    by (metis append_butlast_last_id last_conv_nth length_0_conv not_less_zero uart_run_append uart_run_simps)
  moreover have "uart_ok (?t ?l)" using rxf.ok_run [OF ok, of "take ?l is"] by (simp add: fifo_run)
  moreover have "rx_accepted (?t ?l) (is ! ?l) = None"
    using done_iff [OF l(1)] l(2) by (simp add: rx_accepted_def rx_push_iff)
  ultimately show "length (rx_queue (uart_run s is)) \<le> length (rx_queue (uart_run s (butlast is)))"
    using l(3) by (simp add: rx_queue_step)
qed

section \<open>The waveform of the serial driver\<close>

definition line_values :: "cocotb_act list \<Rightarrow> (string \<Rightarrow> int) \<Rightarrow> bool list" where
  "line_values as p = map (\<lambda>q. q ''uart_rx'' \<noteq> 0) (edge_values as p)"

definition send_bits :: "int \<Rightarrow> int list" where
  "send_bits byte = 0 # map (\<lambda>i. drop_bit i byte AND 1) [0..<8] @ [1]"

definition hold_bits :: "nat \<Rightarrow> int list \<Rightarrow> cocotb_act list" where
  "hold_bits n vs = concat (map (\<lambda>v. [Drive ''uart_rx'' v, ClockCycles n]) vs)"

lemma uart_send_byte_bits:
  "uart_send_byte dut byte baud = hold_bits (nat (uart_baud_cycles dut baud)) (send_bits byte)"
  by (simp add: uart_send_byte_def hold_bits_def send_bits_def Let_def comp_def)

lemma line_values_simps [simp]:
  "line_values [] p = []"
  "line_values (Drive n v # as) p = line_values as (p(n := v))"
  "line_values (ClockCycles k # as) p = replicate k (p ''uart_rx'' \<noteq> 0) @ line_values as p"
  by (simp_all add: line_values_def)

lemma line_values_hold:
  "\<exists>q. line_values (hold_bits n vs @ as) p = concat (map (\<lambda>v. replicate n (v \<noteq> 0)) vs) @ line_values as q"
proof (induction vs arbitrary: p)
  case Nil
  then show ?case by (auto simp: hold_bits_def)
next
  case (Cons v vs)
  from Cons.IH [of "p(''uart_rx'' := v)"] show ?case by (simp add: hold_bits_def del: fun_upd_apply) simp
qed

lemma concat_replicate_length: "length (concat (map (\<lambda>v. replicate n (g v)) vs)) = n * length vs"
  by (induction vs) simp_all

lemma concat_replicate_nth:
  assumes "j < n * length vs"
  shows "concat (map (\<lambda>v. replicate n (g v)) vs) ! j = g (vs ! (j div n))"
  using assms
proof (induction vs arbitrary: j)
  case (Cons v vs)
  show ?case
  proof (cases "j < n")
    case True
    then show ?thesis by (simp add: nth_append)
  next
    case False
    then have n: "0 < n" "j - n < n * length vs" using Cons.prems by (auto intro: gr_zeroI)
    then have "j div n = Suc ((j - n) div n)" using False by (simp add: le_div_geq)
    with False Cons.IH [OF n(2)] show ?thesis by (simp add: nth_append)
  qed
qed simp

lemma send_bits_frame:
  assumes "k < 10"
  shows "send_bits byte ! k \<noteq> 0 \<longleftrightarrow> frame_bit (word_of_int byte) k"
proof -
  have "k = 0 \<or> k = Suc (k - 1) \<and> k - 1 < 8 \<or> k = 9" using assms by linarith
  then consider "k = 0" | i where "k = Suc i" "i < 8" | "k = 9" by blast
  then show ?thesis
  proof cases
    case (2 i)
    have "drop_bit i byte AND 1 \<noteq> 0 \<longleftrightarrow> bit byte i"
      by (simp add: and_one_eq odd_iff_mod_2_eq_one bit_iff_odd drop_bit_eq_div)
    with 2 show ?thesis by (simp add: send_bits_def nth_append frame_bit_def bit_word_of_int_iff)
  qed (simp_all add: send_bits_def frame_bit_def nth_append)
qed

lemma shown_baud_cycles:
  assumes "shows_uart d s"
  shows "nat (uart_baud_cycles d None) = 16 * eff_div s"
proof -
  have "16 * max 1 (uint (baud_div s)) = int (16 * eff_div s)"
    by (simp add: eff_div_def of_nat_max)
  then show ?thesis using assms by (simp add: uart_baud_cycles_def shows_uart_def)
qed

lemma wave_carries_frame:
  assumes "shows_uart d s" and "map in_rx is = concat (map (\<lambda>v. replicate (nat (uart_baud_cycles d None)) (v \<noteq> 0)) (send_bits byte))"
  shows "carries_frame s (word_of_int byte) is"
proof -
  let ?n = "16 * eff_div s"
  have len: "length (send_bits byte) = 10" by (simp add: send_bits_def)
  have eq: "map in_rx is = concat (map (\<lambda>v. replicate ?n (v \<noteq> 0)) (send_bits byte))"
    using assms by (simp add: shown_baud_cycles)
  then have l: "length is = ?n * 10"
    using len by (metis concat_replicate_length length_map)
  have "in_rx (is ! j) = frame_bit (word_of_int byte) (j div ?n)" if "j < length is" for j
  proof -
    have "in_rx (is ! j) = map in_rx is ! j" using that by simp
    also have "\<dots> \<longleftrightarrow> send_bits byte ! (j div ?n) \<noteq> 0"
      unfolding eq using that l len by (intro concat_replicate_nth) simp
    also have "\<dots> \<longleftrightarrow> frame_bit (word_of_int byte) (j div ?n)"
      using that l by (intro send_bits_frame) (simp add: less_mult_imp_div_less)
    finally show ?thesis .
  qed
  with l show ?thesis by (simp add: carries_frame_def)
qed

lemma send_str_received:
  assumes "rx_ready s" and "list_all rx_quiet is" and "map in_rx is = line_values (uart_send_str duts str None) p"
    and "\<And>k. k < length str \<Longrightarrow> shows_uart (duts k) (uart_run s (take (160 * eff_div s * k) is))"
    and "length (rx_queue s) + length str \<le> 16"
  shows "rx_received s is = map (\<lambda>ch. of_nat (ord ch)) str \<and> rx_oe (uart_run s is) = rx_oe s \<and> rx_ready (uart_run s is)"
  using assms
proof (induction str arbitrary: s "is" duts p)
  case Nil
  then show ?case by simp
next
  case (Cons ch str)
  define n where "n = 160 * eff_div s"
  let ?i = "take n is" and ?r = "drop n is"
  have d0: "shows_uart (duts 0) s" using Cons.prems(4) [of 0] by simp
  obtain q where q: "map in_rx is = concat (map (\<lambda>v. replicate (nat (uart_baud_cycles (duts 0) None)) (v \<noteq> 0))
      (send_bits (int (ord ch)))) @ line_values (uart_send_str (duts \<circ> Suc) str None) q"
    using Cons.prems(3) line_values_hold [of "nat (uart_baud_cycles (duts 0) None)" "send_bits (int (ord ch))"
        "uart_send_str (duts \<circ> Suc) str None" p]
    by (auto simp: uart_send_byte_bits)
  have "length (concat (map (\<lambda>v. replicate (nat (uart_baud_cycles (duts 0) None)) (v \<noteq> 0)) (send_bits (int (ord ch))))) = n"
    unfolding concat_replicate_length shown_baud_cycles [OF d0] n_def by (simp add: send_bits_def)
  with q have i: "map in_rx ?i = concat (map (\<lambda>v. replicate (nat (uart_baud_cycles (duts 0) None)) (v \<noteq> 0)) (send_bits (int (ord ch))))"
    and r: "map in_rx ?r = line_values (uart_send_str (duts \<circ> Suc) str None) q"
    by (simp_all flip: take_map drop_map)
  have frame: "carries_frame s (of_nat (ord ch)) ?i" using wave_carries_frame [OF d0 i] by simp
  have quiet: "list_all rx_quiet ?i" "list_all rx_quiet ?r"
    using Cons.prems(2) by (auto simp: list_all_iff dest: in_set_takeD in_set_dropD)
  note got = frame_received [OF Cons.prems(1) quiet(1) frame] and fin = in_frame_end [OF Cons.prems(1) quiet(1) frame]
  let ?s = "uart_run s ?i"
  have len: "length ?i = n" using frame by (simp add: carries_frame_def n_def)
  have div: "eff_div ?s = eff_div s" using fin(2) by (simp add: eff_div_def)
  have "length (rx_queue ?s) \<le> length (rx_queue s) + 1"
    using rxf.conservation [OF _ quiet_never_cleared [OF quiet(1)], of s] Cons.prems(1,5) got(1)
      arg_cong [of _ _ length]
    by (fastforce simp: rx_ready_def rx_logs fifo_run dest: arg_cong [where f = length])
  moreover have "shows_uart ((duts \<circ> Suc) k) (uart_run ?s (take (160 * eff_div ?s * k) ?r))" if "k < length str" for k
    using Cons.prems(4) [of "Suc k"] that div
    by (simp add: n_def uart_run_append [symmetric] take_add [symmetric] algebra_simps)
  ultimately have "rx_received ?s ?r = map (\<lambda>ch. of_nat (ord ch)) str \<and> rx_oe (uart_run ?s ?r) = rx_oe ?s \<and> rx_ready (uart_run ?s ?r)"
    using Cons.IH [OF fin(1) quiet(2) r] Cons.prems(5) by fastforce
  moreover have "rx_received s is = rx_received s ?i @ rx_received ?s ?r"
    using rxf.accepted_log_append [of s ?i ?r] by (simp add: rx_logs fifo_run)
  moreover have "uart_run s is = uart_run ?s ?r" by (simp flip: uart_run_append)
  ultimately show ?case using got(1) got(2) [of n] len Cons.prems(5) by simp
qed

text \<open>
  C24. A string the Python driver \<open>uart_send_str\<close> plays into an idle receiver arrives: for every divisor
  and every phase of the baud generator, whatever the processor does meanwhile apart from a reset or a
  write to FCR or LCR, the bytes it reads from RBR followed by those left in the receive FIFO are the
  bytes that were in the FIFO followed by the characters sent, in order. No overrun is flagged, and the
  receiver is ready for the next frame.
\<close>

theorem uart_send_str_received:
  assumes "rx_ready s" and "list_all rx_quiet is" and "map in_rx is = line_values (uart_send_str duts str None) p"
    and "\<And>k. k < length str \<Longrightarrow> shows_uart (duts k) (uart_run s (take (160 * eff_div s * k) is))"
    and "length (rx_queue s) + length str \<le> 16"
  shows "rbr_read s is @ rx_queue (uart_run s is) = rx_queue s @ map (\<lambda>ch. of_nat (ord ch)) str \<and>
         rx_oe (uart_run s is) = rx_oe s \<and> rx_ready (uart_run s is)"
  using send_str_received [OF assms] rxf.conservation [OF _ quiet_never_cleared [OF assms(2)], of s] assms(1)
  by (simp add: rx_ready_def rx_logs fifo_run)

definition sent_A :: "uart_in list" where
  "sent_A = map (\<lambda>b. bus_idle\<lparr>in_rx := b\<rparr>) (line_values (uart_send_str (\<lambda>_. uart_view power_on) ''A'' None) (\<lambda>_. 0))"

theorem uart_send_str_received_witness:
  "rbr_read power_on sent_A @ rx_queue (uart_run power_on sent_A) = [0x41] \<and> rx_ready (uart_run power_on sent_A)"
proof -
  have "rx_ready power_on" "rx_queue power_on = []" by code_simp+
  moreover have "list_all rx_quiet sent_A"
    by (simp add: sent_A_def list_all_iff rx_quiet_def wr_def bus_idle_def)
  moreover have "map in_rx sent_A = line_values (uart_send_str (\<lambda>_. uart_view power_on) ''A'' None) (\<lambda>_. 0)"
    by (simp add: sent_A_def comp_def del: uart_send_str.simps line_values_simps)
  ultimately show ?thesis
    using uart_send_str_received [of power_on sent_A "\<lambda>_. uart_view power_on" "''A''" "\<lambda>_. 0"] shows_uart_view
    by (simp del: uart_send_str.simps line_values_simps)
qed

end
