(* ===== verification/Uart_Monitor.thy ===== *)
theory Uart_Monitor
  imports Uart_Link
begin

text \<open>
  \<open>UartMonitor\<close> of \<open>sim/run_c_code.py\<close>: a coroutine that decodes the bytes on the transmit line by
  sampling it with timers. The clock of that test has a period of 10 ns, and the timers wait a whole
  number of periods, so the coroutine only looks at the line at clock edges: it is a function of what
  it was waiting for, of the value of the line and of the flag \<open>monitoring\<close> at an edge.
\<close>

unbundle bit_operations_syntax

section \<open>The bit period\<close>

text \<open>
  True division of Python: the quotient rounded to the nearest number with 53 significant bits, ties to
  even. A positive number is a numerator and a denominator; the operands here give quotients below
  \<open>2 ^ 53\<close>, so scaling up is enough.
\<close>

fun scale_up :: "nat \<Rightarrow> nat \<Rightarrow> nat \<Rightarrow> nat \<Rightarrow> nat \<times> nat" where
  "scale_up 0 n d e = (n, e)"
| "scale_up (Suc fuel) n d e = (if 2 ^ 52 * d \<le> n then (n, e) else scale_up fuel (2 * n) d (Suc e))"

definition round_half_even :: "nat \<Rightarrow> nat \<Rightarrow> nat" where
  "round_half_even n d =
     (let q = n div d; r = n mod d
      in if 2 * r < d \<or> 2 * r = d \<and> even q then q else Suc q)"

definition float_div :: "nat \<times> nat \<Rightarrow> nat \<times> nat \<Rightarrow> nat \<times> nat" where
  "float_div a b =
     (case scale_up 60 (fst a * snd b) (snd a * fst b) 0 of (n, e) \<Rightarrow> (round_half_even n (snd a * fst b), 2 ^ e))"

definition baud_period_cycles :: "nat \<Rightarrow> nat" where
  "baud_period_cycles cpu_clock_freq =
     (let actual_baud_rate = float_div (cpu_clock_freq, 1) (5208, 1)
      in case float_div (cpu_clock_freq, 1) actual_baud_rate of (n, d) \<Rightarrow> n div d)"

section \<open>The coroutine\<close>

text \<open>
  Where it waits: for a low line, for the timer before bit \<open>bit_num\<close> with the byte so far, for the timer
  of the stop bit. A timer is the number of edges left.
\<close>

datatype monitor_pc =
    Looking
  | Sampling nat nat int
  | Stop_bit nat int
  | Returned
  | Raised py_error

record uart_monitor =
  um_pc :: monitor_pc
  received_bytes :: "int list"

text \<open>The inner loop's test; \<open>Timer(period * 1.5 * 10, "ns")\<close> is one and a half bit periods.\<close>

definition look_for_start :: "nat \<Rightarrow> sigval \<Rightarrow> uart_monitor \<Rightarrow> uart_monitor" where
  "look_for_start period tx m =
     (case int_value tx of
        Inl e \<Rightarrow> m\<lparr>um_pc := Raised e\<rparr>
      | Inr v \<Rightarrow> if v \<noteq> 0 then m\<lparr>um_pc := Looking\<rparr> else m\<lparr>um_pc := Sampling ((period * 15) div 10) 0 0\<rparr>)"

definition monitoring_loop :: "nat \<Rightarrow> bool \<Rightarrow> sigval \<Rightarrow> uart_monitor \<Rightarrow> uart_monitor" where
  "monitoring_loop period monitoring tx m =
     (if monitoring then look_for_start period tx m else m\<lparr>um_pc := Returned\<rparr>)"

definition sample_bit :: "nat \<Rightarrow> sigval \<Rightarrow> nat \<Rightarrow> int \<Rightarrow> uart_monitor \<Rightarrow> uart_monitor" where
  "sample_bit period tx bit_num rx_byte m =
     (case int_value tx of
        Inl e \<Rightarrow> m\<lparr>um_pc := Raised e\<rparr>
      | Inr bit_value \<Rightarrow>
          let rx_byte = rx_byte OR push_bit bit_num bit_value
          in if bit_num < 7 then m\<lparr>um_pc := Sampling period (Suc bit_num) rx_byte\<rparr>
             else m\<lparr>um_pc := Stop_bit period rx_byte\<rparr>)"

text \<open>One edge.\<close>

definition monitor_edge :: "nat \<Rightarrow> bool \<Rightarrow> sigval \<Rightarrow> uart_monitor \<Rightarrow> uart_monitor" where
  "monitor_edge period monitoring tx m =
     (case um_pc m of
        Looking \<Rightarrow> if monitoring then look_for_start period tx m else m\<lparr>um_pc := Returned\<rparr>
      | Sampling left bit_num rx_byte \<Rightarrow>
          if 1 < left then m\<lparr>um_pc := Sampling (left - 1) bit_num rx_byte\<rparr>
          else sample_bit period tx bit_num rx_byte m
      | Stop_bit left rx_byte \<Rightarrow>
          if 1 < left then m\<lparr>um_pc := Stop_bit (left - 1) rx_byte\<rparr>
          else monitoring_loop period monitoring tx (m\<lparr>received_bytes := received_bytes m @ [rx_byte]\<rparr>)
      | Returned \<Rightarrow> m
      | Raised e \<Rightarrow> m)"

definition new_monitor_uart :: uart_monitor where
  "new_monitor_uart = \<lparr>um_pc = Looking, received_bytes = []\<rparr>"

text \<open>
  The coroutine from its start, where it first looks at the line without waiting, through \<open>n\<close> edges.
  \<open>flag\<close> is the attribute \<open>monitoring\<close> at each edge.
\<close>

fun start_monitoring :: "nat \<Rightarrow> (nat \<Rightarrow> bool) \<Rightarrow> (nat \<Rightarrow> sigval) \<Rightarrow> nat \<Rightarrow> uart_monitor" where
  "start_monitoring period flag tx 0 = monitoring_loop period (flag 0) (tx 0) new_monitor_uart"
| "start_monitoring period flag tx (Suc n) =
     monitor_edge period (flag (Suc n)) (tx (Suc n)) (start_monitoring period flag tx n)"

text \<open>\<open>bytes\<close> refuses a list with an element that is no byte.\<close>

definition get_received_string :: "uart_monitor \<Rightarrow> char option list py" where
  "get_received_string m =
     (if list_all (\<lambda>b. 0 \<le> b \<and> b < 256) (received_bytes m) then Inr (decode_ascii_replace (received_bytes m))
      else Inl (ValueError ''bytes must be in range(0, 256)''))"

lemma baud_period: "baud_period_cycles 100000000 = 5208"
  by code_simp

section \<open>Decoding\<close>

text \<open>A frame of one start bit, eight data bits, least significant first, and one stop bit, of \<open>B\<close> edges each.\<close>

definition frame_bit :: "int \<Rightarrow> nat \<Rightarrow> int" where
  "frame_bit byte k = (if k = 0 then 0 else if k \<le> 8 then drop_bit (k - 1) byte AND 1 else 1)"

definition tx_frame :: "nat \<Rightarrow> int \<Rightarrow> int list" where
  "tx_frame B byte = concat (map (\<lambda>k. replicate B (frame_bit byte k)) [0..<10])"

definition monitor_feed :: "nat \<Rightarrow> int list \<Rightarrow> uart_monitor \<Rightarrow> uart_monitor" where
  "monitor_feed period vs m = foldl (\<lambda>m v. monitor_edge period True (Value v) m) m vs"

lemma monitor_feed_simps [simp]:
  "monitor_feed P [] m = m" "monitor_feed P (v # vs) m = monitor_feed P vs (monitor_edge P True (Value v) m)"
  "monitor_feed P (us @ vs) m = monitor_feed P vs (monitor_feed P us m)"
  by (simp_all add: monitor_feed_def)

lemma nth_concat_blocks:
  "i < n * B \<Longrightarrow> concat (map (\<lambda>k. replicate B (f k)) [0..<n]) ! i = f (i div B)"
proof (induction n)
  case (Suc n)
  have len: "length (concat (map (\<lambda>k. replicate B (f k)) [0..<n])) = n * B"
    by (simp add: length_concat comp_def sum_list_triv)
  show ?case
  proof (cases "i < n * B")
    case True
    with Suc.IH len show ?thesis by (simp add: nth_append)
  next
    case False
    with Suc.prems have "B \<noteq> 0" "n * B \<le> i" "i < n * B + B" by auto
    then have "i div B = n" by (intro div_nat_eqI) (auto simp: mult.commute)
    with False Suc.prems len show ?thesis by (simp add: nth_append)
  qed
qed simp

lemma length_tx_frame [simp]: "length (tx_frame B byte) = 10 * B"
  by (simp add: tx_frame_def length_concat comp_def sum_list_triv)

lemma nth_tx_frame: "i < 10 * B \<Longrightarrow> tx_frame B byte ! i = frame_bit byte (i div B)"
  unfolding tx_frame_def by (rule nth_concat_blocks)

lemma feed_sampling:
  assumes "0 < k" and "i + k \<le> length vs"
  shows "monitor_feed P (drop i vs) (m\<lparr>um_pc := Sampling k b rx\<rparr>) =
    monitor_feed P (drop (i + k) vs) (sample_bit P (Value (vs ! (i + k - 1))) b rx m)"
  using assms
proof (induction k arbitrary: i)
  case (Suc k)
  then have "drop i vs = vs ! i # drop (Suc i) vs" by (simp add: Cons_nth_drop_Suc)
  moreover have "sample_bit P v b rx (m\<lparr>um_pc := x\<rparr>) = sample_bit P v b rx m" for v x
    by (simp add: sample_bit_def Let_def split: sum.split)
  ultimately show ?case using Suc.IH [of "Suc i"] Suc.prems by (cases "k = 0") (simp_all add: monitor_edge_def)
qed simp

lemma feed_stop_bit:
  assumes "0 < k" and "i + k \<le> length vs"
  shows "monitor_feed P (drop i vs) (m\<lparr>um_pc := Stop_bit k rx\<rparr>) =
    monitor_feed P (drop (i + k) vs)
      (look_for_start P (Value (vs ! (i + k - 1))) (m\<lparr>received_bytes := received_bytes m @ [rx]\<rparr>))"
  using assms
proof (induction k arbitrary: i)
  case (Suc k)
  then have "drop i vs = vs ! i # drop (Suc i) vs" by (simp add: Cons_nth_drop_Suc)
  moreover have "look_for_start P v (m\<lparr>um_pc := x, received_bytes := y\<rparr>) = look_for_start P v (m\<lparr>received_bytes := y\<rparr>)" for v x y
    by (simp add: look_for_start_def split: sum.split)
  ultimately show ?case using Suc.IH [of "Suc i"] Suc.prems
    by (cases "k = 0") (simp_all add: monitor_edge_def monitoring_loop_def)
qed simp

lemma feed_idle: "\<forall>v \<in> set vs. v \<noteq> 0 \<Longrightarrow> um_pc m = Looking \<Longrightarrow> monitor_feed P vs m = m"
proof (induction vs)
  case (Cons v vs)
  have e: "m\<lparr>um_pc := Looking\<rparr> = m" using Cons.prems(2) by (cases m) simp
  show ?case using Cons by (simp add: monitor_edge_def look_for_start_def int_value_def e)
qed simp

text \<open>
  The line's bit period \<open>B\<close> is close enough to the monitor's: within 5 percent below and 5 percent
  above, the nine samples taken at one and a half, two and a half and so on of the monitor's periods
  are in the eight data bits and the stop bit.
\<close>

definition period_ok :: "nat \<Rightarrow> nat \<Rightarrow> bool" where
  "period_ok P B \<longleftrightarrow> even P \<and> 0 < P \<and> 18 * B \<le> 19 * P \<and> 19 * P < 20 * B"

lemma sample_in_bit:
  assumes "period_ok P B" and "b \<le> 8"
  shows "((P * 15) div 10 + b * P) div B = b + 1"
proof -
  obtain Q where Q: "P = 2 * Q" using assms(1) by (auto simp: period_ok_def elim: evenE)
  have T: "(P * 15) div 10 = 3 * Q" using Q by simp
  have "b = 0 \<or> b = 1 \<or> b = 2 \<or> b = 3 \<or> b = 4 \<or> b = 5 \<or> b = 6 \<or> b = 7 \<or> b = 8" using assms(2) by linarith
  with assms(1) Q T show ?thesis
    by (elim disjE) (auto simp: period_ok_def intro!: div_nat_eqI)
qed

lemma sample_offset: "period_ok P B \<Longrightarrow> b \<le> 8 \<Longrightarrow> (P * 15) div 10 + b * P < 10 * B"
  using sample_in_bit [of P B b] div_less_iff_less_mult [of B "(P * 15) div 10 + b * P" 10]
  by (auto simp: period_ok_def)

lemma take_bit_Suc_or: "take_bit b (x :: int) OR push_bit b (drop_bit b x AND 1) = take_bit (Suc b) x"
  by (rule bit_eqI) (auto simp: bit_or_iff bit_take_bit_iff bit_push_bit_iff bit_and_iff bit_drop_bit_eq bit_1_iff bit_exp_iff less_Suc_eq)

text \<open>The offset from the start bit's first edge to the sample of bit \<open>b\<close>.\<close>

definition sample_at :: "nat \<Rightarrow> nat \<Rightarrow> nat" where
  "sample_at P b = (P * 15) div 10 + b * P"

lemma start_seen:
  assumes "um_pc m = Looking" and "vs \<noteq> []" and "vs ! 0 = 0"
  shows "monitor_feed P vs m = monitor_feed P (drop 1 vs) (m\<lparr>um_pc := Sampling ((P * 15) div 10) 0 0\<rparr>)"
proof -
  have "vs = 0 # drop 1 vs" using assms(2,3) by (cases vs) auto
  then have "monitor_feed P vs m = monitor_feed P (drop 1 vs) (monitor_edge P True (Value 0) m)" by (metis monitor_feed_simps(2))
  then show ?thesis using assms(1) by (simp add: monitor_edge_def look_for_start_def int_value_def)
qed

lemma bits_sampled:
  assumes "um_pc m = Looking" and "0 < P" and "vs ! 0 = 0" and "sample_at P b < length vs"
    and "\<And>k. k \<le> b \<Longrightarrow> vs ! sample_at P k = drop_bit k byte AND 1" and "b < 8"
  shows "monitor_feed P vs m = monitor_feed P (drop (1 + sample_at P b) vs)
      (m\<lparr>um_pc := if b < 7 then Sampling P (Suc b) (take_bit (Suc b) byte) else Stop_bit P (take_bit 8 byte)\<rparr>)"
  using assms(4-6)
proof (induction b)
  case 0
  have "monitor_feed P (drop 1 vs) (m\<lparr>um_pc := Sampling ((P * 15) div 10) 0 0\<rparr>) =
      monitor_feed P (drop (1 + (P * 15) div 10) vs) (sample_bit P (Value (vs ! (1 + (P * 15) div 10 - 1))) 0 0 m)"
    using 0 assms(2) by (intro feed_sampling) (auto simp: sample_at_def)
  moreover have "vs \<noteq> []" using 0(1) by auto
  ultimately show ?case using start_seen [OF assms(1) _ assms(3)] 0(2) [of 0] take_bit_Suc_or [of 0 byte]
    by (simp add: sample_bit_def int_value_def sample_at_def)
next
  case (Suc b)
  have at: "sample_at P (Suc b) = sample_at P b + P" by (simp add: sample_at_def)
  have "monitor_feed P vs m = monitor_feed P (drop (1 + sample_at P b) vs) (m\<lparr>um_pc := Sampling P (Suc b) (take_bit (Suc b) byte)\<rparr>)"
    using Suc at by simp
  also have "\<dots> = monitor_feed P (drop (1 + sample_at P b + P) vs)
      (sample_bit P (Value (vs ! (1 + sample_at P b + P - 1))) (Suc b) (take_bit (Suc b) byte) m)"
    using Suc.prems assms(2) at by (intro feed_sampling) auto
  also have "vs ! (1 + sample_at P b + P - 1) = drop_bit (Suc b) byte AND 1"
    using Suc.prems(2) [of "Suc b"] at by simp
  also have "sample_bit P (Value (drop_bit (Suc b) byte AND 1)) (Suc b) (take_bit (Suc b) byte) m =
      m\<lparr>um_pc := if Suc b < 7 then Sampling P (Suc (Suc b)) (take_bit (Suc (Suc b)) byte) else Stop_bit P (take_bit 8 byte)\<rparr>"
    using Suc.prems(3) take_bit_Suc_or [of "Suc b" byte] by (auto simp: sample_bit_def int_value_def less_Suc_eq numeral_eq_Suc)
  finally show ?case using at by (simp add: add.assoc)
qed

text \<open>A byte is received whose bits are the samples; then the line is high until the end.\<close>

lemma byte_sampled:
  assumes "um_pc m = Looking" and "0 < P" and "vs ! 0 = 0" and "sample_at P 8 < length vs"
    and "\<And>k. k < 8 \<Longrightarrow> vs ! sample_at P k = drop_bit k byte AND 1"
    and "\<And>i. sample_at P 8 \<le> i \<Longrightarrow> i < length vs \<Longrightarrow> vs ! i = 1"
  shows "monitor_feed P vs m = m\<lparr>received_bytes := received_bytes m @ [take_bit 8 byte]\<rparr>"
proof -
  define m' where "m' = m\<lparr>received_bytes := received_bytes m @ [take_bit 8 byte]\<rparr>"
  have at: "sample_at P 8 = sample_at P 7 + P" by (simp add: sample_at_def)
  have "monitor_feed P vs m = monitor_feed P (drop (1 + sample_at P 7) vs) (m\<lparr>um_pc := Stop_bit P (take_bit 8 byte)\<rparr>)"
    using bits_sampled [OF assms(1-3), of 7 byte] assms(4,5) at by simp
  also have "\<dots> = monitor_feed P (drop (1 + sample_at P 7 + P) vs) (look_for_start P (Value (vs ! (1 + sample_at P 7 + P - 1))) m')"
    unfolding m'_def using assms(2,4) at by (intro feed_stop_bit) auto
  also have "look_for_start P (Value (vs ! (1 + sample_at P 7 + P - 1))) m' = m'"
    using assms(1,4,6) at by (cases m) (simp add: look_for_start_def int_value_def m'_def)
  also have "monitor_feed P (drop (1 + sample_at P 7 + P) vs) m' = m'"
    using assms(6) at by (intro feed_idle) (auto simp: in_set_conv_nth assms(1) m'_def)
  finally show ?thesis by (simp add: m'_def)
qed

lemma frame_decoded:
  assumes "period_ok P B" and "um_pc m = Looking"
  shows "monitor_feed P (tx_frame B byte) m = m\<lparr>received_bytes := received_bytes m @ [take_bit 8 byte]\<rparr>"
proof (rule byte_sampled [OF assms(2)])
  have B: "0 < B" using assms(1) by (auto simp: period_ok_def)
  show "0 < P" using assms(1) by (simp add: period_ok_def)
  show "tx_frame B byte ! 0 = 0" using B by (simp add: nth_tx_frame frame_bit_def)
  show "sample_at P 8 < length (tx_frame B byte)" using sample_offset [OF assms(1), of 8] by (simp add: sample_at_def)
  show "tx_frame B byte ! sample_at P k = drop_bit k byte AND 1" if "k < 8" for k
    using that sample_offset [OF assms(1), of k] sample_in_bit [OF assms(1), of k]
    by (simp add: sample_at_def nth_tx_frame frame_bit_def)
  show "tx_frame B byte ! i = 1" if "sample_at P 8 \<le> i" "i < length (tx_frame B byte)" for i
  proof -
    have "9 \<le> i div B" using div_le_mono [OF that(1), of B] sample_in_bit [OF assms(1), of 8] by (simp add: sample_at_def)
    with that(2) show ?thesis by (simp add: nth_tx_frame frame_bit_def)
  qed
qed

text \<open>A line that carries bytes, each after some gap, and is then high for a while.\<close>

definition tx_wave :: "nat \<Rightarrow> (nat \<times> int) list \<Rightarrow> nat \<Rightarrow> int list" where
  "tx_wave B fs tail = concat (map (\<lambda>(gap, byte). replicate gap 1 @ tx_frame B byte) fs) @ replicate tail 1"

lemma wave_decoded:
  assumes "period_ok P B" and "um_pc m = Looking"
  shows "monitor_feed P (tx_wave B fs tail) m = m\<lparr>received_bytes := received_bytes m @ map (\<lambda>f. take_bit 8 (snd f)) fs\<rparr>"
  using assms(2)
proof (induction fs arbitrary: m)
  case Nil
  then show ?case by (simp add: tx_wave_def feed_idle)
next
  case (Cons f fs)
  obtain gap byte where f: "f = (gap, byte)" by fastforce
  have "monitor_feed P (replicate gap 1) m = m" using Cons.prems by (simp add: feed_idle)
  then have "monitor_feed P (tx_wave B (f # fs) tail) m =
      monitor_feed P (tx_wave B fs tail) (m\<lparr>received_bytes := received_bytes m @ [take_bit 8 byte]\<rparr>)"
    using frame_decoded [OF assms(1) Cons.prems, of byte] by (simp add: tx_wave_def f)
  with Cons.IH [of "m\<lparr>received_bytes := received_bytes m @ [take_bit 8 byte]\<rparr>"] Cons.prems f show ?case by simp
qed

lemma start_monitoring_feed:
  assumes "tx 0 = Value 1" and "\<And>i. i < n \<Longrightarrow> tx (Suc i) = Value (vs ! i)" and "n \<le> length vs"
  shows "start_monitoring P (\<lambda>_. True) tx n = monitor_feed P (take n vs) new_monitor_uart"
  using assms(2,3)
proof (induction n)
  case 0
  then show ?case using assms(1)
    by (simp add: monitoring_loop_def look_for_start_def int_value_def new_monitor_uart_def)
next
  case (Suc n)
  then show ?case by (simp add: take_Suc_conv_app_nth)
qed

text \<open>
  \<open>UartMonitor\<close> decodes what is on the line: at the clock of the test its bit period is 5208 edges,
  and when the transmitter's own bit period is close to that (from 4948 to 5497 edges), the bytes it has received are
  those transmitted, in order, whatever the gaps between the frames, back-to-back frames included.
\<close>

theorem monitor_decodes:
  assumes "4948 \<le> B" and "B \<le> 5497" and "list_all (\<lambda>(gap, byte). 0 \<le> byte \<and> byte < 256) fs"
    and "tx 0 = Value 1" and "\<And>i. i < length (tx_wave B fs tail) \<Longrightarrow> tx (Suc i) = Value (tx_wave B fs tail ! i)"
  shows "received_bytes (start_monitoring (baud_period_cycles 100000000) (\<lambda>_. True) tx (length (tx_wave B fs tail))) = map snd fs"
proof -
  have P: "period_ok 5208 B" using assms(1,2) by (simp add: period_ok_def)
  have "take_bit 8 (snd f) = snd f" if "f \<in> set fs" for f
    using assms(3) that by (auto simp: list_all_iff take_bit_int_eq_self)
  then have "map (\<lambda>f. take_bit 8 (snd f)) fs = map snd fs" by simp
  then show ?thesis
    using start_monitoring_feed [of tx "length (tx_wave B fs tail)" "tx_wave B fs tail" 5208] assms(4,5)
      wave_decoded [OF P, of new_monitor_uart fs tail]
    by (simp add: baud_period new_monitor_uart_def)
qed

text \<open>
  A line that is much too fast is not decoded: when all its frames, sent from the first edge on, are
  over before the monitor takes its first sample, one and a half of its periods after the first start
  bit, the monitor reports the single byte 255, whatever was sent.
\<close>

theorem monitor_misreads_fast_line:
  assumes "0 < B" and "length (tx_wave B ((0, byte) # fs) 0) \<le> 7812"
    and "tx 0 = Value 1" and "vs = tx_wave B ((0, byte) # fs) tail" and "7812 + 8 * 5208 < length vs"
    and "\<And>i. i < length vs \<Longrightarrow> tx (Suc i) = Value (vs ! i)"
  shows "received_bytes (start_monitoring (baud_period_cycles 100000000) (\<lambda>_. True) tx (length vs)) = [255]"
proof -
  have wave: "vs = tx_wave B ((0, byte) # fs) 0 @ replicate tail 1" by (simp add: assms(4) tx_wave_def)
  have high: "vs ! i = 1" if "7812 \<le> i" "i < length vs" for i
    using that assms(2) by (simp add: wave nth_append)
  have "vs ! 0 = 0" using assms(1) by (simp add: assms(4) tx_wave_def nth_append nth_tx_frame frame_bit_def)
  have "monitor_feed 5208 vs new_monitor_uart =
      new_monitor_uart\<lparr>received_bytes := received_bytes new_monitor_uart @ [take_bit 8 255]\<rparr>"
  proof (rule byte_sampled)
    show "vs ! sample_at 5208 k = drop_bit k 255 AND 1" if "k < 8" for k
    proof -
      have "k \<in> {0, 1, 2, 3, 4, 5, 6, 7}" using that by auto
      then have "drop_bit k (255 :: int) AND 1 = 1" by auto
      moreover have "vs ! sample_at 5208 k = 1" using that assms(5) by (intro high) (auto simp: sample_at_def)
      ultimately show ?thesis by simp
    qed
    show "vs ! i = 1" if "sample_at 5208 8 \<le> i" "i < length vs" for i
      using that by (intro high) (auto simp: sample_at_def)
  qed (use \<open>vs ! 0 = 0\<close> assms(5) in \<open>simp_all add: new_monitor_uart_def sample_at_def\<close>)
  then show ?thesis
    using start_monitoring_feed [of tx "length vs" vs 5208] assms(3,6) by (simp add: baud_period new_monitor_uart_def)
qed

definition demo_line :: "nat \<Rightarrow> sigval" where
  "demo_line n = Value (if n = 0 then 1 else if n \<le> length (tx_wave 5216 [(3, 0x48)] 2) then tx_wave 5216 [(3, 0x48)] 2 ! (n - 1) else 1)"

theorem monitor_decodes_witness:
  "received_bytes (start_monitoring (baud_period_cycles 100000000) (\<lambda>_. True) demo_line (length (tx_wave 5216 [(3, 0x48)] 2))) = [0x48]"
  using monitor_decodes [of 5216 "[(3, 0x48)]" demo_line 2] by (simp add: demo_line_def)

definition fast_line :: "nat \<Rightarrow> sigval" where
  "fast_line n = Value (if n = 0 then 1 else tx_wave 16 [(0, 0x48)] 60000 ! (n - 1))"

theorem monitor_misreads_fast_line_witness:
  "received_bytes (start_monitoring (baud_period_cycles 100000000) (\<lambda>_. True) fast_line (length (tx_wave 16 [(0, 0x48)] 60000))) = [255]"
  by (rule monitor_misreads_fast_line [where B = 16 and byte = "0x48" and fs = "[]" and tail = 60000])
    (simp_all add: fast_line_def tx_wave_def)

section \<open>Stopping\<close>

text \<open>The edges a monitor that is told to stop still needs.\<close>

fun edges_left :: "nat \<Rightarrow> monitor_pc \<Rightarrow> nat" where
  "edges_left P Looking = 1"
| "edges_left P (Sampling left bit_num rx_byte) = left + (8 - bit_num) * P"
| "edges_left P (Stop_bit left rx_byte) = left"
| "edges_left P Returned = 0"
| "edges_left P (Raised e) = 0"

fun timer_ok :: "nat \<Rightarrow> monitor_pc \<Rightarrow> bool" where
  "timer_ok P (Sampling left bit_num rx_byte) =
     (0 < left \<and> bit_num < 8 \<and> left \<le> (if bit_num = 0 then (P * 15) div 10 else P))"
| "timer_ok P (Stop_bit left rx_byte) = (0 < left \<and> left \<le> P)"
| "timer_ok P pc = True"

lemma look_timer_ok: "0 < P \<Longrightarrow> timer_ok P (um_pc (look_for_start P v m))"
  by (auto simp: look_for_start_def split: sum.split)

lemma edge_timer_ok: "0 < P \<Longrightarrow> timer_ok P (um_pc m) \<Longrightarrow> timer_ok P (um_pc (monitor_edge P f v m))"
  by (cases "um_pc m") (auto simp: monitor_edge_def sample_bit_def monitoring_loop_def look_timer_ok Let_def split: sum.split)

lemma start_timer_ok: "0 < P \<Longrightarrow> timer_ok P (um_pc (start_monitoring P flag tx n))"
  by (induction n) (simp_all add: edge_timer_ok monitoring_loop_def look_timer_ok)

lemma timer_bound: "timer_ok P pc \<Longrightarrow> 0 < P \<Longrightarrow> edges_left P pc \<le> 10 * P"
proof (cases pc)
  case (Sampling left bit_num rx_byte)
  assume a: "timer_ok P pc" "0 < P"
  have "left + (8 - bit_num) * P \<le> 10 * P"
  proof (cases "bit_num = 0")
    case True
    have "(P * 15) div 10 \<le> 2 * P" by simp
    with True a Sampling show ?thesis by simp
  next
    case False
    then have "(8 - bit_num) * P \<le> 7 * P" by (intro mult_le_mono1) simp
    moreover have "left \<le> P" using a Sampling False by simp
    ultimately show ?thesis by linarith
  qed
  with Sampling show ?thesis by simp
qed simp_all

lemma stopping_edge:
  assumes "timer_ok P (um_pc m)" and "0 < P"
  shows "edges_left P (um_pc (monitor_edge P False v m)) \<le> edges_left P (um_pc m) - 1"
proof (cases "um_pc m")
  case (Sampling left bit_num rx_byte)
  with assms have b: "0 < left" "bit_num < 8" by auto
  have "8 - bit_num = Suc (7 - bit_num)" using b(2) by linarith
  then have "(8 - bit_num) * P = P + (7 - bit_num) * P" by (simp only: mult_Suc)
  with Sampling b show ?thesis
    by (auto simp: monitor_edge_def sample_bit_def Let_def split: sum.split)
qed (auto simp: monitor_edge_def monitoring_loop_def)

text \<open>
  \<open>await monitor_task\<close> comes back: once \<open>stop_monitoring\<close> has been called the coroutine ends
  within ten bit periods, whatever is on the line, by returning or, when a value cannot be read, by
  the exception of that read; a byte whose start bit it had seen is still decoded.
\<close>

theorem monitor_stops:
  assumes "0 < P" and "\<And>n. d < n \<Longrightarrow> \<not> flag n"
  shows "edges_left P (um_pc (start_monitoring P flag tx (d + 10 * P))) = 0 \<and>
         (case um_pc (start_monitoring P flag tx (d + 10 * P)) of
            Returned \<Rightarrow> True | Raised e \<Rightarrow> True | _ \<Rightarrow> False)"
proof -
  have "edges_left P (um_pc (start_monitoring P flag tx (d + k))) \<le> 10 * P - k" for k
  proof (induction k)
    case 0
    then show ?case using timer_bound [OF start_timer_ok assms(1)] assms(1) by simp
  next
    case (Suc k)
    have "\<not> flag (Suc (d + k))" using assms(2) by simp
    then show ?case
      using Suc stopping_edge [where v = "tx (Suc (d + k))", OF start_timer_ok [of P flag tx "d + k", OF assms(1)] assms(1)] by simp
  qed
  from this [of "10 * P"] have z: "edges_left P (um_pc (start_monitoring P flag tx (d + 10 * P))) = 0" by simp
  then show ?thesis using start_timer_ok [OF assms(1), of flag tx "d + 10 * P"]
    by (cases "um_pc (start_monitoring P flag tx (d + 10 * P))") auto
qed

theorem monitor_stops_witness:
  "edges_left 5208 (um_pc (start_monitoring 5208 (\<lambda>n. n \<le> 20000) demo_line (20000 + 10 * 5208))) = 0"
  using monitor_stops [of 5208 20000 "\<lambda>n. n \<le> 20000" demo_line] by simp

section \<open>Types\<close>

text \<open>A line of one bit: when its value can be read it is 0 or 1.\<close>

definition one_bit :: "(nat \<Rightarrow> sigval) \<Rightarrow> bool" where
  "one_bit tx \<longleftrightarrow> (\<forall>n v. tx n = Value v \<longrightarrow> v = 0 \<or> v = 1)"

text \<open>The byte so far has no bit the sampling has not reached.\<close>

fun pc_typed :: "monitor_pc \<Rightarrow> bool" where
  "pc_typed (Sampling left bit_num rx_byte) \<longleftrightarrow> bit_num < 8 \<and> 0 \<le> rx_byte \<and> rx_byte < 2 ^ bit_num"
| "pc_typed (Stop_bit left rx_byte) \<longleftrightarrow> 0 \<le> rx_byte \<and> rx_byte < 256"
| "pc_typed pc \<longleftrightarrow> True"

definition monitor_typed :: "uart_monitor \<Rightarrow> bool" where
  "monitor_typed m \<longleftrightarrow> pc_typed (um_pc m) \<and> list_all (\<lambda>b. 0 \<le> b \<and> b < 256) (received_bytes m)"

lemma or_bit_range:
  assumes "0 \<le> x" and "x < 2 ^ b" and "v = 0 \<or> v = (1 :: int)"
  shows "0 \<le> x OR push_bit b v" and "x OR push_bit b v < 2 ^ Suc b"
proof -
  show "0 \<le> x OR push_bit b v" using assms(1,3) by auto
  have "x = take_bit (Suc b) x" "push_bit b v = take_bit (Suc b) (push_bit b v)"
    using assms by (auto simp: take_bit_int_eq_self push_bit_eq_mult)
  then have "x OR push_bit b v = take_bit (Suc b) (x OR push_bit b v)" by simp
  then show "x OR push_bit b v < 2 ^ Suc b" by (metis take_bit_int_less_exp)
qed

lemma look_typed: "list_all (\<lambda>b. 0 \<le> b \<and> b < 256) (received_bytes m) \<Longrightarrow> monitor_typed (look_for_start P v m)"
  by (auto simp: monitor_typed_def look_for_start_def split: sum.split)

lemma sample_typed:
  assumes "\<And>w. v = Value w \<Longrightarrow> w = 0 \<or> w = 1" and "b < 8" and "0 \<le> rx" and "rx < 2 ^ b"
    and "list_all (\<lambda>b. 0 \<le> b \<and> b < 256) (received_bytes m)"
  shows "monitor_typed (sample_bit P v b rx m)"
proof (cases "int_value v")
  case (Inr w)
  then have "w = 0 \<or> w = 1" using assms(1) by (auto simp: int_value_def split: sigval.splits)
  note r = or_bit_range [OF assms(3,4) this]
  show ?thesis
  proof (cases "b < 7")
    case True
    with Inr r assms(5) show ?thesis by (simp add: sample_bit_def monitor_typed_def)
  next
    case False
    with assms(2) have "b = 7" by simp
    with Inr r assms(5) show ?thesis by (simp add: sample_bit_def monitor_typed_def)
  qed
qed (use assms(5) in \<open>simp add: sample_bit_def monitor_typed_def\<close>)

lemma edge_typed:
  assumes "monitor_typed m" and "\<And>w. v = Value w \<Longrightarrow> w = 0 \<or> w = 1"
  shows "monitor_typed (monitor_edge P f v m)"
proof (cases "um_pc m")
  case (Sampling left b rx)
  then show ?thesis
    using assms sample_typed [of v b rx m P] by (auto simp: monitor_edge_def monitor_typed_def)
next
  case (Stop_bit left rx)
  then show ?thesis
    using assms(1) by (auto simp: monitor_edge_def monitoring_loop_def look_typed monitor_typed_def [of m])
      (auto simp: monitor_typed_def)
next
  case Looking
  then show ?thesis using assms(1) by (auto simp: monitor_edge_def look_typed monitor_typed_def [of m]) (auto simp: monitor_typed_def)
qed (use assms(1) in \<open>simp_all add: monitor_edge_def\<close>)

lemma start_typed:
  assumes "one_bit tx"
  shows "monitor_typed (start_monitoring P flag tx n)"
proof (induction n)
  case 0
  show ?case by (auto simp: monitoring_loop_def look_typed new_monitor_uart_def) (simp add: monitor_typed_def)
next
  case (Suc n)
  then show ?case using assms by (auto simp: one_bit_def intro!: edge_typed)
qed

lemma received_string_ok:
  assumes "one_bit tx"
  shows "get_received_string (start_monitoring P flag tx n) =
           Inr (decode_ascii_replace (received_bytes (start_monitoring P flag tx n)))"
  using start_typed [OF assms, of P flag n] by (simp add: get_received_string_def monitor_typed_def)

text \<open>
  C38. The monitor's values keep their types on a line of one bit, whatever the line carries, whether its
  values can be read, and whenever the monitor is stopped: while it samples bit \<open>n\<close> the byte so far has
  at most \<open>n\<close> bits, every element of \<open>received_bytes\<close> is a byte, and so \<open>get_received_string\<close> never
  raises and gives one character for each of them.
\<close>

theorem received_bytes_typed:
  assumes "one_bit tx"
  shows "pc_typed (um_pc (start_monitoring P flag tx n)) \<and>
         list_all (\<lambda>b. 0 \<le> b \<and> b < 256) (received_bytes (start_monitoring P flag tx n)) \<and>
         (\<exists>str. get_received_string (start_monitoring P flag tx n) = Inr str \<and>
            length str = length (received_bytes (start_monitoring P flag tx n)))"
  using start_typed [OF assms, of P flag n] received_string_ok [OF assms, of P flag n]
  by (simp add: monitor_typed_def decode_ascii_replace_def)

lemma frame_bit_range: "frame_bit byte k = 0 \<or> frame_bit byte k = 1"
  by (auto simp: frame_bit_def and_one_eq mod2_eq_if)

theorem received_bytes_typed_witness:
  "\<exists>str. get_received_string (start_monitoring 5208 (\<lambda>_. True) demo_line 60000) = Inr str \<and>
     length str = length (received_bytes (start_monitoring 5208 (\<lambda>_. True) demo_line 60000))"
proof -
  have "v \<in> {0, 1}" if "v \<in> set (tx_wave 5216 [(3, 0x48)] 2)" for v
    using that frame_bit_range [of "0x48"] by (auto simp: tx_wave_def tx_frame_def)
  then have "one_bit demo_line" by (auto simp: one_bit_def demo_line_def dest!: spec nth_mem)
  from received_bytes_typed [OF this, of 5208 "\<lambda>_. True" 60000] show ?thesis by simp
qed

end
