(* ===== verification/Uart_Transmit.thy ===== *)
theory Uart_Transmit
  imports Uart_Monitor
begin

text \<open>
  The transmitter of the UART and the \<open>UartMonitor\<close> that listens to its line, put together. The
  transmit line is shown to be a sequence of frames of sixteen divisor periods per bit, and the
  monitor's decoding of such a line then gives back the bytes software wrote.
\<close>

section \<open>The bit clock\<close>

definition keeps_divisor :: "uart_in \<Rightarrow> bool" where
  "keeps_divisor i \<longleftrightarrow> keeps_tx_fifo i \<and> \<not> wr i 3"

text \<open>Edges until the edge at which the transmitter moves.\<close>

definition tick_in :: "uart \<Rightarrow> nat" where
  "tick_in s = (15 - unat (tx_tick_count s)) * unat (baud_div s) + unat (baud_tick_counter s)"

lemma tx_tick_count_le: "unat (tx_tick_count s) \<le> 15"
  using unsigned_less [of "tx_tick_count s", where 'a = nat] by simp

lemma tick_in_0: "0 < unat (baud_div s) \<Longrightarrow> tick_in s = 0 \<longleftrightarrow> tx_bit_tick s"
proof -
  assume "0 < unat (baud_div s)"
  then have "tick_in s = 0 \<longleftrightarrow> 15 \<le> unat (tx_tick_count s) \<and> unat (baud_tick_counter s) = 0"
    by (simp add: tick_in_def)
  also have "15 \<le> unat (tx_tick_count s) \<longleftrightarrow> tx_tick_count s = 15"
    using tx_tick_count_le [of s] by (auto simp: word_unat_eq_iff)
  finally show ?thesis by (auto simp: tx_bit_tick_def baud_tick_def unat_eq_zero)
qed

lemma uart_step_line:
  assumes "\<not> in_rst i"
  shows "tx_out (uart_step s i) = tx_out_next s" and "tx_bit_count (uart_step s i) = tx_bit_count_next s"
    and "tx_tick_count (uart_step s i) = (if baud_tick s then tx_tick_count s + 1 else tx_tick_count s)"
  using assms by (simp_all add: uart_upds)

lemma tick_in_step:
  assumes "keeps_divisor i" and "0 < unat (baud_div s)"
  shows "tick_in (uart_step s i) = (if tick_in s = 0 then 16 * unat (baud_div s) - 1 else tick_in s - 1)"
    and "baud_div (uart_step s i) = baud_div s"
proof -
  have r: "\<not> in_rst i" and w: "\<not> wr i 3" using assms(1) by (simp_all add: keeps_divisor_def keeps_tx_fifo_def)
  show div: "baud_div (uart_step s i) = baud_div s" using w by (simp add: uart_step_baud [OF r])
  let ?D = "unat (baud_div s)" and ?c = "unat (tx_tick_count s)"
  show "tick_in (uart_step s i) = (if tick_in s = 0 then 16 * ?D - 1 else tick_in s - 1)"
  proof (cases "baud_tick s")
    case False
    then have "0 < unat (baud_tick_counter s)" by (simp add: baud_tick_def unat_gt_0)
    moreover have "unat (baud_tick_counter s - 1) = unat (baud_tick_counter s) - 1"
      using False by (simp add: baud_tick_def unat_minus_one)
    ultimately show ?thesis using False by (simp add: tick_in_def div uart_step_baud(1) [OF r] uart_step_line [OF r])
  next
    case True
    have reload: "unat (if 1 < baud_div s then baud_div s - 1 else 0) = ?D - 1"
    proof -
      from assms(2) have "baud_div s \<noteq> 0" by auto
      with unat_minus_one [OF this] show ?thesis by (auto simp: word_less_nat_alt)
    qed
    show ?thesis
    proof (cases "tx_tick_count s = 15")
      case True
      with \<open>baud_tick s\<close> assms(2) show ?thesis
        by (simp add: tick_in_def div uart_step_baud(1) [OF r] uart_step_line [OF r] reload baud_tick_def)
    next
      case False
      then have c: "?c < 15" using tx_tick_count_le [of s] by (simp add: word_unat_eq_iff)
      then have "unat (tx_tick_count s + 1) = Suc ?c" by (simp add: unat_word_ariths)
      moreover have "(15 - ?c) * ?D = ?D + (14 - ?c) * ?D"
      proof -
        have "15 - ?c = Suc (14 - ?c)" using c by linarith
        then show ?thesis by (simp only: mult_Suc)
      qed
      ultimately show ?thesis
        using True assms(2) by (simp add: tick_in_def div uart_step_baud(1) [OF r] uart_step_line [OF r] reload baud_tick_def)
    qed
  qed
qed

section \<open>Frames on the line\<close>

definition line_value :: "uart \<Rightarrow> int" where
  "line_value s = of_bool (tx_out s)"

text \<open>The transmitter is sending bit \<open>k\<close> of the frame of a byte, or nothing.\<close>

definition in_bit :: "uart \<Rightarrow> 8 word \<Rightarrow> nat \<Rightarrow> bool" where
  "in_bit s byte k \<longleftrightarrow>
     tx_data s = byte \<and> line_value s = frame_bit (uint byte) k \<and>
     (if k = 0 then tx_state s = TX_START
      else if k \<le> 8 then tx_state s = TX_DATA \<and> tx_bit_count s = of_nat k
      else tx_state s = TX_STOP)"

definition tx_idle :: "uart \<Rightarrow> bool" where
  "tx_idle s \<longleftrightarrow> tx_state s = TX_IDLE \<and> line_value s = 1"

lemma frame_bit_data: "k < 8 \<Longrightarrow> frame_bit (uint (byte :: 8 word)) (Suc k) = of_bool (bit byte k)"
  using bit_iff_odd_drop_bit [of "uint byte" k] by (simp add: frame_bit_def and_one_eq mod2_eq_if bit_uint_iff)

lemma tx_states_distinct:
  "TX_IDLE \<noteq> TX_START" "TX_START \<noteq> TX_IDLE" "TX_IDLE \<noteq> TX_DATA" "TX_DATA \<noteq> TX_IDLE" "TX_IDLE \<noteq> TX_STOP"
  "TX_STOP \<noteq> TX_IDLE" "TX_START \<noteq> TX_DATA" "TX_DATA \<noteq> TX_START" "TX_START \<noteq> TX_STOP" "TX_STOP \<noteq> TX_START"
  "TX_DATA \<noteq> TX_STOP" "TX_STOP \<noteq> TX_DATA"
  by (simp_all add: rtl_simps)

lemma bit_count_small:
  assumes "k \<le> 8"
  shows "(of_nat k :: 4 word) < 8 \<longleftrightarrow> k < 8" and "k < 8 \<Longrightarrow> unat (ucast (of_nat k :: 4 word) :: 3 word) = k"
    and "of_nat k + 1 = (of_nat (Suc k) :: 4 word)"
  using assms by (simp_all add: word_less_nat_alt unat_of_nat unsigned_ucast_eq take_bit_eq_mod)


lemma in_bit_waits:
  assumes "fifo_mode s" and "keeps_divisor i" and "in_bit s byte k" and "\<not> tx_bit_tick s"
  shows "in_bit (uart_step s i) byte k" and "\<not> tx_consumed s i"
proof -
  have r: "\<not> in_rst i" using assms(2) by (simp add: keeps_divisor_def keeps_tx_fifo_def)
  show "in_bit (uart_step s i) byte k"
    using assms(1,3,4) by (simp add: in_bit_def line_value_def uart_step_line [OF r] uart_step_tx [OF r] tx_out_next_def
        tx_state_next_def tx_bit_count_next_def tx_pop_def tx_load_def fifo_mode_def)
  show "\<not> tx_consumed s i" using assms(4) by (simp add: tx_consumed_def tx_pop_def)
qed

lemma in_bit_moves:
  assumes "fifo_mode s" and "keeps_divisor i" and "in_bit s byte k" and "tx_bit_tick s" and "k < 9"
  shows "in_bit (uart_step s i) byte (Suc k)" and "\<not> tx_consumed s i"
proof -
  have r: "\<not> in_rst i" using assms(2) by (simp add: keeps_divisor_def keeps_tx_fifo_def)
  note regs = line_value_def uart_step_line [OF r] uart_step_tx [OF r] tx_out_next_def tx_state_next_def
    tx_bit_count_next_def tx_pop_def tx_load_def
  have l: "\<not> tx_load s i" using assms(1) by (simp add: tx_load_def fifo_mode_def)
  show "\<not> tx_consumed s i"
    using assms(3,5) by (auto simp: tx_consumed_def tx_pop_def in_bit_def tx_states_distinct split: if_splits)
  consider "k = 0" | "0 < k" "k < 8" | "k = 8" using assms(5) by linarith
  then show "in_bit (uart_step s i) byte (Suc k)"
  proof cases
    case 1
    with assms(1,3,4) show ?thesis
      using frame_bit_data [of 0 byte] by (simp add: in_bit_def regs tx_states_distinct fifo_mode_def)
  next
    case 2
    with assms(1,3,4) show ?thesis
      using frame_bit_data [of k byte] bit_count_small [of k]
      by (simp add: in_bit_def regs tx_states_distinct fifo_mode_def add.commute)
  next
    case 3
    with assms(1,3,4) show ?thesis
      by (simp add: in_bit_def regs tx_states_distinct fifo_mode_def frame_bit_def)
  qed
qed

text \<open>Between frames, and from one frame to the next.\<close>

lemma start_of_frame:
  assumes "fifo_mode s" and "keeps_divisor i" and "tx_consumed s i"
  shows "in_bit (uart_step s i) (hd (tx_queue s)) 0" and "tx_bit_tick s"
proof -
  have k: "keeps_tx_fifo i" and r: "\<not> in_rst i" using assms(2) by (simp_all add: keeps_divisor_def keeps_tx_fifo_def)
  show t: "tx_bit_tick s" using assms(3) by (simp add: tx_consumed_def tx_pop_def)
  have n: "tx_state_next s = TX_START"
    using enters_start_iff_pop(1) [OF assms(1) k] assms(3) by (simp add: uart_step_tx [OF r])
  then have "line_value (uart_step s i) = 0"
    using t by (simp add: line_value_def uart_step_line [OF r] tx_out_next_def)
  with n enters_start_iff_pop(2) [OF assms(1) k assms(3)] show "in_bit (uart_step s i) (hd (tx_queue s)) 0"
    by (simp add: in_bit_def uart_step_tx(1) [OF r] frame_bit_def)
qed

lemma idle_stays:
  assumes "fifo_mode s" and "keeps_divisor i" and "tx_idle s" and "\<not> tx_consumed s i"
  shows "tx_idle (uart_step s i)"
proof -
  have r: "\<not> in_rst i" using assms(2) by (simp add: keeps_divisor_def keeps_tx_fifo_def)
  show ?thesis
    using assms(1,3,4) r by (auto simp: tx_idle_def line_value_def uart_step_line [OF r] uart_step_tx [OF r]
        tx_out_next_def tx_state_next_def tx_consumed_def tx_pop_def fifo_mode_def tx_states_distinct)
qed

lemma frame_ends:
  assumes "fifo_mode s" and "keeps_divisor i" and "in_bit s byte 9" and "tx_bit_tick s" and "\<not> tx_consumed s i"
  shows "tx_idle (uart_step s i)"
proof -
  have r: "\<not> in_rst i" using assms(2) by (simp add: keeps_divisor_def keeps_tx_fifo_def)
  show ?thesis
    using assms(3-5) r by (auto simp: tx_idle_def in_bit_def line_value_def uart_step_line [OF r] uart_step_tx [OF r]
        tx_out_next_def tx_state_next_def tx_consumed_def tx_pop_def frame_bit_def tx_states_distinct)
qed

text \<open>
  The line so far against the state: whole frames and a gap, or whole frames, a gap and the part of
  the frame of the byte being sent, with the bit clock in step.
\<close>

definition on_line :: "nat \<Rightarrow> uart \<Rightarrow> int list \<Rightarrow> int list \<Rightarrow> bool" where
  "on_line B s vs bytes \<longleftrightarrow>
     (\<exists>fs tail. vs = tx_wave B fs tail \<and> bytes = map snd fs \<and> tx_idle s) \<or>
     (\<exists>fs gap byte k p. vs = tx_wave B fs gap @ take p (tx_frame B (uint byte)) \<and>
        bytes = map snd fs @ [uint byte] \<and> in_bit s byte k \<and> k \<le> 9 \<and> k * B < p \<and> p + tick_in s = Suc k * B)"

lemma tx_wave_snoc:
  "tx_wave B fs gap @ tx_frame B b = tx_wave B (fs @ [(gap, b)]) 0"
  "tx_wave B fs tail @ [1] = tx_wave B fs (Suc tail)"
  by (simp_all add: tx_wave_def replicate_append_same)

lemma on_line_idle: "tx_idle s \<Longrightarrow> on_line B s (tx_wave B fs tail) (map snd fs)"
  by (auto simp: on_line_def)

lemma on_line_frame:
  "in_bit s byte k \<Longrightarrow> k \<le> 9 \<Longrightarrow> k * B < p \<Longrightarrow> p + tick_in s = Suc k * B \<Longrightarrow>
     on_line B s (tx_wave B fs gap @ take p (tx_frame B (uint byte))) (map snd fs @ [uint byte])"
  unfolding on_line_def by blast

lemma on_line_starts:
  assumes "fifo_mode s" and "keeps_divisor i" and "0 < unat (baud_div s)" and "B = 16 * unat (baud_div s)"
    and "tx_consumed s i"
  shows "on_line B (uart_step s i) (tx_wave B fs gap @ [line_value (uart_step s i)])
           (map snd fs @ [uint (hd (tx_queue s))])"
proof -
  let ?t = "uart_step s i" and ?b = "hd (tx_queue s)"
  note start = start_of_frame [OF assms(1,2,5)]
  have B: "0 < B" using assms(3,4) by simp
  have "tick_in ?t = B - 1"
    using tick_in_step(1) [OF assms(2,3)] tick_in_0 [OF assms(3)] start(2) assms(4) by simp
  then have "1 + tick_in ?t = Suc 0 * B" using B by simp
  then have "on_line B ?t (tx_wave B fs gap @ take 1 (tx_frame B (uint ?b))) (map snd fs @ [uint ?b])"
    using start(1) by (intro on_line_frame) auto
  moreover have "take 1 (tx_frame B (uint ?b)) = [line_value ?t]"
  proof -
    have "take 1 (tx_frame B (uint ?b)) = [tx_frame B (uint ?b) ! 0]" using B by (simp add: take_Suc_conv_app_nth)
    then show ?thesis using B start(1) by (simp add: nth_tx_frame in_bit_def)
  qed
  ultimately show ?thesis by simp
qed

lemma on_line_step:
  assumes "fifo_mode s" and "keeps_divisor i" and "0 < unat (baud_div s)" and "B = 16 * unat (baud_div s)"
    and "on_line B s vs bytes"
  shows "on_line B (uart_step s i) (vs @ [line_value (uart_step s i)])
           (bytes @ (if tx_consumed s i then [uint (hd (tx_queue s))] else []))"
  using assms(5) unfolding on_line_def [of B s]
proof (elim disjE exE conjE)
  fix fs tail
  assume vs: "vs = tx_wave B fs tail" and bytes: "bytes = map snd fs" and idle: "tx_idle s"
  show ?thesis
  proof (cases "tx_consumed s i")
    case True
    then show ?thesis using on_line_starts [OF assms(1-4) True] by (simp add: vs bytes)
  next
    case False
    then have t: "tx_idle (uart_step s i)" by (rule idle_stays [OF assms(1,2) idle])
    then have "line_value (uart_step s i) = 1" by (simp add: tx_idle_def)
    with on_line_idle [OF t] False show ?thesis by (simp add: vs bytes tx_wave_snoc(2))
  qed
next
  fix fs gap k p and byte :: "8 word"
  let ?t = "uart_step s i" and ?f = "tx_frame B (uint byte)"
  assume vs: "vs = tx_wave B fs gap @ take p ?f" and bytes: "bytes = map snd fs @ [uint byte]"
    and bit: "in_bit s byte k" and k: "k \<le> 9" and low: "k * B < p" and tick: "p + tick_in s = Suc k * B"
  have B: "0 < B" using assms(3,4) by simp
  note next_tick = tick_in_step(1) [OF assms(2,3)]
  have more: "on_line B ?t (vs @ [line_value ?t]) (bytes @ [])"
    if "in_bit ?t byte k'" "k' \<le> 9" "k' * B \<le> p" "p < Suc k' * B" "Suc p + tick_in ?t = Suc k' * B" for k'
  proof -
    have "Suc k' * B \<le> 10 * B" using that(2) by (intro mult_le_mono1) simp
    then have p: "p < 10 * B" using that(4) by linarith
    have "p div B = k'" using that(3,4) by (intro div_nat_eqI) (auto simp: mult.commute)
    then have "?f ! p = line_value ?t" using p that(1) by (simp add: nth_tx_frame in_bit_def)
    then have "take (Suc p) ?f = take p ?f @ [line_value ?t]" using p by (simp add: take_Suc_conv_app_nth)
    then show ?thesis
      using on_line_frame [of ?t byte k' B "Suc p" fs gap] that by (simp add: vs bytes)
  qed
  show ?thesis
  proof (cases "tx_bit_tick s")
    case False
    then have "0 < tick_in s" using tick_in_0 [OF assms(3)] by blast
    with in_bit_waits [OF assms(1,2) bit False] more [of k] k low tick next_tick show ?thesis by simp
  next
    case True
    then have t0: "tick_in s = 0" using tick_in_0 [OF assms(3)] by blast
    show ?thesis
    proof (cases "k = 9")
      case False
      with k have "k < 9" by simp
      with in_bit_moves [OF assms(1,2) bit True] more [of "Suc k"] tick t0 next_tick B assms(4) show ?thesis by simp
    next
      case k9: True
      then have "take p ?f = ?f" using tick t0 by simp
      then have whole: "vs = tx_wave B (fs @ [(gap, uint byte)]) 0" by (simp add: vs tx_wave_snoc(1))
      show ?thesis
      proof (cases "tx_consumed s i")
        case c: True
        then show ?thesis
          using on_line_starts [OF assms(1-4) c, of "fs @ [(gap, uint byte)]" 0] by (simp add: whole bytes)
      next
        case c: False
        have idle: "tx_idle ?t" using frame_ends [OF assms(1,2) _ True c] bit k9 by simp
        then have "line_value ?t = 1" by (simp add: tx_idle_def)
        with on_line_idle [OF idle, of B "fs @ [(gap, uint byte)]" "Suc 0"] c show ?thesis
          by (simp add: whole bytes tx_wave_snoc(2))
      qed
    qed
  qed
qed

section \<open>The monitor at the line\<close>

definition line_log :: "uart \<Rightarrow> uart_in list \<Rightarrow> int list" where
  "line_log s is = map (\<lambda>n. line_value (uart_run s (take n is))) [1..<Suc (length is)]"

lemma line_log_simps:
  "line_log s [] = []" "line_log s (is @ [i]) = line_log s is @ [line_value (uart_step (uart_run s is) i)]"
proof -
  show "line_log s [] = []" by (simp add: line_log_def)
  have "map (\<lambda>n. line_value (uart_run s (take n (is @ [i])))) [1..<Suc (length is)] = line_log s is"
    unfolding line_log_def by (rule map_cong) auto
  then show "line_log s (is @ [i]) = line_log s is @ [line_value (uart_step (uart_run s is) i)]"
    unfolding line_log_def [of s "is @ [i]"] by (simp del: take_append) (simp add: uart_run_append)
qed

lemma on_line_run:
  assumes "fifo_mode s" and "tx_idle s" and "0 < unat (baud_div s)" and "list_all keeps_divisor is"
  shows "on_line (16 * unat (baud_div s)) (uart_run s is) (line_log s is) (map uint (txf.consumed_log s is)) \<and>
         baud_div (uart_run s is) = baud_div s \<and> fifo_mode (uart_run s is)"
  using assms(4)
proof (induction "is" rule: rev_induct)
  case Nil
  have "on_line B s [] (map snd [])" for B using on_line_idle [OF assms(2), of B "[]" 0] by (simp add: tx_wave_def)
  then show ?case using assms(1) by (simp add: line_log_simps)
next
  case (snoc i "is")
  let ?t = "uart_run s is"
  from snoc have i: "keeps_divisor i" and IH: "on_line (16 * unat (baud_div s)) ?t (line_log s is) (map uint (txf.consumed_log s is))"
    "baud_div ?t = baud_div s" "fifo_mode ?t" by auto
  have "fifo_mode (uart_step ?t i)" using IH(3) i by (simp add: fifo_mode_step keeps_divisor_def)
  with on_line_step [OF IH(3) i _ refl, of "line_log s is"] tick_in_step(2) [OF i, of ?t] IH(1,2) assms(3) show ?case
    by (simp add: uart_run_append line_log_simps txf.consumed_log_append fifo_run if_distrib cong: if_cong)
qed

lemma monitor_edge_appends: "\<exists>xs. received_bytes (monitor_edge P f v m) = received_bytes m @ xs"
  by (cases "um_pc m")
     (auto simp: monitor_edge_def sample_bit_def monitoring_loop_def look_for_start_def Let_def split: sum.split)

lemma monitor_feed_appends: "\<exists>xs. received_bytes (monitor_feed P vs m) = received_bytes m @ xs"
proof (induction vs arbitrary: m)
  case (Cons v vs)
  then show ?case using monitor_edge_appends [of P True "Value v" m] by (metis append_assoc monitor_feed_simps(2))
qed simp

lemma take_bit_bytes:
  "map snd fs = map uint (bs :: 8 word list) @ cs \<Longrightarrow> map (\<lambda>f. take_bit 8 (snd f)) (take (length bs) fs) = map uint bs"
proof (induction bs arbitrary: fs)
  case (Cons b bs)
  then show ?case by (cases fs) (auto simp: uint_byte)
qed simp

lemma line_decoded:
  fixes bs :: "8 word list"
  assumes "period_ok P B" and "on_line B s vs (map uint bs)"
  shows "\<exists>rest. received_bytes (monitor_feed P vs new_monitor_uart) @ rest = map uint bs \<and> length rest \<le> 1 \<and>
           (tx_idle s \<longrightarrow> rest = [])"
  using assms(2) unfolding on_line_def
proof (elim disjE exE conjE)
  fix fs tail
  assume vs: "vs = tx_wave B fs tail" and bytes: "map uint bs = map snd fs"
  then have "map (\<lambda>f. take_bit 8 (snd f)) fs = map uint bs"
    using take_bit_bytes [of fs bs "[]"] map_eq_imp_length_eq [OF bytes] by simp
  then have "received_bytes (monitor_feed P vs new_monitor_uart) = map uint bs"
    using wave_decoded [OF assms(1), of new_monitor_uart fs tail] by (simp add: vs new_monitor_uart_def)
  then show ?thesis by simp
next
  fix fs gap k p and byte :: "8 word"
  assume vs: "vs = tx_wave B fs gap @ take p (tx_frame B (uint byte))"
    and bytes: "map uint bs = map snd fs @ [uint byte]" and bit: "in_bit s byte k"
  let ?m = "monitor_feed P (tx_wave B fs gap) new_monitor_uart"
  let ?part = "monitor_feed P (take p (tx_frame B (uint byte))) ?m"
  obtain as where bs: "bs = as @ [byte]" and "map uint as = map snd fs"
    using bytes by (auto simp: map_eq_append_conv word_uint_eq_iff)
  then have m: "um_pc ?m = Looking" "received_bytes ?m = map uint as"
    using wave_decoded [OF assms(1), of new_monitor_uart fs gap] take_bit_bytes [of fs as "[]"] map_eq_imp_length_eq [of uint as snd fs]
    by (simp_all add: new_monitor_uart_def)
  have "monitor_feed P (drop p (tx_frame B (uint byte))) ?part = ?m\<lparr>received_bytes := map uint as @ [uint byte]\<rparr>"
    using frame_decoded [OF assms(1) m(1), of "uint byte"] m(2)
    by (simp add: uint_byte flip: monitor_feed_simps(3))
  then obtain xs ys where "received_bytes ?part = map uint as @ xs" "map uint as @ [uint byte] = received_bytes ?part @ ys"
    using monitor_feed_appends [of P "take p (tx_frame B (uint byte))" ?m] m(2)
      monitor_feed_appends [of P "drop p (tx_frame B (uint byte))" ?part] by auto
  then have "received_bytes (monitor_feed P vs new_monitor_uart) @ ys = map uint bs \<and> length ys \<le> 1"
    by (auto simp: vs bs append_eq_Cons_conv Cons_eq_append_conv)
  moreover have "\<not> tx_idle s" using bit by (auto simp: in_bit_def tx_idle_def tx_states_distinct split: if_splits)
  ultimately show ?thesis by blast
qed

text \<open>
  C26. What software writes to the UART is what the monitor prints. While the divisor is from 310 to
  343, so that a bit lasts 4960 to 5488 clock edges, and software keeps the FIFOs on and the divisor
  as it is, then at every moment the bytes \<open>UartMonitor\<close> has received, followed by at most the one
  whose frame is on the line and by those in the transmit FIFO, are the bytes that were in the FIFO
  and those written to THR since, in order; once the transmitter is idle none is on the line.
\<close>

theorem monitor_receives_thr:
  assumes "fifo_mode s" and "tx_idle s" and "310 \<le> unat (baud_div s)" and "unat (baud_div s) \<le> 343"
    and "list_all keeps_divisor is"
  shows "\<exists>on_wire. received_bytes (start_monitoring (baud_period_cycles 100000000) (\<lambda>_. True)
             (\<lambda>n. Value (line_value (uart_run s (take n is)))) (length is)) @ on_wire @
           map uint (tx_queue (uart_run s is)) = map uint (tx_queue s @ thr_written s is) \<and>
         length on_wire \<le> 1 \<and> (tx_idle (uart_run s is) \<longrightarrow> on_wire = [])"
proof -
  let ?B = "16 * unat (baud_div s)" and ?tx = "\<lambda>n. Value (line_value (uart_run s (take n is)))"
  have P: "period_ok 5208 ?B" using assms(3,4) by (simp add: period_ok_def)
  have fed: "start_monitoring 5208 (\<lambda>_. True) ?tx (length is) = monitor_feed 5208 (line_log s is) new_monitor_uart"
    using start_monitoring_feed [of ?tx "length is" "line_log s is" 5208] assms(2)
    by (simp add: line_log_def tx_idle_def del: upt_Suc)
  have "on_line ?B (uart_run s is) (line_log s is) (map uint (txf.consumed_log s is))"
    using on_line_run [OF assms(1,2) _ assms(5)] assms(3) by simp
  from line_decoded [OF P this] obtain rest where
    rest: "received_bytes (monitor_feed 5208 (line_log s is) new_monitor_uart) @ rest = map uint (txf.consumed_log s is)"
      "length rest \<le> 1" "tx_idle (uart_run s is) \<longrightarrow> rest = []" by blast
  have "list_all keeps_tx_fifo is" using assms(5) by (auto simp: list_all_iff keeps_divisor_def)
  then have "txf.consumed_log s is @ tx_queue (uart_run s is) = tx_queue s @ thr_written s is"
    using txf.conservation [OF _ keeps_never_cleared, of s "is"] assms(1)
    by (simp add: fifo_mode_def fifo_run thr_written_log)
  then have "map uint (txf.consumed_log s is) @ map uint (tx_queue (uart_run s is)) = map uint (tx_queue s @ thr_written s is)"
    by (simp flip: map_append)
  with rest show ?thesis
    unfolding baud_period fed by (intro exI [of _ rest]) (simp flip: rest(1))
qed

theorem monitor_receives_thr_witness:
  "\<exists>on_wire. received_bytes (start_monitoring (baud_period_cycles 100000000) (\<lambda>_. True)
       (\<lambda>n. Value (line_value (uart_run (one_queued\<lparr>baud_div := 326\<rparr>) (take n (replicate 60000 bus_idle))))) 60000) @
       on_wire @ map uint (tx_queue (uart_run (one_queued\<lparr>baud_div := 326\<rparr>) (replicate 60000 bus_idle))) =
     map uint (tx_queue (one_queued\<lparr>baud_div := 326\<rparr>) @
       thr_written (one_queued\<lparr>baud_div := 326\<rparr>) (replicate 60000 bus_idle)) \<and> length on_wire \<le> 1"
proof -
  have "fifo_mode (one_queued\<lparr>baud_div := 326\<rparr>)" "tx_idle (one_queued\<lparr>baud_div := 326\<rparr>)" by code_simp+
  moreover have "keeps_divisor bus_idle" by code_simp
  then have "list_all keeps_divisor (replicate 60000 bus_idle)" by (simp add: list_all_iff)
  ultimately show ?thesis
    using monitor_receives_thr [of "one_queued\<lparr>baud_div := 326\<rparr>" "replicate 60000 bus_idle"] by auto
qed

end
