(* ===== verification/Boot_OpenSBI.thy ===== *)
theory Boot_OpenSBI
  imports Uart_Console
begin

text \<open>
  The second half of \<open>sim/opensbi_uart.py\<close>: the configuration, the status dump, the trap monitor and
  the boot test, with the percent formats of its log lines.
\<close>

section \<open>Configuration\<close>

record boot_config =
  UART_IDLE_CYCLES :: int
  BOOT_TIMEOUT_CYCLES :: int
  STATUS_INTERVAL_CYCLES :: int
  CLOCK_PERIOD_NS :: int
  EXPECTED_BANNER :: string
  DEBUG_BOOT_LOGS :: bool

definition getenv :: "(string \<Rightarrow> string option) \<Rightarrow> string \<Rightarrow> string \<Rightarrow> string" where
  "getenv env name dflt = (case env name of None \<Rightarrow> dflt | Some v \<Rightarrow> v)"

definition load_config :: "(string \<Rightarrow> string option) \<Rightarrow> boot_config py" where
  "load_config env =
     py_bind (py_int 10 (getenv env ''UART_IDLE_CYCLES'' ''200000'')) (\<lambda>idle.
     py_bind (py_int 10 (getenv env ''BOOT_TIMEOUT_CYCLES'' ''5000000'')) (\<lambda>timeout.
     py_bind (py_int 10 (getenv env ''STATUS_INTERVAL_CYCLES'' ''250000'')) (\<lambda>status.
     py_bind (py_int 10 (getenv env ''CLOCK_PERIOD_NS'' ''20'')) (\<lambda>period.
       Inr \<lparr>UART_IDLE_CYCLES = idle, BOOT_TIMEOUT_CYCLES = timeout, STATUS_INTERVAL_CYCLES = status,
            CLOCK_PERIOD_NS = period, EXPECTED_BANNER = getenv env ''EXPECTED_BANNER'' ''OpenSBI v'',
            DEBUG_BOOT_LOGS = (getenv env ''DEBUG_BOOT_LOGS'' ''0'' = ''1'')\<rparr>))))"

section \<open>Percent formats\<close>

text \<open>
  The \<open>%\<close> operator of the log calls: literal text and conversions \<open>%d\<close>, \<open>%s\<close>, \<open>%r\<close>, \<open>%0wx\<close>, with
  a key in parentheses where the arguments are a dictionary.
\<close>

datatype fmt_item = Lit char | Conv string string

fun fmt_items :: "string \<Rightarrow> fmt_item list"
  and fmt_open :: "string \<Rightarrow> fmt_item list"
  and fmt_key :: "string \<Rightarrow> string \<Rightarrow> fmt_item list"
  and fmt_spec :: "string \<Rightarrow> string \<Rightarrow> string \<Rightarrow> fmt_item list" where
  "fmt_items [] = []"
| "fmt_items (c # s) = (if c = CHR ''%'' then fmt_open s else Lit c # fmt_items s)"
| "fmt_open [] = [Conv [] []]"
| "fmt_open (c # s) =
     (if c = CHR ''('' then fmt_key [] s
      else if is_digit c then fmt_spec [] [c] s
      else Conv [] [c] # fmt_items s)"
| "fmt_key key [] = [Conv key []]"
| "fmt_key key (c # s) = (if c = CHR '')'' then fmt_spec key [] s else fmt_key (key @ [c]) s)"
| "fmt_spec key spec [] = [Conv key spec]"
| "fmt_spec key spec (c # s) =
     (if is_digit c then fmt_spec key (spec @ [c]) s else Conv key (spec @ [c]) # fmt_items s)"

datatype py_arg = PyInt int | PyStr string

definition fmt_conv :: "string \<Rightarrow> py_arg \<Rightarrow> string py" where
  "fmt_conv spec a =
     (case a of
        PyInt v \<Rightarrow>
          (if spec = ''d'' \<or> spec = ''s'' \<or> spec = ''r'' then Inr (fmt_d v)
           else if spec = ''08x'' then Inr (fmt_0x 8 v)
           else if spec = ''02x'' then Inr (fmt_0x 2 v)
           else Inl (ValueError ''unsupported format character''))
      | PyStr t \<Rightarrow>
          (if spec = ''s'' then Inr t else if spec = ''r'' then Inr (py_repr t)
           else if spec = ''d'' \<or> spec = ''08x'' \<or> spec = ''02x'' then Inl TypeError
           else Inl (ValueError ''unsupported format character'')))"

fun fmt_keyed :: "fmt_item list \<Rightarrow> (string \<times> int) list \<Rightarrow> string py" where
  "fmt_keyed [] d = Inr []"
| "fmt_keyed (Lit c # r) d = py_bind (fmt_keyed r d) (\<lambda>t. Inr (c # t))"
| "fmt_keyed (Conv k spec # r) d =
     (case map_of d k of None \<Rightarrow> Inl (KeyError k)
      | Some v \<Rightarrow> py_bind (fmt_conv spec (PyInt v)) (\<lambda>a. py_bind (fmt_keyed r d) (\<lambda>t. Inr (a @ t))))"

fun fmt_positional :: "fmt_item list \<Rightarrow> py_arg list \<Rightarrow> string py" where
  "fmt_positional [] as = (if as = [] then Inr [] else Inl TypeError)"
| "fmt_positional (Lit c # r) as = py_bind (fmt_positional r as) (\<lambda>t. Inr (c # t))"
| "fmt_positional (Conv k spec # r) as =
     (case as of [] \<Rightarrow> Inl TypeError
      | x # xs \<Rightarrow> py_bind (fmt_conv spec x) (\<lambda>a. py_bind (fmt_positional r xs) (\<lambda>t. Inr (a @ t))))"

section \<open>The status dump\<close>

definition read_value :: "sigval \<Rightarrow> int \<Rightarrow> int" where
  "read_value handle dflt = (case int_value handle of Inr v \<Rightarrow> v | Inl e \<Rightarrow> dflt)"

fun read_values :: "dut \<Rightarrow> (string \<times> string) list \<Rightarrow> (string \<times> int) list py" where
  "read_values dut [] = Inr []"
| "read_values dut ((key, name) # r) =
     py_bind (get_handle dut name) (\<lambda>h.
     py_bind (read_values dut r) (\<lambda>vs. Inr ((key, read_value h 0) # vs)))"

definition status_signals :: "(string \<times> string) list" where
  "status_signals =
     [(''pc'', ''pc_debug''), (''instr'', ''instr_debug''),
      (''priv'', ''cpu_inst.csr_file_inst.privilege_mode''),
      (''misa'', ''cpu_inst.csr_file_inst.misa''), (''mstatus'', ''cpu_inst.csr_file_inst.mstatus''),
      (''mtvec'', ''cpu_inst.csr_file_inst.mtvec''), (''mepc'', ''cpu_inst.csr_file_inst.mepc''),
      (''mcause'', ''cpu_inst.csr_file_inst.mcause''), (''mtval'', ''cpu_inst.csr_file_inst.mtval''),
      (''stvec'', ''cpu_inst.csr_file_inst.stvec''), (''sepc'', ''cpu_inst.csr_file_inst.sepc''),
      (''scause'', ''cpu_inst.csr_file_inst.scause''), (''stval'', ''cpu_inst.csr_file_inst.stval''),
      (''satp'', ''cpu_inst.csr_file_inst.satp''), (''mie'', ''cpu_inst.csr_file_inst.mie''),
      (''mip'', ''cpu_inst.csr_file_inst.mip''), (''ifault'', ''cpu_instr_page_fault''),
      (''lfault'', ''cpu_load_page_fault''), (''sfault'', ''cpu_store_page_fault''),
      (''fault_addr'', ''cpu_page_fault_addr''), (''data_vaddr'', ''data_mem_addr''),
      (''data_paddr'', ''phys_data_addr''), (''instr_paddr'', ''phys_instr_addr''),
      (''store_buf_empty'', ''store_buf_empty''), (''store_buf_head_addr'', ''store_buf_head_addr''),
      (''store_buf_pop'', ''store_buf_pop''), (''pipeline_stall'', ''cpu_inst.pipeline_stall''),
      (''hazard_stall'', ''cpu_inst.hazard_stall''), (''uart_rx_state'', ''uart_inst.rx_state''),
      (''uart_rx_dr'', ''uart_inst.rx_dr''), (''uart_rx_oe'', ''uart_inst.rx_oe''),
      (''uart_rbr'', ''uart_inst.rbr''), (''uart_irq'', ''uart_inst.interrupt'')]"

definition plic_signals :: "(string \<times> string) list" where
  "plic_signals =
     [(''plic_pending'', ''plic_inst.pending''), (''plic_gateway_busy'', ''plic_inst.gateway_busy''),
      (''plic_enable_m'', ''plic_inst.enable_m''), (''plic_enable_s'', ''plic_inst.enable_s''),
      (''plic_ext_irq'', ''plic_inst.supervisor_external_interrupt'')]"

definition register_signals :: "(string \<times> string) list" where
  "register_signals =
     [(''a0'', ''cpu_inst.rf_inst0.register_file[10]''), (''a1'', ''cpu_inst.rf_inst0.register_file[11]''),
      (''a2'', ''cpu_inst.rf_inst0.register_file[12]''), (''a3'', ''cpu_inst.rf_inst0.register_file[13]''),
      (''a4'', ''cpu_inst.rf_inst0.register_file[14]''), (''a5'', ''cpu_inst.rf_inst0.register_file[15]''),
      (''s1'', ''cpu_inst.rf_inst0.register_file[9]'')]"

definition status_values :: "dut \<Rightarrow> nat \<Rightarrow> (string \<times> int) list py" where
  "status_values dut cycle =
     py_bind (read_values dut status_signals) (\<lambda>vs.
     py_bind (if dut ''plic_inst'' = Missing then Inr (map (\<lambda>(key, name). (key, 0)) plic_signals)
              else read_values dut plic_signals) (\<lambda>ps.
     py_bind (read_values dut register_signals) (\<lambda>rs.
       Inr ((''cycle'', int cycle) # vs @ ps @ rs))))"

definition status_format :: string where
  "status_format =
     ''Still booting... cycle=%(cycle)d pc=0x%(pc)08x instr=0x%(instr)08x '' @
     ''priv=%(priv)d misa=0x%(misa)08x mstatus=0x%(mstatus)08x mtvec=0x%(mtvec)08x '' @
     ''mepc=0x%(mepc)08x mcause=0x%(mcause)08x mtval=0x%(mtval)08x '' @
     ''stvec=0x%(stvec)08x sepc=0x%(sepc)08x scause=0x%(scause)08x '' @
     ''stval=0x%(stval)08x satp=0x%(satp)08x mie=0x%(mie)08x mip=0x%(mip)08x '' @
     ''ifault=%(ifault)d lfault=%(lfault)d sfault=%(sfault)d fault_addr=0x%(fault_addr)08x '' @
     ''dvaddr=0x%(data_vaddr)08x dpaddr=0x%(data_paddr)08x ipaddr=0x%(instr_paddr)08x '' @
     ''sbuf_empty=%(store_buf_empty)d sbuf_head=0x%(store_buf_head_addr)08x sbuf_pop=%(store_buf_pop)d '' @
     ''stall=%(pipeline_stall)d hazard=%(hazard_stall)d '' @
     ''rx_state=%(uart_rx_state)d rx_dr=%(uart_rx_dr)d rx_oe=%(uart_rx_oe)d '' @
     ''rbr=0x%(uart_rbr)02x uart_irq=%(uart_irq)d '' @
     ''plic_pending=%(plic_pending)d plic_gateway_busy=%(plic_gateway_busy)d '' @
     ''plic_en_m=%(plic_enable_m)d plic_en_s=%(plic_enable_s)d plic_irq=%(plic_ext_irq)d '' @
     ''a0=0x%(a0)08x a1=0x%(a1)08x '' @
     ''a2=0x%(a2)08x a3=0x%(a3)08x a4=0x%(a4)08x a5=0x%(a5)08x s1=0x%(s1)08x''"

text \<open>The line logged, if any; the logger would report a format error in place of the line.\<close>

definition dump_status :: "boot_config \<Rightarrow> dut \<Rightarrow> nat \<Rightarrow> bool \<Rightarrow> string list py" where
  "dump_status cfg dut cycle force =
     (if \<not> DEBUG_BOOT_LOGS cfg \<and> \<not> force then Inr []
      else py_bind (status_values dut cycle) (\<lambda>values.
           py_bind (fmt_keyed (fmt_items status_format) values) (\<lambda>line. Inr [line])))"

section \<open>The trap monitor\<close>

record monitor =
  prev_mem_pf :: int
  prev_instr_pf :: int
  prev_scause :: "int option"
  prev_sepc :: "int option"
  prev_stval :: "int option"
  reg_trace :: "(int \<times> int \<times> int \<times> int) list"

definition new_monitor :: monitor where
  "new_monitor = \<lparr>prev_mem_pf = 0, prev_instr_pf = 0, prev_scause = None, prev_sepc = None,
                  prev_stval = None, reg_trace = []\<rparr>"

definition read_int :: "dut \<Rightarrow> string \<Rightarrow> int py" where
  "read_int dut name = py_bind (get_handle dut name) (\<lambda>h. Inr (read_value h 0))"

fun read_ints :: "dut \<Rightarrow> string list \<Rightarrow> int list py" where
  "read_ints dut [] = Inr []"
| "read_ints dut (n # ns) = py_bind (read_int dut n) (\<lambda>v. py_bind (read_ints dut ns) (\<lambda>vs. Inr (v # vs)))"

definition log_ints :: "string \<Rightarrow> int list \<Rightarrow> string py" where
  "log_ints fmt vs = fmt_positional (fmt_items fmt) (map PyInt vs)"

definition reg_trace_line :: "(int \<times> int \<times> int \<times> int) list \<Rightarrow> string list py" where
  "reg_trace_line trace =
     (if trace = [] then Inr []
      else py_bind (fmt_positional (fmt_items ''Recent fp/sp/ra writes: %s'')
             [PyStr (py_join '', '' (map (\<lambda>(rd, val, pc, insn).
                ''x'' @ fmt_d rd @ ''=0x'' @ fmt_0x 8 val @ ''@pc=0x'' @ fmt_0x 8 pc @ ''/insn=0x'' @ fmt_0x 8 insn)
                trace))])
             (\<lambda>line. Inr [line]))"

definition mem_trap_signals :: "string list" where
  "mem_trap_signals =
     [''cpu_inst.ex_mem_inst0_pc_out'', ''cpu_inst.ex_mem_inst0_mem_addr_out'', ''cpu_inst.ex_mem_read_req'',
      ''cpu_inst.module_mem_wr_en'', ''cpu_inst.mem_stage_load_page_fault'', ''cpu_inst.mem_stage_store_page_fault'',
      ''cpu_inst.module_page_fault_addr_in'', ''cpu_inst.module_read_addr'', ''cpu_inst.module_write_addr'',
      ''cpu_inst.csr_file_inst.privilege_mode'', ''cpu_inst.csr_file_inst.scause'', ''cpu_inst.csr_file_inst.stval'']"

definition mem_trap_log :: "dut \<Rightarrow> (int \<times> int \<times> int \<times> int) list \<Rightarrow> string list py" where
  "mem_trap_log dut trace =
     py_bind (read_ints dut mem_trap_signals) (\<lambda>vs.
     py_bind (log_ints (''MEM trap: pc=0x%08x ex_mem_addr=0x%08x read_req=%d mem_wr_en=%d '' @
                        ''load_pf=%d store_pf=%d fault_addr=0x%08x read_addr=0x%08x write_addr=0x%08x '' @
                        ''priv=%d scause=0x%08x stval=0x%08x'') vs) (\<lambda>line.
     py_bind (reg_trace_line trace) (\<lambda>more. Inr (line # more))))"

definition if_trap_signals :: "string list" where
  "if_trap_signals =
     [''pc_debug'', ''cpu_inst.id_ex_inst0_pc_out'', ''instr_debug'', ''cpu_inst.csr_file_inst.privilege_mode'',
      ''cpu_inst.csr_file_inst.scause'', ''cpu_inst.csr_file_inst.stval'']"

definition if_trap_log :: "dut \<Rightarrow> string list py" where
  "if_trap_log dut =
     py_bind (read_ints dut if_trap_signals) (\<lambda>vs.
     py_bind (log_ints ''IF trap: pc=0x%08x id_ex_pc=0x%08x instr=0x%08x priv=%d scause=0x%08x stval=0x%08x'' vs)
       (\<lambda>line. Inr [line]))"

definition csr_trap_signals :: "string list" where
  "csr_trap_signals =
     [''cpu_inst.csr_file_inst.mepc'', ''pc_debug'', ''cpu_inst.ex_mem_inst0_pc_out'',
      ''cpu_inst.ex_mem_inst0_mem_addr_out'', ''cpu_inst.ex_mem_read_req'', ''cpu_inst.module_mem_wr_en'',
      ''cpu_inst.mem_stage_load_page_fault'', ''cpu_inst.mem_stage_store_page_fault'',
      ''cpu_inst.module_page_fault_addr_in'', ''cpu_inst.module_read_addr'', ''cpu_inst.module_write_addr'',
      ''cpu_inst.csr_file_inst.privilege_mode'']"

definition csr_trap_log ::
  "dut \<Rightarrow> int \<Rightarrow> int \<Rightarrow> int \<Rightarrow> (int \<times> int \<times> int \<times> int) list \<Rightarrow> string list py" where
  "csr_trap_log dut scause sepc stval trace =
     py_bind (read_ints dut csr_trap_signals) (\<lambda>vs.
     py_bind (log_ints (''CSR trap: scause=0x%08x sepc=0x%08x stval=0x%08x mepc=0x%08x '' @
                        ''pc=0x%08x ex_mem_pc=0x%08x ex_mem_addr=0x%08x read_req=%d mem_wr_en=%d '' @
                        ''load_pf=%d store_pf=%d fault_addr=0x%08x read_addr=0x%08x write_addr=0x%08x '' @
                        ''priv=%d'') (scause # sepc # stval # vs)) (\<lambda>line.
     py_bind (reg_trace_line trace) (\<lambda>more. Inr (line # more))))"

text \<open>One turn of the monitor's loop: the new state and the lines it logs.\<close>

definition monitor_regs :: "dut \<Rightarrow> monitor \<Rightarrow> monitor py" where
  "monitor_regs dut m =
     py_bind (read_int dut ''cpu_inst.rf_inst0_wr_en'') (\<lambda>wb_en.
     py_bind (read_int dut ''cpu_inst.rf_inst0_rd_in'') (\<lambda>wb_rd.
     py_bind (read_int dut ''cpu_inst.rf_inst0_rd_value_in'') (\<lambda>wb_val.
       if wb_en \<noteq> 0 \<and> wb_rd \<in> {1, 2, 8} then
         py_bind (read_int dut ''pc_debug'') (\<lambda>pc.
         py_bind (read_int dut ''instr_debug'') (\<lambda>insn.
           Inr (m\<lparr>reg_trace := deque_append 32 (reg_trace m) (wb_rd, wb_val, pc, insn)\<rparr>)))
       else Inr m)))"

definition monitor_step :: "dut \<Rightarrow> monitor \<Rightarrow> (monitor \<times> string list) py" where
  "monitor_step dut m =
     py_bind (read_int dut ''cpu_inst.mem_stage_page_fault_taken'') (\<lambda>mem_pf.
     py_bind (read_int dut ''cpu_inst.instr_stage_page_fault_taken'') (\<lambda>instr_pf.
     py_bind (read_int dut ''cpu_inst.csr_file_inst.scause'') (\<lambda>scause.
     py_bind (read_int dut ''cpu_inst.csr_file_inst.sepc'') (\<lambda>sepc.
     py_bind (read_int dut ''cpu_inst.csr_file_inst.stval'') (\<lambda>stval.
     py_bind (monitor_regs dut m) (\<lambda>m.
     py_bind (if mem_pf \<noteq> 0 \<and> prev_mem_pf m = 0 then mem_trap_log dut (reg_trace m) else Inr []) (\<lambda>mem_lines.
     py_bind (if instr_pf \<noteq> 0 \<and> prev_instr_pf m = 0 then if_trap_log dut else Inr []) (\<lambda>if_lines.
     py_bind (if scause \<in> {0xC, 0xD, 0xF} \<and>
                 (Some scause \<noteq> prev_scause m \<or> Some sepc \<noteq> prev_sepc m \<or> Some stval \<noteq> prev_stval m)
              then csr_trap_log dut scause sepc stval (reg_trace m) else Inr []) (\<lambda>csr_lines.
       Inr (m\<lparr>prev_mem_pf := mem_pf, prev_instr_pf := instr_pf, prev_scause := Some scause,
              prev_sepc := Some sepc, prev_stval := Some stval\<rparr>,
            mem_lines @ if_lines @ csr_lines))))))))))"

text \<open>The lines logged at each of the next \<open>n\<close> edges; an exception ends the coroutine.\<close>

fun monitor_loop :: "(nat \<Rightarrow> dut) \<Rightarrow> nat \<Rightarrow> nat \<Rightarrow> monitor \<Rightarrow> (monitor \<times> string list list) py" where
  "monitor_loop duts 0 c m = Inr (m, [])"
| "monitor_loop duts (Suc n) c m =
     py_bind (monitor_step (duts c) m) (\<lambda>(m', lines).
     py_bind (monitor_loop duts n (Suc c) m') (\<lambda>(m'', rest). Inr (m'', lines # rest)))"

definition monitor_traps :: "boot_config \<Rightarrow> (nat \<Rightarrow> dut) \<Rightarrow> nat \<Rightarrow> (monitor \<times> string list list) py" where
  "monitor_traps cfg duts n =
     (if \<not> DEBUG_BOOT_LOGS cfg then Inr (new_monitor, []) else monitor_loop duts n 0 new_monitor)"

section \<open>The boot test\<close>

definition start_dut :: "boot_config \<Rightarrow> cocotb_act list" where
  "start_dut cfg =
     [StartSoon ''clock.start''] @ (if DEBUG_BOOT_LOGS cfg then [StartSoon ''monitor_traps''] else []) @
     [Drive ''rst'' 1, Drive ''software_interrupt'' 0, Drive ''external_interrupt'' 0, Drive ''uart_rx'' 1,
      ClockCycles 10, Drive ''rst'' 0]"

text \<open>The console text in a message; U+FFFD is written as its UTF-8 bytes.\<close>

definition render_text :: "char option list \<Rightarrow> string" where
  "render_text t = concat (map (\<lambda>x. case x of Some c \<Rightarrow> [c] | None \<Rightarrow> [CHR 0xEF, CHR 0xBF, CHR 0xBD]) t)"

definition assert_banner :: "boot_config \<Rightarrow> dut \<Rightarrow> uart_console \<Rightarrow> string list py" where
  "assert_banner cfg dut con =
     (if \<not> is_infix_of (map Some (EXPECTED_BANNER cfg)) (console_text con) then
        py_bind (dut_int dut ''pc_debug'') (\<lambda>pc.
          Inl (AssertionError (''UART went idle without the expected banner '' @ py_repr (EXPECTED_BANNER cfg) @
            '' (captured '' @ fmt_d (int (length (received con))) @ '' bytes, pc=0x'' @ fmt_0x 8 pc @ ''):'' @
            [LF] @ render_text (console_text con))))
      else Inr [''Found expected banner '' @ py_repr (EXPECTED_BANNER cfg) @ '' in UART output''])"

record boot =
  console :: uart_console
  last_uart_cycle :: "nat option"
  log_lines :: "string list"
  printed :: "string list"

definition py_mod :: "int \<Rightarrow> int \<Rightarrow> int py" where
  "py_mod a b = (if b = 0 then Inl ZeroDivisionError else Inr (a mod b))"

text \<open>
  The body of the cycle loop. It yields a result when the test returns or raises: the final state
  or the exception.
\<close>

definition boot_opensbi_body :: "boot_config \<Rightarrow> (nat \<Rightarrow> dut) \<Rightarrow> nat \<Rightarrow> boot \<Rightarrow> boot + boot py" where
  "boot_opensbi_body cfg duts cycle b =
     (case next_byte duts cycle (console b) of Inl e \<Rightarrow> Inr (Inl e)
      | Inr (emitted, con) \<Rightarrow>
          let b = b\<lparr>console := con,
                    last_uart_cycle := (if emitted \<noteq> None then Some cycle else last_uart_cycle b)\<rparr>
          in if (case last_uart_cycle b of None \<Rightarrow> False
                 | Some l \<Rightarrow> UART_IDLE_CYCLES cfg \<le> int cycle - int l)
             then Inr (py_bind (assert_banner cfg (duts cycle) con) (\<lambda>found.
                       py_bind (dump_status cfg (duts cycle) cycle False) (\<lambda>status.
                         Inr (b\<lparr>log_lines := log_lines b @
                                 [''Captured '' @ fmt_d (int (length (received con))) @ '' UART bytes''] @
                                 found @ status,
                                 printed := printed b @ [[LF, LF] @ ''=== UART idle, stopping simulation ==='']\<rparr>))))
             else if cycle = 0 then Inl b
             else (case py_mod (int cycle) (STATUS_INTERVAL_CYCLES cfg) of Inl e \<Rightarrow> Inr (Inl e)
                   | Inr r \<Rightarrow>
                       if r \<noteq> 0 then Inl b
                       else (case dump_status cfg (duts cycle) cycle False of Inl e \<Rightarrow> Inr (Inl e)
                             | Inr status \<Rightarrow> Inl (b\<lparr>log_lines := log_lines b @ status\<rparr>))))"

definition boot_start :: "boot_config \<Rightarrow> boot" where
  "boot_start cfg =
     \<lparr>console = new_console True, last_uart_cycle = None,
      log_lines = [''Booting OpenSBI with clock='' @ fmt_d (CLOCK_PERIOD_NS cfg) @ ''ns, boot-timeout='' @
        fmt_d (BOOT_TIMEOUT_CYCLES cfg) @ '' cycles, idle-timeout='' @ fmt_d (UART_IDLE_CYCLES cfg) @ '' cycles''],
      printed = [[LF] @ ''=== OpenSBI UART ==='' @ [LF]]\<rparr>"

text \<open>The exception after the loop, of the number of bytes captured and the program counter.\<close>

definition deadline_error :: "boot_config \<Rightarrow> bool \<Rightarrow> nat \<Rightarrow> int \<Rightarrow> py_error" where
  "deadline_error cfg silent bytes pc =
     AssertionError
       (if silent
        then ''No UART output after '' @ fmt_d (BOOT_TIMEOUT_CYCLES cfg) @ '' cycles (pc=0x'' @ fmt_0x 8 pc @ '')''
        else ''Still emitting UART output when BOOT_TIMEOUT_CYCLES ('' @ fmt_d (BOOT_TIMEOUT_CYCLES cfg) @
          '') expired (captured '' @ fmt_d (int bytes) @ '' bytes, pc=0x'' @ fmt_0x 8 pc @ '')'')"

text \<open>
  The whole test on the edges after the reset. After the loop the design is the one of its last
  edge, or the one the reset left when the loop has no turn.
\<close>

definition boot_opensbi :: "boot_config \<Rightarrow> dut \<Rightarrow> (nat \<Rightarrow> dut) \<Rightarrow> boot py" where
  "boot_opensbi cfg dut_reset duts =
     (let n = nat (BOOT_TIMEOUT_CYCLES cfg); dut = (if n = 0 then dut_reset else duts (n - 1))
      in case for_cycles (boot_opensbi_body cfg duts) n 0 (boot_start cfg) of
           Inr r \<Rightarrow> r
         | Inl b \<Rightarrow>
             py_bind (dut_int dut ''pc_debug'') (\<lambda>pc.
               Inl (deadline_error cfg (last_uart_cycle b = None) (length (received (console b))) pc)))"

section \<open>The status dump never fails on an unknown bit\<close>

fun fmt_keys :: "fmt_item list \<Rightarrow> (string \<times> string) list" where
  "fmt_keys [] = []"
| "fmt_keys (Lit c # its) = fmt_keys its"
| "fmt_keys (Conv k spec # its) = (k, spec) # fmt_keys its"

lemma fmt_keyed_ok:
  assumes "\<forall>(k, spec) \<in> set (fmt_keys its). k \<in> fst ` set d \<and> spec \<in> {''d'', ''08x'', ''02x''}"
  shows "\<exists>line. fmt_keyed its d = Inr line"
  using assms
proof (induction its rule: fmt_keys.induct)
  case (3 k spec its)
  then obtain line where "fmt_keyed its d = Inr line" by auto
  moreover from 3(2) obtain v where "map_of d k = Some v"
    by (cases "map_of d k") (auto simp: map_of_eq_None_iff)
  moreover from 3(2) obtain t where "fmt_conv spec (PyInt v) = Inr t" by (auto simp: fmt_conv_def)
  ultimately show ?case by simp
qed auto

lemma read_values_ok:
  assumes "\<forall>(key, name) \<in> set ks. dut name \<noteq> Missing"
  shows "\<exists>vs. read_values dut ks = Inr vs \<and> map fst vs = map fst ks"
  using assms by (induction ks) (auto simp: get_handle_def)

definition all_signals :: "(string \<times> string) list" where
  "all_signals = status_signals @ plic_signals @ register_signals"

lemma status_format_keys:
  "list_all (\<lambda>(k, spec). (k = ''cycle'' \<or> k \<in> fst ` set all_signals) \<and> spec \<in> {''d'', ''08x'', ''02x''})
     (fmt_keys (fmt_items status_format))"
  by code_simp

lemma dump_status_ok:
  assumes "\<forall>(key, name) \<in> set all_signals. dut name \<noteq> Missing"
  shows "\<exists>lines. dump_status cfg dut cycle force = Inr lines \<and>
    length lines = (if DEBUG_BOOT_LOGS cfg \<or> force then 1 else 0)"
proof -
  have ok: "\<forall>(key, name) \<in> set ks. dut name \<noteq> Missing" if "set ks \<subseteq> set all_signals" for ks
    using assms that by blast
  obtain vs where "read_values dut status_signals = Inr vs" "map fst vs = map fst status_signals"
    using read_values_ok [OF ok] by (auto simp: all_signals_def)
  moreover obtain ps where "(if dut ''plic_inst'' = Missing then Inr (map (\<lambda>(key, name). (key, 0)) plic_signals)
      else read_values dut plic_signals) = Inr ps" "map fst ps = map fst plic_signals"
    using read_values_ok [OF ok, of plic_signals]
    by (cases "dut ''plic_inst'' = Missing") (auto simp: all_signals_def comp_def case_prod_beta)
  moreover obtain rs where "read_values dut register_signals = Inr rs" "map fst rs = map fst register_signals"
    using read_values_ok [OF ok] by (auto simp: all_signals_def)
  ultimately obtain d where d: "status_values dut cycle = Inr d"
    "map fst d = ''cycle'' # map fst all_signals"
    by (simp add: status_values_def all_signals_def)
  from d(2) have "fst ` set d = insert ''cycle'' (fst ` set all_signals)"
    by (metis list.set(2) set_map)
  with status_format_keys have "\<forall>(k, spec) \<in> set (fmt_keys (fmt_items status_format)).
      k \<in> fst ` set d \<and> spec \<in> {''d'', ''08x'', ''02x''}"
    by (auto simp: list_all_iff)
  then show ?thesis using fmt_keyed_ok d(1) by (fastforce simp: dump_status_def)
qed

section \<open>The outcome of the boot test\<close>

text \<open>
  The hypotheses on the simulator: the signals the test reads at every edge have known values, and
  no handle the status dump names is absent.
\<close>

definition dut_complete :: "(nat \<Rightarrow> dut) \<Rightarrow> bool" where
  "dut_complete duts \<longleftrightarrow> tx_readable duts \<and> readable duts ''pc_debug'' \<and>
     (\<forall>c. \<forall>(key, name) \<in> set all_signals. duts c name \<noteq> Missing)"

text \<open>The edge \<open>c\<close> ends a silence of \<open>UART_IDLE_CYCLES\<close> after some emission.\<close>

definition idle_at :: "boot_config \<Rightarrow> (nat \<Rightarrow> dut) \<Rightarrow> nat \<Rightarrow> bool" where
  "idle_at cfg duts c \<longleftrightarrow>
     (case last_emission duts (Suc c) of None \<Rightarrow> False | Some l \<Rightarrow> UART_IDLE_CYCLES cfg \<le> int c - int l)"

definition banner_in :: "boot_config \<Rightarrow> int list \<Rightarrow> bool" where
  "banner_in cfg bs = is_infix_of (map Some (EXPECTED_BANNER cfg)) (decode_ascii_replace bs)"

definition boot_inv :: "boot_config \<Rightarrow> (nat \<Rightarrow> dut) \<Rightarrow> nat \<Rightarrow> boot \<Rightarrow> bool" where
  "boot_inv cfg duts c b \<longleftrightarrow> prev_tx_state (console b) = prev_state duts c \<and>
     received (console b) = captured duts c \<and> last_uart_cycle b = last_emission duts c \<and>
     (\<forall>k < c. \<not> idle_at cfg duts k)"

definition is_assertion :: "py_error \<Rightarrow> bool" where
  "is_assertion e \<longleftrightarrow> (\<exists>m. e = AssertionError m)"

definition idle_result :: "boot_config \<Rightarrow> (nat \<Rightarrow> dut) \<Rightarrow> nat \<Rightarrow> boot py \<Rightarrow> bool" where
  "idle_result cfg duts c r \<longleftrightarrow> idle_at cfg duts c \<and> (\<forall>k < c. \<not> idle_at cfg duts k) \<and>
     (case r of
        Inr b \<Rightarrow> banner_in cfg (captured duts (Suc c)) \<and> received (console b) = captured duts (Suc c)
      | Inl e \<Rightarrow> \<not> banner_in cfg (captured duts (Suc c)) \<and> is_assertion e)"

lemma boot_body:
  assumes "dut_complete duts" and "STATUS_INTERVAL_CYCLES cfg \<noteq> 0" and "boot_inv cfg duts c b"
  shows "case boot_opensbi_body cfg duts c b of
           Inl b' \<Rightarrow> boot_inv cfg duts (Suc c) b'
         | Inr r \<Rightarrow> idle_result cfg duts c r"
proof -
  from assms(1) have tx: "tx_readable duts" and pc: "dut_int (duts c) ''pc_debug'' = Inr (sig duts ''pc_debug'' c)"
    and sigs: "\<forall>(key, name) \<in> set all_signals. duts c name \<noteq> Missing"
    by (simp_all add: dut_complete_def readable_def)
  obtain con' where con': "next_byte duts c (console b) = Inr (emission duts c, con')"
    "prev_tx_state con' = prev_state duts (Suc c)" "received con' = captured duts (Suc c)"
    using poll_emission [OF tx] assms(3) by (metis boot_inv_def next_byte_def)
  obtain lines where dump: "dump_status cfg (duts c) c False = Inr lines"
    using dump_status_ok [OF sigs] by blast
  define b' where "b' = b\<lparr>console := con', last_uart_cycle := last_emission duts (Suc c)\<rparr>"
  have b': "b\<lparr>console := con', last_uart_cycle := if emission duts c \<noteq> None then Some c else last_uart_cycle b\<rparr> = b'"
    using assms(3) by (simp add: b'_def boot_inv_def)
  have lu: "last_uart_cycle b' = last_emission duts (Suc c)" by (simp add: b'_def)
  note body = boot_opensbi_body_def con'(1) sum.case prod.case Let_def b' lu idle_at_def [symmetric]
  show ?thesis
  proof (cases "idle_at cfg duts c")
    case True
    have "boot_opensbi_body cfg duts c b = Inr (py_bind (assert_banner cfg (duts c) con') (\<lambda>found.
        Inr (b'\<lparr>log_lines := log_lines b' @ [''Captured '' @ fmt_d (int (length (received con'))) @ '' UART bytes''] @
                 found @ lines,
                 printed := printed b' @ [[LF, LF] @ ''=== UART idle, stopping simulation ==='']\<rparr>)))"
      by (simp only: body True if_True dump py_bind_simps)
    with True assms(3) con'(3) pc show ?thesis
      by (auto simp: idle_result_def boot_inv_def assert_banner_def banner_in_def console_text_def is_assertion_def b'_def)
  next
    case False
    then have "\<exists>l. boot_opensbi_body cfg duts c b = Inl (b'\<lparr>log_lines := l\<rparr>)"
      using assms(2) by (simp only: body if_False) (auto simp: dump py_mod_def intro: exI [of _ "log_lines b'"])
    with False assms(3) con' show ?thesis by (auto simp: boot_inv_def b'_def less_Suc_eq)
  qed
qed

lemma boot_inv_start: "boot_inv cfg duts 0 (boot_start cfg)"
  by (simp add: boot_inv_def boot_start_def new_console_def prev_state_def)

lemma boot_loop:
  assumes "dut_complete duts" and "STATUS_INTERVAL_CYCLES cfg \<noteq> 0"
  shows "case for_cycles (boot_opensbi_body cfg duts) n 0 (boot_start cfg) of
           Inl b \<Rightarrow> boot_inv cfg duts n b
         | Inr r \<Rightarrow> \<exists>c < n. idle_result cfg duts c r"
  using for_cycles_rule [where I = "boot_inv cfg duts" and Q = "idle_result cfg duts" and c = 0 and n = n
      and body = "boot_opensbi_body cfg duts", OF boot_inv_start]
    boot_body [OF assms] by (fastforce split: sum.splits)

definition first_idle :: "boot_config \<Rightarrow> (nat \<Rightarrow> dut) \<Rightarrow> nat \<Rightarrow> bool" where
  "first_idle cfg duts c \<longleftrightarrow> idle_at cfg duts c \<and> list_all (\<lambda>k. \<not> idle_at cfg duts k) [0..<c]"

lemma first_idle_unique: "first_idle cfg duts c \<Longrightarrow> first_idle cfg duts d \<Longrightarrow> c = d"
  by (metis (no_types, lifting) atLeastLessThan_iff atLeast_upt first_idle_def le0 list_all_iff lessThan_iff linorder_neqE_nat)

lemma first_idle_result:
  "idle_result cfg duts c r \<longleftrightarrow> first_idle cfg duts c \<and>
     (case r of
        Inr b \<Rightarrow> banner_in cfg (captured duts (Suc c)) \<and> received (console b) = captured duts (Suc c)
      | Inl e \<Rightarrow> \<not> banner_in cfg (captured duts (Suc c)) \<and> is_assertion e)"
  by (auto simp: idle_result_def first_idle_def list_all_iff)

text \<open>The three ways the test can end, one for each way its loop can.\<close>

lemma boot_opensbi_cases:
  assumes "dut_complete duts" and "STATUS_INTERVAL_CYCLES cfg \<noteq> 0" and "dut_reset ''pc_debug'' = Value pc_reset"
    and "n = nat (BOOT_TIMEOUT_CYCLES cfg)"
  shows "(\<exists>c < n. idle_result cfg duts c (boot_opensbi cfg dut_reset duts)) \<or>
    (\<forall>k < n. \<not> idle_at cfg duts k) \<and>
    boot_opensbi cfg dut_reset duts = Inl (deadline_error cfg (captured duts n = []) (length (captured duts n))
      (if n = 0 then pc_reset else sig duts ''pc_debug'' (n - 1)))"
proof (cases "for_cycles (boot_opensbi_body cfg duts) n 0 (boot_start cfg)")
  case (Inr r)
  then have "boot_opensbi cfg dut_reset duts = r" by (simp add: boot_opensbi_def Let_def assms(4))
  with Inr boot_loop [OF assms(1,2), of n] show ?thesis by simp
next
  case (Inl b)
  with boot_loop [OF assms(1,2), of n] have inv: "boot_inv cfg duts n b" by simp
  have "dut_int (if n = 0 then dut_reset else duts (n - 1)) ''pc_debug'' =
      Inr (if n = 0 then pc_reset else sig duts ''pc_debug'' (n - 1))"
    using assms(1,3) by (simp add: dut_complete_def readable_def)
  with Inl inv last_emission_None_iff [of duts n] show ?thesis
    by (simp only: boot_opensbi_def Let_def boot_inv_def assms(4) sum.case py_bind_simps) simp
qed

text \<open>
  C29. On a simulator whose signals are readable, \<open>boot_opensbi\<close> always ends, and it passes exactly
  when at some edge before \<open>BOOT_TIMEOUT_CYCLES\<close> the UART has been silent for \<open>UART_IDLE_CYCLES\<close>
  after an emission and, at the first such edge, the bytes transmitted so far, decoded as ASCII,
  contain the expected banner. Every other outcome is an \<open>AssertionError\<close>.
\<close>

theorem boot_opensbi_passes_iff:
  assumes "dut_complete duts" and "STATUS_INTERVAL_CYCLES cfg \<noteq> 0" and "dut_reset ''pc_debug'' = Value pc_reset"
  shows "((\<exists>b. boot_opensbi cfg dut_reset duts = Inr b) \<longleftrightarrow>
            (\<exists>c < nat (BOOT_TIMEOUT_CYCLES cfg). first_idle cfg duts c \<and> banner_in cfg (captured duts (Suc c))))
         \<and> (case boot_opensbi cfg dut_reset duts of
              Inr b \<Rightarrow> True | Inl e \<Rightarrow> is_assertion e)"
  using boot_opensbi_cases [where dut_reset = dut_reset, OF assms refl]
proof
  assume "\<exists>c < nat (BOOT_TIMEOUT_CYCLES cfg). idle_result cfg duts c (boot_opensbi cfg dut_reset duts)"
  then obtain c where c: "c < nat (BOOT_TIMEOUT_CYCLES cfg)" "first_idle cfg duts c"
    and r: "idle_result cfg duts c (boot_opensbi cfg dut_reset duts)"
    by (auto simp: first_idle_result)
  from r have "(\<exists>b. boot_opensbi cfg dut_reset duts = Inr b) \<longleftrightarrow> banner_in cfg (captured duts (Suc c))"
    and e: "case boot_opensbi cfg dut_reset duts of Inr b \<Rightarrow> True | Inl e \<Rightarrow> is_assertion e"
    by (auto simp: first_idle_result split: sum.splits)
  moreover from c have "(\<exists>c < nat (BOOT_TIMEOUT_CYCLES cfg). first_idle cfg duts c \<and> banner_in cfg (captured duts (Suc c)))
      \<longleftrightarrow> banner_in cfg (captured duts (Suc c))"
    using first_idle_unique by blast
  ultimately show ?thesis by blast
next
  assume "(\<forall>k < nat (BOOT_TIMEOUT_CYCLES cfg). \<not> idle_at cfg duts k) \<and>
    boot_opensbi cfg dut_reset duts = Inl (deadline_error cfg (captured duts (nat (BOOT_TIMEOUT_CYCLES cfg)) = [])
      (length (captured duts (nat (BOOT_TIMEOUT_CYCLES cfg)))) (if nat (BOOT_TIMEOUT_CYCLES cfg) = 0 then pc_reset
        else sig duts ''pc_debug'' (nat (BOOT_TIMEOUT_CYCLES cfg) - 1)))"
  then show ?thesis by (auto simp: first_idle_def is_assertion_def deadline_error_def)
qed

definition demo_cfg :: boot_config where
  "demo_cfg = \<lparr>UART_IDLE_CYCLES = 3, BOOT_TIMEOUT_CYCLES = 8, STATUS_INTERVAL_CYCLES = 4, CLOCK_PERIOD_NS = 20,
               EXPECTED_BANNER = ''v1'', DEBUG_BOOT_LOGS = True\<rparr>"

definition demo_duts :: "nat \<Rightarrow> dut" where
  "demo_duts c n =
     (if n = ''uart_inst.tx_state'' then Value (if c = 1 \<or> c = 3 then 1 else 2)
      else if n = ''uart_inst.tx_data'' then Value (if c \<le> 2 then 0x76 else 0x31)
      else Value 0)"

lemma demo_duts_complete: "dut_complete demo_duts"
  by (simp add: dut_complete_def tx_readable_def readable_def sig_def demo_duts_def)

lemma demo_pc: "demo_duts 0 ''pc_debug'' = Value 0"
  by (simp add: demo_duts_def)

lemma demo_first_idle: "first_idle demo_cfg demo_duts 6 \<and> banner_in demo_cfg (captured demo_duts (Suc 6))"
  by code_simp

theorem boot_opensbi_passes_iff_witness: "\<exists>b. boot_opensbi demo_cfg (demo_duts 0) demo_duts = Inr b"
proof -
  have "6 < nat (BOOT_TIMEOUT_CYCLES demo_cfg)" and s: "STATUS_INTERVAL_CYCLES demo_cfg \<noteq> 0"
    by (simp_all add: demo_cfg_def)
  with boot_opensbi_passes_iff [where dut_reset = "demo_duts 0", OF demo_duts_complete s demo_pc] demo_first_idle
  show ?thesis by blast
qed

text \<open>
  When no edge before \<open>BOOT_TIMEOUT_CYCLES\<close> ends a silence of \<open>UART_IDLE_CYCLES\<close>, the test fails
  with the message \<open>No UART output\<close> exactly when nothing was ever transmitted, and with
  \<open>Still emitting UART output\<close> otherwise, whatever time has passed since the last byte.
\<close>

theorem boot_opensbi_deadline:
  assumes "dut_complete duts" and "STATUS_INTERVAL_CYCLES cfg \<noteq> 0" and "dut_reset ''pc_debug'' = Value pc_reset"
    and "n = nat (BOOT_TIMEOUT_CYCLES cfg)" and "list_all (\<lambda>k. \<not> idle_at cfg duts k) [0..<n]"
  shows "boot_opensbi cfg dut_reset duts = Inl (deadline_error cfg (captured duts n = []) (length (captured duts n))
           (if n = 0 then pc_reset else sig duts ''pc_debug'' (n - 1)))"
  using boot_opensbi_cases [where dut_reset = dut_reset, OF assms(1-4)] assms(5)
  by (fastforce simp: idle_result_def list_all_iff)

text \<open>
  In the witness the transmitter has been silent for two of the three edges when the deadline comes,
  and the test still reports that it was emitting.
\<close>

theorem boot_opensbi_deadline_witness:
  "boot_opensbi (demo_cfg\<lparr>BOOT_TIMEOUT_CYCLES := 6\<rparr>) (demo_duts 0) demo_duts =
     Inl (deadline_error (demo_cfg\<lparr>BOOT_TIMEOUT_CYCLES := 6\<rparr>) False 2 0) \<and>
   emission demo_duts 4 = None \<and> emission demo_duts 5 = None"
proof -
  have "list_all (\<lambda>k. \<not> idle_at (demo_cfg\<lparr>BOOT_TIMEOUT_CYCLES := 6\<rparr>) demo_duts k) [0..<6]"
    "length (captured demo_duts 6) = 2" "emission demo_duts 4 = None" "emission demo_duts 5 = None"
    "sig demo_duts ''pc_debug'' 5 = 0"
    by code_simp+
  moreover from this(2) have "captured demo_duts 6 \<noteq> []" by auto
  ultimately show ?thesis
    using boot_opensbi_deadline [where dut_reset = "demo_duts 0" and n = 6, OF demo_duts_complete _ demo_pc,
        of "demo_cfg\<lparr>BOOT_TIMEOUT_CYCLES := 6\<rparr>"]
    by (simp add: demo_cfg_def)
qed

section \<open>The trap monitor reports every new trap once\<close>

definition monitor_signals :: "string list" where
  "monitor_signals =
     [''cpu_inst.mem_stage_page_fault_taken'', ''cpu_inst.instr_stage_page_fault_taken'',
      ''cpu_inst.csr_file_inst.sepc'', ''cpu_inst.rf_inst0_wr_en'', ''cpu_inst.rf_inst0_rd_in'',
      ''cpu_inst.rf_inst0_rd_value_in''] @ mem_trap_signals @ if_trap_signals @ csr_trap_signals"

definition rises :: "(nat \<Rightarrow> dut) \<Rightarrow> string \<Rightarrow> nat \<Rightarrow> bool" where
  "rises duts n c \<longleftrightarrow> sig duts n c \<noteq> 0 \<and> (c = 0 \<or> sig duts n (c - 1) = 0)"

definition trap_csrs :: "(nat \<Rightarrow> dut) \<Rightarrow> nat \<Rightarrow> int \<times> int \<times> int" where
  "trap_csrs duts c = (sig duts ''cpu_inst.csr_file_inst.scause'' c, sig duts ''cpu_inst.csr_file_inst.sepc'' c,
                       sig duts ''cpu_inst.csr_file_inst.stval'' c)"

definition new_page_fault :: "(nat \<Rightarrow> dut) \<Rightarrow> nat \<Rightarrow> bool" where
  "new_page_fault duts c \<longleftrightarrow> fst (trap_csrs duts c) \<in> {0xC, 0xD, 0xF} \<and>
     (c = 0 \<or> trap_csrs duts c \<noteq> trap_csrs duts (c - 1))"

definition reg_writes :: "(nat \<Rightarrow> dut) \<Rightarrow> nat \<Rightarrow> (int \<times> int \<times> int \<times> int) list" where
  "reg_writes duts n =
     map (\<lambda>c. (sig duts ''cpu_inst.rf_inst0_rd_in'' c, sig duts ''cpu_inst.rf_inst0_rd_value_in'' c,
               sig duts ''pc_debug'' c, sig duts ''instr_debug'' c))
       (filter (\<lambda>c. sig duts ''cpu_inst.rf_inst0_wr_en'' c \<noteq> 0 \<and>
                    sig duts ''cpu_inst.rf_inst0_rd_in'' c \<in> {1, 2, 8}) [0..<n])"

lemma read_int_sig: "duts c n \<noteq> Missing \<Longrightarrow> read_int (duts c) n = Inr (sig duts n c)"
  by (auto simp: read_int_def get_handle_def read_value_def int_value_def sig_def split: sigval.split)

lemma read_ints_sig:
  "\<forall>n \<in> set ns. duts c n \<noteq> Missing \<Longrightarrow> read_ints (duts c) ns = Inr (map (\<lambda>n. sig duts n c) ns)"
  by (induction ns) (simp_all add: read_int_sig)

lemma fmt_positional_ok:
  assumes "list_all (\<lambda>(k, spec). spec \<in> {''d'', ''08x''}) (fmt_keys its)" and "length as = length (fmt_keys its)"
  shows "\<exists>line. fmt_positional its (map PyInt as) = Inr line"
  using assms
proof (induction its arbitrary: "as" rule: fmt_keys.induct)
  case (3 k spec its)
  then obtain x xs where "as = x # xs" by (cases "as") auto
  moreover with 3 obtain line where "fmt_positional its (map PyInt xs) = Inr line" by fastforce
  moreover from 3(2) obtain t where "fmt_conv spec (PyInt x) = Inr t" by (auto simp: fmt_conv_def)
  ultimately show ?case by simp
next
  case (2 c its)
  from "2.prems" obtain line where "fmt_positional its (map PyInt as) = Inr line"
    using "2.IH" [of "as"] by auto
  then show ?case by simp
qed simp

lemma reg_trace_line_ok: "\<exists>lines. reg_trace_line trace = Inr lines"
proof -
  have "fmt_items ''Recent fp/sp/ra writes: %s'' = map Lit ''Recent fp/sp/ra writes: '' @ [Conv [] ''s'']" by code_simp
  then show ?thesis by (simp add: reg_trace_line_def fmt_conv_def)
qed

lemma log_ints_ok:
  assumes "list_all (\<lambda>(k, spec). spec \<in> {''d'', ''08x''}) (fmt_keys (fmt_items fmt))"
    and "length vs = length (fmt_keys (fmt_items fmt))"
  shows "\<exists>line. log_ints fmt vs = Inr line"
  unfolding log_ints_def by (rule fmt_positional_ok [OF assms])

lemma mem_trap_log_ok:
  fixes duts :: "nat \<Rightarrow> dut"
  assumes "\<forall>n \<in> set mem_trap_signals. duts c n \<noteq> Missing"
  shows "\<exists>line more. mem_trap_log (duts c) trace = Inr (line # more)"
proof -
  let ?fmt = "''MEM trap: pc=0x%08x ex_mem_addr=0x%08x read_req=%d mem_wr_en=%d '' @
    ''load_pf=%d store_pf=%d fault_addr=0x%08x read_addr=0x%08x write_addr=0x%08x '' @
    ''priv=%d scause=0x%08x stval=0x%08x''"
  have "list_all (\<lambda>(k, spec). spec \<in> {''d'', ''08x''}) (fmt_keys (fmt_items ?fmt))"
    "length (fmt_keys (fmt_items ?fmt)) = length mem_trap_signals" by code_simp+
  then have "\<exists>line. log_ints ?fmt (map (\<lambda>n. sig duts n c) mem_trap_signals) = Inr line"
    by (intro log_ints_ok) (simp_all only: length_map)
  then show ?thesis using read_ints_sig [where duts = duts and c = c, OF assms] reg_trace_line_ok [of trace]
    unfolding mem_trap_log_def by (elim exE) (simp only: py_bind_simps, blast)
qed

lemma if_trap_log_ok:
  fixes duts :: "nat \<Rightarrow> dut"
  assumes "\<forall>n \<in> set if_trap_signals. duts c n \<noteq> Missing"
  shows "\<exists>line. if_trap_log (duts c) = Inr [line]"
proof -
  let ?fmt = "''IF trap: pc=0x%08x id_ex_pc=0x%08x instr=0x%08x priv=%d scause=0x%08x stval=0x%08x''"
  have "list_all (\<lambda>(k, spec). spec \<in> {''d'', ''08x''}) (fmt_keys (fmt_items ?fmt))"
    "length (fmt_keys (fmt_items ?fmt)) = length if_trap_signals" by code_simp+
  then have "\<exists>line. log_ints ?fmt (map (\<lambda>n. sig duts n c) if_trap_signals) = Inr line"
    by (intro log_ints_ok) (simp_all only: length_map)
  then show ?thesis using read_ints_sig [where duts = duts and c = c, OF assms] unfolding if_trap_log_def by (auto simp only: py_bind_simps)
qed

lemma csr_trap_log_ok:
  fixes duts :: "nat \<Rightarrow> dut"
  assumes "\<forall>n \<in> set csr_trap_signals. duts c n \<noteq> Missing"
  shows "\<exists>line more. csr_trap_log (duts c) scause sepc stval trace = Inr (line # more)"
proof -
  let ?fmt = "''CSR trap: scause=0x%08x sepc=0x%08x stval=0x%08x mepc=0x%08x '' @
    ''pc=0x%08x ex_mem_pc=0x%08x ex_mem_addr=0x%08x read_req=%d mem_wr_en=%d '' @
    ''load_pf=%d store_pf=%d fault_addr=0x%08x read_addr=0x%08x write_addr=0x%08x '' @
    ''priv=%d''"
  have "list_all (\<lambda>(k, spec). spec \<in> {''d'', ''08x''}) (fmt_keys (fmt_items ?fmt))"
    "length (fmt_keys (fmt_items ?fmt)) = Suc (Suc (Suc (length csr_trap_signals)))" by code_simp+
  then have "\<exists>line. log_ints ?fmt (scause # sepc # stval # map (\<lambda>n. sig duts n c) csr_trap_signals) = Inr line"
    by (intro log_ints_ok) (simp_all only: length_map list.size Suc_eq_plus1 add_0)
  then show ?thesis using read_ints_sig [where duts = duts and c = c, OF assms] reg_trace_line_ok [of trace]
    unfolding csr_trap_log_def by (elim exE) (simp only: py_bind_simps, blast)
qed

definition monitor_inv :: "(nat \<Rightarrow> dut) \<Rightarrow> nat \<Rightarrow> monitor \<Rightarrow> bool" where
  "monitor_inv duts c m \<longleftrightarrow>
     prev_mem_pf m = (if c = 0 then 0 else sig duts ''cpu_inst.mem_stage_page_fault_taken'' (c - 1)) \<and>
     prev_instr_pf m = (if c = 0 then 0 else sig duts ''cpu_inst.instr_stage_page_fault_taken'' (c - 1)) \<and>
     (prev_scause m, prev_sepc m, prev_stval m) =
       (if c = 0 then (None, None, None)
        else map_prod Some (map_prod Some Some) (trap_csrs duts (c - 1))) \<and>
     reg_trace m = last_n 32 (reg_writes duts c)"

definition reports_at :: "(nat \<Rightarrow> dut) \<Rightarrow> nat \<Rightarrow> bool" where
  "reports_at duts c \<longleftrightarrow> rises duts ''cpu_inst.mem_stage_page_fault_taken'' c \<or>
     rises duts ''cpu_inst.instr_stage_page_fault_taken'' c \<or> new_page_fault duts c"

lemma monitor_regs_step:
  assumes "\<forall>n \<in> set monitor_signals. duts c n \<noteq> Missing" and "reg_trace m = last_n 32 (reg_writes duts c)"
  shows "monitor_regs (duts c) m = Inr (m\<lparr>reg_trace := last_n 32 (reg_writes duts (Suc c))\<rparr>)"
proof -
  have r: "read_int (duts c) n = Inr (sig duts n c)"
    if "n \<in> {''cpu_inst.rf_inst0_wr_en'', ''cpu_inst.rf_inst0_rd_in'', ''cpu_inst.rf_inst0_rd_value_in'', ''pc_debug'', ''instr_debug''}" for n
    using assms(1) that by (intro read_int_sig) (auto simp: monitor_signals_def if_trap_signals_def)
  have "last_n 32 (reg_writes duts c @ [x]) = deque_append 32 (reg_trace m) x" for x
    using assms(2) by (simp add: deque_append_last_n)
  then show ?thesis
    by (simp add: monitor_regs_def r reg_writes_def assms(2))
qed

lemma monitor_step_inv:
  assumes "\<forall>n \<in> set monitor_signals. duts c n \<noteq> Missing" and "monitor_inv duts c m"
  shows "\<exists>m' lines. monitor_step (duts c) m = Inr (m', lines) \<and> monitor_inv duts (Suc c) m' \<and>
    (lines \<noteq> [] \<longleftrightarrow> reports_at duts c)"
proof -
  have r: "read_int (duts c) n = Inr (sig duts n c)" if "n \<in> set monitor_signals" for n
    using assms(1) that by (intro read_int_sig) blast
  have names: "''cpu_inst.mem_stage_page_fault_taken'' \<in> set monitor_signals"
    "''cpu_inst.instr_stage_page_fault_taken'' \<in> set monitor_signals"
    "''cpu_inst.csr_file_inst.scause'' \<in> set monitor_signals" "''cpu_inst.csr_file_inst.sepc'' \<in> set monitor_signals"
    "''cpu_inst.csr_file_inst.stval'' \<in> set monitor_signals"
    by (simp_all add: monitor_signals_def mem_trap_signals_def)
  define m1 where "m1 = m\<lparr>reg_trace := last_n 32 (reg_writes duts (Suc c))\<rparr>"
  have regs: "monitor_regs (duts c) m = Inr m1"
    using monitor_regs_step [where duts = duts and c = c, OF assms(1)] assms(2) by (simp add: m1_def monitor_inv_def)
  have sub: "set mem_trap_signals \<subseteq> set monitor_signals" "set if_trap_signals \<subseteq> set monitor_signals"
    "set csr_trap_signals \<subseteq> set monitor_signals"
    by (auto simp: monitor_signals_def)
  obtain ml where ml: "mem_trap_log (duts c) (reg_trace m1) = Inr ml" "ml \<noteq> []"
    using mem_trap_log_ok [of duts c] sub(1) assms(1) by blast
  obtain il where il: "if_trap_log (duts c) = Inr il" "il \<noteq> []"
    using if_trap_log_ok [of duts c] sub(2) assms(1) by blast
  obtain cl where cl: "csr_trap_log (duts c) (sig duts ''cpu_inst.csr_file_inst.scause'' c)
      (sig duts ''cpu_inst.csr_file_inst.sepc'' c) (sig duts ''cpu_inst.csr_file_inst.stval'' c) (reg_trace m1) = Inr cl"
      "cl \<noteq> []"
    using csr_trap_log_ok [of duts c] sub(3) assms(1) by blast
  have mem: "sig duts ''cpu_inst.mem_stage_page_fault_taken'' c \<noteq> 0 \<and> prev_mem_pf m1 = 0 \<longleftrightarrow>
      rises duts ''cpu_inst.mem_stage_page_fault_taken'' c"
    and ins: "sig duts ''cpu_inst.instr_stage_page_fault_taken'' c \<noteq> 0 \<and> prev_instr_pf m1 = 0 \<longleftrightarrow>
      rises duts ''cpu_inst.instr_stage_page_fault_taken'' c"
    using assms(2) by (auto simp: m1_def rises_def monitor_inv_def)
  have csr: "sig duts ''cpu_inst.csr_file_inst.scause'' c \<in> {0xC, 0xD, 0xF} \<and>
      (Some (sig duts ''cpu_inst.csr_file_inst.scause'' c) \<noteq> prev_scause m1 \<or>
       Some (sig duts ''cpu_inst.csr_file_inst.sepc'' c) \<noteq> prev_sepc m1 \<or>
       Some (sig duts ''cpu_inst.csr_file_inst.stval'' c) \<noteq> prev_stval m1) \<longleftrightarrow> new_page_fault duts c"
    using assms(2) by (cases "c = 0") (auto simp: m1_def new_page_fault_def trap_csrs_def monitor_inv_def)
  define m' where "m' = m1\<lparr>prev_mem_pf := sig duts ''cpu_inst.mem_stage_page_fault_taken'' c,
      prev_instr_pf := sig duts ''cpu_inst.instr_stage_page_fault_taken'' c,
      prev_scause := Some (sig duts ''cpu_inst.csr_file_inst.scause'' c),
      prev_sepc := Some (sig duts ''cpu_inst.csr_file_inst.sepc'' c),
      prev_stval := Some (sig duts ''cpu_inst.csr_file_inst.stval'' c)\<rparr>"
  have "monitor_inv duts (Suc c) m'" by (simp add: m'_def m1_def monitor_inv_def trap_csrs_def)
  moreover have "\<exists>lines. monitor_step (duts c) m = Inr (m', lines) \<and> (lines \<noteq> [] \<longleftrightarrow> reports_at duts c)"
    unfolding monitor_step_def r [OF names(1)] r [OF names(2)] r [OF names(3)] r [OF names(4)] r [OF names(5)]
      py_bind_simps regs mem ins csr m'_def [symmetric] reports_at_def
    using ml il cl by (simp add: if_distrib [of "\<lambda>x. py_bind x _"] cong: if_cong)
  ultimately show ?thesis by blast
qed

lemma monitor_loop_inv:
  assumes "\<forall>c. \<forall>n \<in> set monitor_signals. duts c n \<noteq> Missing" and "monitor_inv duts c m"
  shows "\<exists>m' ls. monitor_loop duts n c m = Inr (m', ls) \<and> monitor_inv duts (c + n) m' \<and>
    map (\<lambda>l. l \<noteq> []) ls = map (reports_at duts) [c..<c + n]"
  using assms(2)
proof (induction n arbitrary: c m)
  case 0
  then show ?case by simp
next
  case (Suc n)
  obtain m' lines where "monitor_step (duts c) m = Inr (m', lines)" "monitor_inv duts (Suc c) m'"
    "lines \<noteq> [] \<longleftrightarrow> reports_at duts c"
    using monitor_step_inv [OF _ Suc.prems] assms(1) by blast
  moreover with Suc.IH obtain m'' ls where "monitor_loop duts n (Suc c) m' = Inr (m'', ls)"
    "monitor_inv duts (Suc c + n) m''" "map (\<lambda>l. l \<noteq> []) ls = map (reports_at duts) [Suc c..<Suc c + n]"
    by blast
  ultimately show ?case by (simp add: upt_rec [of c])
qed


definition trap_duts :: "nat \<Rightarrow> dut" where
  "trap_duts c n =
     (if n = ''cpu_inst.mem_stage_page_fault_taken'' then Value (if c = 1 \<or> c = 2 then 1 else 0)
      else if n = ''cpu_inst.rf_inst0_wr_en'' then Value 1
      else if n = ''cpu_inst.rf_inst0_rd_in'' then Value 2
      else if n = ''cpu_inst.csr_file_inst.stval'' then Unresolvable
      else Value (int c))"


text \<open>
  When every handle \<open>dump_status\<close> names is in the design, the dump raises nothing whatever the
  signals hold: unknown bits are read as 0, and each of the 46 conversions of the format finds its
  key among the values. It logs one line when debugging is on or \<open>force\<close> is set, and none otherwise.
\<close>

theorem dump_status_total:
  assumes "\<And>key name. (key, name) \<in> set all_signals \<Longrightarrow> dut name \<noteq> Missing"
  shows "\<exists>lines. dump_status cfg dut cycle force = Inr lines \<and>
           length lines = (if DEBUG_BOOT_LOGS cfg \<or> force then 1 else 0)"
  using dump_status_ok [of dut] assms by fast

theorem dump_status_total_witness:
  "\<exists>lines. dump_status (demo_cfg\<lparr>DEBUG_BOOT_LOGS := False\<rparr>) (\<lambda>n. Unresolvable) 7 True = Inr lines \<and> length lines = 1"
  using dump_status_total [of "\<lambda>n. Unresolvable" "demo_cfg\<lparr>DEBUG_BOOT_LOGS := False\<rparr>" 7 True] by simp

end
