(* ===== verification/Tty_Bridges.thy ===== *)
theory Tty_Bridges
  imports Py_Text
begin

text \<open>
  The two host ends of the Linux console, \<open>StdinBridge\<close> and \<open>PtyBridge\<close> of \<open>sim/linux_tty.py\<close>. Each
  has a reader thread that puts the bytes it reads into a queue, and the main thread that polls the
  queue. The operating system is a parameter, a record of the calls the classes make, over a world of
  any type; a method is a computation on the pair of that world and the object. A thread's body is
  given turn by turn, so that any interleaving with the main thread is a sequence of calls.
\<close>

section \<open>Calls and objects\<close>

record ('w, 'a) sys =
  sys_stdin_isatty :: "('w, bool) io"
  sys_stdin_fileno :: "('w, int) io"
  sys_tcgetattr :: "int \<Rightarrow> ('w, 'a) io"
  sys_tcsetattr :: "int \<Rightarrow> 'a \<Rightarrow> ('w, unit) io"
  sys_setraw :: "int \<Rightarrow> ('w, unit) io"
  sys_thread_start :: "('w, unit) io"
  sys_openpty :: "('w, int \<times> int) io"
  sys_ttyname :: "int \<Rightarrow> ('w, string) io"
  sys_set_blocking :: "int \<Rightarrow> bool \<Rightarrow> ('w, unit) io"
  sys_makedirs :: "string \<Rightarrow> ('w, unit) io"
  sys_open_wb :: "string \<Rightarrow> ('w, int) io"
  sys_file_write :: "int \<Rightarrow> int list \<Rightarrow> ('w, unit) io"
  sys_file_close :: "int \<Rightarrow> ('w, unit) io"
  sys_unlink :: "string \<Rightarrow> ('w, unit) io"
  sys_symlink :: "string \<Rightarrow> string \<Rightarrow> ('w, unit) io"
  sys_islink :: "string \<Rightarrow> ('w, bool) io"
  sys_select :: "int \<Rightarrow> ('w, bool) io"
  sys_read :: "int \<Rightarrow> nat \<Rightarrow> ('w, int list) io"
  sys_write :: "int \<Rightarrow> int list \<Rightarrow> ('w, nat) io"
  sys_close :: "int \<Rightarrow> ('w, unit) io"

text \<open>A call on the world, a read of a field and an assignment to the object.\<close>

definition call :: "('w, 'a) io \<Rightarrow> ('w \<times> 's, 'a) io" where
  "call m = (\<lambda>(w, b). case m w of (r, w') \<Rightarrow> (r, (w', b)))"

definition self_get :: "('s \<Rightarrow> 'a) \<Rightarrow> ('w \<times> 's, 'a) io" where
  "self_get f = (\<lambda>(w, b). (Inr (f b), (w, b)))"

definition self_set :: "('s \<Rightarrow> 's) \<Rightarrow> ('w \<times> 's, unit) io" where
  "self_set f = (\<lambda>(w, b). (Inr (), (w, f b)))"

lemma self_simps [simp, py_simps]:
  "call m (w, b) = (case m w of (r, w') \<Rightarrow> (r, (w', b)))"
  "self_get f (w, b) = (Inr (f b), (w, b))"
  "self_set g (w, b) = (Inr (), (w, g b))"
  by (simp_all add: call_def self_get_def self_set_def)

definition EIO :: int where "EIO = 5"
definition EBADF :: int where "EBADF = 9"

text \<open>\<open>BlockingIOError\<close> is the \<open>OSError\<close> of EAGAIN, EALREADY and EINPROGRESS.\<close>

definition is_blocking :: "py_error \<Rightarrow> bool" where
  "is_blocking e \<longleftrightarrow> e \<in> {OSError 11, OSError 114, OSError 115}"

definition is_os_error :: "py_error \<Rightarrow> bool" where
  "is_os_error e = (case e of OSError n \<Rightarrow> True | FileNotFoundError f \<Rightarrow> True | _ \<Rightarrow> False)"

definition is_file_not_found :: "py_error \<Rightarrow> bool" where
  "is_file_not_found e = (case e of FileNotFoundError f \<Rightarrow> True | OSError n \<Rightarrow> n = 2 | _ \<Rightarrow> False)"

section \<open>\<open>StdinBridge\<close>\<close>

record 'a stdin_bridge =
  sb_queue :: "int list"
  sb_stop :: bool
  sb_fd :: "int option"
  sb_saved_attrs :: "'a option"
  sb_thread :: bool

definition new_stdin_bridge :: "'a stdin_bridge" where
  "new_stdin_bridge = \<lparr>sb_queue = [], sb_stop = False, sb_fd = None, sb_saved_attrs = None, sb_thread = False\<rparr>"

definition sb_start :: "('w, 'a) sys \<Rightarrow> ('w \<times> 'a stdin_bridge, bool) io" where
  "sb_start os =
     io_bind (call (sys_stdin_isatty os)) (\<lambda>isatty.
       if \<not> isatty then io_return False
       else
         io_bind (call (sys_stdin_fileno os)) (\<lambda>fd.
         io_then (self_set (\<lambda>b. b\<lparr>sb_fd := Some fd\<rparr>))
         (io_bind (call (sys_tcgetattr os fd)) (\<lambda>attrs.
         io_then (self_set (\<lambda>b. b\<lparr>sb_saved_attrs := Some attrs\<rparr>))
         (io_then (call (sys_setraw os fd))
         (io_then (self_set (\<lambda>b. b\<lparr>sb_thread := True\<rparr>))
         (io_then (call (sys_thread_start os)) (io_return True))))))))"

text \<open>One turn of the reader's loop; it returns whether the loop goes on.\<close>

definition sb_reader_turn :: "('w, 'a) sys \<Rightarrow> ('w \<times> 'a stdin_bridge, bool) io" where
  "sb_reader_turn os =
     io_bind (self_get sb_stop) (\<lambda>stop.
       if stop then io_return False
       else
         io_bind (self_get sb_fd) (\<lambda>fd.
         io_bind (io_catch (io_bind (call (sys_read os (case fd of None \<Rightarrow> -1 | Some n \<Rightarrow> n) 1)) (\<lambda>d. io_return (Some d)))
                    (\<lambda>e. if is_os_error e then io_return None else io_raise e)) (\<lambda>r.
           case r of
             None \<Rightarrow> io_then (self_set (\<lambda>b. b\<lparr>sb_stop := True\<rparr>)) (io_return False)
           | Some [] \<Rightarrow> io_then (self_set (\<lambda>b. b\<lparr>sb_stop := True\<rparr>)) (io_return False)
           | Some (byte # _) \<Rightarrow>
               io_then (self_set (\<lambda>b. b\<lparr>sb_queue := sb_queue b @ [byte]\<rparr>)) (io_return True))))"

definition sb_poll :: "'a stdin_bridge \<Rightarrow> int option \<times> 'a stdin_bridge" where
  "sb_poll b = (case sb_queue b of [] \<Rightarrow> (None, b) | x # xs \<Rightarrow> (Some x, b\<lparr>sb_queue := xs\<rparr>))"

definition sb_request_stop :: "'a stdin_bridge \<Rightarrow> 'a stdin_bridge" where
  "sb_request_stop b = b\<lparr>sb_stop := True\<rparr>"

definition sb_close :: "('w, 'a) sys \<Rightarrow> ('w \<times> 'a stdin_bridge, unit) io" where
  "sb_close os =
     io_then (self_set (\<lambda>b. b\<lparr>sb_stop := True\<rparr>))
     (io_bind (self_get (\<lambda>b. (sb_saved_attrs b, sb_fd b))) (\<lambda>r.
       case r of (Some attrs, Some fd) \<Rightarrow> call (sys_tcsetattr os fd attrs) | _ \<Rightarrow> io_return ()))"

section \<open>\<open>PtyBridge\<close>\<close>

record pty_bridge =
  pb_stop :: bool
  pb_thread :: bool
  pb_queue :: "int list"
  pb_tx_backlog :: "int list"
  pb_master_fd :: "int option"
  pb_slave_fd :: "int option"
  pb_slave_path :: "string option"
  pb_link_path :: string
  pb_transcript_path :: string
  pb_transcript :: "int option"
  pb_rx_transcript_path :: string
  pb_rx_transcript :: "int option"

definition new_pty_bridge :: "string \<Rightarrow> string \<Rightarrow> string \<Rightarrow> pty_bridge" where
  "new_pty_bridge link transcript rx_transcript =
     \<lparr>pb_stop = False, pb_thread = False, pb_queue = [], pb_tx_backlog = [], pb_master_fd = None, pb_slave_fd = None,
      pb_slave_path = None, pb_link_path = link, pb_transcript_path = transcript, pb_transcript = None,
      pb_rx_transcript_path = rx_transcript, pb_rx_transcript = None\<rparr>"

text \<open>\<open>os.path.dirname\<close>: up to the last slash, without trailing slashes unless it is only slashes.\<close>

definition dirname :: "string \<Rightarrow> string" where
  "dirname p =
     (let head = rev (dropWhile (\<lambda>c. c \<noteq> CHR ''/'') (rev p))
      in if list_all (\<lambda>c. c = CHR ''/'') head then head
         else rev (dropWhile (\<lambda>c. c = CHR ''/'') (rev head)))"

definition make_parent :: "('w, 'a) sys \<Rightarrow> string \<Rightarrow> ('w \<times> pty_bridge, unit) io" where
  "make_parent os p = io_when (dirname p \<noteq> []) (call (sys_makedirs os (dirname p)))"

definition pb_start :: "('w, 'a) sys \<Rightarrow> ('w \<times> pty_bridge, bool) io" where
  "pb_start os =
     io_bind (call (sys_openpty os)) (\<lambda>(master, slave).
     io_then (self_set (\<lambda>b. b\<lparr>pb_master_fd := Some master, pb_slave_fd := Some slave\<rparr>))
     (io_bind (call (sys_ttyname os slave)) (\<lambda>name.
     io_then (self_set (\<lambda>b. b\<lparr>pb_slave_path := Some name\<rparr>))
     (io_then (call (sys_setraw os slave))
     (io_then (call (sys_set_blocking os master False))
     (io_bind (self_get pb_transcript_path) (\<lambda>tp.
     io_then (io_when (tp \<noteq> []) (io_then (make_parent os tp)
        (io_bind (call (sys_open_wb os tp)) (\<lambda>h. self_set (\<lambda>b. b\<lparr>pb_transcript := Some h\<rparr>)))))
     (io_bind (self_get pb_rx_transcript_path) (\<lambda>rp.
     io_then (io_when (rp \<noteq> []) (io_then (make_parent os rp)
        (io_bind (call (sys_open_wb os rp)) (\<lambda>h. self_set (\<lambda>b. b\<lparr>pb_rx_transcript := Some h\<rparr>)))))
     (io_bind (self_get pb_link_path) (\<lambda>lp.
     io_then (io_when (lp \<noteq> []) (io_then (make_parent os lp)
        (io_then (io_catch (call (sys_unlink os lp)) (\<lambda>e. if is_file_not_found e then io_return () else io_raise e))
           (call (sys_symlink os name lp)))))
     (io_then (self_set (\<lambda>b. b\<lparr>pb_thread := True\<rparr>))
     (io_then (call (sys_thread_start os)) (io_return True))))))))))))))"

text \<open>
  One turn of the reader: an error of \<open>select\<close> ends it (and stops the session unless the descriptor
  was closed); an error of \<open>read\<close> is passed over when it blocks or no client is attached.
\<close>

datatype 'a attempt = Got 'a | Failed py_error

definition attempt :: "('w, 'a) io \<Rightarrow> ('w, 'a attempt) io" where
  "attempt m = io_catch (io_bind m (\<lambda>x. io_return (Got x))) (\<lambda>e. if is_os_error e then io_return (Failed e) else io_raise e)"

definition pb_reader_turn :: "('w, 'a) sys \<Rightarrow> ('w \<times> pty_bridge, bool) io" where
  "pb_reader_turn os =
     io_bind (self_get pb_stop) (\<lambda>stop.
       if stop then io_return False
       else
         io_bind (self_get pb_master_fd) (\<lambda>fd.
         let fd = (case fd of None \<Rightarrow> -1 | Some n \<Rightarrow> n) in
         io_bind (attempt (call (sys_select os fd))) (\<lambda>sel.
           case sel of
             Failed e \<Rightarrow>
               if e = OSError EBADF then io_return False
               else io_then (self_set (\<lambda>b. b\<lparr>pb_stop := True\<rparr>)) (io_return False)
           | Got readable \<Rightarrow>
               if \<not> readable then io_return True
               else
                 io_bind (attempt (call (sys_read os fd 256))) (\<lambda>res.
                   case res of
                     Failed e \<Rightarrow>
                       if is_blocking e \<or> e = OSError EIO \<or> e = OSError EBADF then io_return True
                       else io_then (self_set (\<lambda>b. b\<lparr>pb_stop := True\<rparr>)) (io_return False)
                   | Got dat \<Rightarrow>
                       if dat = [] then io_return True
                       else
                         io_bind (self_get pb_rx_transcript) (\<lambda>t.
                         io_then (case t of None \<Rightarrow> io_return () | Some h \<Rightarrow> call (sys_file_write os h dat))
                         (io_then (self_set (\<lambda>b. b\<lparr>pb_queue := pb_queue b @ dat\<rparr>)) (io_return True)))))))"

definition pb_poll :: "pty_bridge \<Rightarrow> int option \<times> pty_bridge" where
  "pb_poll b = (case pb_queue b of [] \<Rightarrow> (None, b) | x # xs \<Rightarrow> (Some x, b\<lparr>pb_queue := xs\<rparr>))"

definition pb_request_stop :: "pty_bridge \<Rightarrow> pty_bridge" where
  "pb_request_stop b = b\<lparr>pb_stop := True\<rparr>"

text \<open>The errors of a write that leave the byte in the backlog.\<close>

definition tolerated :: "py_error \<Rightarrow> bool" where
  "tolerated e \<longleftrightarrow> is_blocking e \<or> e = OSError EIO \<or> e = OSError EBADF"

fun flush_loop :: "('w, 'a) sys \<Rightarrow> int \<Rightarrow> int list \<Rightarrow> 'w \<Rightarrow> unit py \<times> 'w \<times> int list" where
  "flush_loop os fd [] w = (Inr (), w, [])"
| "flush_loop os fd (x # q) w =
     (case sys_write os fd [x] w of
        (Inr n, w') \<Rightarrow> flush_loop os fd q w'
      | (Inl e, w') \<Rightarrow> (if tolerated e then Inr () else Inl e, w', x # q))"

definition flush_backlog :: "('w, 'a) sys \<Rightarrow> ('w \<times> pty_bridge, unit) io" where
  "flush_backlog os =
     (\<lambda>(w, b). case pb_master_fd b of
        None \<Rightarrow> (Inr (), (w, b))
      | Some fd \<Rightarrow> (case flush_loop os fd (pb_tx_backlog b) w of (r, w', q) \<Rightarrow> (r, (w', b\<lparr>pb_tx_backlog := q\<rparr>))))"

text \<open>The part of \<open>write_byte\<close> after the transcript.\<close>

definition write_master :: "('w, 'a) sys \<Rightarrow> nat \<Rightarrow> int \<Rightarrow> ('w \<times> pty_bridge, unit) io" where
  "write_master os limit byte =
     io_bind (self_get pb_master_fd) (\<lambda>m.
       case m of None \<Rightarrow> io_return ()
       | Some fd \<Rightarrow>
           io_then (flush_backlog os)
           (io_catch (io_then (call (sys_write os fd [byte])) (io_return ()))
              (\<lambda>e. if tolerated e
                   then self_set (\<lambda>b. b\<lparr>pb_tx_backlog := deque_append limit (pb_tx_backlog b) byte\<rparr>)
                   else io_raise e)))"

definition write_byte :: "('w, 'a) sys \<Rightarrow> nat \<Rightarrow> int \<Rightarrow> ('w \<times> pty_bridge, unit) io" where
  "write_byte os limit byte =
     io_bind (self_get pb_transcript) (\<lambda>t.
     io_then (case t of None \<Rightarrow> io_return () | Some h \<Rightarrow> call (sys_file_write os h [byte]))
       (write_master os limit byte))"

text \<open>
  The wait for the first byte of a client. Between two polls the reader thread acts on the object; the
  list has one such act for each poll, and the outcome is \<open>None\<close> while the wait goes on.
\<close>

fun wait_for_attach_byte :: "(pty_bridge \<Rightarrow> pty_bridge) list \<Rightarrow> pty_bridge \<Rightarrow> (int option \<times> pty_bridge) option" where
  "wait_for_attach_byte [] b = None"
| "wait_for_attach_byte (act # acts) b =
     (if pb_stop b then Some (None, b)
      else (case pb_poll b of
              (Some byte, b') \<Rightarrow> Some (Some byte, b')
            | (None, b') \<Rightarrow> wait_for_attach_byte acts (act b')))"

definition pb_close :: "('w, 'a) sys \<Rightarrow> ('w \<times> pty_bridge, unit) io" where
  "pb_close os =
     io_then (self_set (\<lambda>b. b\<lparr>pb_stop := True\<rparr>))
     (io_bind (self_get pb_transcript) (\<lambda>t.
     io_then (case t of None \<Rightarrow> io_return ()
        | Some h \<Rightarrow> io_then (call (sys_file_close os h)) (self_set (\<lambda>b. b\<lparr>pb_transcript := None\<rparr>)))
     (io_bind (self_get pb_rx_transcript) (\<lambda>t.
     io_then (case t of None \<Rightarrow> io_return ()
        | Some h \<Rightarrow> io_then (call (sys_file_close os h)) (self_set (\<lambda>b. b\<lparr>pb_rx_transcript := None\<rparr>)))
     (io_bind (self_get pb_master_fd) (\<lambda>m.
     io_then (case m of None \<Rightarrow> io_return ()
        | Some fd \<Rightarrow> io_then (call (sys_close os fd)) (self_set (\<lambda>b. b\<lparr>pb_master_fd := None\<rparr>)))
     (io_bind (self_get pb_slave_fd) (\<lambda>m.
     io_then (case m of None \<Rightarrow> io_return ()
        | Some fd \<Rightarrow> io_then (call (sys_close os fd)) (self_set (\<lambda>b. b\<lparr>pb_slave_fd := None\<rparr>)))
     (io_bind (self_get pb_link_path) (\<lambda>lp.
       io_when (lp \<noteq> [])
         (io_catch (io_bind (call (sys_islink os lp)) (\<lambda>l. io_when l (call (sys_unlink os lp))))
            (\<lambda>e. if is_file_not_found e then io_return () else io_raise e))))))))))))"

section \<open>The interface of a bridge\<close>

text \<open>
  What the UART driver relies on of either bridge: a first-in first-out queue of bytes and a stop flag
  that is never taken back.
\<close>

locale tty_bridge =
  fixes poll_fn :: "'b \<Rightarrow> int option \<times> 'b"
    and pending :: "'b \<Rightarrow> int list"
    and stopped :: "'b \<Rightarrow> bool"
    and request_stop :: "'b \<Rightarrow> 'b"
  assumes poll_empty: "pending b = [] \<Longrightarrow> poll_fn b = (None, b)"
    and poll_next: "pending b = x # xs \<Longrightarrow> \<exists>b'. poll_fn b = (Some x, b') \<and> pending b' = xs \<and> stopped b' = stopped b"
    and request_stop_stopped: "stopped (request_stop b)"
    and request_stop_pending: "pending (request_stop b) = pending b"
begin

fun drain :: "nat \<Rightarrow> 'b \<Rightarrow> int list \<times> 'b" where
  "drain 0 b = ([], b)"
| "drain (Suc n) b =
     (case poll_fn b of (None, b') \<Rightarrow> ([], b')
      | (Some x, b') \<Rightarrow> (case drain n b' of (xs, b'') \<Rightarrow> (x # xs, b'')))"

lemma drain_fifo:
  assumes "drain n b = (xs, b')"
  shows "xs @ pending b' = pending b" and "length xs = min n (length (pending b))" and "stopped b' = stopped b"
proof -
  have "xs @ pending b' = pending b \<and> length xs = min n (length (pending b)) \<and> stopped b' = stopped b"
    using assms
  proof (induction n arbitrary: b xs)
    case 0
    then show ?case by simp
  next
    case (Suc n)
    show ?case
    proof (cases "pending b")
      case Nil
      with Suc.prems poll_empty show ?thesis by simp
    next
      case (Cons x ys)
      then obtain b1 where b1: "poll_fn b = (Some x, b1)" "pending b1 = ys" "stopped b1 = stopped b"
        using poll_next by blast
      with Suc.prems obtain zs where "drain n b1 = (zs, b')" "xs = x # zs" by (auto split: prod.splits)
      with Suc.IH [of b1 zs] b1 Cons show ?thesis by simp
    qed
  qed
  then show "xs @ pending b' = pending b" "length xs = min n (length (pending b))" "stopped b' = stopped b" by auto
qed

end

interpretation stdin_br: tty_bridge sb_poll sb_queue sb_stop sb_request_stop
  by unfold_locales (auto simp: sb_poll_def sb_request_stop_def split: list.split)

interpretation pty_br: tty_bridge pb_poll pb_queue pb_stop pb_request_stop
  by unfold_locales (auto simp: pb_poll_def pb_request_stop_def split: list.split)

section \<open>What reaches the client of the pseudo-terminal\<close>

text \<open>
  The hypotheses on the operating system, for a function \<open>delivered\<close> that says what has been written to
  the terminal: a successful one-byte write adds that byte, a failed one nothing, and writing the
  transcript file leaves the terminal alone.
\<close>

definition write_law :: "('w, 'a) sys \<Rightarrow> ('w \<Rightarrow> int list) \<Rightarrow> bool" where
  "write_law os delivered \<longleftrightarrow>
     (\<forall>fd x w r w'. sys_write os fd [x] w = (r, w') \<longrightarrow> delivered w' = delivered w @ (if isl r then [] else [x])) \<and>
     (\<forall>h d w. delivered (snd (sys_file_write os h d w)) = delivered w)"

text \<open>Nothing drains the terminal between two writes: after a blocked write the next one blocks too.\<close>

definition write_stable :: "('w, 'a) sys \<Rightarrow> bool" where
  "write_stable os \<longleftrightarrow>
     (\<forall>fd x y w e w'. sys_write os fd [x] w = (Inl e, w') \<longrightarrow> (\<exists>e' w''. sys_write os fd [y] w' = (Inl e', w'')))"

lemma flush_loop_effect:
  assumes "write_law os delivered" and "flush_loop os fd q w = (r, w', q')"
  shows "\<exists>done. q = done @ q' \<and> delivered w' = delivered w @ done"
    and "q' \<noteq> [] \<Longrightarrow> write_stable os \<Longrightarrow> \<exists>e w''. sys_write os fd [x] w' = (Inl e, w'')"
proof -
  have "(\<exists>done. q = done @ q' \<and> delivered w' = delivered w @ done) \<and>
      (q' \<noteq> [] \<longrightarrow> write_stable os \<longrightarrow> (\<exists>e w''. sys_write os fd [x] w' = (Inl e, w'')))"
    using assms(2)
  proof (induction q arbitrary: w)
    case Nil
    then show ?case by simp
  next
    case (Cons y q)
    obtain s w1 where w1: "sys_write os fd [y] w = (s, w1)" by fastforce
    then have d: "delivered w1 = delivered w @ (if isl s then [] else [y])" using assms(1) by (simp add: write_law_def)
    show ?case
    proof (cases s)
      case (Inl e)
      with Cons.prems w1 d show ?thesis by (auto simp: write_stable_def)
    next
      case (Inr n)
      with Cons.prems w1 have "flush_loop os fd q w1 = (r, w', q')" by simp
      with Cons.IH [of w1] d Inr show ?thesis by (fastforce intro: exI [of _ "y # done" for "done"])
    qed
  qed
  then show "\<exists>done. q = done @ q' \<and> delivered w' = delivered w @ done"
    and "q' \<noteq> [] \<Longrightarrow> write_stable os \<Longrightarrow> \<exists>e w''. sys_write os fd [x] w' = (Inl e, w'')" by blast+
qed

text \<open>
  A call of \<open>write_byte\<close> that returns: some prefix of the backlog was written, and then the byte either
  was written as well or has joined what is left of the backlog.
\<close>

lemma write_byte_effect:
  assumes "write_law os delivered" and "pb_master_fd b = Some fd"
    and "write_byte os limit x (w, b) = (Inr (), (w', b'))"
  obtains pre post where "pb_tx_backlog b = pre @ post" and "pb_master_fd b' = Some fd"
    and "delivered w' = delivered w @ pre @ [x] \<and> pb_tx_backlog b' = post \<and> (write_stable os \<longrightarrow> post = []) \<or>
         delivered w' = delivered w @ pre \<and> pb_tx_backlog b' = deque_append limit post x"
proof -
  obtain w1 where w1: "delivered w1 = delivered w"
    and step1: "write_master os limit x (w1, b) = (Inr (), (w', b'))"
  proof (cases "pb_transcript b")
    case None
    with assms(3) that [of w] show thesis by (simp add: write_byte_def io_then_def)
  next
    case (Some h)
    obtain s w1 where t: "sys_file_write os h [x] w = (s, w1)" by fastforce
    then have "delivered w1 = delivered w"
      using assms(1) unfolding write_law_def by (metis snd_conv)
    with Some t assms(3) that [of w1] show thesis
      by (cases s) (simp_all add: write_byte_def io_then_def io_bind_def)
  qed
  obtain r w2 q where f: "flush_loop os fd (pb_tx_backlog b) w1 = (r, w2, q)" by (metis prod_cases3)
  from step1 f assms(2) have r: "r = Inr ()"
    and step2: "io_catch (io_then (call (sys_write os fd [x])) (io_return ()))
              (\<lambda>e. if tolerated e
                   then self_set (\<lambda>b. b\<lparr>pb_tx_backlog := deque_append limit (pb_tx_backlog b) x\<rparr>)
                   else io_raise e) (w2, b\<lparr>pb_tx_backlog := q\<rparr>) = (Inr (), (w', b'))"
    by (auto simp: write_master_def io_then_def io_bind_Inr flush_backlog_def)
  obtain pre where pre: "pb_tx_backlog b = pre @ q" "delivered w2 = delivered w @ pre"
    using flush_loop_effect(1) [OF assms(1) f] w1 by auto
  obtain s w3 where w3: "sys_write os fd [x] w2 = (s, w3)" by fastforce
  then have d: "delivered w3 = delivered w2 @ (if isl s then [] else [x])" using assms(1) by (simp add: write_law_def)
  have stuck: "write_stable os \<Longrightarrow> \<not> isl s \<Longrightarrow> q = []"
    using flush_loop_effect(2) [OF assms(1) f, of x] w3 by (cases q) auto
  show thesis
  proof (cases s)
    case (Inl e)
    with step2 w3 have "tolerated e" "w' = w3" "b' = b\<lparr>pb_tx_backlog := deque_append limit q x\<rparr>"
      by (auto simp: io_catch_def io_then_def io_bind_def split: if_splits)
    with that [of pre q] pre d Inl assms(2) show thesis by simp
  next
    case (Inr n)
    with step2 w3 have "w' = w3" "b' = b\<lparr>pb_tx_backlog := q\<rparr>"
      by (auto simp: io_catch_def io_then_def io_bind_def)
    with that [of pre q] pre d Inr assms(2) stuck show thesis by simp
  qed
qed

text \<open>
  What the boot loop does with the bridge, one act per clock edge: write an emitted byte, or flush.
\<close>

fun pty_session :: "('w, 'a) sys \<Rightarrow> nat \<Rightarrow> int option list \<Rightarrow> ('w \<times> pty_bridge, unit) io" where
  "pty_session os limit [] = io_return ()"
| "pty_session os limit (e # es) =
     io_then (case e of None \<Rightarrow> flush_backlog os | Some x \<Rightarrow> write_byte os limit x) (pty_session os limit es)"

definition session_bytes :: "int option list \<Rightarrow> int list" where
  "session_bytes es = concat (map (\<lambda>e. case e of None \<Rightarrow> [] | Some x \<Rightarrow> [x]) es)"

lemma session_bytes_simps [simp]:
  "session_bytes [] = []" "session_bytes (None # es) = session_bytes es"
  "session_bytes (Some x # es) = x # session_bytes es"
  by (simp_all add: session_bytes_def)

lemma pty_session_stream:
  assumes "write_law os delivered" and "write_stable os" and "pb_master_fd b = Some fd"
    and "length (pb_tx_backlog b) + length (session_bytes es) \<le> limit"
    and "pty_session os limit es (w, b) = (Inr (), (w', b'))"
  shows "delivered w' @ pb_tx_backlog b' = delivered w @ pb_tx_backlog b @ session_bytes es"
  using assms(3-5)
proof (induction es arbitrary: w b)
  case Nil
  then show ?case by simp
next
  case (Cons e es)
  show ?case
  proof (cases e)
    case None
    obtain r w1 q where f: "flush_loop os fd (pb_tx_backlog b) w = (r, w1, q)" by (metis prod_cases3)
    then have rest: "pty_session os limit es (w1, b\<lparr>pb_tx_backlog := q\<rparr>) = (Inr (), (w', b'))"
      using Cons.prems None by (cases r) (auto simp: io_then_def flush_backlog_def io_bind_def)
    obtain pre where pre: "pb_tx_backlog b = pre @ q" "delivered w1 = delivered w @ pre"
      using flush_loop_effect(1) [OF assms(1) f] by auto
    with Cons.IH [OF _ _ rest] Cons.prems None show ?thesis by simp
  next
    case (Some x)
    then obtain w1 b1 where first: "write_byte os limit x (w, b) = (Inr (), (w1, b1))"
      and rest: "pty_session os limit es (w1, b1) = (Inr (), (w', b'))"
      using Cons.prems(3) by (auto simp: io_then_def io_bind_Inr)
    obtain pre post where pp: "pb_tx_backlog b = pre @ post" "pb_master_fd b1 = Some fd"
      "delivered w1 = delivered w @ pre @ [x] \<and> pb_tx_backlog b1 = post \<and> (write_stable os \<longrightarrow> post = []) \<or>
       delivered w1 = delivered w @ pre \<and> pb_tx_backlog b1 = deque_append limit post x"
      using write_byte_effect [OF assms(1) Cons.prems(1) first] .
    then have "delivered w1 @ pb_tx_backlog b1 = delivered w @ pb_tx_backlog b @ [x]"
      "length (pb_tx_backlog b1) + length (session_bytes es) \<le> limit"
      using Cons.prems(2) Some assms(2) deque_append_room [of post limit x] by auto
    with Cons.IH [OF pp(2) _ rest] Some show ?thesis by simp
  qed
qed

text \<open>
  As long as nothing drains the terminal in the middle of a call and the bytes fit into the backlog,
  a session of \<open>write_byte\<close> and \<open>flush_backlog\<close> calls on an open pseudo-terminal loses and reorders nothing:
  what has been written to the terminal followed by the backlog is what was there before followed by the
  bytes given to \<open>write_byte\<close>, in order.
\<close>

theorem pty_session_in_order:
  assumes "write_law os delivered" and "write_stable os" and "pb_master_fd b = Some fd"
    and "length (pb_tx_backlog b) + length (session_bytes es) \<le> limit"
    and "pty_session os limit es (w, b) = (Inr (), (w', b'))"
  shows "delivered w' @ pb_tx_backlog b' = delivered w @ pb_tx_backlog b @ session_bytes es"
  by (rule pty_session_stream [OF assms])

text \<open>
  A terminal for the witnesses: what has been written, the number of bytes it still takes, and the moments
  at which a reader drains it (the number of bytes it makes room for before each write).
\<close>

type_synonym demo_world = "int list \<times> nat \<times> nat list"

definition demo_write :: "int \<Rightarrow> int list \<Rightarrow> (demo_world, nat) io" where
  "demo_write fd bs = (\<lambda>(out, room, drains).
     let room = room + (case drains of [] \<Rightarrow> 0 | d # _ \<Rightarrow> d)
     in if room = 0 then (Inl (OSError 11), (out, room, tl drains))
        else (Inr (length bs), (out @ bs, room - 1, tl drains)))"

definition demo_sys :: "(demo_world, unit) sys" where
  "demo_sys =
     \<lparr>sys_stdin_isatty = io_return True, sys_stdin_fileno = io_return 0, sys_tcgetattr = (\<lambda>_. io_return ()),
      sys_tcsetattr = (\<lambda>_ _. io_return ()), sys_setraw = (\<lambda>_. io_return ()), sys_thread_start = io_return (),
      sys_openpty = io_return (3, 4), sys_ttyname = (\<lambda>_. io_return ''/dev/pts/1''),
      sys_set_blocking = (\<lambda>_ _. io_return ()), sys_makedirs = (\<lambda>_. io_return ()), sys_open_wb = (\<lambda>_. io_return 5),
      sys_file_write = (\<lambda>_ _. io_return ()), sys_file_close = (\<lambda>_. io_return ()), sys_unlink = (\<lambda>_. io_return ()),
      sys_symlink = (\<lambda>_ _. io_return ()), sys_islink = (\<lambda>_. io_return True), sys_select = (\<lambda>_. io_return True),
      sys_read = (\<lambda>_ _. io_return []), sys_write = demo_write, sys_close = (\<lambda>_. io_return ())\<rparr>"

text \<open>The same terminal with a reader that never drains it during the session.\<close>

definition full_sys :: "(demo_world, unit) sys" where
  "full_sys = demo_sys\<lparr>sys_write := (\<lambda>fd bs (out, room, drains).
     if room = 0 then (Inl (OSError 11), (out, room, drains)) else (Inr (length bs), (out @ bs, room - 1, drains)))\<rparr>"

definition open_bridge :: "int list \<Rightarrow> pty_bridge" where
  "open_bridge q = (new_pty_bridge [] [] [])\<lparr>pb_master_fd := Some 3, pb_tx_backlog := q\<rparr>"

theorem pty_session_in_order_witness:
  "\<exists>w b. pty_session full_sys 8 [Some 0x61, None, Some 0x62, Some 0x63] (([], 2, []), open_bridge []) = (Inr (), (w, b)) \<and>
     fst w @ pb_tx_backlog b = [0x61, 0x62, 0x63]"
proof -
  have "write_law full_sys fst" "write_stable full_sys"
    by (auto simp: write_law_def write_stable_def full_sys_def demo_sys_def split: if_splits)
  moreover have "pty_session full_sys 8 [Some 0x61, None, Some 0x62, Some 0x63] (([], 2, []), open_bridge []) =
      (Inr (), (([0x61, 0x62], 0, []), open_bridge [0x63]))" by code_simp
  ultimately show ?thesis
    using pty_session_in_order [of full_sys fst "open_bridge []" 3 "[Some 0x61, None, Some 0x62, Some 0x63]" 8]
    by (fastforce simp: open_bridge_def new_pty_bridge_def)
qed

text \<open>
  \<open>write_byte\<close> does not wait for the backlog: when the flush is blocked and a reader drains the
  terminal before the byte's own write, the byte overtakes the backlog. Here the terminal takes nothing
  when the waiting byte a is tried, has room when b is written, and shows b before a.
\<close>

theorem write_byte_overtakes:
  "write_law demo_sys fst \<and>
   pty_session demo_sys 8 [Some 0x62, None] (([], 0, [0, 2]), open_bridge [0x61]) =
     (Inr (), (([0x62, 0x61], 0, []), open_bridge []))"
proof
  show "write_law demo_sys fst"
    by (auto simp: write_law_def demo_sys_def demo_write_def Let_def split: if_splits)
  show "pty_session demo_sys 8 [Some 0x62, None] (([], 0, [0, 2]), open_bridge [0x61]) =
     (Inr (), (([0x62, 0x61], 0, []), open_bridge []))" by code_simp
qed

text \<open>The backlog is bounded whatever the terminal does.\<close>

lemma flush_backlog_bound:
  assumes "flush_backlog os (w, b) = (r, (w', b'))"
  shows "length (pb_tx_backlog b') \<le> length (pb_tx_backlog b)"
proof -
  have "length q' \<le> length q" if "flush_loop os fd q w = (r, w', q')" for fd q w r w' q'
    using that by (induction q arbitrary: w) (auto split: prod.splits sum.splits if_splits, fastforce)
  with assms show ?thesis
    by (auto simp: flush_backlog_def split: option.splits prod.splits)
qed

lemma write_master_bound:
  assumes "write_master os limit x (w, b) = (r, (w', b'))" and "length (pb_tx_backlog b) \<le> limit"
  shows "length (pb_tx_backlog b') \<le> limit"
proof (cases "pb_master_fd b")
  case None
  with assms show ?thesis by (simp add: write_master_def)
next
  case (Some fd)
  obtain r1 w1 b1 where f: "flush_backlog os (w, b) = (r1, (w1, b1))" by (metis prod_cases3)
  have b1: "length (pb_tx_backlog b1) \<le> limit" using flush_backlog_bound [OF f] assms(2) by linarith
  obtain r2 w2 where w2: "sys_write os fd [x] w1 = (r2, w2)" by fastforce
  have "r1 = Inl e \<Longrightarrow> b' = b1" for e
    using assms(1) Some f by (simp add: write_master_def io_then_def)
  moreover have "r1 = Inr () \<Longrightarrow> pb_tx_backlog b' \<in> {pb_tx_backlog b1, deque_append limit (pb_tx_backlog b1) x}"
    using assms(1) Some f w2
    by (cases r2) (auto simp: write_master_def io_then_def io_catch_def io_bind_def split: if_splits)
  ultimately show ?thesis using b1 length_deque_append [OF b1, of x] by (cases r1) auto
qed

lemma write_byte_bound:
  assumes "write_byte os limit x (w, b) = (r, (w', b'))" and "length (pb_tx_backlog b) \<le> limit"
  shows "length (pb_tx_backlog b') \<le> limit"
proof (cases "pb_transcript b")
  case None
  with assms show ?thesis using write_master_bound by (fastforce simp: write_byte_def io_then_def)
next
  case (Some h)
  obtain s w1 where "sys_file_write os h [x] w = (s, w1)" by fastforce
  with Some assms write_master_bound [of os limit x w1 b r w' b'] show ?thesis
    by (cases s) (auto simp: write_byte_def io_then_def io_bind_def)
qed

text \<open>
  C40. The backlog of a bridge never exceeds \<open>UART_PTY_BUFFER_LIMIT\<close>: starting within it, every session
  stays within it, on success and when a call raises, for every operating system.
\<close>

theorem pty_backlog_bounded:
  assumes "length (pb_tx_backlog b) \<le> limit" and "pty_session os limit es (w, b) = (r, (w', b'))"
  shows "length (pb_tx_backlog b') \<le> limit"
  using assms
proof (induction es arbitrary: w b)
  case (Cons e es)
  obtain r1 w1 b1 where f: "(case e of None \<Rightarrow> flush_backlog os | Some x \<Rightarrow> write_byte os limit x) (w, b) = (r1, (w1, b1))"
    by (metis prod_cases3)
  then have "length (pb_tx_backlog b1) \<le> limit"
    using Cons.prems(1) flush_backlog_bound [of os w b] write_byte_bound [of os limit _ w b]
    by (cases e) (fastforce dest: le_trans)+
  with f Cons show ?case by (cases r1) (auto simp: io_then_def io_bind_def)
qed simp

theorem pty_backlog_bounded_witness:
  "\<exists>r w b. pty_session full_sys 2 [Some 1, Some 2, Some 3] (([], 0, []), open_bridge []) = (r, (w, b)) \<and>
     length (pb_tx_backlog b) \<le> 2"
proof -
  obtain r w b where s: "pty_session full_sys 2 [Some 1, Some 2, Some 3] (([], 0, []), open_bridge []) = (r, (w, b))"
    by (metis prod_cases3)
  have "length (pb_tx_backlog (open_bridge [])) \<le> 2" by (simp add: open_bridge_def)
  from pty_backlog_bounded [OF this s] s show ?thesis by blast
qed

section \<open>The terminal is given back\<close>

datatype sb_event = ReaderTurn | Polled | StopRequested

definition sb_act :: "('w, 'a) sys \<Rightarrow> sb_event \<Rightarrow> 'w \<times> 'a stdin_bridge \<Rightarrow> 'w \<times> 'a stdin_bridge" where
  "sb_act os e s =
     (case e of
        ReaderTurn \<Rightarrow> snd (sb_reader_turn os s)
      | Polled \<Rightarrow> (fst s, snd (sb_poll (snd s)))
      | StopRequested \<Rightarrow> (fst s, sb_request_stop (snd s)))"

lemma sb_act_keeps:
  "sb_fd (snd (sb_act os e s)) = sb_fd (snd s) \<and> sb_saved_attrs (snd (sb_act os e s)) = sb_saved_attrs (snd s)"
proof -
  obtain w b where s: "s = (w, b)" by fastforce
  obtain r w' where "sys_read os (case sb_fd b of None \<Rightarrow> -1 | Some n \<Rightarrow> n) 1 w = (r, w')" by fastforce
  then show ?thesis
    by (cases e; cases r)
      (auto simp: s sb_act_def sb_reader_turn_def sb_poll_def sb_request_stop_def io_bind_def io_catch_def io_then_def
        split: list.split)
qed

text \<open>
  Whatever the reader thread and the main thread do in between, closing a \<open>StdinBridge\<close> whose \<open>start\<close>
  returned True puts the attributes the terminal had before \<open>start\<close> back on the same descriptor.
\<close>

theorem stdin_bridge_restores:
  assumes "\<And>fd w. sys_tcgetattr os fd w = (Inr (attrs w fd), w)"
    and "\<And>fd a w. \<exists>w'. sys_tcsetattr os fd a w = (Inr (), w') \<and> attrs w' fd = a"
    and "sys_stdin_isatty os w = (Inr True, w)" and "sys_stdin_fileno os w = (Inr fd, w)"
    and "sb_start os (w, new_stdin_bridge) = (Inr True, s)"
  shows "\<exists>w' b'. sb_close os (foldl (\<lambda>s e. sb_act os e s) s es) = (Inr (), (w', b')) \<and>
           attrs w' fd = attrs w fd \<and> sb_stop b'"
proof -
  obtain r w1 where raw: "sys_setraw os fd w = (r, w1)" by fastforce
  obtain r2 w2 where th: "sys_thread_start os w1 = (r2, w2)" by fastforce
  have "sb_fd (snd s) = Some fd \<and> sb_saved_attrs (snd s) = Some (attrs w fd)"
    using assms raw th by (cases r; cases r2) (auto simp: sb_start_def io_then_def io_bind_def)
  then have "sb_fd (snd (foldl (\<lambda>s e. sb_act os e s) s es)) = Some fd \<and>
      sb_saved_attrs (snd (foldl (\<lambda>s e. sb_act os e s) s es)) = Some (attrs w fd)"
    by (induction es rule: rev_induct) (simp_all add: sb_act_keeps)
  moreover obtain w3 b3 where "foldl (\<lambda>s e. sb_act os e s) s es = (w3, b3)" by fastforce
  moreover obtain w4 where "sys_tcsetattr os fd (attrs w fd) w3 = (Inr (), w4)" "attrs w4 fd = attrs w fd"
    using assms(2) by blast
  ultimately show ?thesis by (simp add: sb_close_def io_then_def)
qed

text \<open>A terminal whose world is its attributes; raw mode is 99.\<close>

definition term_sys :: "(nat, nat) sys" where
  "term_sys =
     \<lparr>sys_stdin_isatty = io_return True, sys_stdin_fileno = io_return 0, sys_tcgetattr = (\<lambda>_ w. (Inr w, w)),
      sys_tcsetattr = (\<lambda>_ a w. (Inr (), a)), sys_setraw = (\<lambda>_ w. (Inr (), 99)), sys_thread_start = io_return (),
      sys_openpty = io_return (3, 4), sys_ttyname = (\<lambda>_. io_return []), sys_set_blocking = (\<lambda>_ _. io_return ()),
      sys_makedirs = (\<lambda>_. io_return ()), sys_open_wb = (\<lambda>_. io_return 5), sys_file_write = (\<lambda>_ _. io_return ()),
      sys_file_close = (\<lambda>_. io_return ()), sys_unlink = (\<lambda>_. io_return ()), sys_symlink = (\<lambda>_ _. io_return ()),
      sys_islink = (\<lambda>_. io_return True), sys_select = (\<lambda>_. io_return True), sys_read = (\<lambda>_ _. io_return [65]),
      sys_write = (\<lambda>_ _. io_return 1), sys_close = (\<lambda>_. io_return ())\<rparr>"

theorem stdin_bridge_restores_witness:
  "\<exists>w' b'. sb_close term_sys (foldl (\<lambda>s e. sb_act term_sys e s) (snd (sb_start term_sys (7, new_stdin_bridge)))
       [ReaderTurn, ReaderTurn, Polled, StopRequested]) = (Inr (), (w', b')) \<and> w' = 7 \<and> sb_stop b'"
proof -
  have laws: "sys_tcgetattr term_sys fd w = (Inr w, w)" "\<exists>w'. sys_tcsetattr term_sys fd a w = (Inr (), w') \<and> w' = a"
    "sys_stdin_isatty term_sys 7 = (Inr True, 7)" "sys_stdin_fileno term_sys 7 = (Inr 0, 7)" for fd w a
    by (simp_all add: term_sys_def)
  have start: "sb_start term_sys (7, new_stdin_bridge) = (Inr True, snd (sb_start term_sys (7, new_stdin_bridge)))"
    by (simp add: sb_start_def term_sys_def io_then_def io_bind_def)
  show ?thesis
    using stdin_bridge_restores [where attrs = "\<lambda>w fd. w" and fd = 0,
        OF laws start, of "[ReaderTurn, ReaderTurn, Polled, StopRequested]"] by blast
qed

end
