(* ===== verification/Tty_Drive.thy ===== *)
theory Tty_Drive
  imports Uart_Receiver Tty_Bridges
begin

text \<open>
  The coroutine \<open>drive_bridge_to_uart\<close> of \<open>sim/linux_tty.py\<close>, which plays the bytes of a bridge into the
  UART, and its composition with the UART itself. The coroutine is given from one clock edge to the
  next: \<open>drive_resume\<close> runs it from the point where it waits to its next wait. A coroutine resumed by
  an edge reads the registers as they were before that edge, and what it drives is sampled by the next
  one.
\<close>

section \<open>The coroutine\<close>

text \<open>What the coroutine uses of a bridge.\<close>

record 'b bridge_ops =
  br_poll :: "'b \<Rightarrow> int option \<times> 'b"
  br_stopped :: "'b \<Rightarrow> bool"
  br_request_stop :: "'b \<Rightarrow> 'b"

definition stdin_ops :: "'a stdin_bridge bridge_ops" where
  "stdin_ops = \<lparr>br_poll = sb_poll, br_stopped = sb_stop, br_request_stop = sb_request_stop\<rparr>"

definition pty_ops :: "pty_bridge bridge_ops" where
  "pty_ops = \<lparr>br_poll = pb_poll, br_stopped = pb_stop, br_request_stop = pb_request_stop\<rparr>"

definition TTY_EXIT_BYTE :: int where "TTY_EXIT_BYTE = 0x1D"

definition clamp_pending :: "int \<Rightarrow> int" where
  "clamp_pending n = min 16 (max 1 n)"

text \<open>
  Where the coroutine waits: for a byte, with a byte in hand for room in the receive FIFO, or for the
  end of a frame, of which the line values of the edges to come are left. \<open>Finished\<close> is its return.
\<close>

datatype drive_pc = Polling | Holding int | Sending "int list" | Finished

text \<open>
  \<open>dr_line\<close> is the value the coroutine drives; \<open>dr_taken\<close> and \<open>dr_sent\<close> record the bytes polled and the
  bytes handed to \<open>uart_send_byte\<close>.
\<close>

record 'b drive =
  dr_bridge :: 'b
  dr_pc :: drive_pc
  dr_line :: int
  dr_log :: "string list"
  dr_taken :: "int list"
  dr_sent :: "int list"

definition drive_log :: "bool \<Rightarrow> string \<Rightarrow> 'b drive \<Rightarrow> 'b drive" where
  "drive_log debug line d = (if debug then d\<lparr>dr_log := dr_log d @ [line]\<rparr> else d)"

definition drive_send :: "dut \<Rightarrow> int \<Rightarrow> 'b drive \<Rightarrow> 'b drive" where
  "drive_send dut byte d =
     (case map (\<lambda>p. p ''uart_rx'') (edge_values (uart_send_byte dut byte None) (\<lambda>_. dr_line d)) of
        [] \<Rightarrow> d\<lparr>dr_pc := Polling\<rparr>
      | v # vs \<Rightarrow> d\<lparr>dr_pc := Sending vs, dr_line := v, dr_sent := dr_sent d @ [byte]\<rparr>)"

definition drive_go :: "'b bridge_ops \<Rightarrow> bool \<Rightarrow> dut \<Rightarrow> int \<Rightarrow> 'b drive \<Rightarrow> 'b drive" where
  "drive_go ops debug dut byte d =
     (if br_stopped ops (dr_bridge d) then d\<lparr>dr_pc := Finished\<rparr>
      else if byte = 0x0A \<or> byte = 0x0D
      then drive_send dut 0x0D (drive_log debug ''UART sending CR for line ending'' d)
      else drive_send dut byte (drive_log debug (''UART sending data byte: 0x'' @ fmt_0x 2 byte) d))"

definition drive_hold :: "'b bridge_ops \<Rightarrow> int \<Rightarrow> bool \<Rightarrow> dut \<Rightarrow> int \<Rightarrow> 'b drive \<Rightarrow> 'b drive py" where
  "drive_hold ops limit debug dut byte d =
     (if br_stopped ops (dr_bridge d) then Inr (drive_go ops debug dut byte d)
      else py_bind (dut_int dut ''uart_inst.rx_fifo_count'') (\<lambda>n.
             if limit \<le> n then Inr (d\<lparr>dr_pc := Holding byte\<rparr>) else Inr (drive_go ops debug dut byte d)))"

definition drive_poll :: "'b bridge_ops \<Rightarrow> int \<Rightarrow> bool \<Rightarrow> dut \<Rightarrow> 'b drive \<Rightarrow> 'b drive py" where
  "drive_poll ops limit debug dut d =
     (if br_stopped ops (dr_bridge d) then Inr (d\<lparr>dr_pc := Finished\<rparr>)
      else (case br_poll ops (dr_bridge d) of
              (None, b) \<Rightarrow> Inr (d\<lparr>dr_bridge := b, dr_pc := Polling\<rparr>)
            | (Some byte, b) \<Rightarrow>
                let d = drive_log debug (''UART input byte dequeued: 0x'' @ fmt_0x 2 byte)
                          (d\<lparr>dr_bridge := b, dr_taken := dr_taken d @ [byte]\<rparr>)
                in if byte = TTY_EXIT_BYTE
                   then Inr (d\<lparr>dr_bridge := br_request_stop ops b, dr_pc := Finished\<rparr>)
                   else drive_hold ops limit debug dut byte d))"

definition drive_resume :: "'b bridge_ops \<Rightarrow> int \<Rightarrow> bool \<Rightarrow> dut \<Rightarrow> 'b drive \<Rightarrow> 'b drive py" where
  "drive_resume ops limit debug dut d =
     (case dr_pc d of
        Polling \<Rightarrow> drive_poll ops limit debug dut d
      | Holding byte \<Rightarrow> drive_hold ops limit debug dut byte d
      | Sending [] \<Rightarrow> drive_poll ops limit debug dut d
      | Sending (v # vs) \<Rightarrow> Inr (d\<lparr>dr_line := v, dr_pc := Sending vs\<rparr>)
      | Finished \<Rightarrow> Inr d)"

text \<open>The byte that reaches the guest: line feeds are sent as carriage returns.\<close>

definition line_ending :: "int \<Rightarrow> int" where
  "line_ending byte = (if byte = 0x0A \<or> byte = 0x0D then 0x0D else byte)"

section \<open>The coroutine, the host and the UART together\<close>

text \<open>
  One clock edge. The processor's side of the bus is any input that neither resets the UART nor writes
  FCR or LCR; the receive line is what the coroutine drives; before the coroutine resumes, the reader
  thread may have added \<open>new\<close> to the bridge and others may have stopped it, as \<open>host\<close> allows.
\<close>

inductive drive_run ::
  "'b bridge_ops \<Rightarrow> ('b \<Rightarrow> int list \<Rightarrow> 'b \<Rightarrow> bool) \<Rightarrow> int \<Rightarrow> bool \<Rightarrow> uart \<times> 'b drive \<Rightarrow>
   uart_in list \<Rightarrow> int list \<Rightarrow> uart \<times> 'b drive \<Rightarrow> bool"
  for ops host limit debug start where
  drive_start: "drive_run ops host limit debug start [] [] start"
| drive_edge:
    "\<lbrakk>drive_run ops host limit debug start is hs (s, d); rx_quiet i; in_rx i = (dr_line d \<noteq> 0);
      shows_uart v s; host (dr_bridge d) new b;
      drive_resume ops limit debug v (d\<lparr>dr_bridge := b\<rparr>) = Inr d'\<rbrakk>
     \<Longrightarrow> drive_run ops host limit debug start (is @ [i]) (hs @ new) (uart_step s i, d')"

inductive_cases drive_run_Nil: "drive_run ops host limit debug start [] hs x"

section \<open>The line while no frame is sent\<close>

lemma idle_edge:
  assumes "rx_ready s" and "rx_quiet i" and "in_rx i"
  shows "rx_ready (uart_step s i)" and "rx_accepted s i = None" and "rx_oe (uart_step s i) = rx_oe s"
    and "length (rx_queue (uart_step s i)) \<le> length (rx_queue s)" and "baud_div (uart_step s i) = baud_div s"
proof -
  have r: "\<not> in_rst i" and w: "\<not> wr i 3" and nc: "\<not> rx_fifo_clear_request i"
    using assms(2) quiet_not_clear [of i] by (simp_all add: rx_quiet_def)
  have s: "uart_ok s" "rx_state s = RX_IDLE" "rx_meta s" "rx_sync s" "unat (baud_tick_counter s) < eff_div s"
    using assms(1) by (simp_all add: rx_ready_def)
  show d: "baud_div (uart_step s i) = baud_div s" using uart_step_baud(2) [OF r] w by simp
  have "rx_fsm_of (uart_step s i) = rx_fsm_of s"
    using uart_step_rx(1) [OF r, of s] s by (simp add: rx_fsm_next_def rx_fsm_of_def rx_tick_rules(1))
  then have "rx_state (uart_step s i) = RX_IDLE" using s by (simp add: rx_fsm_of_def)
  moreover have "unat (baud_tick_counter (uart_step s i)) < eff_div (uart_step s i)"
    using uart_step_baud(1) [OF r, of s] s(5) d
    by (auto simp: eff_div_def baud_tick_def unat_minus_one word_less_nat_alt unat_gt_0)
  ultimately show "rx_ready (uart_step s i)"
    using s assms(3) uart_step_rx(2,3) [OF r, of s] by (simp add: rx_ready_def uart_step_ok)
  have nd: "\<not> frame_done s" using s(2) by (simp add: frame_done_def)
  then show a: "rx_accepted s i = None" by (simp add: rx_accepted_def rx_push_iff)
  show "rx_oe (uart_step s i) = rx_oe s"
    using nd nc uart_step_rx(4) [OF r, of s] by (simp add: rx_push_iff)
  show "length (rx_queue (uart_step s i)) \<le> length (rx_queue s)"
    using a by (simp add: rx_queue_step [OF s(1)])
qed

section \<open>The line while a frame is sent\<close>

text \<open>
  A frame of \<open>byte\<close> in progress: the receiver was ready with room when it began, \<open>sofar\<close> are the inputs
  since, and \<open>rest\<close> are the line values still to be sampled.
\<close>

definition in_flight :: "uart \<Rightarrow> int \<Rightarrow> uart_in list \<Rightarrow> bool list \<Rightarrow> bool" where
  "in_flight s byte sofar rest \<longleftrightarrow> rx_ready s \<and> length (rx_queue s) < 16 \<and> list_all rx_quiet sofar \<and>
     map in_rx sofar @ rest = concat (map (\<lambda>v. replicate (16 * eff_div s) (v \<noteq> 0)) (send_bits byte))"

lemma in_flight_carries:
  assumes "in_flight s byte sofar rest"
  defines "full \<equiv> sofar @ map (\<lambda>b. bus_idle\<lparr>in_rx := b\<rparr>) rest"
  shows "carries_frame s (word_of_int byte) full" and "list_all rx_quiet full"
proof -
  have "map in_rx full = concat (map (\<lambda>v. replicate (nat (uart_baud_cycles (uart_view s) None)) (v \<noteq> 0)) (send_bits byte))"
    using assms(1) shown_baud_cycles [OF shows_uart_view, of s] by (simp add: in_flight_def full_def comp_def)
  then show "carries_frame s (word_of_int byte) full" by (rule wave_carries_frame [OF shows_uart_view])
  show "list_all rx_quiet full"
    using assms(1) by (auto simp: in_flight_def full_def list_all_iff rx_quiet_def wr_def bus_idle_def)
qed

lemma in_flight_no_overrun:
  assumes "in_flight s byte sofar rest"
  shows "rx_oe (uart_run s sofar) = rx_oe s"
proof -
  have "rx_ready s" "length (rx_queue s) < 16" using assms by (simp_all add: in_flight_def)
  from frame_received(2) [OF this(1) in_flight_carries(2,1) [OF assms] this(2), of "length sofar"]
  show ?thesis by simp
qed

lemma in_flight_end:
  assumes "in_flight s byte sofar []"
  shows "rx_received s sofar = [word_of_int byte]" and "rx_ready (uart_run s sofar)"
    and "baud_div (uart_run s sofar) = baud_div s"
    and "length (rx_queue (uart_run s sofar)) \<le> length (rx_queue (uart_run s (butlast sofar)))"
proof -
  have ready: "rx_ready s" "length (rx_queue s) < 16" using assms by (simp_all add: in_flight_def)
  have f: "carries_frame s (word_of_int byte) sofar" "list_all rx_quiet sofar"
    using in_flight_carries [OF assms] by simp_all
  show "rx_received s sofar = [word_of_int byte]"
    "length (rx_queue (uart_run s sofar)) \<le> length (rx_queue (uart_run s (butlast sofar)))"
    using frame_received(1,3) [OF ready(1) f(2,1) ready(2)] by simp_all
  show "rx_ready (uart_run s sofar)" "baud_div (uart_run s sofar) = baud_div s"
    using in_frame_end [OF ready(1) f(2,1)] by simp_all
qed

section \<open>A resumption\<close>

text \<open>After a resumption the coroutine either waits with the line high, or has begun a frame.\<close>

definition drive_waits :: "'b drive \<Rightarrow> 'b drive \<Rightarrow> bool" where
  "drive_waits d d' \<longleftrightarrow> (\<forall>vs. dr_pc d' \<noteq> Sending vs) \<and> dr_line d' = dr_line d \<and> dr_sent d' = dr_sent d"

definition drive_begins :: "uart \<Rightarrow> 'b drive \<Rightarrow> 'b drive \<Rightarrow> bool" where
  "drive_begins s d d' \<longleftrightarrow> (\<exists>vs byte. dr_pc d' = Sending vs \<and> dr_sent d' = dr_sent d @ [byte] \<and>
     in_flight s byte [] (map (\<lambda>v. v \<noteq> 0) (dr_line d' # vs)))"

lemma drive_log_fields [simp]:
  "dr_pc (drive_log debug l d) = dr_pc d" "dr_line (drive_log debug l d) = dr_line d"
  "dr_sent (drive_log debug l d) = dr_sent d" "dr_taken (drive_log debug l d) = dr_taken d"
  "dr_bridge (drive_log debug l d) = dr_bridge d"
  by (simp_all add: drive_log_def)

lemma send_values:
  assumes "shows_uart v s"
  shows "map (\<lambda>p. p ''uart_rx'' \<noteq> 0) (edge_values (uart_send_byte v byte None) p) =
    concat (map (\<lambda>v. replicate (16 * eff_div s) (v \<noteq> 0)) (send_bits byte))"
proof -
  obtain q where "line_values (hold_bits (16 * eff_div s) (send_bits byte) @ []) p =
      concat (map (\<lambda>v. replicate (16 * eff_div s) (v \<noteq> 0)) (send_bits byte)) @ line_values [] q"
    using line_values_hold by blast
  then show ?thesis
    unfolding uart_send_byte_bits shown_baud_cycles [OF assms] line_values_def
    by (simp only: append_Nil2 edge_values.simps list.map)
qed

lemma drive_send_begins:
  assumes "shows_uart v s" and "baud_div s' = baud_div s" and "rx_ready s'" and "length (rx_queue s') < 16"
  shows "drive_begins s' d (drive_send v byte d)" and "dr_bridge (drive_send v byte d) = dr_bridge d"
    and "dr_taken (drive_send v byte d) = dr_taken d" and "dr_sent (drive_send v byte d) = dr_sent d @ [byte]"
    and "\<exists>vs. dr_pc (drive_send v byte d) = Sending vs"
proof -
  define vals where "vals = map (\<lambda>p. p ''uart_rx'') (edge_values (uart_send_byte v byte None) (\<lambda>_. dr_line d))"
  define wave where "wave = concat (map (\<lambda>v. replicate (16 * eff_div s') (v \<noteq> 0)) (send_bits byte))"
  have e: "eff_div s' = eff_div s" using assms(2) by (simp add: eff_div_def)
  have vals: "map (\<lambda>v. v \<noteq> 0) vals = wave"
    unfolding vals_def wave_def e using send_values [OF assms(1), of byte "\<lambda>_. dr_line d"] by (simp only: map_map comp_def)
  have "0 < length wave"
    unfolding wave_def concat_replicate_length by (simp add: send_bits_def eff_div_def)
  then obtain x xs where x: "vals = x # xs" using vals by (cases vals) auto
  then have send: "drive_send v byte d = d\<lparr>dr_pc := Sending xs, dr_line := x, dr_sent := dr_sent d @ [byte]\<rparr>"
    unfolding drive_send_def vals_def by simp
  have "in_flight s' byte [] (map (\<lambda>v. v \<noteq> 0) (x # xs))"
    using vals x assms(3,4) unfolding in_flight_def wave_def by simp
  then show "drive_begins s' d (drive_send v byte d)" unfolding drive_begins_def send by auto
  show "dr_bridge (drive_send v byte d) = dr_bridge d" "dr_taken (drive_send v byte d) = dr_taken d"
    "dr_sent (drive_send v byte d) = dr_sent d @ [byte]" "\<exists>vs. dr_pc (drive_send v byte d) = Sending vs"
    by (simp_all add: send)
qed

text \<open>How the bytes polled and the bytes sent correspond: at most one is in hand.\<close>

definition bytes_ok :: "'b drive \<Rightarrow> bool" where
  "bytes_ok d \<longleftrightarrow> (\<exists>held. map line_ending (dr_taken d) = dr_sent d @ held \<and>
     (case dr_pc d of Holding byte \<Rightarrow> held = [line_ending byte] | Finished \<Rightarrow> length held \<le> 1 | _ \<Rightarrow> held = []))"

text \<open>What a resumption that does not merely go on with a frame does, for the receiver state it leaves to the line.\<close>

definition resumed :: "uart \<Rightarrow> 'b drive \<Rightarrow> 'b drive \<Rightarrow> bool" where
  "resumed s d d' \<longleftrightarrow> (drive_waits d d' \<or> drive_begins s d d') \<and> bytes_ok d'"

lemma go_resumed:
  assumes "shows_uart v s" and "baud_div s' = baud_div s" and "rx_ready s'"
    and "\<not> br_stopped ops (dr_bridge d) \<Longrightarrow> length (rx_queue s') < 16"
    and "map line_ending (dr_taken d) = dr_sent d @ [line_ending byte]"
  shows "resumed s' d (drive_go ops debug v byte d)"
    and "dr_bridge (drive_go ops debug v byte d) = dr_bridge d" and "dr_taken (drive_go ops debug v byte d) = dr_taken d"
proof -
  have "resumed s' d (drive_go ops debug v byte d) \<and> dr_bridge (drive_go ops debug v byte d) = dr_bridge d \<and>
      dr_taken (drive_go ops debug v byte d) = dr_taken d"
  proof (cases "br_stopped ops (dr_bridge d)")
    case True
    with assms(5) show ?thesis by (simp add: drive_go_def resumed_def drive_waits_def bytes_ok_def)
  next
    case False
    define l where "l = (if byte = 0x0A \<or> byte = 0x0D then ''UART sending CR for line ending''
        else ''UART sending data byte: 0x'' @ fmt_0x 2 byte)"
    have l: "drive_go ops debug v byte d = drive_send v (line_ending byte) (drive_log debug l d)"
      using False unfolding drive_go_def line_ending_def l_def by (simp only: if_False if_True split: if_split) blast
    note send = drive_send_begins [OF assms(1-3) assms(4) [OF False], where byte = "line_ending byte" and d = "drive_log debug l d"]
    have "drive_begins s' d (drive_go ops debug v byte d)" using send(1) l by (simp add: drive_begins_def)
    moreover have "bytes_ok (drive_go ops debug v byte d)" using send(3-5) l assms(5) by (auto simp: bytes_ok_def)
    ultimately show ?thesis using send(2,3) l by (simp add: resumed_def)
  qed
  then show "resumed s' d (drive_go ops debug v byte d)" "dr_bridge (drive_go ops debug v byte d) = dr_bridge d"
    "dr_taken (drive_go ops debug v byte d) = dr_taken d" by auto
qed

lemma hold_resumed:
  assumes "shows_uart v s" and "baud_div s' = baud_div s" and "rx_ready s'" and "length (rx_queue s') \<le> length (rx_queue s)"
    and "limit \<le> 16" and "map line_ending (dr_taken d) = dr_sent d @ [line_ending byte]"
    and "drive_hold ops limit debug v byte d = Inr d'"
  shows "resumed s' d d'" and "dr_bridge d' = dr_bridge d" and "dr_taken d' = dr_taken d"
proof -
  have n: "dut_int v ''uart_inst.rx_fifo_count'' = Inr (uint (rx_fifo_count s))"
    using assms(1) by (simp add: shows_uart_def)
  have "resumed s' d d' \<and> dr_bridge d' = dr_bridge d \<and> dr_taken d' = dr_taken d"
  proof (cases "\<not> br_stopped ops (dr_bridge d) \<and> limit \<le> uint (rx_fifo_count s)")
    case True
    then have "d' = d\<lparr>dr_pc := Holding byte\<rparr>" using assms(7) n by (simp add: drive_hold_def)
    with assms(6) show ?thesis by (simp add: resumed_def drive_waits_def bytes_ok_def)
  next
    case False
    have "length (rx_queue s') < 16" if "\<not> br_stopped ops (dr_bridge d)"
    proof -
      have "int (unat (rx_fifo_count s)) < 16" using False that assms(5) by simp
      then show ?thesis using assms(4) queue_length(2) [of s] by linarith
    qed
    moreover have "d' = drive_go ops debug v byte d"
      using assms(7) n False by (cases "br_stopped ops (dr_bridge d)") (simp_all add: drive_hold_def)
    ultimately show ?thesis using go_resumed [OF assms(1-3) _ assms(6)] by blast
  qed
  then show "resumed s' d d'" "dr_bridge d' = dr_bridge d" "dr_taken d' = dr_taken d" by auto
qed

section \<open>The invariant of the composition\<close>

definition drive_inv :: "uart \<Rightarrow> uart_in list \<Rightarrow> uart \<Rightarrow> 'b drive \<Rightarrow> bool" where
  "drive_inv s0 is s d \<longleftrightarrow> s = uart_run s0 is \<and> rx_oe s = rx_oe s0 \<and> bytes_ok d \<and>
     (case dr_pc d of
        Sending vs \<Rightarrow> (\<exists>before sofar prev byte. is = before @ sofar \<and> dr_sent d = prev @ [byte] \<and>
          rx_received s0 before = map word_of_int prev \<and> rx_oe (uart_run s0 before) = rx_oe s0 \<and>
          in_flight (uart_run s0 before) byte sofar (map (\<lambda>v. v \<noteq> 0) (dr_line d # vs)))
      | _ \<Rightarrow> dr_line d \<noteq> 0 \<and> rx_ready s \<and> rx_received s0 is = map word_of_int (dr_sent d))"

lemma drive_inv_bridge: "drive_inv s0 is s (d\<lparr>dr_bridge := b\<rparr>) \<longleftrightarrow> drive_inv s0 is s d"
  by (cases "dr_pc d") (simp_all add: drive_inv_def bytes_ok_def)

lemma rx_received_append: "rx_received s (is @ js) = rx_received s is @ rx_received (uart_run s is) js"
  using rxf.accepted_log_append [of s "is" js] by (simp add: rx_logs fifo_run)

lemma resumed_inv:
  assumes "resumed s' d d'" and "s' = uart_run s0 is" and "rx_oe s' = rx_oe s0" and "rx_ready s'" and "dr_line d \<noteq> 0"
    and "rx_received s0 is = map word_of_int (dr_sent d)"
  shows "drive_inv s0 is s' d'"
proof -
  from assms(1) consider "drive_waits d d'" | "drive_begins s' d d'" by (auto simp: resumed_def)
  then show ?thesis
  proof cases
    case 1
    with assms show ?thesis
      by (cases "dr_pc d'") (simp_all add: drive_inv_def drive_waits_def resumed_def)
  next
    case 2
    then obtain vs byte where "dr_pc d' = Sending vs" "dr_sent d' = dr_sent d @ [byte]"
      "in_flight (uart_run s0 is) byte [] (map (\<lambda>v. v \<noteq> 0) (dr_line d' # vs))"
      using assms(2) by (auto simp: drive_begins_def)
    moreover from this have "\<exists>before sofar prev byte. is = before @ sofar \<and> dr_sent d' = prev @ [byte] \<and>
          rx_received s0 before = map word_of_int prev \<and> rx_oe (uart_run s0 before) = rx_oe s0 \<and>
          in_flight (uart_run s0 before) byte sofar (map (\<lambda>v. v \<noteq> 0) (dr_line d' # vs))"
      using assms(2,3,6) by (intro exI [of _ "is"] exI [of _ "[]"] exI [of _ "dr_sent d"] exI [of _ byte]) simp
    ultimately show ?thesis using assms(1-3) by (simp add: drive_inv_def resumed_def)
  qed
qed

lemma in_flight_edge:
  assumes "in_flight s byte sofar (x # rest)" and "rx_quiet i" and "in_rx i = x"
  shows "in_flight s byte (sofar @ [i]) rest"
  using assms by (simp add: in_flight_def)

text \<open>An edge in the middle of a frame.\<close>

lemma sending_inv:
  assumes "drive_inv s0 is s d" and "dr_pc d = Sending (v # vs)" and "rx_quiet i" and "in_rx i = (dr_line d \<noteq> 0)"
  shows "drive_inv s0 (is @ [i]) (uart_step s i) (d\<lparr>dr_line := v, dr_pc := Sending vs\<rparr>)"
proof -
  obtain before sofar prev byte where f: "is = before @ sofar" "dr_sent d = prev @ [byte]"
    "rx_received s0 before = map word_of_int prev" "rx_oe (uart_run s0 before) = rx_oe s0"
    "in_flight (uart_run s0 before) byte sofar ((dr_line d \<noteq> 0) # map (\<lambda>v. v \<noteq> 0) (v # vs))"
    using assms(1,2) by (auto simp: drive_inv_def)
  have next_flight: "in_flight (uart_run s0 before) byte (sofar @ [i]) (map (\<lambda>v. v \<noteq> 0) (v # vs))"
    using in_flight_edge [OF f(5) assms(3,4)] .
  have s: "uart_step s i = uart_run (uart_run s0 before) (sofar @ [i])"
    using assms(1) f(1) by (simp add: drive_inv_def uart_run_append)
  have "rx_oe (uart_step s i) = rx_oe s0" using in_flight_no_overrun [OF next_flight] f(4) s by simp
  moreover have "\<exists>before' sofar' prev' byte'. is @ [i] = before' @ sofar' \<and> dr_sent d = prev' @ [byte'] \<and>
      rx_received s0 before' = map word_of_int prev' \<and> rx_oe (uart_run s0 before') = rx_oe s0 \<and>
      in_flight (uart_run s0 before') byte' sofar' (map (\<lambda>v. v \<noteq> 0) (v # vs))"
    using f next_flight by (intro exI [of _ before] exI [of _ "sofar @ [i]"] exI [of _ prev] exI [of _ byte]) simp
  moreover have "bytes_ok (d\<lparr>dr_line := v, dr_pc := Sending vs\<rparr>)"
    using assms(1,2) by (simp add: drive_inv_def bytes_ok_def)
  ultimately show ?thesis
    using s f(1) by (simp add: drive_inv_def uart_run_append)
qed

text \<open>The last edge of a frame leaves the receiver ready, with the byte received.\<close>

lemma frame_end_edge:
  assumes "drive_inv s0 is s d" and "dr_pc d = Sending []" and "rx_quiet i" and "in_rx i = (dr_line d \<noteq> 0)"
  shows "rx_ready (uart_step s i)" and "rx_oe (uart_step s i) = rx_oe s0"
    and "rx_received s0 (is @ [i]) = map word_of_int (dr_sent d)"
    and "length (rx_queue (uart_step s i)) \<le> length (rx_queue s)"
    and "dr_line d \<noteq> 0"
proof -
  obtain before sofar prev byte where f: "is = before @ sofar" "dr_sent d = prev @ [byte]"
    "rx_received s0 before = map word_of_int prev" "rx_oe (uart_run s0 before) = rx_oe s0"
    "in_flight (uart_run s0 before) byte sofar [dr_line d \<noteq> 0]"
    using assms(1,2) by (auto simp: drive_inv_def)
  have fin: "in_flight (uart_run s0 before) byte (sofar @ [i]) []"
    using in_flight_edge [OF f(5) assms(3,4)] .
  have s: "s = uart_run (uart_run s0 before) sofar" "uart_step s i = uart_run (uart_run s0 before) (sofar @ [i])"
    using assms(1) f(1) by (simp_all add: drive_inv_def uart_run_append)
  show "rx_ready (uart_step s i)" "length (rx_queue (uart_step s i)) \<le> length (rx_queue s)"
    using in_flight_end(2,4) [OF fin] s by simp_all
  show "rx_oe (uart_step s i) = rx_oe s0" using in_flight_no_overrun [OF fin] f(4) s(2) by simp
  show "rx_received s0 (is @ [i]) = map word_of_int (dr_sent d)"
    using in_flight_end(1) [OF fin] f by (simp add: rx_received_append)
  have "map in_rx sofar @ [dr_line d \<noteq> 0] =
      concat (map (\<lambda>v. replicate (16 * eff_div (uart_run s0 before)) (v \<noteq> 0)) (send_bits byte))"
    using f(5) by (simp add: in_flight_def)
  then have "(dr_line d \<noteq> 0) = last (concat (map (\<lambda>v. replicate (16 * eff_div (uart_run s0 before)) (v \<noteq> 0)) (send_bits byte)))"
    by (metis last_snoc)
  also have "\<dots>" by (simp add: send_bits_def eff_div_def)
  finally show "dr_line d \<noteq> 0" by simp
qed

context tty_bridge
begin

definition ops :: "'b bridge_ops" where
  "ops = \<lparr>br_poll = poll_fn, br_stopped = stopped, br_request_stop = request_stop\<rparr>"

lemma poll_resumed:
  assumes "shows_uart v s" and "baud_div s' = baud_div s" and "rx_ready s'" and "length (rx_queue s') \<le> length (rx_queue s)"
    and "limit \<le> 16" and "map line_ending (dr_taken d) = dr_sent d"
    and "drive_poll ops limit debug v d = Inr d'"
  shows "resumed s' d d'" and "dr_taken d' @ pending (dr_bridge d') = dr_taken d @ pending (dr_bridge d)"
proof -
  have "resumed s' d d' \<and> dr_taken d' @ pending (dr_bridge d') = dr_taken d @ pending (dr_bridge d)"
  proof (cases "stopped (dr_bridge d) \<or> pending (dr_bridge d) = []")
    case True
    with assms(6,7) poll_empty [of "dr_bridge d"] show ?thesis
      by (auto simp: drive_poll_def ops_def resumed_def drive_waits_def bytes_ok_def split: if_splits)
  next
    case False
    then obtain x xs b where p: "poll_fn (dr_bridge d) = (Some x, b)" "pending (dr_bridge d) = x # xs" "pending b = xs"
      using poll_next by (metis list.exhaust)
    define d1 where "d1 = drive_log debug (''UART input byte dequeued: 0x'' @ fmt_0x 2 x)
        (d\<lparr>dr_bridge := b, dr_taken := dr_taken d @ [x]\<rparr>)"
    have d1: "dr_taken d1 = dr_taken d @ [x]" "dr_bridge d1 = b" "dr_sent d1 = dr_sent d" "dr_line d1 = dr_line d"
      by (simp_all add: d1_def)
    show ?thesis
    proof (cases "x = TTY_EXIT_BYTE")
      case True
      then have "d' = d1\<lparr>dr_bridge := request_stop b, dr_pc := Finished\<rparr>"
        using assms(7) False p by (simp add: drive_poll_def ops_def d1_def Let_def)
      with d1 p assms(6) show ?thesis
        by (simp add: resumed_def drive_waits_def bytes_ok_def request_stop_pending)
    next
      case False
      then have "drive_hold ops limit debug v x d1 = Inr d'"
        using assms(7) \<open>\<not> (stopped (dr_bridge d) \<or> pending (dr_bridge d) = [])\<close> p
        by (simp add: drive_poll_def ops_def d1_def Let_def)
      from hold_resumed [OF assms(1-5) _ this] d1 p assms(6)
      show ?thesis by (simp add: resumed_def drive_waits_def drive_begins_def)
    qed
  qed
  then show "resumed s' d d'" "dr_taken d' @ pending (dr_bridge d') = dr_taken d @ pending (dr_bridge d)" by auto
qed

lemma edge_inv:
  assumes "drive_inv s0 is s d" and "rx_quiet i" and "in_rx i = (dr_line d \<noteq> 0)" and "shows_uart v s" and "limit \<le> 16"
    and "drive_resume ops limit debug v d = Inr d'"
  shows "drive_inv s0 (is @ [i]) (uart_step s i) d'"
    and "dr_taken d' @ pending (dr_bridge d') = dr_taken d @ pending (dr_bridge d)"
proof -
  have s: "s = uart_run s0 is" "rx_oe s = rx_oe s0" "bytes_ok d" using assms(1) unfolding drive_inv_def by blast+
  have s': "uart_step s i = uart_run s0 (is @ [i])" using s(1) by (simp add: uart_run_append)
  have bd: "baud_div (uart_step s i) = baud_div s"
    using assms(2) uart_step_baud(2) [of i s] by (simp add: rx_quiet_def)
  have idle: "rx_ready (uart_step s i) \<and> rx_oe (uart_step s i) = rx_oe s0 \<and>
      rx_received s0 (is @ [i]) = map word_of_int (dr_sent d) \<and> length (rx_queue (uart_step s i)) \<le> length (rx_queue s)"
    if "dr_line d \<noteq> 0" "rx_ready s" "rx_received s0 is = map word_of_int (dr_sent d)"
    using idle_edge [OF that(2) assms(2)] assms(3) that(1,3) s by (simp add: rx_received_append)
  have "drive_inv s0 (is @ [i]) (uart_step s i) d' \<and> dr_taken d' @ pending (dr_bridge d') = dr_taken d @ pending (dr_bridge d)"
  proof (cases "dr_pc d")
    case Polling
    with assms(1) have p: "dr_line d \<noteq> 0" "rx_ready s" "rx_received s0 is = map word_of_int (dr_sent d)"
      "map line_ending (dr_taken d) = dr_sent d" by (auto simp: drive_inv_def bytes_ok_def)
    from Polling assms(6) have "drive_poll ops limit debug v d = Inr d'" by (simp add: drive_resume_def)
    from poll_resumed [OF assms(4) bd _ _ assms(5) p(4) this] idle [OF p(1-3)] p(1) s' show ?thesis
      by (blast intro: resumed_inv)
  next
    case (Holding byte)
    with assms(1) have p: "dr_line d \<noteq> 0" "rx_ready s" "rx_received s0 is = map word_of_int (dr_sent d)"
      "map line_ending (dr_taken d) = dr_sent d @ [line_ending byte]" by (auto simp: drive_inv_def bytes_ok_def)
    from Holding assms(6) have "drive_hold ops limit debug v byte d = Inr d'" by (simp add: drive_resume_def)
    from hold_resumed [OF assms(4) bd _ _ assms(5) p(4) this] idle [OF p(1-3)] p(1) s' show ?thesis
      by (metis resumed_inv)
  next
    case (Sending vs)
    show ?thesis
    proof (cases vs)
      case Nil
      with Sending have pc: "dr_pc d = Sending []" by simp
      note fin = frame_end_edge [OF assms(1) pc assms(2,3)]
      have p: "map line_ending (dr_taken d) = dr_sent d" using s(3) pc by (simp add: bytes_ok_def)
      from pc assms(6) have "drive_poll ops limit debug v d = Inr d'" by (simp add: drive_resume_def)
      from poll_resumed [OF assms(4) bd fin(1,4) assms(5) p this] fin s' show ?thesis
        by (blast intro: resumed_inv)
    next
      case (Cons x xs)
      with Sending assms(6) have "d' = d\<lparr>dr_line := x, dr_pc := Sending xs\<rparr>" by (simp add: drive_resume_def)
      with sending_inv [OF assms(1) _ assms(2,3)] Sending Cons show ?thesis by simp
    qed
  next
    case Finished
    with assms(1) have p: "dr_line d \<noteq> 0" "rx_ready s" "rx_received s0 is = map word_of_int (dr_sent d)"
      by (auto simp: drive_inv_def)
    from Finished assms(6) have "d' = d" by (simp add: drive_resume_def)
    with idle [OF p] p(1) s(3) s' Finished show ?thesis by (simp add: drive_inv_def)
  qed
  then show "drive_inv s0 (is @ [i]) (uart_step s i) d'"
    "dr_taken d' @ pending (dr_bridge d') = dr_taken d @ pending (dr_bridge d)" by auto
qed

lemma run_inv:
  assumes "drive_run ops host limit debug (s0, d0) is hs (s, d)" and "limit \<le> 16"
    and "\<And>b new b'. host b new b' \<Longrightarrow> pending b' = pending b @ new"
    and "rx_ready s0" and "dr_pc d0 = Polling" and "dr_line d0 \<noteq> 0" and "dr_taken d0 = []" and "dr_sent d0 = []"
  shows "drive_inv s0 is s d \<and> dr_taken d @ pending (dr_bridge d) = pending (dr_bridge d0) @ hs"
  using assms(1)
proof (induction "is" hs "(s, d)" arbitrary: s d rule: drive_run.induct)
  case drive_start
  then show ?case using assms(4-8) by (simp add: drive_inv_def bytes_ok_def)
next
  case (drive_edge "is" hs s d i v new b d')
  have "drive_inv s0 is s (d\<lparr>dr_bridge := b\<rparr>)"
    using drive_edge.hyps(2) by (simp add: drive_inv_bridge)
  from edge_inv [OF this drive_edge.hyps(3) _ drive_edge.hyps(5) assms(2) drive_edge.hyps(7)]
    drive_edge.hyps(2,4) assms(3) [OF drive_edge.hyps(6)]
  show ?case by simp
qed

end

section \<open>Keystrokes reach the UART\<close>

text \<open>What the other threads may do to a bridge between two edges; a turn of either reader is of this kind.\<close>

definition pty_host :: "pty_bridge \<Rightarrow> int list \<Rightarrow> pty_bridge \<Rightarrow> bool" where
  "pty_host b new b' \<longleftrightarrow> pb_queue b' = pb_queue b @ new \<and> (pb_stop b \<longrightarrow> pb_stop b')"

definition stdin_host :: "'a stdin_bridge \<Rightarrow> int list \<Rightarrow> 'a stdin_bridge \<Rightarrow> bool" where
  "stdin_host b new b' \<longleftrightarrow> sb_queue b' = sb_queue b @ new \<and> (sb_stop b \<longrightarrow> sb_stop b')"

lemma attempt_cases:
  "attempt (call m) (w, b) =
     (case m w of (Inr x, w') \<Rightarrow> (Inr (Got x), (w', b))
      | (Inl e, w') \<Rightarrow> if is_os_error e then (Inr (Failed e), (w', b)) else (Inl e, (w', b)))"
  by (auto simp: attempt_def io_catch_def io_bind_def split: prod.splits sum.splits)

lemma pb_reader_turn_host:
  assumes "pb_reader_turn os (w, b) = (r, (w', b'))"
  shows "\<exists>new. pty_host b new b'"
  using assms
  by (auto simp: pb_reader_turn_def io_bind_def io_then_def attempt_cases pty_host_def Let_def
      split: if_splits option.splits prod.splits sum.splits attempt.splits)

lemma sb_reader_turn_host:
  assumes "sb_reader_turn os (w, b) = (r, (w', b'))"
  shows "\<exists>new. stdin_host b new b'"
  using assms
  by (auto simp: sb_reader_turn_def io_bind_def io_then_def io_catch_def stdin_host_def
      split: if_splits option.splits prod.splits sum.splits list.splits)

lemma pty_ops_eq: "pty_br.ops = pty_ops" and stdin_ops_eq: "stdin_br.ops = stdin_ops"
  by (simp_all add: pty_br.ops_def pty_ops_def stdin_br.ops_def stdin_ops_def)

lemma clamp_pending_bounds: "1 \<le> clamp_pending n" "clamp_pending n \<le> 16"
  by (simp_all add: clamp_pending_def)

lemma quiet_run: "drive_run ops host limit debug start is hs x \<Longrightarrow> list_all rx_quiet is"
  by (induction rule: drive_run.induct) simp_all

definition drive_begin :: "'b \<Rightarrow> 'b drive" where
  "drive_begin b = \<lparr>dr_bridge = b, dr_pc = Polling, dr_line = 1, dr_log = [], dr_taken = [], dr_sent = []\<rparr>"

lemma run_arrives:
  assumes "drive_inv s0 is s d" and "rx_ready s0" and "list_all rx_quiet is"
  shows "rx_oe s = rx_oe s0" and "\<exists>held. length held \<le> 1 \<and> map line_ending (dr_taken d) = dr_sent d @ held"
    and "case dr_pc d of Sending vs \<Rightarrow> True
         | _ \<Rightarrow> rbr_read s0 is @ rx_queue s = rx_queue s0 @ map word_of_int (dr_sent d)"
proof -
  have s: "s = uart_run s0 is" "bytes_ok d" using assms(1) unfolding drive_inv_def by blast+
  show "rx_oe s = rx_oe s0" using assms(1) unfolding drive_inv_def by blast
  show "\<exists>held. length held \<le> 1 \<and> map line_ending (dr_taken d) = dr_sent d @ held"
    using s(2) by (cases "dr_pc d") (auto simp: bytes_ok_def)
  have "rbr_read s0 is @ rx_queue s = rx_queue s0 @ rx_received s0 is"
    using rxf.conservation [OF _ quiet_never_cleared [OF assms(3)], of s0] assms(2) s(1)
    by (simp add: rx_ready_def rx_logs fifo_run)
  then show "case dr_pc d of Sending vs \<Rightarrow> True
         | _ \<Rightarrow> rbr_read s0 is @ rx_queue s = rx_queue s0 @ map word_of_int (dr_sent d)"
    using assms(1) by (cases "dr_pc d") (auto simp: drive_inv_def)
qed

text \<open>
  C33. The flow control of \<open>drive_bridge_to_uart\<close> is enough. However fast a user types or pastes into the
  pseudo-terminal, whatever \<open>UART_INPUT_MAX_PENDING\<close> is set to, and whenever the guest reads RBR, the
  receiver never overruns. The bytes polled followed by those in the queue are the bytes the host
  supplied; the bytes sent are the bytes polled, a line feed as a carriage return, save at most one still
  in hand; and whenever no frame is on the line, the bytes the guest has read followed by those in its
  receive FIFO are those the FIFO held at the start followed by all bytes sent.
\<close>

theorem pty_keystrokes_arrive:
  assumes "drive_run pty_ops pty_host (clamp_pending n) debug (s0, drive_begin b0) is hs (s, d)" and "rx_ready s0"
  shows "rx_oe s = rx_oe s0 \<and>
         dr_taken d @ pb_queue (dr_bridge d) = pb_queue b0 @ hs \<and>
         (\<exists>held. length held \<le> 1 \<and> map line_ending (dr_taken d) = dr_sent d @ held) \<and>
         (case dr_pc d of Sending vs \<Rightarrow> True
          | _ \<Rightarrow> rbr_read s0 is @ rx_queue s = rx_queue s0 @ map word_of_int (dr_sent d))"
proof -
  have "drive_inv s0 is s d \<and> dr_taken d @ pb_queue (dr_bridge d) = pb_queue b0 @ hs"
    using pty_br.run_inv [of pty_host "clamp_pending n" debug s0 "drive_begin b0" "is" hs s d] assms clamp_pending_bounds
    by (simp add: pty_ops_eq pty_host_def drive_begin_def)
  then show ?thesis using run_arrives [OF _ assms(2) quiet_run [OF assms(1)], of s d] by blast
qed

text \<open>The same for the bridge to the user's own terminal.\<close>

theorem stdin_keystrokes_arrive:
  assumes "drive_run stdin_ops stdin_host (clamp_pending n) debug (s0, drive_begin b0) is hs (s, d)" and "rx_ready s0"
  shows "rx_oe s = rx_oe s0 \<and>
         dr_taken d @ sb_queue (dr_bridge d) = sb_queue b0 @ hs \<and>
         (\<exists>held. length held \<le> 1 \<and> map line_ending (dr_taken d) = dr_sent d @ held) \<and>
         (case dr_pc d of Sending vs \<Rightarrow> True
          | _ \<Rightarrow> rbr_read s0 is @ rx_queue s = rx_queue s0 @ map word_of_int (dr_sent d))"
proof -
  have "drive_inv s0 is s d \<and> dr_taken d @ sb_queue (dr_bridge d) = sb_queue b0 @ hs"
    using stdin_br.run_inv [of stdin_host "clamp_pending n" debug s0 "drive_begin b0" "is" hs s d] assms clamp_pending_bounds
    by (simp add: stdin_ops_eq stdin_host_def drive_begin_def)
  then show ?thesis using run_arrives [OF _ assms(2) quiet_run [OF assms(1)], of s d] by blast
qed

definition typed_bridge :: pty_bridge where
  "typed_bridge = (new_pty_bridge [] [] [])\<lparr>pb_queue := [0x0A, 0x41]\<rparr>"

theorem pty_keystrokes_arrive_witness:
  "\<exists>s d. drive_run pty_ops pty_host (clamp_pending 1) False (power_on, drive_begin typed_bridge) [bus_idle] [0x42] (s, d) \<and>
     dr_sent d = [0x0D] \<and> rx_oe s = rx_oe power_on \<and> dr_taken d @ pb_queue (dr_bridge d) = [0x0A, 0x41, 0x42]"
proof -
  define b where "b = typed_bridge\<lparr>pb_queue := [0x0A, 0x41, 0x42]\<rparr>"
  have "case drive_resume pty_ops (clamp_pending 1) False (uart_view power_on)
        (drive_begin (typed_bridge\<lparr>pb_queue := [0x0A, 0x41, 0x42]\<rparr>)) of
      Inl e \<Rightarrow> False | Inr d \<Rightarrow> dr_sent d = [0x0D]" and ready: "rx_ready power_on" by code_simp+
  then obtain d where d: "drive_resume pty_ops (clamp_pending 1) False (uart_view power_on)
      ((drive_begin typed_bridge)\<lparr>dr_bridge := b\<rparr>) = Inr d" "dr_sent d = [0x0D]"
    by (auto simp: drive_begin_def b_def split: sum.splits)
  have "drive_run pty_ops pty_host (clamp_pending 1) False (power_on, drive_begin typed_bridge) ([] @ [bus_idle]) ([] @ [0x42])
      (uart_step power_on bus_idle, d)"
    by (rule drive_edge [OF drive_start _ _ shows_uart_view _ d(1)])
      (simp_all add: rx_quiet_def wr_def bus_idle_def drive_begin_def pty_host_def b_def typed_bridge_def new_pty_bridge_def)
  then have run: "drive_run pty_ops pty_host (clamp_pending 1) False (power_on, drive_begin typed_bridge) [bus_idle] [0x42]
      (uart_step power_on bus_idle, d)" by simp
  from pty_keystrokes_arrive [OF this ready] run d(2) show ?thesis by (auto simp: typed_bridge_def)
qed

end
