(* ===== verification/Boot_Linux.thy ===== *)
theory Boot_Linux
  imports Boot_OpenSBI Tty_Bridges
begin

text \<open>
  The Linux boot test of \<open>sim/linux_tty.py\<close>: its constants, the check of the UART divisor against the
  device tree \<open>sim/synapse32.dts\<close>, and \<open>boot_linux\<close> with its set-up, its loop and its clean-up. The loop
  of an interactive session runs until the user leaves, so the model takes the number of clock edges
  simulated; \<open>None\<close> is a test that is still running then.
\<close>

section \<open>Constants\<close>

definition LINUX_BOOT_BANNER :: string where "LINUX_BOOT_BANNER = ''Synapse32 Linux userspace is up.''"
definition LINUX_UNAME_PREFIX :: string where "LINUX_UNAME_PREFIX = ''uname: Linux''"
definition STUCK_DEBUG_START_CYCLES :: nat where "STUCK_DEBUG_START_CYCLES = 5000000"
definition STUCK_DEBUG_INTERVAL_CYCLES :: nat where "STUCK_DEBUG_INTERVAL_CYCLES = 5000000"

record linux_config =
  boot_cfg :: boot_config
  INTERACTIVE_TTY :: bool
  UART_PTY_LINK :: string
  UART_PTY_ENABLE :: bool
  UART_PTY_BUFFER_LIMIT :: int
  UART_PTY_WAIT_FOR_ATTACH :: bool
  UART_PTY_TRANSCRIPT :: string
  UART_PTY_RX_TRANSCRIPT :: string
  UART_INPUT_MAX_PENDING :: int

definition load_linux_config :: "(string \<Rightarrow> string option) \<Rightarrow> linux_config py" where
  "load_linux_config env =
     py_bind (load_config env) (\<lambda>cfg.
     py_bind (py_int 10 (getenv env ''UART_PTY_BUFFER_LIMIT'' ''65536'')) (\<lambda>limit.
     py_bind (py_int 10 (getenv env ''UART_INPUT_MAX_PENDING'' ''1'')) (\<lambda>pending.
       let link = getenv env ''UART_PTY_LINK'' [] in
       Inr \<lparr>boot_cfg = cfg, INTERACTIVE_TTY = (getenv env ''INTERACTIVE_TTY'' ''0'' = ''1''), UART_PTY_LINK = link,
            UART_PTY_ENABLE = (getenv env ''UART_PTY'' ''0'' = ''1'' \<or> link \<noteq> []), UART_PTY_BUFFER_LIMIT = limit,
            UART_PTY_WAIT_FOR_ATTACH = (getenv env ''UART_PTY_WAIT_FOR_ATTACH'' ''1'' = ''1''),
            UART_PTY_TRANSCRIPT = getenv env ''UART_PTY_TRANSCRIPT'' [],
            UART_PTY_RX_TRANSCRIPT = getenv env ''UART_PTY_RX_TRANSCRIPT'' [],
            UART_INPUT_MAX_PENDING = min 16 (max 1 pending)\<rparr>)))"

section \<open>The divisor and the device tree\<close>

text \<open>
  The searches of regular expressions: a literal prefix, the leftmost position at which a matcher
  succeeds, the node \<open>uart@20000000\s*\{(.*?)\};\<close> and a property \<open>name = <(\d+)>\<close>.
\<close>

fun after_prefix :: "string \<Rightarrow> string \<Rightarrow> string option" where
  "after_prefix [] s = Some s"
| "after_prefix (p # ps) [] = None"
| "after_prefix (p # ps) (c # s) = (if p = c then after_prefix ps s else None)"

fun re_search :: "(string \<Rightarrow> 'a option) \<Rightarrow> string \<Rightarrow> 'a option" where
  "re_search m [] = m []"
| "re_search m (c # s) = (case m (c # s) of Some g \<Rightarrow> Some g | None \<Rightarrow> re_search m s)"

fun until_close :: "string \<Rightarrow> string option" where
  "until_close [] = None"
| "until_close (c # s) =
     (if c = CHR ''}'' \<and> s \<noteq> [] \<and> hd s = CHR '';'' then Some [] else map_option (Cons c) (until_close s))"

definition match_uart_node :: "string \<Rightarrow> string option" where
  "match_uart_node s =
     (case after_prefix ''uart@20000000'' s of None \<Rightarrow> None
      | Some r \<Rightarrow> (case dropWhile is_space r of [] \<Rightarrow> None | c # q \<Rightarrow> if c = CHR ''{'' then until_close q else None))"

definition match_property :: "string \<Rightarrow> string \<Rightarrow> string option" where
  "match_property name s =
     (case after_prefix (name @ '' = <'') s of None \<Rightarrow> None
      | Some r \<Rightarrow>
          (let digits = takeWhile is_digit r; rest = dropWhile is_digit r
           in if digits \<noteq> [] \<and> rest \<noteq> [] \<and> hd rest = CHR ''>'' then Some digits else None))"

definition node_int :: "string \<Rightarrow> string \<Rightarrow> int py" where
  "node_int name node =
     (case re_search (match_property name) node of None \<Rightarrow> Inl AttributeError | Some digits \<Rightarrow> py_int 10 digits)"

definition assert_uart_divisor :: "string \<Rightarrow> string \<Rightarrow> dut \<Rightarrow> unit py" where
  "assert_uart_divisor device_tree_path device_tree dut =
     (case re_search match_uart_node device_tree of
        None \<Rightarrow> Inl (AssertionError (''no uart node in '' @ device_tree_path))
      | Some node \<Rightarrow>
          py_bind (node_int ''clock-frequency'' node) (\<lambda>clock.
          py_bind (node_int ''current-speed'' node) (\<lambda>speed.
          py_bind (dut_int dut ''uart_inst.baud_div'') (\<lambda>divisor.
            if 16 * divisor * speed = clock then Inr ()
            else Inl (AssertionError (''UART divisor '' @ fmt_d divisor @ '' gives '' @
              fmt_d (clock div (16 * max divisor 1)) @ '' baud, the device tree says '' @ fmt_d speed @
              '' at '' @ fmt_d clock @ '' Hz''))))))"

text \<open>The device tree of the repository, each line with its indentation in tabs.\<close>

definition device_tree_lines :: "(nat \<times> string) list" where
  \<open>device_tree_lines =
    [
     (0, ''/dts-v1/;''),
     (0, ''''),
     (0, ''/ {''),
     (1, ''#address-cells = <1>;''),
     (1, ''#size-cells = <1>;''),
     (1, ''compatible = "synapse32";''),
     (0, ''''),
     (1, ''chosen {''),
     (2, ''stdout-path = &uart0;''),
     (2, ''bootargs = "console=ttyS0,3125000 earlycon=uart8250,mmio32,0x20000000 loglevel=8 rdinit=/init cpuidle.off=1";''),
     (1, ''};''),
     (0, ''''),
     (1, ''cpus {''),
     (2, ''#address-cells = <1>;''),
     (2, ''#size-cells = <0>;''),
     (2, ''timebase-frequency = <50000000>;''),
     (0, ''''),
     (2, ''cpu0: cpu@0 {''),
     (3, ''compatible = "riscv";''),
     (3, ''device_type = "cpu";''),
     (3, ''reg = <0>;''),
     (3, ''riscv,isa = "rv32imasu";''),
     (3, ''mmu-type = "riscv,sv32";''),
     (3, ''status = "okay";''),
     (0, ''''),
     (3, ''cpu0_intc: interrupt-controller {''),
     (4, ''compatible = "riscv,cpu-intc";''),
     (4, ''interrupt-controller;''),
     (4, ''#interrupt-cells = <1>;''),
     (3, ''};''),
     (2, ''};''),
     (1, ''};''),
     (0, ''''),
     (1, ''/*''),
     (1, '' * 64MB unified RAM, matching INSTR_MEM_SIZE in''),
     (1, '' * rtl/include/memory_map.vh: OpenSBI at the base, kernel at +2MB''),
     (1, '' * (FW_JUMP_ADDR = 0x80200000 in build_opensbi.sh).''),
     (1, '' */''),
     (1, ''memory@80000000 {''),
     (2, ''device_type = "memory";''),
     (2, ''reg = <0x80000000 0x04000000>;''),
     (1, ''};''),
     (0, ''''),
     (1, ''/*''),
     (1, '' * CLINT: msip at 0x02000000, mtimecmp at 0x02004000, mtime at 0x0200BFF8.''),
     (1, '' */''),
     (1, ''clint@2000000 {''),
     (2, ''compatible = "riscv,clint0";''),
     (2, ''reg = <0x02000000 0x00010000>;''),
     (2, ''interrupts-extended = <&cpu0_intc 3 &cpu0_intc 7>;''),
     (1, ''};''),
     (0, ''''),
     (1, ''plic: interrupt-controller@c000000 {''),
     (2, ''compatible = "sifive,plic-1.0.0";''),
     (2, ''reg = <0x0c000000 0x00400000>;''),
     (2, ''#address-cells = <0>;''),
     (2, ''interrupt-controller;''),
     (2, ''#interrupt-cells = <1>;''),
     (2, ''interrupts-extended = <&cpu0_intc 11 &cpu0_intc 9>;''),
     (2, ''riscv,ndev = <2>;''),
     (1, ''};''),
     (0, ''''),
     (1, ''uart0: uart@20000000 {''),
     (2, ''compatible = "ns16550a";''),
     (2, ''reg = <0x20000000 0x00001000>;''),
     (2, ''clock-frequency = <50000000>;''),
     (2, ''current-speed = <3125000>;''),
     (2, ''interrupt-parent = <&plic>;''),
     (2, ''interrupts = <1>;''),
     (2, ''reg-shift = <2>;''),
     (2, ''reg-io-width = <4>;''),
     (2, ''no-loopback-test;''),
     (1, ''};''),
     (0, ''};'')
    ]\<close>

definition dts_text :: "(nat \<times> string) list \<Rightarrow> string" where
  "dts_text ls = concat (map (\<lambda>(tabs, line). replicate tabs (CHR 0x09) @ line @ [LF]) ls)"

definition device_tree :: string where
  "device_tree = dts_text device_tree_lines"

text \<open>
  The local variables of \<open>boot_linux\<close>, what it has logged and printed, the world of the operating
  system and the two bridges, of which at most one exists.
\<close>

record ('w, 'a) linux_test =
  lx_console :: uart_console
  lx_last_uart_cycle :: "nat option"
  lx_last_pc :: "int option"
  lx_last_pc_change_cycle :: nat
  lx_saw_banner :: bool
  lx_saw_uname :: bool
  lx_next_stuck_debug_cycle :: "nat option"
  lx_logged :: "string list"
  lx_printed :: "string list"
  lx_world :: 'w
  lx_stdin_bridge :: "'a stdin_bridge option"
  lx_pty_bridge :: "pty_bridge option"

definition interactive_mode :: "linux_config \<Rightarrow> bool" where
  "interactive_mode cfg \<longleftrightarrow> INTERACTIVE_TTY cfg \<or> UART_PTY_ENABLE cfg"

definition linux_start :: "linux_config \<Rightarrow> 'w \<Rightarrow> ('w, 'a) linux_test" where
  "linux_start cfg w =
     \<lparr>lx_console = new_console (\<not> UART_PTY_ENABLE cfg), lx_last_uart_cycle = None, lx_last_pc = None,
      lx_last_pc_change_cycle = 0, lx_saw_banner = False, lx_saw_uname = False, lx_next_stuck_debug_cycle = None,
      lx_logged = [''Booting Linux with clock='' @ fmt_d (CLOCK_PERIOD_NS (boot_cfg cfg)) @ ''ns, boot-timeout='' @
        fmt_d (BOOT_TIMEOUT_CYCLES (boot_cfg cfg)) @ '' cycles, idle-timeout='' @
        fmt_d (UART_IDLE_CYCLES (boot_cfg cfg)) @ '' cycles''],
      lx_printed = [[LF] @ ''=== Linux UART ==='' @ [LF]] @
        (if INTERACTIVE_TTY cfg then [''Interactive UART session. Press Ctrl-] to exit.'' @ [LF]]
         else if UART_PTY_ENABLE cfg then [''PTY-backed UART session.'' @ [LF]] else []),
      lx_world = w, lx_stdin_bridge = None, lx_pty_bridge = None\<rparr>"

text \<open>Reads and assignments of the local variables, and calls of a bridge's methods.\<close>

definition lx_get :: "(('w, 'a) linux_test \<Rightarrow> 'x) \<Rightarrow> (('w, 'a) linux_test, 'x) io" where
  "lx_get f s = (Inr (f s), s)"

definition lx_set :: "(('w, 'a) linux_test \<Rightarrow> ('w, 'a) linux_test) \<Rightarrow> (('w, 'a) linux_test, unit) io" where
  "lx_set f s = (Inr (), f s)"

definition lx_log :: "string list \<Rightarrow> (('w, 'a) linux_test, unit) io" where
  "lx_log lines = lx_set (\<lambda>s. s\<lparr>lx_logged := lx_logged s @ lines\<rparr>)"

definition lx_print :: "string list \<Rightarrow> (('w, 'a) linux_test, unit) io" where
  "lx_print lines = lx_set (\<lambda>s. s\<lparr>lx_printed := lx_printed s @ lines\<rparr>)"

definition on_stdin :: "('w \<times> 'a stdin_bridge, 'x) io \<Rightarrow> 'x \<Rightarrow> (('w, 'a) linux_test, 'x) io" where
  "on_stdin m absent s =
     (case lx_stdin_bridge s of None \<Rightarrow> (Inr absent, s)
      | Some b \<Rightarrow> (case m (lx_world s, b) of (r, (w, b')) \<Rightarrow> (r, s\<lparr>lx_world := w, lx_stdin_bridge := Some b'\<rparr>)))"

definition on_pty :: "('w \<times> pty_bridge, 'x) io \<Rightarrow> 'x \<Rightarrow> (('w, 'a) linux_test, 'x) io" where
  "on_pty m absent s =
     (case lx_pty_bridge s of None \<Rightarrow> (Inr absent, s)
      | Some b \<Rightarrow> (case m (lx_world s, b) of (r, (w, b')) \<Rightarrow> (r, s\<lparr>lx_world := w, lx_pty_bridge := Some b'\<rparr>)))"

section \<open>Set-up\<close>

text \<open>\<open>deque(maxlen=n)\<close> of the constructor of \<open>PtyBridge\<close> refuses a negative bound.\<close>

definition PtyBridge :: "linux_config \<Rightarrow> pty_bridge py" where
  "PtyBridge cfg =
     (if UART_PTY_BUFFER_LIMIT cfg < 0 then Inl (ValueError ''maxlen must be non-negative'')
      else Inr (new_pty_bridge (UART_PTY_LINK cfg) (UART_PTY_TRANSCRIPT cfg) (UART_PTY_RX_TRANSCRIPT cfg)))"

definition pty_announcement :: "linux_config \<Rightarrow> pty_bridge \<Rightarrow> string list" where
  "pty_announcement cfg b =
     [''UART PTY slave: '' @ (case pb_slave_path b of None \<Rightarrow> ''None'' | Some p \<Rightarrow> p)] @
     (if pb_link_path b \<noteq> [] then [''UART PTY link:  '' @ pb_link_path b] else []) @
     (if pb_transcript_path b \<noteq> [] then [''UART log file:  '' @ pb_transcript_path b] else []) @
     (if pb_rx_transcript_path b \<noteq> [] then [''UART input log: '' @ pb_rx_transcript_path b] else []) @
     [''Attach with: picocom -q -b 115200 <path>''] @
     [if UART_PTY_WAIT_FOR_ATTACH cfg then ''Press Enter in the serial client to start boot.'' @ [LF] else []]"

text \<open>
  The wait for a client; \<open>acts\<close> is what the reader thread does between the polls. False is a wait that
  has not ended.
\<close>

definition linux_attach ::
  "linux_config \<Rightarrow> (pty_bridge \<Rightarrow> pty_bridge) list \<Rightarrow> (('w, 'a) linux_test, bool) io" where
  "linux_attach cfg acts =
     (if \<not> UART_PTY_WAIT_FOR_ATTACH cfg then io_return True
      else io_bind (lx_get lx_pty_bridge) (\<lambda>p.
        case p of None \<Rightarrow> io_return True
        | Some b \<Rightarrow>
            (case wait_for_attach_byte acts b of
               None \<Rightarrow> io_return False
             | Some (attach_byte, b') \<Rightarrow>
                 io_then (lx_set (\<lambda>s. s\<lparr>lx_pty_bridge := Some b'\<rparr>))
                 (if attach_byte = None
                  then io_raise (AssertionError ''PTY attach wait ended before a client connected'')
                  else io_return True))))"

definition linux_setup ::
  "linux_config \<Rightarrow> ('w, 'a) sys \<Rightarrow> (pty_bridge \<Rightarrow> pty_bridge) list \<Rightarrow> (('w, 'a) linux_test, bool) io" where
  "linux_setup cfg os acts =
     (if INTERACTIVE_TTY cfg then
        io_then (lx_set (\<lambda>s. s\<lparr>lx_stdin_bridge := Some new_stdin_bridge\<rparr>))
        (io_bind (on_stdin (sb_start os) False) (\<lambda>started.
           if started then io_return True
           else io_then (lx_log [''stdin is not a TTY; interactive UART input is disabled'']) (io_return True)))
      else if UART_PTY_ENABLE cfg then
        io_bind (io_py (PtyBridge cfg)) (\<lambda>b.
        io_then (lx_set (\<lambda>s. s\<lparr>lx_pty_bridge := Some b\<rparr>))
        (io_then (on_pty (pb_start os) False)
        (io_bind (lx_get lx_pty_bridge) (\<lambda>p.
        io_then (lx_print (case p of None \<Rightarrow> [] | Some b \<Rightarrow> pty_announcement cfg b))
          (linux_attach cfg acts)))))
      else io_return True)"

section \<open>A turn of the loop\<close>

definition fmt_bool :: "bool \<Rightarrow> string" where
  "fmt_bool b = (if b then ''True'' else ''False'')"

datatype turn = Go_on | Leave | Broke

definition linux_next_byte :: "(nat \<Rightarrow> dut) \<Rightarrow> nat \<Rightarrow> (('w, 'a) linux_test, int option) io" where
  "linux_next_byte duts cycle =
     io_bind (lx_get lx_console) (\<lambda>con.
     io_bind (io_py (next_byte duts cycle con)) (\<lambda>(emitted, con').
     io_then (lx_set (\<lambda>s. s\<lparr>lx_console := con'\<rparr>)) (io_return emitted)))"

definition note_pc :: "nat \<Rightarrow> int \<Rightarrow> ('w, 'a) linux_test \<Rightarrow> ('w, 'a) linux_test" where
  "note_pc cycle current_pc s =
     (if lx_last_pc s = None \<or> Some current_pc \<noteq> lx_last_pc s
      then s\<lparr>lx_last_pc := Some current_pc, lx_last_pc_change_cycle := cycle\<rparr> else s)"

definition note_uart :: "nat \<Rightarrow> ('w, 'a) linux_test \<Rightarrow> ('w, 'a) linux_test" where
  "note_uart cycle s =
     (let decoded_uart = decode_latin1 (received (lx_console s))
      in s\<lparr>lx_last_uart_cycle := Some cycle,
           lx_next_stuck_debug_cycle := Some (cycle + STUCK_DEBUG_START_CYCLES),
           lx_saw_banner := (lx_saw_banner s \<or> is_infix_of LINUX_BOOT_BANNER decoded_uart),
           lx_saw_uname := (lx_saw_uname s \<or> is_infix_of LINUX_UNAME_PREFIX decoded_uart)\<rparr>)"

definition linux_forward ::
  "linux_config \<Rightarrow> ('w, 'a) sys \<Rightarrow> nat \<Rightarrow> int option \<Rightarrow> (('w, 'a) linux_test, unit) io" where
  "linux_forward cfg os cycle emitted =
     (case emitted of
        Some byte \<Rightarrow>
          io_then (lx_set (note_uart cycle))
            (on_pty (write_byte os (nat (UART_PTY_BUFFER_LIMIT cfg)) byte) ())
      | None \<Rightarrow> on_pty (flush_backlog os) ())"

definition linux_dump :: "linux_config \<Rightarrow> dut \<Rightarrow> nat \<Rightarrow> bool \<Rightarrow> (('w, 'a) linux_test, unit) io" where
  "linux_dump cfg dut cycle force =
     io_bind (io_py (dump_status (boot_cfg cfg) dut cycle force)) (\<lambda>lines. lx_log lines)"

definition progress_text :: "('w, 'a) linux_test \<Rightarrow> string" where
  "progress_text s =
     ''(banner='' @ fmt_bool (lx_saw_banner s) @ '', uname='' @ fmt_bool (lx_saw_uname s) @
     '', bytes='' @ fmt_d (int (length (received (lx_console s))))"

definition linux_success ::
  "linux_config \<Rightarrow> string \<Rightarrow> string \<Rightarrow> dut \<Rightarrow> nat \<Rightarrow> (('w, 'a) linux_test, turn) io" where
  "linux_success cfg dtpath dtree dut cycle =
     io_then (lx_print [[LF, LF] @ ''=== Linux boot banner observed ==='' ])
     (io_bind (lx_get (\<lambda>s. length (received (lx_console s)))) (\<lambda>n.
     io_then (lx_log [''Captured '' @ fmt_d (int n) @ '' UART bytes''])
     (io_then (linux_dump cfg dut cycle False)
     (io_then (io_py (assert_uart_divisor dtpath dtree dut)) (io_return Leave)))))"

text \<open>The UART and the program counter have both been silent for \<open>UART_IDLE_CYCLES\<close>.\<close>

definition linux_idle :: "linux_config \<Rightarrow> nat \<Rightarrow> ('w, 'a) linux_test \<Rightarrow> bool" where
  "linux_idle cfg cycle s \<longleftrightarrow>
     (case lx_last_uart_cycle s of None \<Rightarrow> False
      | Some l \<Rightarrow> UART_IDLE_CYCLES (boot_cfg cfg) \<le> int cycle - int l \<and>
                  UART_IDLE_CYCLES (boot_cfg cfg) \<le> int cycle - int (lx_last_pc_change_cycle s))"

definition linux_stuck :: "linux_config \<Rightarrow> dut \<Rightarrow> nat \<Rightarrow> (('w, 'a) linux_test, unit) io" where
  "linux_stuck cfg dut cycle =
     io_bind (lx_get id) (\<lambda>s.
       case (lx_last_uart_cycle s, lx_next_stuck_debug_cycle s) of
         (Some l, Some n) \<Rightarrow>
           if n \<le> cycle then
             io_then (lx_log [''Linux boot appears stuck: no UART for '' @ fmt_d (int cycle - int l) @ '' cycles (bytes='' @
               fmt_d (int (length (received (lx_console s)))) @ '', banner='' @ fmt_bool (lx_saw_banner s) @
               '', uname='' @ fmt_bool (lx_saw_uname s) @ '')''])
             (io_then (linux_dump cfg dut cycle True)
               (lx_set (\<lambda>s. s\<lparr>lx_next_stuck_debug_cycle := Some (n + STUCK_DEBUG_INTERVAL_CYCLES)\<rparr>)))
           else io_return ()
       | _ \<Rightarrow> io_return ())"

definition linux_status :: "linux_config \<Rightarrow> dut \<Rightarrow> nat \<Rightarrow> (('w, 'a) linux_test, unit) io" where
  "linux_status cfg dut cycle =
     (if cycle = 0 then io_return ()
      else io_bind (io_py (py_mod (int cycle) (STATUS_INTERVAL_CYCLES (boot_cfg cfg)))) (\<lambda>r.
        io_when (r = 0) (linux_dump cfg dut cycle False)))"

definition linux_turn ::
  "linux_config \<Rightarrow> ('w, 'a) sys \<Rightarrow> string \<Rightarrow> string \<Rightarrow> (nat \<Rightarrow> dut) \<Rightarrow> nat \<Rightarrow> (('w, 'a) linux_test, turn) io" where
  "linux_turn cfg os dtpath dtree duts cycle =
     io_bind (linux_next_byte duts cycle) (\<lambda>emitted.
     io_bind (io_py (dut_int (duts cycle) ''pc_debug'')) (\<lambda>current_pc.
     io_then (lx_set (note_pc cycle current_pc))
     (io_then (linux_forward cfg os cycle emitted)
     (io_bind (lx_get id) (\<lambda>s.
       if lx_saw_banner s \<and> lx_saw_uname s \<and> \<not> interactive_mode cfg
       then linux_success cfg dtpath dtree (duts cycle) cycle
       else if INTERACTIVE_TTY cfg \<and> (case lx_stdin_bridge s of None \<Rightarrow> False | Some b \<Rightarrow> sb_stop b)
       then io_then (lx_log [''Interactive UART session closed after '' @ fmt_d (int cycle) @ '' cycles'']) (io_return Leave)
       else if UART_PTY_ENABLE cfg \<and> (case lx_pty_bridge s of None \<Rightarrow> False | Some b \<Rightarrow> pb_stop b)
       then io_then (lx_log [''PTY UART session closed after '' @ fmt_d (int cycle) @ '' cycles'']) (io_return Leave)
       else if \<not> interactive_mode cfg \<and> linux_idle cfg cycle s
       then io_raise (AssertionError (''Linux UART and PC both went idle before the expected boot banner appeared '' @
              progress_text s @ '', pc=0x'' @ fmt_0x 8 current_pc @ '')''))
       else io_then (linux_stuck cfg (duts cycle) cycle)
            (io_then (linux_status cfg (duts cycle) cycle)
            (io_return (if \<not> interactive_mode cfg \<and> BOOT_TIMEOUT_CYCLES (boot_cfg cfg) \<le> int (Suc cycle)
                        then Broke else Go_on))))))))"

section \<open>The test\<close>

text \<open>
  Before a turn, the reader thread and the driving coroutine act on the world and the bridges: \<open>others\<close>
  says how at each edge.
\<close>

type_synonym ('w, 'a) others = "nat \<Rightarrow> 'w \<times> 'a stdin_bridge option \<times> pty_bridge option \<Rightarrow> 'w \<times> 'a stdin_bridge option \<times> pty_bridge option"

definition linux_others :: "('w, 'a) others \<Rightarrow> nat \<Rightarrow> ('w, 'a) linux_test \<Rightarrow> ('w, 'a) linux_test" where
  "linux_others others cycle s =
     (case others cycle (lx_world s, lx_stdin_bridge s, lx_pty_bridge s) of
        (w, sb, pb) \<Rightarrow> s\<lparr>lx_world := w, lx_stdin_bridge := sb, lx_pty_bridge := pb\<rparr>)"

fun linux_loop ::
  "(nat \<Rightarrow> (('w, 'a) linux_test, turn) io) \<Rightarrow> ('w, 'a) others \<Rightarrow> nat \<Rightarrow> nat \<Rightarrow> ('w, 'a) linux_test \<Rightarrow>
   (turn py \<times> nat \<times> ('w, 'a) linux_test) option" where
  "linux_loop turn_fn others 0 cycle s = None"
| "linux_loop turn_fn others (Suc fuel) cycle s =
     (case turn_fn cycle (linux_others others cycle s) of
        (Inr Go_on, s') \<Rightarrow> linux_loop turn_fn others fuel (Suc cycle) s'
      | (r, s') \<Rightarrow> Some (r, cycle, s'))"

definition linux_timeout :: "linux_config \<Rightarrow> dut \<Rightarrow> (('w, 'a) linux_test, unit) io" where
  "linux_timeout cfg dut =
     io_bind (lx_get id) (\<lambda>s.
     io_bind (io_py (dut_int dut ''pc_debug'')) (\<lambda>pc.
       io_raise (AssertionError
         (if lx_last_uart_cycle s = None
          then ''No UART output after '' @ fmt_d (BOOT_TIMEOUT_CYCLES (boot_cfg cfg)) @ '' cycles (pc=0x'' @ fmt_0x 8 pc @ '')''
          else ''Timed out waiting for Linux boot banner '' @ progress_text s @ '', pc=0x'' @ fmt_0x 8 pc @ '')''))))"

definition linux_try ::
  "linux_config \<Rightarrow> ('w, 'a) sys \<Rightarrow> string \<Rightarrow> string \<Rightarrow> (pty_bridge \<Rightarrow> pty_bridge) list \<Rightarrow> ('w, 'a) others \<Rightarrow>
   (nat \<Rightarrow> dut) \<Rightarrow> nat \<Rightarrow> ('w, 'a) linux_test \<Rightarrow> (unit py \<times> ('w, 'a) linux_test) option" where
  "linux_try cfg os dtpath dtree acts others duts fuel s =
     (case linux_setup cfg os acts s of
        (Inl e, s') \<Rightarrow> Some (Inl e, s')
      | (Inr False, s') \<Rightarrow> None
      | (Inr True, s') \<Rightarrow>
          (case linux_loop (linux_turn cfg os dtpath dtree duts) others fuel 0 s' of
             None \<Rightarrow> None
           | Some (Inl e, c, s'') \<Rightarrow> Some (Inl e, s'')
           | Some (Inr t, c, s'') \<Rightarrow> Some (if t = Broke then linux_timeout cfg (duts c) s'' else (Inr (), s''))))"

definition linux_close :: "('w, 'a) sys \<Rightarrow> (('w, 'a) linux_test, unit) io" where
  "linux_close os = io_then (on_stdin (sb_close os) ()) (on_pty (pb_close os) ())"

text \<open>An exception of the clean-up replaces the outcome of the body.\<close>

definition boot_linux ::
  "linux_config \<Rightarrow> ('w, 'a) sys \<Rightarrow> string \<Rightarrow> string \<Rightarrow> (pty_bridge \<Rightarrow> pty_bridge) list \<Rightarrow> ('w, 'a) others \<Rightarrow>
   (nat \<Rightarrow> dut) \<Rightarrow> nat \<Rightarrow> 'w \<Rightarrow> (unit py \<times> ('w, 'a) linux_test) option" where
  "boot_linux cfg os dtpath dtree acts others duts fuel w =
     (case linux_try cfg os dtpath dtree acts others duts fuel (linux_start cfg w) of
        None \<Rightarrow> None
      | Some (r, s) \<Rightarrow>
          Some (case linux_close os s of (Inl e, s') \<Rightarrow> (Inl e, s') | (Inr _, s') \<Rightarrow> (r, s')))"

section \<open>The divisor the device tree asks for\<close>

text \<open>
  A literal without a line feed that is found at no position of a line is found nowhere before the
  next line, so a search goes on there.
\<close>

fun line_misses :: "string \<Rightarrow> string \<Rightarrow> bool" where
  "line_misses p [] = (after_prefix p [LF] = None)"
| "line_misses p (c # s) = (after_prefix p (c # s @ [LF]) = None \<and> line_misses p s)"

lemma after_prefix_beyond:
  assumes "LF \<notin> set p" and "after_prefix p (t @ [LF]) = None"
  shows "after_prefix p (t @ LF # r) = None"
  using assms by (induction p t rule: after_prefix.induct) (auto split: if_splits)

lemma re_search_line:
  assumes "LF \<notin> set p" and "\<And>s. after_prefix p s = None \<Longrightarrow> m s = None" and "line_misses p line"
  shows "re_search m (line @ LF # r) = re_search m r"
  using assms(3)
proof (induction line)
  case Nil
  then show ?case using assms(1,2) after_prefix_beyond [of p "[]" r] by simp
next
  case (Cons c line)
  then show ?case using assms(1,2) after_prefix_beyond [of p "c # line" r] by simp
qed

lemma re_search_dts:
  assumes "LF \<notin> set p" and "\<And>s. after_prefix p s = None \<Longrightarrow> m s = None"
    and "list_all (\<lambda>(tabs, line). line_misses p (replicate tabs (CHR 0x09) @ line)) ls"
  shows "re_search m (dts_text (ls @ ls')) = re_search m (dts_text ls')"
  using assms(3)
proof (induction ls)
  case (Cons l ls)
  obtain tabs line where l: "l = (tabs, line)" by fastforce
  with Cons re_search_line [where line = "replicate tabs (CHR 0x09) @ line" and r = "dts_text (ls @ ls')", OF assms(1,2)]
  show ?case by (simp add: dts_text_def)
qed simp

lemma device_tree_misses:
  "list_all (\<lambda>(tabs, line). line_misses ''uart@20000000'' (replicate tabs (CHR 0x09) @ line)) (take 61 device_tree_lines)"
  by code_simp

lemma device_tree_search: "re_search match_uart_node device_tree = re_search match_uart_node (dts_text (drop 61 device_tree_lines))"
proof -
  have "LF \<notin> set ''uart@20000000''" by code_simp
  then show ?thesis
    unfolding device_tree_def
    using re_search_dts [OF _ _ device_tree_misses, of match_uart_node "drop 61 device_tree_lines"]
    by (simp add: match_uart_node_def)
qed

lemma device_tree_node:
  "\<exists>node. re_search match_uart_node device_tree = Some node \<and> node_int ''clock-frequency'' node = Inr 50000000 \<and>
     node_int ''current-speed'' node = Inr 3125000"
proof -
  have "case re_search match_uart_node (dts_text (drop 61 device_tree_lines)) of None \<Rightarrow> False
    | Some node \<Rightarrow> node_int ''clock-frequency'' node = Inr 50000000 \<and> node_int ''current-speed'' node = Inr 3125000"
    by code_simp
  then show ?thesis by (auto simp: device_tree_search split: option.splits)
qed

lemma divisor_result:
  "\<exists>m. \<forall>dut. assert_uart_divisor dtpath device_tree dut =
    py_bind (dut_int dut ''uart_inst.baud_div'') (\<lambda>d. if d = 1 then Inr () else Inl (AssertionError (m d)))"
proof -
  obtain node where node: "re_search match_uart_node device_tree = Some node"
    "node_int ''clock-frequency'' node = Inr 50000000" "node_int ''current-speed'' node = Inr 3125000"
    using device_tree_node by blast
  have d1: "16 * d * 3125000 = (50000000 :: int) \<longleftrightarrow> d = 1" for d by auto
  show ?thesis
    unfolding assert_uart_divisor_def node option.case py_bind_simps d1 by (rule exI, rule allI, rule refl)
qed

text \<open>
  On the device tree of the repository the check of the UART divisor passes exactly when the design
  shows a divisor of 1: 3125000 baud of a 50 MHz clock. A divisor it can read and that is another number
  is reported as an \<open>AssertionError\<close>, including 0.
\<close>

theorem uart_divisor_check:
  "(assert_uart_divisor dtpath device_tree dut = Inr () \<longleftrightarrow> dut ''uart_inst.baud_div'' = Value 1) \<and>
   (case dut ''uart_inst.baud_div'' of Value d \<Rightarrow> d = 1 \<or> (\<exists>m. assert_uart_divisor dtpath device_tree dut = Inl (AssertionError m))
    | _ \<Rightarrow> \<exists>e. assert_uart_divisor dtpath device_tree dut = Inl e)"
proof -
  obtain m where "assert_uart_divisor dtpath device_tree dut =
      py_bind (dut_int dut ''uart_inst.baud_div'') (\<lambda>d. if d = 1 then Inr () else Inl (AssertionError (m d)))"
    using divisor_result [of dtpath] by blast
  then show ?thesis
    by (cases "dut ''uart_inst.baud_div''") (auto simp: dut_int_def get_handle_def int_value_def)
qed

section \<open>What the loop keeps\<close>

text \<open>
  The reader threads and the driving coroutine only add to the queue of a bridge, take from it and stop
  it.
\<close>

definition sb_same :: "'a stdin_bridge \<Rightarrow> 'a stdin_bridge \<Rightarrow> bool" where
  "sb_same b b' \<longleftrightarrow> b' = b\<lparr>sb_queue := sb_queue b', sb_stop := sb_stop b'\<rparr>"

definition pb_same :: "pty_bridge \<Rightarrow> pty_bridge \<Rightarrow> bool" where
  "pb_same b b' \<longleftrightarrow> b' = b\<lparr>pb_queue := pb_queue b', pb_stop := pb_stop b'\<rparr>"

definition keeps_bridges :: "('w, 'a) others \<Rightarrow> bool" where
  "keeps_bridges others \<longleftrightarrow>
     (\<forall>c w sb pb. rel_option sb_same sb (fst (snd (others c (w, sb, pb)))) \<and>
                  rel_option pb_same pb (snd (snd (others c (w, sb, pb)))))"

lemma lx_simps [simp, py_simps]:
  "lx_get f s = (Inr (f s), s)" "lx_set g s = (Inr (), g s)"
  "lx_log ls s = (Inr (), s\<lparr>lx_logged := lx_logged s @ ls\<rparr>)" "lx_print ls s = (Inr (), s\<lparr>lx_printed := lx_printed s @ ls\<rparr>)"
  by (simp_all add: lx_get_def lx_set_def lx_log_def lx_print_def)

lemma io_then_Inr [simp, py_simps]: "m w = (Inr x, w') \<Longrightarrow> io_then m n w = n w'"
  by (simp add: io_then_def)

fun last_pc_change :: "(nat \<Rightarrow> dut) \<Rightarrow> nat \<Rightarrow> nat" where
  "last_pc_change duts 0 = 0"
| "last_pc_change duts (Suc c) =
     (if sig duts ''pc_debug'' (Suc c) \<noteq> sig duts ''pc_debug'' c then Suc c else last_pc_change duts c)"

definition linux_inv :: "(nat \<Rightarrow> dut) \<Rightarrow> nat \<Rightarrow> ('w, 'a) linux_test \<Rightarrow> bool" where
  "linux_inv duts c s \<longleftrightarrow> prev_tx_state (lx_console s) = prev_state duts c \<and>
     received (lx_console s) = captured duts c \<and> lx_last_uart_cycle s = last_emission duts c \<and>
     lx_last_pc s = (if c = 0 then None else Some (sig duts ''pc_debug'' (c - 1))) \<and>
     lx_last_pc_change_cycle s = (if c = 0 then 0 else last_pc_change duts (c - 1)) \<and>
     lx_saw_banner s = is_infix_of LINUX_BOOT_BANNER (decode_latin1 (captured duts c)) \<and>
     lx_saw_uname s = is_infix_of LINUX_UNAME_PREFIX (decode_latin1 (captured duts c))"

lemma linux_inv_start: "linux_inv duts 0 (linux_start cfg w)"
  by (simp add: linux_inv_def linux_start_def new_console_def prev_state_def decode_latin1_def
      LINUX_BOOT_BANNER_def LINUX_UNAME_PREFIX_def)

lemma linux_inv_others: "linux_inv duts c (linux_others others c' s) = linux_inv duts c s"
  by (simp add: linux_inv_def linux_others_def split: prod.split)

text \<open>The part of a turn before the bridge is called.\<close>

definition noted :: "nat \<Rightarrow> int \<Rightarrow> int option \<Rightarrow> uart_console \<Rightarrow> ('w, 'a) linux_test \<Rightarrow> ('w, 'a) linux_test" where
  "noted cycle current_pc emitted con s =
     (let s' = note_pc cycle current_pc (s\<lparr>lx_console := con\<rparr>) in if emitted = None then s' else note_uart cycle s')"

lemma saw_mono:
  assumes "saw = is_infix_of p (decode_latin1 (captured duts c))"
  shows "(if emission duts c = None then saw else saw \<or> is_infix_of p (decode_latin1 (captured duts (Suc c)))) =
    is_infix_of p (decode_latin1 (captured duts (Suc c)))"
  using assms by (auto simp: captured_Suc decode_latin1_def is_infix_of_append split: option.splits)

lemma noted_inv:
  assumes "linux_inv duts c s" and "prev_tx_state con = prev_state duts (Suc c)" and "received con = captured duts (Suc c)"
  shows "linux_inv duts (Suc c) (noted c (sig duts ''pc_debug'' c) (emission duts c) con s)"
proof -
  define s' where "s' = note_pc c (sig duts ''pc_debug'' c) (s\<lparr>lx_console := con\<rparr>)"
  have pc: "lx_last_pc s' = Some (sig duts ''pc_debug'' c)" "lx_last_pc_change_cycle s' = last_pc_change duts c"
    using assms(1) by (cases c; simp add: s'_def note_pc_def linux_inv_def)+
  have s': "lx_console s' = con" "lx_last_uart_cycle s' = lx_last_uart_cycle s" "lx_saw_banner s' = lx_saw_banner s"
    "lx_saw_uname s' = lx_saw_uname s" by (simp_all add: s'_def note_pc_def)
  have saw: "(if emission duts c = None then lx_saw_banner s
        else lx_saw_banner s \<or> is_infix_of LINUX_BOOT_BANNER (decode_latin1 (captured duts (Suc c)))) =
      is_infix_of LINUX_BOOT_BANNER (decode_latin1 (captured duts (Suc c)))"
    "(if emission duts c = None then lx_saw_uname s
        else lx_saw_uname s \<or> is_infix_of LINUX_UNAME_PREFIX (decode_latin1 (captured duts (Suc c)))) =
      is_infix_of LINUX_UNAME_PREFIX (decode_latin1 (captured duts (Suc c)))"
    using assms(1) by (intro saw_mono; simp add: linux_inv_def)+
  have "noted c (sig duts ''pc_debug'' c) (emission duts c) con s = (if emission duts c = None then s' else note_uart c s')"
    by (simp add: noted_def s'_def Let_def)
  with assms pc s' saw show ?thesis
    by (cases "emission duts c") (simp_all add: linux_inv_def note_uart_def Let_def)
qed

text \<open>The turn in two parts: what it notes and forwards, and what it decides.\<close>

definition linux_decide ::
  "linux_config \<Rightarrow> string \<Rightarrow> string \<Rightarrow> dut \<Rightarrow> nat \<Rightarrow> int \<Rightarrow> ('w, 'a) linux_test \<Rightarrow> turn py \<times> ('w, 'a) linux_test" where
  "linux_decide cfg dtpath dtree dut cycle current_pc s =
     (if lx_saw_banner s \<and> lx_saw_uname s \<and> \<not> interactive_mode cfg
       then linux_success cfg dtpath dtree dut cycle s
       else if INTERACTIVE_TTY cfg \<and> (case lx_stdin_bridge s of None \<Rightarrow> False | Some b \<Rightarrow> sb_stop b)
       then io_then (lx_log [''Interactive UART session closed after '' @ fmt_d (int cycle) @ '' cycles'']) (io_return Leave) s
       else if UART_PTY_ENABLE cfg \<and> (case lx_pty_bridge s of None \<Rightarrow> False | Some b \<Rightarrow> pb_stop b)
       then io_then (lx_log [''PTY UART session closed after '' @ fmt_d (int cycle) @ '' cycles'']) (io_return Leave) s
       else if \<not> interactive_mode cfg \<and> linux_idle cfg cycle s
       then (Inl (AssertionError (''Linux UART and PC both went idle before the expected boot banner appeared '' @
              progress_text s @ '', pc=0x'' @ fmt_0x 8 current_pc @ '')'')), s)
       else io_then (linux_stuck cfg dut cycle)
            (io_then (linux_status cfg dut cycle)
            (io_return (if \<not> interactive_mode cfg \<and> BOOT_TIMEOUT_CYCLES (boot_cfg cfg) \<le> int (Suc cycle)
                        then Broke else Go_on))) s)"

lemma linux_turn_parts:
  assumes "next_byte duts c (lx_console s) = Inr (emitted, con)" and "dut_int (duts c) ''pc_debug'' = Inr pc"
  shows "linux_turn cfg os dtpath dtree duts c s =
    (case (case emitted of Some byte \<Rightarrow> on_pty (write_byte os (nat (UART_PTY_BUFFER_LIMIT cfg)) byte) ()
           | None \<Rightarrow> on_pty (flush_backlog os) ()) (noted c pc emitted con s) of
       (Inl e, s') \<Rightarrow> (Inl e, s')
     | (Inr u, s') \<Rightarrow> linux_decide cfg dtpath dtree (duts c) c pc s')"
proof -
  define s1 where "s1 = note_pc c pc (s\<lparr>lx_console := con\<rparr>)"
  have nb: "linux_next_byte duts c s = (Inr emitted, s\<lparr>lx_console := con\<rparr>)"
    using assms(1) by (simp add: linux_next_byte_def)
  have fw: "linux_forward cfg os c emitted s1 =
      (case emitted of Some byte \<Rightarrow> on_pty (write_byte os (nat (UART_PTY_BUFFER_LIMIT cfg)) byte) ()
       | None \<Rightarrow> on_pty (flush_backlog os) ()) (noted c pc emitted con s)"
    by (cases emitted) (simp_all add: linux_forward_def noted_def s1_def)
  obtain r s2 where r: "linux_forward cfg os c emitted s1 = (r, s2)" by fastforce
  have "linux_turn cfg os dtpath dtree duts c s =
      (case r of Inl e \<Rightarrow> (Inl e, s2) | Inr u \<Rightarrow> linux_decide cfg dtpath dtree (duts c) c pc s2)"
    using nb assms(2) r unfolding linux_turn_def
    by (cases r) (simp_all only: io_simps lx_simps io_then_def io_bind_def s1_def [symmetric] prod.case sum.case linux_decide_def id_apply if_distribR)
  with r fw show ?thesis by (cases r) simp_all
qed

text \<open>Dumps only log when the design has the signals they name.\<close>

lemma linux_dump_ok:
  assumes "\<forall>(key, name) \<in> set all_signals. dut name \<noteq> Missing"
  obtains l where "linux_dump cfg dut c force s = (Inr (), s\<lparr>lx_logged := l\<rparr>)"
proof -
  obtain lines where "dump_status (boot_cfg cfg) dut c force = Inr lines" using dump_status_ok [OF assms] by blast
  with that show thesis by (simp add: linux_dump_def)
qed

lemma linux_stuck_ok:
  assumes "\<forall>(key, name) \<in> set all_signals. dut name \<noteq> Missing"
  obtains l n where "linux_stuck cfg dut c s = (Inr (), s\<lparr>lx_logged := l, lx_next_stuck_debug_cycle := n\<rparr>)"
proof (cases "lx_last_uart_cycle s = None \<or> lx_next_stuck_debug_cycle s = None \<or> c < the (lx_next_stuck_debug_cycle s)")
  case True
  then have "linux_stuck cfg dut c s = (Inr (), s\<lparr>lx_logged := lx_logged s, lx_next_stuck_debug_cycle := lx_next_stuck_debug_cycle s\<rparr>)"
    by (auto simp: linux_stuck_def split: option.splits)
  with that show thesis by blast
next
  case False
  then obtain l n where ln: "lx_last_uart_cycle s = Some l" "lx_next_stuck_debug_cycle s = Some n" "n \<le> c" by auto
  define s1 where "s1 = s\<lparr>lx_logged := lx_logged s @ [''Linux boot appears stuck: no UART for '' @ fmt_d (int c - int l) @ '' cycles (bytes='' @
               fmt_d (int (length (received (lx_console s)))) @ '', banner='' @ fmt_bool (lx_saw_banner s) @
               '', uname='' @ fmt_bool (lx_saw_uname s) @ '')'']\<rparr>"
  obtain k where "linux_dump cfg dut c True s1 = (Inr (), s1\<lparr>lx_logged := k\<rparr>)" using linux_dump_ok [OF assms] by blast
  with ln have "linux_stuck cfg dut c s = (Inr (), s\<lparr>lx_logged := k, lx_next_stuck_debug_cycle := Some (n + STUCK_DEBUG_INTERVAL_CYCLES)\<rparr>)"
    by (simp add: linux_stuck_def s1_def [symmetric]) (simp add: s1_def)
  with that show thesis by blast
qed

lemma linux_status_ok:
  assumes "\<forall>(key, name) \<in> set all_signals. dut name \<noteq> Missing" and "STATUS_INTERVAL_CYCLES (boot_cfg cfg) \<noteq> 0"
  obtains l where "linux_status cfg dut c s = (Inr (), s\<lparr>lx_logged := l\<rparr>)"
proof (cases "c = 0 \<or> int c mod STATUS_INTERVAL_CYCLES (boot_cfg cfg) \<noteq> 0")
  case True
  with assms(2) have "linux_status cfg dut c s = (Inr (), s\<lparr>lx_logged := lx_logged s\<rparr>)"
    by (auto simp: linux_status_def py_mod_def io_when_def)
  with that show thesis by blast
next
  case False
  obtain l where "linux_dump cfg dut c False s = (Inr (), s\<lparr>lx_logged := l\<rparr>)" using linux_dump_ok [OF assms(1)] by blast
  with False assms(2) that show thesis by (simp add: linux_status_def py_mod_def io_when_def)
qed

section \<open>The outcome of the automatic test\<close>

definition linux_seen :: "(nat \<Rightarrow> dut) \<Rightarrow> nat \<Rightarrow> bool" where
  "linux_seen duts c \<longleftrightarrow> is_infix_of LINUX_BOOT_BANNER (decode_latin1 (captured duts (Suc c))) \<and>
     is_infix_of LINUX_UNAME_PREFIX (decode_latin1 (captured duts (Suc c)))"

definition linux_silent :: "linux_config \<Rightarrow> (nat \<Rightarrow> dut) \<Rightarrow> nat \<Rightarrow> bool" where
  "linux_silent cfg duts c \<longleftrightarrow>
     (case last_emission duts (Suc c) of None \<Rightarrow> False
      | Some l \<Rightarrow> UART_IDLE_CYCLES (boot_cfg cfg) \<le> int c - int l \<and>
                  UART_IDLE_CYCLES (boot_cfg cfg) \<le> int c - int (last_pc_change duts c))"

text \<open>The first edge at which the test has seen all it waits for or gives up.\<close>

definition linux_decides :: "linux_config \<Rightarrow> (nat \<Rightarrow> dut) \<Rightarrow> nat \<Rightarrow> bool" where
  "linux_decides cfg duts c \<longleftrightarrow> (linux_seen duts c \<or> linux_silent cfg duts c) \<and>
     list_all (\<lambda>k. \<not> (linux_seen duts k \<or> linux_silent cfg duts k)) [0..<c]"

definition no_bridge :: "('w, 'a) linux_test \<Rightarrow> bool" where
  "no_bridge s \<longleftrightarrow> lx_stdin_bridge s = None \<and> lx_pty_bridge s = None"

text \<open>What a turn at edge \<open>c\<close> of the automatic test does.\<close>

definition turn_ok ::
  "linux_config \<Rightarrow> string \<Rightarrow> string \<Rightarrow> (nat \<Rightarrow> dut) \<Rightarrow> nat \<Rightarrow> turn py \<times> ('w, 'a) linux_test \<Rightarrow> bool" where
  "turn_ok cfg dtpath dtree duts c res \<longleftrightarrow> no_bridge (snd res) \<and>
     (if linux_seen duts c then fst res = py_bind (assert_uart_divisor dtpath dtree (duts c)) (\<lambda>_. Inr Leave)
      else if linux_silent cfg duts c then \<exists>m. fst res = Inl (AssertionError m)
      else linux_inv duts (Suc c) (snd res) \<and>
           fst res = Inr (if BOOT_TIMEOUT_CYCLES (boot_cfg cfg) \<le> int (Suc c) then Broke else Go_on))"

lemma linux_success_result:
  assumes "\<forall>(key, name) \<in> set all_signals. dut name \<noteq> Missing"
  obtains l p where "linux_success cfg dtpath dtree dut c s =
    (py_bind (assert_uart_divisor dtpath dtree dut) (\<lambda>_. Inr Leave), s\<lparr>lx_logged := l, lx_printed := p\<rparr>)"
proof -
  define s1 where "s1 = s\<lparr>lx_printed := lx_printed s @ [[LF, LF] @ ''=== Linux boot banner observed ===''],
    lx_logged := lx_logged s @ [''Captured '' @ fmt_d (int (length (received (lx_console s)))) @ '' UART bytes'']\<rparr>"
  obtain l where l: "linux_dump cfg dut c False s1 = (Inr (), s1\<lparr>lx_logged := l\<rparr>)" using linux_dump_ok [OF assms] by blast
  have "linux_success cfg dtpath dtree dut c s =
      io_then (linux_dump cfg dut c False) (io_then (io_py (assert_uart_divisor dtpath dtree dut)) (io_return Leave)) s1"
    by (simp add: linux_success_def s1_def)
  also have "\<dots> = (py_bind (assert_uart_divisor dtpath dtree dut) (\<lambda>_. Inr Leave), s1\<lparr>lx_logged := l\<rparr>)"
    using l by (cases "assert_uart_divisor dtpath dtree dut") (simp_all add: io_then_def)
  finally show thesis using that [where l = l and p = "lx_printed s1"] by (simp add: s1_def)
qed

lemma linux_decide_automatic:
  assumes "\<not> interactive_mode cfg" and "dut_complete duts" and "STATUS_INTERVAL_CYCLES (boot_cfg cfg) \<noteq> 0"
    and "linux_inv duts (Suc c) s" and "no_bridge s"
  shows "turn_ok cfg dtpath dtree duts c (linux_decide cfg dtpath dtree (duts c) c pc s)"
proof -
  have sigs: "\<forall>(key, name) \<in> set all_signals. duts c name \<noteq> Missing" using assms(2) by (simp add: dut_complete_def)
  have seen: "lx_saw_banner s \<and> lx_saw_uname s \<and> \<not> interactive_mode cfg \<longleftrightarrow> linux_seen duts c"
    using assms(1,4) unfolding linux_inv_def linux_seen_def by blast+
  have silent: "linux_idle cfg c s \<longleftrightarrow> linux_silent cfg duts c"
    using assms(4) unfolding linux_inv_def linux_idle_def linux_silent_def by (simp split: option.split)
  have off: "\<not> INTERACTIVE_TTY cfg" "\<not> UART_PTY_ENABLE cfg" using assms(1) by (auto simp: interactive_mode_def)
  obtain l p where succ: "linux_success cfg dtpath dtree (duts c) c s =
    (py_bind (assert_uart_divisor dtpath dtree (duts c)) (\<lambda>_. Inr Leave), s\<lparr>lx_logged := l, lx_printed := p\<rparr>)"
    using linux_success_result [OF sigs] by blast
  obtain l1 n1 where st: "linux_stuck cfg (duts c) c s = (Inr (), s\<lparr>lx_logged := l1, lx_next_stuck_debug_cycle := n1\<rparr>)"
    using linux_stuck_ok [OF sigs] by blast
  obtain l2 where st2: "linux_status cfg (duts c) c (s\<lparr>lx_logged := l1, lx_next_stuck_debug_cycle := n1\<rparr>) =
      (Inr (), s\<lparr>lx_logged := l1, lx_next_stuck_debug_cycle := n1, lx_logged := l2\<rparr>)"
    using linux_status_ok [OF sigs assms(3)] by blast
  have inv: "linux_inv duts (Suc c) (s\<lparr>lx_next_stuck_debug_cycle := n1, lx_logged := l2\<rparr>)"
    using assms(4) by (simp add: linux_inv_def)
  have nb: "no_bridge (s\<lparr>lx_logged := x\<rparr>)" "no_bridge (s\<lparr>lx_next_stuck_debug_cycle := n1, lx_logged := x\<rparr>)"
    "no_bridge (s\<lparr>lx_logged := x, lx_printed := y\<rparr>)" for x y
    using assms(5) by (simp_all add: no_bridge_def)
  show ?thesis
    unfolding linux_decide_def seen turn_ok_def
    using assms(1,5) off succ st st2 inv nb silent by simp
qed

lemma linux_turn_automatic:
  assumes "\<not> interactive_mode cfg" and "dut_complete duts" and "STATUS_INTERVAL_CYCLES (boot_cfg cfg) \<noteq> 0"
    and "linux_inv duts c s" and "no_bridge s"
  shows "turn_ok cfg dtpath dtree duts c (linux_turn cfg os dtpath dtree duts c s)"
proof -
  from assms(2) have tx: "tx_readable duts" and pc: "dut_int (duts c) ''pc_debug'' = Inr (sig duts ''pc_debug'' c)"
    by (simp_all add: dut_complete_def readable_def)
  obtain con' where con': "next_byte duts c (lx_console s) = Inr (emission duts c, con')"
    "prev_tx_state con' = prev_state duts (Suc c)" "received con' = captured duts (Suc c)"
    using poll_emission [OF tx] assms(4) by (metis linux_inv_def next_byte_def)
  define s' where "s' = noted c (sig duts ''pc_debug'' c) (emission duts c) con' s"
  have s': "linux_inv duts (Suc c) s'" using noted_inv [OF assms(4) con'(2,3)] by (simp add: s'_def)
  have nb: "no_bridge s'" using assms(5) by (simp add: s'_def no_bridge_def noted_def note_pc_def note_uart_def Let_def)
  then have "(case emission duts c of Some byte \<Rightarrow> on_pty (write_byte os (nat (UART_PTY_BUFFER_LIMIT cfg)) byte) ()
      | None \<Rightarrow> on_pty (flush_backlog os) ()) s' = (Inr (), s')"
    by (simp add: on_pty_def no_bridge_def split: option.split)
  then have "linux_turn cfg os dtpath dtree duts c s = linux_decide cfg dtpath dtree (duts c) c (sig duts ''pc_debug'' c) s'"
    using linux_turn_parts [OF con'(1) pc, of cfg os dtpath dtree] by (simp add: s'_def [symmetric])
  with linux_decide_automatic [OF assms(1-3) s' nb] show ?thesis by simp
qed

lemma no_bridge_others:
  assumes "keeps_bridges others" and "no_bridge s"
  shows "no_bridge (linux_others others c s)"
proof -
  have "fst (snd (others c (w, None, None))) = None" "snd (snd (others c (w, None, None))) = None" for w
    using assms(1) by (metis keeps_bridges_def option.rel_distinct(1) option.exhaust)+
  with assms(2) show ?thesis by (simp add: no_bridge_def linux_others_def case_prod_beta)
qed

definition boot_turns :: "linux_config \<Rightarrow> nat" where
  "boot_turns cfg = max 1 (nat (BOOT_TIMEOUT_CYCLES (boot_cfg cfg)))"

lemma boot_turns_pos [simp]: "0 < boot_turns cfg"
  by (simp add: boot_turns_def)

lemma linux_loop_automatic:
  assumes "\<not> interactive_mode cfg" and "dut_complete duts" and "STATUS_INTERVAL_CYCLES (boot_cfg cfg) \<noteq> 0"
    and "keeps_bridges others"
    and "linux_inv duts c s" and "no_bridge s" and "\<forall>k < c. \<not> (linux_seen duts k \<or> linux_silent cfg duts k)"
    and "c < boot_turns cfg" and "boot_turns cfg \<le> c + fuel"
  shows "\<exists>r c' s'. linux_loop (linux_turn cfg os dtpath dtree duts) others fuel c s = Some (r, c', s') \<and> r \<noteq> Inr Go_on \<and>
    turn_ok cfg dtpath dtree duts c' (r, s') \<and> c' < boot_turns cfg \<and>
    (\<forall>k < c'. \<not> (linux_seen duts k \<or> linux_silent cfg duts k))"
  using assms(5-9)
proof (induction fuel arbitrary: c s)
  case 0
  then show ?case by simp
next
  case (Suc fuel)
  obtain r s' where t: "linux_turn cfg os dtpath dtree duts c (linux_others others c s) = (r, s')" by fastforce
  have "turn_ok cfg dtpath dtree duts c (linux_turn cfg os dtpath dtree duts c (linux_others others c s))"
    using Suc.prems(1,2) by (intro linux_turn_automatic [OF assms(1-3)] no_bridge_others [OF assms(4)]) (simp_all add: linux_inv_others)
  then have ok: "turn_ok cfg dtpath dtree duts c (r, s')" by (simp only: t)
  show ?case
  proof (cases "r = Inr Go_on")
    case True
    with ok have n: "\<not> (linux_seen duts c \<or> linux_silent cfg duts c)" "linux_inv duts (Suc c) s'" "no_bridge s'"
      "\<not> BOOT_TIMEOUT_CYCLES (boot_cfg cfg) \<le> int (Suc c)"
      by (cases "assert_uart_divisor dtpath dtree (duts c)"; auto simp: turn_ok_def split: if_splits)+
    then have "Suc c < boot_turns cfg" "\<forall>k < Suc c. \<not> (linux_seen duts k \<or> linux_silent cfg duts k)"
      using Suc.prems(3) by (auto simp: boot_turns_def less_Suc_eq)
    with Suc.IH [OF n(2,3)] Suc.prems(5) True t show ?thesis by simp
  next
    case False
    with ok t Suc.prems show ?thesis by (auto split: sum.splits turn.splits)
  qed
qed

lemma boot_linux_automatic:
  fixes os :: "('w, 'a) sys"
  assumes "\<not> interactive_mode cfg" and "dut_complete duts" and "STATUS_INTERVAL_CYCLES (boot_cfg cfg) \<noteq> 0"
    and "keeps_bridges others" and "boot_turns cfg \<le> fuel"
  shows "\<exists>r s c. boot_linux cfg os dtpath dtree acts others duts fuel w = Some (r, s) \<and> c < boot_turns cfg \<and>
    (\<forall>k < c. \<not> (linux_seen duts k \<or> linux_silent cfg duts k)) \<and>
    (if linux_seen duts c then r = assert_uart_divisor dtpath dtree (duts c)
     else (linux_silent cfg duts c \<or> Suc c = boot_turns cfg) \<and> (\<exists>m. r = Inl (AssertionError m)))"
proof -
  define s0 :: "('w, 'a) linux_test" where "s0 = linux_start cfg w"
  have s0: "linux_inv duts 0 s0" "no_bridge s0"
    by (simp_all add: s0_def linux_inv_start) (simp add: linux_start_def no_bridge_def)
  have su: "linux_setup cfg os acts s0 = (Inr True, s0)" using assms(1) by (simp add: linux_setup_def interactive_mode_def)
  obtain r c s' where l: "linux_loop (linux_turn cfg os dtpath dtree duts) others fuel 0 s0 = Some (r, c, s')" "r \<noteq> Inr Go_on"
    and ok: "turn_ok cfg dtpath dtree duts c (r, s')" and c: "c < boot_turns cfg"
    "\<forall>k < c. \<not> (linux_seen duts k \<or> linux_silent cfg duts k)"
    using linux_loop_automatic [where c = 0 and s = s0, OF assms(1-4) s0, of fuel os dtpath dtree] assms(5) boot_turns_pos
    by auto
  have close: "linux_close os s' = (Inr (), s')"
    using ok by (simp add: turn_ok_def no_bridge_def linux_close_def on_stdin_def on_pty_def)
  have "dut_int (duts c) ''pc_debug'' = Inr (sig duts ''pc_debug'' c)"
    using assms(2) by (simp add: dut_complete_def readable_def)
  then obtain m where m: "linux_timeout cfg (duts c) s' = (Inl (AssertionError m), s')" by (simp add: linux_timeout_def)
  have res: "boot_linux cfg os dtpath dtree acts others duts fuel w =
      Some (case r of Inl e \<Rightarrow> Inl e | Inr t \<Rightarrow> if t = Broke then Inl (AssertionError m) else Inr (), s')"
    using su l(1) close m by (cases r) (simp_all add: boot_linux_def linux_try_def s0_def [symmetric])
  have last: "BOOT_TIMEOUT_CYCLES (boot_cfg cfg) \<le> int (Suc c) \<Longrightarrow> Suc c = boot_turns cfg"
    using c(1) by (auto simp: boot_turns_def)
  have "if linux_seen duts c then (case r of Inl e \<Rightarrow> Inl e | Inr t \<Rightarrow> if t = Broke then Inl (AssertionError m) else Inr ()) =
        assert_uart_divisor dtpath dtree (duts c)
      else (linux_silent cfg duts c \<or> Suc c = boot_turns cfg) \<and>
        (\<exists>k. (case r of Inl e \<Rightarrow> Inl e | Inr t \<Rightarrow> if t = Broke then Inl (AssertionError m) else Inr ()) = Inl (AssertionError k))"
    using ok l(2) last by (cases "assert_uart_divisor dtpath dtree (duts c)") (auto simp: turn_ok_def split: if_splits)
  with res c show ?thesis by blast
qed

text \<open>
  C32. The automatic boot test always ends, after at most \<open>BOOT_TIMEOUT_CYCLES\<close> edges (one if that is
  less). It passes exactly when the boot banner and the uname line have both been transmitted at some
  edge before the deadline, at no earlier edge the UART and the program counter had both been still for
  \<open>UART_IDLE_CYCLES\<close>, and the UART's divisor is then the 1 that the device tree asks for. Every other
  outcome is an \<open>AssertionError\<close>.
\<close>

theorem boot_linux_passes_iff:
  assumes "\<not> interactive_mode cfg" and "dut_complete duts" and "readable duts ''uart_inst.baud_div''"
    and "STATUS_INTERVAL_CYCLES (boot_cfg cfg) \<noteq> 0" and "keeps_bridges others" and "boot_turns cfg \<le> fuel"
  shows "\<exists>r s. boot_linux cfg os dtpath device_tree acts others duts fuel w = Some (r, s) \<and>
           (r = Inr () \<longleftrightarrow> (\<exists>c < boot_turns cfg. linux_decides cfg duts c \<and> linux_seen duts c \<and>
                                  sig duts ''uart_inst.baud_div'' c = 1)) \<and>
           (case r of Inr u \<Rightarrow> True | Inl e \<Rightarrow> is_assertion e)"
proof -
  obtain r s c where res: "boot_linux cfg os dtpath device_tree acts others duts fuel w = Some (r, s)"
    and c: "c < boot_turns cfg" "\<forall>k < c. \<not> (linux_seen duts k \<or> linux_silent cfg duts k)"
    and r: "if linux_seen duts c then r = assert_uart_divisor dtpath device_tree (duts c)
     else (linux_silent cfg duts c \<or> Suc c = boot_turns cfg) \<and> (\<exists>m. r = Inl (AssertionError m))"
    using boot_linux_automatic [where dtree = device_tree, OF assms(1,2,4,5,6)] by blast
  have div: "dut_int (duts c) ''uart_inst.baud_div'' = Inr (sig duts ''uart_inst.baud_div'' c)"
    using assms(3) by (simp add: readable_def)
  have unique: "d = c" if "linux_decides cfg duts d" "d < boot_turns cfg" "linux_seen duts c \<or> linux_silent cfg duts c \<or> Suc c = boot_turns cfg" for d
  proof (rule linorder_cases [of c d])
    assume "c < d"
    with that show ?thesis by (auto simp: linux_decides_def list_all_iff)
  next
    assume "d < c"
    with that(1) c(2) show ?thesis by (auto simp: linux_decides_def)
  qed simp
  have dec: "linux_decides cfg duts c \<longleftrightarrow> linux_seen duts c \<or> linux_silent cfg duts c"
    using c(2) by (auto simp: linux_decides_def list_all_iff)
  show ?thesis
  proof (cases "linux_seen duts c")
    case True
    obtain m where "r = (if sig duts ''uart_inst.baud_div'' c = 1 then Inr () else Inl (AssertionError (m (sig duts ''uart_inst.baud_div'' c))))"
      using divisor_result [of dtpath] r True div by auto
    moreover have "(\<exists>d < boot_turns cfg. linux_decides cfg duts d \<and> linux_seen duts d \<and> sig duts ''uart_inst.baud_div'' d = 1)
        \<longleftrightarrow> sig duts ''uart_inst.baud_div'' c = 1"
      using unique dec True c(1) by blast
    ultimately show ?thesis using res by (simp add: is_assertion_def)
  next
    case False
    then have "\<not> (\<exists>d < boot_turns cfg. linux_decides cfg duts d \<and> linux_seen duts d)" using unique r by metis
    with False r res show ?thesis by (auto simp: is_assertion_def)
  qed
qed

lemma linux_seen_mono: "linux_seen duts c \<Longrightarrow> c \<le> d \<Longrightarrow> linux_seen duts d"
  using captured_mono [of "Suc c" "Suc d" duts] by (auto simp: linux_seen_def decode_latin1_def is_infix_of_append)

definition automatic_cfg :: linux_config where
  "automatic_cfg = \<lparr>boot_cfg = \<lparr>UART_IDLE_CYCLES = 200, BOOT_TIMEOUT_CYCLES = 100, STATUS_INTERVAL_CYCLES = 50,
       CLOCK_PERIOD_NS = 20, EXPECTED_BANNER = [], DEBUG_BOOT_LOGS = False\<rparr>,
     INTERACTIVE_TTY = False, UART_PTY_LINK = [], UART_PTY_ENABLE = False, UART_PTY_BUFFER_LIMIT = 65536,
     UART_PTY_WAIT_FOR_ATTACH = True, UART_PTY_TRANSCRIPT = [], UART_PTY_RX_TRANSCRIPT = [], UART_INPUT_MAX_PENDING = 1\<rparr>"

text \<open>A design that transmits a byte of a text at every second edge.\<close>

definition talking_duts :: "string \<Rightarrow> nat \<Rightarrow> dut" where
  "talking_duts t c n =
     (if n = ''uart_inst.tx_state'' then Value (if odd c then 1 else 2)
      else if n = ''uart_inst.tx_data'' then Value (if c div 2 < length t then of_char (t ! (c div 2)) else 0)
      else if n = ''uart_inst.baud_div'' then Value 1
      else Value (int c))"

definition linux_output :: string where
  "linux_output = LINUX_UNAME_PREFIX @ LINUX_BOOT_BANNER"

lemma talking_complete: "dut_complete (talking_duts t)" "readable (talking_duts t) ''uart_inst.baud_div''"
  by (simp_all add: dut_complete_def tx_readable_def readable_def sig_def talking_duts_def)

lemma talking_decides: "linux_decides automatic_cfg (talking_duts linux_output) 87"
proof -
  have seen: "linux_seen (talking_duts linux_output) 87" "\<not> linux_seen (talking_duts linux_output) 86" by code_simp+
  have "\<not> linux_seen (talking_duts linux_output) k" if "k < 87" for k
    using seen(2) linux_seen_mono that by (metis less_Suc_eq_le numeral_nat(7) eval_nat_numeral(3) semiring_norm(26-28))
  moreover have "\<not> linux_silent automatic_cfg (talking_duts linux_output) k" if "k < 87" for k
    using that by (auto simp: linux_silent_def automatic_cfg_def split: option.splits)
  ultimately show ?thesis using seen(1) by (simp add: linux_decides_def list_all_iff)
qed

theorem boot_linux_passes_iff_witness:
  "\<exists>s. boot_linux automatic_cfg term_sys ''synapse32.dts'' device_tree [] (\<lambda>c. id) (talking_duts linux_output) 100 0 = Some (Inr (), s)"
proof -
  have cfg: "\<not> interactive_mode automatic_cfg" "STATUS_INTERVAL_CYCLES (boot_cfg automatic_cfg) \<noteq> 0"
    "boot_turns automatic_cfg = 100"
    by (simp_all add: interactive_mode_def automatic_cfg_def boot_turns_def)
  have "keeps_bridges (\<lambda>c. id :: nat \<times> nat stdin_bridge option \<times> pty_bridge option \<Rightarrow> _)"
    by (simp add: keeps_bridges_def sb_same_def pb_same_def option.rel_refl)
  moreover have "sig (talking_duts linux_output) ''uart_inst.baud_div'' 87 = 1" "linux_seen (talking_duts linux_output) 87"
    by code_simp+
  moreover have "87 < boot_turns automatic_cfg" "boot_turns automatic_cfg \<le> 100" by (simp_all add: cfg(3))
  ultimately show ?thesis
    using boot_linux_passes_iff [where duts = "talking_duts linux_output" and os = term_sys and fuel = 100 and w = 0
        and dtpath = "''synapse32.dts''" and acts = "[]", OF cfg(1) talking_complete cfg(2)] talking_decides by blast
qed
end
