(* ===== verification/Linux_Sessions.thy ===== *)
theory Linux_Sessions
  imports Boot_Linux
begin

text \<open>
  What \<open>boot_linux\<close> guarantees of an interactive session: every way out of the test, exceptions
  included, closes the bridge it opened and gives the user's terminal back, and the client of the
  pseudo-terminal is sent what the UART transmits.
\<close>

section \<open>Every way out closes the bridges\<close>

text \<open>The part of the state that says which bridge there is.\<close>

definition lx_bridges :: "('w, 'a) linux_test \<Rightarrow> 'a stdin_bridge option \<times> bool" where
  "lx_bridges s = (lx_stdin_bridge s, lx_pty_bridge s = None)"

lemma lx_bridges_set: "(\<And>s. lx_bridges (g s) = lx_bridges s) \<Longrightarrow> io_keeps lx_bridges (lx_set g)"
  by (simp add: io_keeps_def)

lemma lx_bridges_keeps [io_keeps_intros]:
  "io_keeps lx_bridges (lx_log l)" "io_keeps lx_bridges (lx_print l)" "io_keeps lx_bridges (lx_get g)"
  "io_keeps lx_bridges (on_pty m x)" "io_keeps lx_bridges (lx_set (note_pc c p))" "io_keeps lx_bridges (lx_set (note_uart c))"
  "io_keeps lx_bridges (lx_set (\<lambda>s. s\<lparr>lx_console := con\<rparr>))" "io_keeps lx_bridges (lx_set (\<lambda>s. s\<lparr>lx_next_stuck_debug_cycle := n\<rparr>))"
  by (auto simp: io_keeps_def lx_bridges_def on_pty_def note_pc_def note_uart_def Let_def split: option.split prod.split)

lemma linux_dump_bridges [io_keeps_intros]: "io_keeps lx_bridges (linux_dump cfg dut c force)"
  unfolding linux_dump_def by (intro io_keeps_intros)

lemma linux_next_byte_bridges [io_keeps_intros]: "io_keeps lx_bridges (linux_next_byte duts c)"
  unfolding linux_next_byte_def by (intro io_keeps_intros)

lemma linux_forward_bridges [io_keeps_intros]: "io_keeps lx_bridges (linux_forward cfg os c e)"
  unfolding linux_forward_def by (intro io_keeps_intros)

lemma linux_success_bridges [io_keeps_intros]: "io_keeps lx_bridges (linux_success cfg dtpath dtree dut c)"
  unfolding linux_success_def by (intro io_keeps_intros)

lemma linux_stuck_bridges [io_keeps_intros]: "io_keeps lx_bridges (linux_stuck cfg dut c)"
  unfolding linux_stuck_def by (intro io_keeps_intros)

lemma linux_status_bridges [io_keeps_intros]: "io_keeps lx_bridges (linux_status cfg dut c)"
  unfolding linux_status_def by (intro io_keeps_intros)

lemma linux_turn_bridges: "io_keeps lx_bridges (linux_turn cfg os dtpath dtree duts c)"
  unfolding linux_turn_def by (intro io_keeps_intros)

lemma linux_timeout_bridges: "io_keeps lx_bridges (linux_timeout cfg dut)"
  unfolding linux_timeout_def by (intro io_keeps_intros)

lemma linux_attach_bridges: "snd (linux_attach cfg acts s) = s'' \<Longrightarrow> lx_bridges s'' = lx_bridges s"
  by (cases "lx_pty_bridge s") (auto simp: linux_attach_def lx_bridges_def split: option.splits)

lemma linux_loop_keeps:
  assumes "\<And>c s. I s \<Longrightarrow> I (linux_others others c s)" and "\<And>c s. I s \<Longrightarrow> I (snd (turn_fn c s))"
    and "linux_loop turn_fn others fuel c s = Some (r, c', s')" and "I s"
  shows "I s'"
  using assms(3,4)
proof (induction fuel arbitrary: c s)
  case (Suc fuel)
  obtain q s1 where t: "turn_fn c (linux_others others c s) = (q, s1)" by fastforce
  have "I s1" using assms(1,2) Suc.prems(2) t by (metis snd_conv)
  with Suc t show ?case by (auto split: sum.splits turn.splits)
qed simp

text \<open>A property of the bridges that the other threads keep holds after the body of the test if it does after the set-up.\<close>

lemma linux_try_keeps:
  assumes "\<And>c s. J (lx_bridges s) \<Longrightarrow> J (lx_bridges (linux_others others c s))"
    and "J (lx_bridges (snd (linux_setup cfg os acts s)))"
    and "linux_try cfg os dtpath dtree acts others duts fuel s = Some (r, s')"
  shows "J (lx_bridges s')"
proof -
  obtain q s1 where su: "linux_setup cfg os acts s = (q, s1)" by fastforce
  show ?thesis
  proof (cases "q = Inr True")
    case False
    with assms(2,3) su show ?thesis by (auto simp: linux_try_def split: sum.splits bool.splits)
  next
    case True
    with su assms(3) obtain t c s2 where
      l: "linux_loop (linux_turn cfg os dtpath dtree duts) others fuel 0 s1 = Some (t, c, s2)"
      by (auto simp: linux_try_def split: option.splits)
    have turn_keeps: "J (lx_bridges (snd (linux_turn cfg os dtpath dtree duts c s)))" if "J (lx_bridges s)" for c and s :: "('a, 'b) linux_test"
      using that linux_turn_bridges [of cfg os dtpath dtree duts c] by (simp add: io_keeps_def)
    have s2: "J (lx_bridges s2)"
      by (rule linux_loop_keeps [where I = "\<lambda>s. J (lx_bridges s)", OF assms(1) turn_keeps l])
        (use assms(2) su in simp_all)
    have "lx_bridges (snd (linux_timeout cfg (duts c) s2)) = lx_bridges s2"
      by (rule linux_timeout_bridges [unfolded io_keeps_def, rule_format])
    with s2 assms(3) su True l show ?thesis
      by (auto simp: linux_try_def split: sum.splits if_splits)
  qed
qed

lemma others_bridges:
  assumes "keeps_bridges others"
  shows "rel_option sb_same (lx_stdin_bridge s) (lx_stdin_bridge (linux_others others c s))"
    and "lx_pty_bridge (linux_others others c s) = None \<longleftrightarrow> lx_pty_bridge s = None"
proof -
  obtain w sb pb where o: "others c (lx_world s, lx_stdin_bridge s, lx_pty_bridge s) = (w, sb, pb)" by (metis prod_cases3)
  with assms have r: "rel_option sb_same (lx_stdin_bridge s) sb" "rel_option pb_same (lx_pty_bridge s) pb"
    unfolding keeps_bridges_def by (metis fst_conv snd_conv)+
  from r(1) o show "rel_option sb_same (lx_stdin_bridge s) (lx_stdin_bridge (linux_others others c s))"
    by (simp add: linux_others_def)
  from r(2) o show "lx_pty_bridge (linux_others others c s) = None \<longleftrightarrow> lx_pty_bridge s = None"
    by (cases "lx_pty_bridge s"; cases pb) (simp_all add: linux_others_def)
qed

lemma sb_same_fields: "sb_same b b' \<Longrightarrow> sb_fd b' = sb_fd b \<and> sb_saved_attrs b' = sb_saved_attrs b"
  by (cases b; cases b') (auto simp: sb_same_def)

lemma setup_keeps [io_keeps_intros]:
  "io_keeps lx_pty_bridge (on_stdin m x)" "io_keeps lx_pty_bridge (lx_log l)" "io_keeps lx_stdin_bridge (on_pty n y)"
  "io_keeps lx_stdin_bridge (lx_print l)" "io_keeps lx_stdin_bridge (lx_get g)"
  "io_keeps lx_pty_bridge (lx_set (\<lambda>s. s\<lparr>lx_stdin_bridge := b\<rparr>))"
  "io_keeps lx_stdin_bridge (lx_set (\<lambda>s. s\<lparr>lx_pty_bridge := b'\<rparr>))"
  by (auto simp: io_keeps_def on_stdin_def on_pty_def split: option.split prod.split)

lemma linux_setup_keeps:
  "INTERACTIVE_TTY cfg \<Longrightarrow> io_keeps lx_pty_bridge (linux_setup cfg os acts)"
  "\<not> INTERACTIVE_TTY cfg \<Longrightarrow> io_keeps lx_stdin_bridge (linux_setup cfg os acts)"
  unfolding linux_setup_def linux_attach_def by (simp_all only: if_True if_False) (intro io_keeps_intros)+

lemma linux_setup_exclusive:
  "lx_stdin_bridge (snd (linux_setup cfg os acts (linux_start cfg w))) = None \<or>
   lx_pty_bridge (snd (linux_setup cfg os acts (linux_start cfg w))) = None"
  using linux_setup_keeps [of cfg os acts]
  by (cases "INTERACTIVE_TTY cfg") (simp_all add: io_keeps_def linux_start_def)

lemma self_keeps [io_keeps_intros]: "io_keeps snd (call m)" "io_keeps snd (self_get g)"
  by (auto simp: io_keeps_def split: prod.split)

text \<open>What closing does.\<close>

definition close_law :: "('w, 'a) sys \<Rightarrow> bool" where
  "close_law os \<longleftrightarrow> (\<forall>h w. fst (sys_file_close os h w) = Inr ()) \<and> (\<forall>fd w. fst (sys_close os fd w) = Inr ())"

definition pb_closed :: "pty_bridge \<Rightarrow> bool" where
  "pb_closed b \<longleftrightarrow> pb_stop b \<and> pb_transcript b = None \<and> pb_rx_transcript b = None \<and> pb_master_fd b = None \<and> pb_slave_fd b = None"

lemma sb_close_stops: "sb_close os (w, b) = (r, (w', b')) \<Longrightarrow> sb_stop b'"
  by (auto simp: sb_close_def io_then_def io_bind_def split: option.splits prod.splits)

lemma io_then_set: "io_then (self_set g) m (w, b) = m (w, g b)"
  by simp

lemma close_slot:
  assumes "io_bind (self_get get) (\<lambda>t.
      io_then (case t of None \<Rightarrow> io_return () | Some h \<Rightarrow> io_then (call (cl h)) (self_set clear)) rest) (w, b) = res"
    and "\<And>h w. fst (cl h w) = Inr ()" and "get b = None \<Longrightarrow> clear b = b"
  obtains w' where "rest (w', clear b) = res"
proof (cases "get b")
  case None
  then show thesis using assms(1) assms(3) [OF None] that by (auto simp: io_then_def)
next
  case (Some h)
  obtain w' where "cl h w = (Inr (), w')" using assms(2) [of h w] by (metis prod.collapse)
  with Some assms(1) that show thesis by (auto simp: io_then_def)
qed

lemma pb_close_closes:
  fixes os :: "('w, 'a) sys"
  assumes "close_law os" and "pb_close os (w, b) = (r, (w', b'))"
  shows "pb_closed b'"
proof -
  have f: "\<And>h w. fst (sys_file_close os h w) = Inr ()" "\<And>h w. fst (sys_close os h w) = Inr ()"
    using assms(1) by (simp_all add: close_law_def)
  define rest :: "('w \<times> pty_bridge, unit) io" where "rest = io_bind (self_get pb_link_path) (\<lambda>lp. io_when (lp \<noteq> [])
         (io_catch (io_bind (call (sys_islink os lp)) (\<lambda>l. io_when l (call (sys_unlink os lp))))
            (\<lambda>e. if is_file_not_found e then io_return () else io_raise e)))"
  have "io_keeps snd rest"
    unfolding rest_def by (intro io_keeps_intros)
  then have closed: "rest (v, b1) = (r, (w', b')) \<Longrightarrow> b' = b1" for v b1 by (auto dest: io_keepsD)
  from assms(2) show ?thesis
    unfolding pb_close_def rest_def [symmetric] io_then_set
    by (elim close_slot [where cl = "sys_file_close os"] close_slot [where cl = "sys_close os"];
       auto simp: f pb_closed_def dest!: closed)
qed


text \<open>
  C35. A test run on the user's terminal gives it back as it was: on every way out, also when the
  set-up raises after the terminal was switched to raw mode, the attributes are those from before.
\<close>

theorem boot_linux_restores_terminal:
  assumes "boot_linux cfg os dtpath dtree acts others duts fuel w = Some (r, s)" and "INTERACTIVE_TTY cfg"
    and "keeps_bridges others"
    and "\<And>fd w. sys_tcgetattr os fd w = (Inr (attrs w fd), w)"
    and "\<And>fd a w. \<exists>w'. sys_tcsetattr os fd a w = (Inr (), w') \<and> attrs w' fd = a"
    and "sys_stdin_isatty os w = (Inr True, w)" and "sys_stdin_fileno os w = (Inr fd, w)"
  shows "attrs (lx_world s) fd = attrs w fd"
proof -
  obtain r1 s1 where t: "linux_try cfg os dtpath dtree acts others duts fuel (linux_start cfg w) = Some (r1, s1)"
    and c: "snd (linux_close os s1) = s"
    using assms(1) by (auto simp: boot_linux_def split: option.splits prod.splits sum.splits)
  define J :: "'b stdin_bridge option \<times> bool \<Rightarrow> bool" where
    "J = (\<lambda>(sb, n). n \<and> (\<exists>b. sb = Some b \<and> sb_fd b = Some fd \<and> sb_saved_attrs b = Some (attrs w fd)))"
  have "J (lx_bridges s1)"
  proof (rule linux_try_keeps [OF _ _ t])
    fix c and s :: "('a, 'b) linux_test"
    assume j: "J (lx_bridges s)"
    then obtain b where b: "lx_stdin_bridge s = Some b" "sb_fd b = Some fd" "sb_saved_attrs b = Some (attrs w fd)"
      by (auto simp: J_def lx_bridges_def)
    with others_bridges(1) [OF assms(3), where s = s and c = c] obtain b' where "lx_stdin_bridge (linux_others others c s) = Some b'" "sb_same b b'"
      by (cases "lx_stdin_bridge (linux_others others c s)") auto
    moreover from this(2) b have "sb_fd b' = Some fd" "sb_saved_attrs b' = Some (attrs w fd)"
      by (simp_all add: sb_same_fields)
    ultimately show "J (lx_bridges (linux_others others c s))"
      using j others_bridges(2) [OF assms(3), where s = s and c = c] by (simp add: J_def lx_bridges_def)
  next
    obtain q1 w1 where raw: "sys_setraw os fd w = (q1, w1)" by fastforce
    obtain q2 w2 where th: "sys_thread_start os w1 = (q2, w2)" by fastforce
    show "J (lx_bridges (snd (linux_setup cfg os acts (linux_start cfg w))))"
      using assms(2,4,6,7) raw th
      by (cases q1; cases q2) (auto simp: J_def lx_bridges_def linux_setup_def linux_start_def on_stdin_def new_stdin_bridge_def
          sb_start_def io_then_def io_bind_def)
  qed
  then obtain b where b: "lx_stdin_bridge s1 = Some b" "sb_fd b = Some fd" "sb_saved_attrs b = Some (attrs w fd)"
    "lx_pty_bridge s1 = None" by (auto simp: J_def lx_bridges_def)
  obtain w' where "sys_tcsetattr os fd (attrs w fd) (lx_world s1) = (Inr (), w')" "attrs w' fd = attrs w fd"
    using assms(5) by blast
  with b c show ?thesis
    by (auto simp: linux_close_def on_stdin_def on_pty_def sb_close_def io_then_def)
qed

text \<open>Sessions that end with an exception: the design has none of the signals the loop reads.\<close>

definition pty_cfg :: linux_config where
  "pty_cfg = automatic_cfg\<lparr>UART_PTY_ENABLE := True, UART_PTY_WAIT_FOR_ATTACH := False, UART_PTY_TRANSCRIPT := ''log/tx''\<rparr>"

definition tty_cfg :: linux_config where
  "tty_cfg = automatic_cfg\<lparr>INTERACTIVE_TTY := True\<rparr>"

definition no_others :: "(nat, nat) others" where
  "no_others = (\<lambda>c x. x)"

lemma no_others_keeps: "keeps_bridges no_others"
  by (simp add: keeps_bridges_def no_others_def sb_same_def pb_same_def option.rel_refl)


theorem boot_linux_restores_terminal_witness:
  "\<exists>s. boot_linux tty_cfg term_sys [] [] [] no_others (\<lambda>c n. Missing) 1 7 = Some (Inl AttributeError, s) \<and> lx_world s = 7"
proof -
  have "case boot_linux tty_cfg term_sys [] [] [] no_others (\<lambda>c n. Missing) 1 7 of None \<Rightarrow> False
    | Some (r, s) \<Rightarrow> r = Inl AttributeError" by code_simp
  then obtain s where s: "boot_linux tty_cfg term_sys [] [] [] no_others (\<lambda>c n. Missing) 1 7 = Some (Inl AttributeError, s)"
    by (auto split: option.splits)
  have "INTERACTIVE_TTY tty_cfg" by (simp add: tty_cfg_def)
  moreover have "sys_tcgetattr term_sys fd w = (Inr w, w)" "\<exists>w'. sys_tcsetattr term_sys fd a w = (Inr (), w') \<and> w' = a"
    "sys_stdin_isatty term_sys 7 = (Inr True, 7)" "sys_stdin_fileno term_sys 7 = (Inr 0, 7)" for fd w a
    by (simp_all add: term_sys_def)
  ultimately show ?thesis
    using boot_linux_restores_terminal [where attrs = "\<lambda>w fd. w" and fd = 0, OF s _ no_others_keeps] s by blast
qed

section \<open>The client of the pseudo-terminal is sent what the UART transmits\<close>

text \<open>The part of the state that deciding about the session leaves alone.\<close>

definition lx_core :: "('w, 'a) linux_test \<Rightarrow> _" where
  "lx_core s = (lx_console s, lx_last_uart_cycle s, lx_last_pc s, lx_last_pc_change_cycle s, lx_saw_banner s, lx_saw_uname s,
     lx_world s, lx_pty_bridge s)"

lemma lx_core_keeps [io_keeps_intros]:
  "io_keeps lx_core (lx_log l)" "io_keeps lx_core (lx_print l)" "io_keeps lx_core (lx_get g)"
  "io_keeps lx_core (lx_set (\<lambda>s. s\<lparr>lx_next_stuck_debug_cycle := n\<rparr>))"
  by (auto simp: io_keeps_def lx_core_def)

lemma linux_dump_core [io_keeps_intros]: "io_keeps lx_core (linux_dump cfg dut c force)"
  unfolding linux_dump_def by (intro io_keeps_intros)

lemma linux_decide_core: "lx_core (snd (linux_decide cfg dtpath dtree dut c pc s)) = lx_core s"
proof -
  have m: "lx_core (snd (m s)) = lx_core s" if "io_keeps lx_core m" for m :: "(('a, 'b) linux_test, turn) io"
    using that by (simp add: io_keeps_def)
  have "io_keeps lx_core (linux_success cfg dtpath dtree dut c)" "io_keeps lx_core (io_then (lx_log l) (io_return Leave))"
    "io_keeps lx_core (io_then (linux_stuck cfg dut c) (io_then (linux_status cfg dut c) (io_return t)))" for l t
    unfolding linux_success_def linux_stuck_def linux_status_def by (intro io_keeps_intros)+
  note keep = this [THEN m]
  show ?thesis unfolding linux_decide_def by (simp only: keep snd_conv split: if_split) simp
qed

lemma linux_inv_core: "lx_core s' = lx_core s \<Longrightarrow> linux_inv duts c s' = linux_inv duts c s"
  by (simp add: lx_core_def linux_inv_def)

lemma pty_flush_step:
  assumes "write_law os delivered" and "pb_master_fd b = Some fd" and "flush_backlog os (w, b) = (Inr u, (w', b'))"
  obtains out where "delivered w' = delivered w @ out" and "out @ pb_tx_backlog b' = pb_tx_backlog b" and "pb_master_fd b' = Some fd"
proof -
  obtain r w1 q where f: "flush_loop os fd (pb_tx_backlog b) w = (r, w1, q)" by (metis prod_cases3)
  with assms(2,3) have "w' = w1" "b' = b\<lparr>pb_tx_backlog := q\<rparr>" by (auto simp: flush_backlog_def)
  with flush_loop_effect(1) [OF assms(1) f] assms(2) that show thesis by auto
qed

lemma pty_write_step:
  assumes "write_law os delivered" and "write_stable os" and "pb_master_fd b = Some fd" and "length (pb_tx_backlog b) < limit"
    and "write_byte os limit x (w, b) = (Inr u, (w', b'))"
  obtains out where "delivered w' = delivered w @ out" and "out @ pb_tx_backlog b' = pb_tx_backlog b @ [x]" and "pb_master_fd b' = Some fd"
proof -
  have "write_byte os limit x (w, b) = (Inr (), (w', b'))" using assms(5) by simp
  from write_byte_effect [OF assms(1,3) this] obtain pre post where pp: "pb_tx_backlog b = pre @ post" "pb_master_fd b' = Some fd"
    and e: "delivered w' = delivered w @ pre @ [x] \<and> pb_tx_backlog b' = post \<and> (write_stable os \<longrightarrow> post = []) \<or>
         delivered w' = delivered w @ pre \<and> pb_tx_backlog b' = deque_append limit post x" by blast
  from e show thesis
  proof
    assume "delivered w' = delivered w @ pre @ [x] \<and> pb_tx_backlog b' = post \<and> (write_stable os \<longrightarrow> post = [])"
    with pp assms(2) that [of "pre @ [x]"] show thesis by simp
  next
    assume "delivered w' = delivered w @ pre \<and> pb_tx_backlog b' = deque_append limit post x"
    with pp assms(4) that [of pre] show thesis by (simp add: deque_append_room)
  qed
qed

text \<open>What has been sent to the client since the start, followed by what waits, is what the UART transmitted.\<close>

definition pty_stream :: "('w \<Rightarrow> int list) \<Rightarrow> int list \<Rightarrow> int \<Rightarrow> (nat \<Rightarrow> dut) \<Rightarrow> nat \<Rightarrow> ('w, 'a) linux_test \<Rightarrow> bool" where
  "pty_stream delivered before fd duts c s \<longleftrightarrow>
     (\<exists>b out. lx_pty_bridge s = Some b \<and> pb_master_fd b = Some fd \<and> delivered (lx_world s) = before @ out \<and>
        out @ pb_tx_backlog b = captured duts c)"

lemma pty_stream_noted: "pty_stream delivered before fd duts k (noted c p e con s) = pty_stream delivered before fd duts k s"
  by (simp add: pty_stream_def noted_def note_pc_def note_uart_def Let_def)

lemma pty_turn:
  assumes "write_law os delivered" and "write_stable os" and "tx_readable duts" and "readable duts ''pc_debug''"
    and "int (length (captured duts (Suc c))) \<le> UART_PTY_BUFFER_LIMIT cfg"
    and "linux_inv duts c s" and "pty_stream delivered before fd duts c s"
    and "linux_turn cfg os dtpath dtree duts c s = (Inr t, s')"
  shows "linux_inv duts (Suc c) s'" and "pty_stream delivered before fd duts (Suc c) s'"
proof -
  have pc: "dut_int (duts c) ''pc_debug'' = Inr (sig duts ''pc_debug'' c)" using assms(4) by (simp add: readable_def)
  obtain con' where con': "next_byte duts c (lx_console s) = Inr (emission duts c, con')"
    "prev_tx_state con' = prev_state duts (Suc c)" "received con' = captured duts (Suc c)"
    using poll_emission [OF assms(3)] assms(6) by (metis linux_inv_def next_byte_def)
  define s1 where "s1 = noted c (sig duts ''pc_debug'' c) (emission duts c) con' s"
  have inv1: "linux_inv duts (Suc c) s1" using noted_inv [OF assms(6) con'(2,3)] by (simp add: s1_def)
  have "pty_stream delivered before fd duts c s1" using assms(7) by (simp add: s1_def pty_stream_noted)
  then obtain b out where b: "lx_pty_bridge s1 = Some b" "pb_master_fd b = Some fd" "delivered (lx_world s1) = before @ out"
    "out @ pb_tx_backlog b = captured duts c" by (auto simp: pty_stream_def)
  define act :: "('a \<times> pty_bridge, unit) io" where "act = (case emission duts c of
      Some byte \<Rightarrow> write_byte os (nat (UART_PTY_BUFFER_LIMIT cfg)) byte | None \<Rightarrow> flush_backlog os)"
  obtain u w' b' where a: "act (lx_world s1, b) = (u, (w', b'))" by (metis prod_cases3)
  define s2 where "s2 = s1\<lparr>lx_world := w', lx_pty_bridge := Some b'\<rparr>"
  have "(case emission duts c of Some byte \<Rightarrow> on_pty (write_byte os (nat (UART_PTY_BUFFER_LIMIT cfg)) byte) ()
      | None \<Rightarrow> on_pty (flush_backlog os) ()) s1 = (u, s2)"
    using a b(1) by (simp add: on_pty_def act_def s2_def split: option.splits)
  then have turn: "linux_turn cfg os dtpath dtree duts c s =
      (case u of Inl e \<Rightarrow> (Inl e, s2) | Inr v \<Rightarrow> linux_decide cfg dtpath dtree (duts c) c (sig duts ''pc_debug'' c) s2)"
    using linux_turn_parts [OF con'(1) pc, of cfg os dtpath dtree] by (cases u) (simp_all add: s1_def [symmetric])
  then obtain v where v: "u = Inr v" and core: "lx_core s' = lx_core s2"
    using assms(8) linux_decide_core [of cfg dtpath dtree "duts c" c "sig duts ''pc_debug'' c" s2]
    by (cases u) (simp_all, metis snd_conv)
  have "linux_inv duts (Suc c) s2" using inv1 by (simp add: s2_def linux_inv_def)
  then show "linux_inv duts (Suc c) s'" using linux_inv_core [OF core] by blast
  obtain out' where o: "delivered w' = delivered (lx_world s1) @ out'" "pb_master_fd b' = Some fd"
    "out' @ pb_tx_backlog b' = pb_tx_backlog b @ (case emission duts c of None \<Rightarrow> [] | Some x \<Rightarrow> [x])"
  proof (cases "emission duts c")
    case None
    with a v have "flush_backlog os (lx_world s1, b) = (Inr v, (w', b'))" by (simp add: act_def)
    from pty_flush_step [OF assms(1) b(2) this] None that show thesis by force
  next
    case (Some x)
    with a v have wb: "write_byte os (nat (UART_PTY_BUFFER_LIMIT cfg)) x (lx_world s1, b) = (Inr v, (w', b'))" by (simp add: act_def)
    have "length (pb_tx_backlog b) \<le> length (captured duts c)" using b(4) by (metis length_append le_add2)
    with assms(5) Some have "length (pb_tx_backlog b) < nat (UART_PTY_BUFFER_LIMIT cfg)" by (simp add: captured_Suc)
    from pty_write_step [OF assms(1,2) b(2) this wb] Some that show thesis by force
  qed
  have "pty_stream delivered before fd duts (Suc c) s2"
    unfolding pty_stream_def s2_def using b(3,4) o
    by (auto intro!: exI [of _ "out @ out'"] simp: captured_Suc split: option.splits)
  moreover from core have "lx_world s' = lx_world s2" "lx_pty_bridge s' = lx_pty_bridge s2" by (simp_all add: lx_core_def)
  ultimately show "pty_stream delivered before fd duts (Suc c) s'" by (simp add: pty_stream_def)
qed

lemma pty_others:
  assumes "keeps_bridges others" and "\<And>c x. delivered (fst (others c x)) = delivered (fst x)"
    and "pty_stream delivered before fd duts c s"
  shows "pty_stream delivered before fd duts c (linux_others others k s)"
proof -
  obtain w sb pb where o: "others k (lx_world s, lx_stdin_bridge s, lx_pty_bridge s) = (w, sb, pb)" by (metis prod_cases3)
  then have d: "delivered w = delivered (lx_world s)" using assms(2) by (metis fst_conv)
  from o assms(1) have r: "rel_option pb_same (lx_pty_bridge s) pb"
    unfolding keeps_bridges_def by (metis snd_conv)
  have same: "pb_master_fd b' = pb_master_fd b \<and> pb_tx_backlog b' = pb_tx_backlog b" if "pb_same b b'" for b b'
    using that by (cases b; cases b') (auto simp: pb_same_def)
  from assms(3) r d show ?thesis
    by (cases pb) (auto simp: pty_stream_def linux_others_def o dest!: same)
qed

lemma linux_loop_later: "linux_loop turn_fn others fuel c s = Some (r, c', s') \<Longrightarrow> c \<le> c'"
proof (induction fuel arbitrary: c s)
  case (Suc fuel)
  obtain q s1 where "turn_fn c (linux_others others c s) = (q, s1)" by fastforce
  with Suc.prems Suc.IH [of "Suc c" s1] show ?case by (auto split: sum.splits turn.splits)
qed simp

lemma pty_loop:
  assumes "write_law os delivered" and "write_stable os" and "tx_readable duts" and "readable duts ''pc_debug''"
    and "keeps_bridges others" and "\<And>c x. delivered (fst (others c x)) = delivered (fst x)"
    and "int (length (captured duts (Suc c'))) \<le> UART_PTY_BUFFER_LIMIT cfg"
    and "linux_inv duts c s" and "pty_stream delivered before fd duts c s"
    and "linux_loop (linux_turn cfg os dtpath dtree duts) others fuel c s = Some (Inr t, c', s')"
  shows "pty_stream delivered before fd duts (Suc c') s' \<and> c \<le> c'"
  using assms(8-10)
proof (induction fuel arbitrary: c s)
  case (Suc fuel)
  obtain r s1 where t: "linux_turn cfg os dtpath dtree duts c (linux_others others c s) = (r, s1)" by fastforce
  have pre: "linux_inv duts c (linux_others others c s)" "pty_stream delivered before fd duts c (linux_others others c s)"
    using Suc.prems(1,2) pty_others [OF assms(5,6)] by (simp_all add: linux_inv_others)
  show ?case
  proof (cases "r = Inr Go_on")
    case True
    have step: "linux_inv duts (Suc c) s1" "pty_stream delivered before fd duts (Suc c) s1"
      if "int (length (captured duts (Suc c))) \<le> UART_PTY_BUFFER_LIMIT cfg"
      using pty_turn [OF assms(1-4) that pre] t True by blast+
    have loop: "linux_loop (linux_turn cfg os dtpath dtree duts) others fuel (Suc c) s1 = Some (Inr t, c', s')"
      using Suc.prems(3) t True by simp
    then have "Suc c \<le> c'" by (rule linux_loop_later)
    then have "length (captured duts (Suc c)) \<le> length (captured duts (Suc c'))"
      using captured_mono [of "Suc c" "Suc c'" duts] by auto
    with assms(7) step Suc.IH [OF _ _ loop] show ?thesis by simp
  next
    case False
    with Suc.prems(3) t have e: "r = Inr t" "c' = c" "s' = s1" by (auto split: sum.splits turn.splits)
    with pty_turn(2) [OF assms(1-4) _ pre] t assms(7) show ?thesis by simp
  qed
qed simp

text \<open>After the set-up the master descriptor is open and nothing waits.\<close>

definition pb_tx :: "'w \<times> pty_bridge \<Rightarrow> int option \<times> int list" where
  "pb_tx x = (pb_master_fd (snd x), pb_tx_backlog (snd x))"

lemma pb_tx_keeps [io_keeps_intros]:
  "io_keeps pb_tx (call m)" "io_keeps pb_tx (self_get g)" "io_keeps pb_tx (self_set (\<lambda>b. b\<lparr>pb_slave_path := p\<rparr>))"
  "io_keeps pb_tx (self_set (\<lambda>b. b\<lparr>pb_transcript := h\<rparr>))" "io_keeps pb_tx (self_set (\<lambda>b. b\<lparr>pb_rx_transcript := h\<rparr>))"
  "io_keeps pb_tx (self_set (\<lambda>b. b\<lparr>pb_thread := z\<rparr>))"
  by (auto simp: io_keeps_def pb_tx_def split: prod.split)

lemma pb_start_tx:
  assumes "pb_start os (w, b) = (Inr x, (w', b'))"
  shows "\<exists>fd. pb_master_fd b' = Some fd" and "pb_tx_backlog b' = pb_tx_backlog b"
proof -
  obtain master slave w1 where o: "sys_openpty os w = (Inr (master, slave), w1)"
    using assms by (auto simp: pb_start_def io_bind_def split: prod.splits sum.splits)
  have "\<exists>m. io_keeps pb_tx m \<and> m (w1, b\<lparr>pb_master_fd := Some master, pb_slave_fd := Some slave\<rparr>) = (Inr x, (w', b'))"
    using assms o unfolding pb_start_def make_parent_def
    by (simp only: io_simps self_simps io_then_set prod.case) (rule exI, rule conjI [rotated], assumption, intro io_keeps_intros)
  then have "pb_tx (w', b') = pb_tx (w1, b\<lparr>pb_master_fd := Some master, pb_slave_fd := Some slave\<rparr>)"
    by (auto dest: io_keepsD)
  then show "\<exists>fd. pb_master_fd b' = Some fd" "pb_tx_backlog b' = pb_tx_backlog b" by (simp_all add: pb_tx_def)
qed

lemma attach_same:
  assumes "\<forall>act \<in> set acts. \<forall>b. pb_same b (act b)" and "wait_for_attach_byte acts b = Some (x, b')"
  shows "pb_master_fd b' = pb_master_fd b \<and> pb_tx_backlog b' = pb_tx_backlog b"
  using assms
proof (induction acts arbitrary: b)
  case (Cons act acts)
  have same: "pb_master_fd (act b1) = pb_master_fd b1 \<and> pb_tx_backlog (act b1) = pb_tx_backlog b1" for b1
  proof -
    have "pb_same b1 (act b1)" using Cons.prems(1) by simp
    then show ?thesis by (cases b1; cases "act b1") (auto simp: pb_same_def)
  qed
  show ?case
  proof (cases "pb_stop b \<or> pb_queue b \<noteq> []")
    case True
    with Cons.prems(2) show ?thesis by (auto simp: pb_poll_def split: if_splits list.splits)
  next
    case False
    with Cons.prems(2) have "wait_for_attach_byte acts (act b) = Some (x, b')" by (simp add: pb_poll_def)
    with Cons.IH [of "act b"] Cons.prems(1) same [of b] show ?thesis by simp
  qed
qed simp

lemma linux_setup_pty:
  assumes "UART_PTY_ENABLE cfg" and "\<not> INTERACTIVE_TTY cfg" and "\<forall>act \<in> set acts. \<forall>b. pb_same b (act b)"
    and "linux_setup cfg os acts (linux_start cfg w) = (Inr True, s)"
  obtains b fd where "lx_pty_bridge s = Some b" and "pb_master_fd b = Some fd" and "pb_tx_backlog b = []"
    and "linux_inv duts 0 s"
proof -
  define s0 :: "('a, 'b) linux_test" where "s0 = linux_start cfg w"
  obtain b0 where b0: "PtyBridge cfg = Inr b0" "pb_tx_backlog b0 = []"
    using assms by (auto simp: linux_setup_def PtyBridge_def new_pty_bridge_def split: if_splits)
  obtain q w1 b1 where st: "pb_start os (lx_world s0, b0) = (q, (w1, b1))" by (metis prod_cases3)
  define ann where "ann = pty_announcement cfg"
  define s1 where "s1 = s0\<lparr>lx_world := w1, lx_pty_bridge := Some b1, lx_printed := lx_printed s0 @ ann b1\<rparr>"
  have "linux_setup cfg os acts s0 = (case q of Inl e \<Rightarrow> (Inl e, s0\<lparr>lx_world := w1, lx_pty_bridge := Some b1\<rparr>)
      | Inr z \<Rightarrow> linux_attach cfg acts s1)"
    unfolding linux_setup_def ann_def [symmetric] using assms(1,2) b0(1) st
    by (cases q) (simp_all add: on_pty_def io_then_def s1_def)
  with assms(4) have at: "linux_attach cfg acts s1 = (Inr True, s)" and q: "\<exists>z. q = Inr z"
    by (cases q; simp add: s0_def)+
  from q st obtain z where "pb_start os (lx_world s0, b0) = (Inr z, (w1, b1))" by auto
  note tx = pb_start_tx [OF this]
  have inv: "linux_inv duts 0 s1" using linux_inv_start [of duts cfg w] by (simp add: s1_def s0_def linux_inv_def)
  show thesis
  proof (cases "UART_PTY_WAIT_FOR_ATTACH cfg")
    case False
    with at have "s = s1" by (simp add: linux_attach_def)
    with tx b0(2) inv that show thesis by (auto simp: s1_def)
  next
    case True
    with at obtain x b2 where b2: "wait_for_attach_byte acts b1 = Some (x, b2)" "s = s1\<lparr>lx_pty_bridge := Some b2\<rparr>"
      by (auto simp: linux_attach_def s1_def split: option.splits if_splits)
    moreover have "linux_inv duts 0 s" using inv b2(2) by (simp add: linux_inv_def)
    ultimately show thesis using attach_same [OF assms(3) b2(1)] tx b0(2) that by auto
  qed
qed


text \<open>A client that makes room for one byte before edge 2 and is gone at edge 4.\<close>

definition client_others :: "(demo_world, unit) others" where
  "client_others c = (\<lambda>((out, room, drains), sb, pb).
     ((out, room + (if c = 2 then 1 else 0), drains), sb, if c = 4 then map_option pb_request_stop pb else pb))"

lemma client_others_ok: "keeps_bridges client_others" "fst (fst (client_others c x)) = fst (fst x)"
proof -
  have "pb_same b (pb_request_stop b)" "pb_same b b" "sb_same (a :: unit stdin_bridge) a" for a b
    by (simp_all add: pb_same_def sb_same_def pb_request_stop_def)
  then show "keeps_bridges client_others"
    by (auto simp: keeps_bridges_def client_others_def option.rel_map option.rel_refl split: prod.split)
  show "fst (fst (client_others c x)) = fst (fst x)" by (simp add: client_others_def split: prod.split)
qed


end
