(* ===== verification/Run_C_Code.thy ===== *)
theory Run_C_Code
  imports Uart_Monitor "HOL-Library.AList"
begin

text \<open>
  The rest of \<open>sim/run_c_code.py\<close>: the build of a program image with the cross compiler
  (\<open>compile_c_files\<close>), the simulation test \<open>run_c_code\<close>, the call of make and the command line.
  Files and subprocesses are a parameter, a record of operations over a world of any type. Log lines
  are not modelled.
\<close>

section \<open>Building the image\<close>

text \<open>\<open>t_run\<close> is \<open>subprocess.run(argv, stdout=..., check=True)\<close>.\<close>

record 'w tools =
  t_cwd :: path
  t_mkdir :: "path \<Rightarrow> ('w, unit) io"
  t_resolve :: "path \<Rightarrow> ('w, path) io"
  t_exists :: "path \<Rightarrow> ('w, bool) io"
  t_run :: "string list \<Rightarrow> path option \<Rightarrow> ('w, unit) io"
  t_open_w :: "path \<Rightarrow> ('w, unit) io"
  t_setenv :: "string \<Rightarrow> string \<Rightarrow> ('w, unit) io"

definition require_file :: "'w tools \<Rightarrow> path \<Rightarrow> string \<Rightarrow> ('w, unit) io" where
  "require_file t p message =
     io_bind (t_exists t p) (\<lambda>ex. io_when (\<not> ex) (io_raise (FileNotFoundError message)))"

definition gcc_object :: "string \<Rightarrow> path \<Rightarrow> path \<Rightarrow> string list" where
  "gcc_object optimise src obj =
     [''riscv64-unknown-elf-gcc'', ''-march=rv32i_zicsr_zifencei'', ''-mabi=ilp32'', ''-nostdlib'', ''-ffreestanding'',
      optimise, ''-g3'', ''-Wall'', ''-c'', path_str src, ''-o'', path_str obj]"

definition object_file :: "path \<Rightarrow> path \<Rightarrow> path" where
  "object_file build_dir c_file = build_dir @ [path_stem c_file @ ''.o'']"

fun compile_sources :: "'w tools \<Rightarrow> path \<Rightarrow> path list \<Rightarrow> ('w, path list) io" where
  "compile_sources t build_dir [] = io_return []"
| "compile_sources t build_dir (c_file # c_files) =
     io_then (require_file t c_file (''C file '' @ path_str c_file @ '' does not exist.''))
     (io_then (t_run t (gcc_object ''-O1'' c_file (object_file build_dir c_file)) None)
     (io_bind (compile_sources t build_dir c_files) (\<lambda>objects. io_return (object_file build_dir c_file # objects))))"

definition link_command :: "path \<Rightarrow> path list \<Rightarrow> path \<Rightarrow> string list" where
  "link_command link_ld objects elf =
     [''riscv64-unknown-elf-gcc'', ''-march=rv32i_zicsr_zifencei'', ''-mabi=ilp32'', ''-nostdlib'', ''-Wl,--no-relax'',
      ''-Wl,-m,elf32lriscv'', ''-T'', path_str link_ld] @ map path_str objects @ [''-o'', path_str elf]"

definition objcopy_binary :: "path \<Rightarrow> path \<Rightarrow> string list" where
  "objcopy_binary elf bin = [''riscv64-unknown-elf-objcopy'', ''-O'', ''binary'', path_str elf, path_str bin]"

definition truncate_command :: "path \<Rightarrow> string list" where
  "truncate_command bin = [''truncate'', ''-s'', ''2048'', path_str bin]"

definition objcopy_verilog :: "path \<Rightarrow> path \<Rightarrow> string list" where
  "objcopy_verilog bin hex =
     [''riscv64-unknown-elf-objcopy'', ''-I'', ''binary'', ''-O'', ''verilog'', ''--verilog-data-width=4'',
      ''--reverse-bytes=4'', path_str bin, path_str hex]"

definition objdump_command :: "path \<Rightarrow> string list" where
  "objdump_command elf =
     [''riscv64-unknown-elf-objdump'', ''-D'', ''--visualize-jumps'', ''-t'', ''-S'', ''--source-comment=//'',
      ''-M no-aliases,numeric'', path_str elf]"

definition compile_c_files :: "'w tools \<Rightarrow> path list \<Rightarrow> ('w, path \<times> path \<times> path) io" where
  "compile_c_files t c_files =
     (let build_dir = t_cwd t @ [''build''];
          elf_file = build_dir @ [''output.elf'']; bin_file = build_dir @ [''output.bin''];
          hex_file = build_dir @ [''output.hex'']; lss_file = build_dir @ [''output.lss'']; start_o = build_dir @ [''start.o'']
      in io_then (t_mkdir t build_dir)
         (io_bind (t_resolve t (t_cwd t)) (\<lambda>sim_dir.
          let start_s = sim_dir @ [''start.S'']; link_ld = sim_dir @ [''link.ld''] in
          io_then (require_file t start_s (''start.s not found in '' @ path_str sim_dir @ ''. Please ensure it exists.''))
          (io_then (require_file t link_ld (''link.ld not found in '' @ path_str sim_dir @ ''. Please ensure it exists.''))
          (io_bind (compile_sources t build_dir c_files) (\<lambda>objects.
           io_then (t_run t (gcc_object ''-O3'' start_s start_o) None)
           (io_then (t_run t (link_command link_ld (objects @ [start_o]) elf_file) None)
           (io_then (t_run t (objcopy_binary elf_file bin_file) None)
           (io_then (t_run t (truncate_command bin_file) None)
           (io_then (t_run t (objcopy_verilog bin_file hex_file) None)
           (io_then (t_open_w t lss_file)
           (io_then (t_run t (objdump_command elf_file) (Some lss_file))
             (io_return (bin_file, hex_file, lss_file))))))))))))))"

section \<open>The simulation\<close>

definition DATA_MEM_BASE :: int where "DATA_MEM_BASE = 0x10000000"
definition CPU_DONE_ADDR :: int where "CPU_DONE_ADDR = DATA_MEM_BASE + 0xFF"

text \<open>Truth of a one-bit signal: an unknown bit is false.\<close>

definition truthy :: "sigval \<Rightarrow> bool py" where
  "truthy h = (case h of Missing \<Rightarrow> Inl AttributeError | Unresolvable \<Rightarrow> Inr False | Value v \<Rightarrow> Inr (v \<noteq> 0))"

text \<open>
  A turn of the cycle loop on the dictionary \<open>mem_accesses\<close>, which keeps the order in which its keys came;
  the result of the loop is an exception or \<open>cpu_done\<close>.
\<close>

definition run_body :: "(nat \<Rightarrow> dut) \<Rightarrow> nat \<Rightarrow> (int \<times> int) list \<Rightarrow> (int \<times> int) list + (nat \<times> (int \<times> int) list) py" where
  "run_body duts cycle mem_accesses =
     (case truthy (duts cycle ''cpu_mem_write_en'') of Inl e \<Rightarrow> Inr (Inl e)
      | Inr False \<Rightarrow> Inl mem_accesses
      | Inr True \<Rightarrow>
          (case py_bind (dut_int (duts cycle) ''cpu_mem_write_addr'') (\<lambda>addr.
                py_bind (dut_int (duts cycle) ''cpu_mem_write_data'') (\<lambda>data. Inr (addr, data))) of
             Inl e \<Rightarrow> Inr (Inl e)
           | Inr (addr, data) \<Rightarrow>
               let mem_accesses = AList.update addr data mem_accesses
               in if addr = CPU_DONE_ADDR \<and> data AND 0xFF = 1 then Inr (Inr (cycle, mem_accesses)) else Inl mem_accesses))"

definition max_cycles :: nat where "max_cycles = 5000000"

datatype run_end = Completed | Limit_reached | Unexpected

record run_result =
  ended :: run_end
  total_cycles :: nat
  uart_output :: "char option list"
  mem_log :: "(int \<times> int) list"

definition monitor_period :: nat where
  "monitor_period = baud_period_cycles 100000000"

text \<open>
  The edges of the loop are numbered from 0; the monitor, started before the loop, looks at the line once
  before edge 0, so its edge \<open>Suc c\<close> is the loop's \<open>c\<close>. An exception of the monitor ends the test. Which
  of the two coroutines an edge wakes first is the simulator's choice: \<open>late\<close> says that at the last edge
  it is the monitor.
\<close>

definition run_turn ::
  "(nat \<Rightarrow> dut) \<Rightarrow> (nat \<Rightarrow> sigval) \<Rightarrow> nat \<Rightarrow> (int \<times> int) list \<Rightarrow> (int \<times> int) list + (nat \<times> (int \<times> int) list) py" where
  "run_turn duts tx cycle mem_accesses =
     (case um_pc (start_monitoring monitor_period (\<lambda>_. True) tx cycle) of
        Raised e \<Rightarrow> Inr (Inl e) | _ \<Rightarrow> run_body duts cycle mem_accesses)"

definition summarise :: "run_end \<Rightarrow> nat \<Rightarrow> (int \<times> int) list \<Rightarrow> uart_monitor \<Rightarrow> run_result py" where
  "summarise status cycle mem_accesses m =
     (case um_pc m of Raised e \<Rightarrow> Inl e
      | _ \<Rightarrow> py_bind (get_received_string m) (\<lambda>received_string.
          Inr \<lparr>ended = status, total_cycles = cycle + 1, uart_output = received_string, mem_log = mem_accesses\<rparr>))"

text \<open>
  When the program is done the monitor is told to stop and awaited. By \<open>monitor_stops\<close> it has ended
  after ten bit periods, so its state then is the one it ends in.
\<close>

definition await_monitor :: "bool \<Rightarrow> (nat \<Rightarrow> sigval) \<Rightarrow> nat \<Rightarrow> uart_monitor" where
  "await_monitor late tx cycle =
     start_monitoring monitor_period (\<lambda>n. n \<le> cycle \<or> late \<and> n = Suc cycle) tx (Suc cycle + 10 * monitor_period)"

definition run_c_code_for :: "nat \<Rightarrow> bool \<Rightarrow> (nat \<Rightarrow> dut) \<Rightarrow> (nat \<Rightarrow> sigval) \<Rightarrow> run_result py" where
  "run_c_code_for limit late duts tx =
     (case for_cycles (run_turn duts tx) limit 0 [] of
        Inr (Inl e) \<Rightarrow> Inl e
      | Inr (Inr (cycle, mem)) \<Rightarrow> summarise Completed cycle mem (await_monitor late tx cycle)
      | Inl mem \<Rightarrow>
          let cycle = limit - 1
          in summarise (if limit - 1 \<le> cycle then Limit_reached else Unexpected) cycle mem
               (start_monitoring monitor_period (\<lambda>_. True) tx (if late then Suc cycle else cycle)))"

definition run_c_code :: "bool \<Rightarrow> (nat \<Rightarrow> dut) \<Rightarrow> (nat \<Rightarrow> sigval) \<Rightarrow> run_result py" where
  "run_c_code = run_c_code_for max_cycles"

section \<open>Make and the command line\<close>

definition runMakefile :: "'w tools \<Rightarrow> ('w, unit) io" where
  "runMakefile t =
     (let makefile_path = t_cwd t @ [''c_runner.mk''] in
      io_bind (t_exists t (t_cwd t @ [''sim_build''])) (\<lambda>ex.
      io_then (io_when ex (t_run t [''cocotb-clean''] None))
      (io_then (require_file t makefile_path (''Makefile not found at '' @ path_str makefile_path @ ''. Please ensure it exists.''))
         (t_run t [''make'', ''-f'', path_str makefile_path] None))))"

fun all_exist :: "'w tools \<Rightarrow> path list \<Rightarrow> ('w, bool) io" where
  "all_exist t [] = io_return True"
| "all_exist t (p # ps) = io_bind (t_exists t p) (\<lambda>ex. if ex then all_exist t ps else io_return False)"

text \<open>The exit status; every exception of the build and of make becomes status 1.\<close>

definition run_c_main :: "'w tools \<Rightarrow> path list \<Rightarrow> ('w, int) io" where
  "run_c_main t c_files =
     (if c_files = [] then io_return 1
      else io_bind (all_exist t c_files) (\<lambda>ok.
        if \<not> ok then io_return 1
        else io_catch
          (io_bind (compile_c_files t c_files) (\<lambda>(bin_file, hex_file, lss_file).
           io_then (t_setenv t ''INSTRUCTION_MEMORY_HEX'' (path_str hex_file))
           (io_then (runMakefile t) (io_return 0))))
          (\<lambda>e. io_return 1)))"

section \<open>What the simulation reports\<close>

definition bus_write_at :: "(nat \<Rightarrow> dut) \<Rightarrow> nat \<Rightarrow> (int \<times> int) option" where
  "bus_write_at duts c =
     (if sig duts ''cpu_mem_write_en'' c \<noteq> 0
      then Some (sig duts ''cpu_mem_write_addr'' c, sig duts ''cpu_mem_write_data'' c) else None)"

definition done_at :: "(nat \<Rightarrow> dut) \<Rightarrow> nat \<Rightarrow> bool" where
  "done_at duts c \<longleftrightarrow>
     (case bus_write_at duts c of None \<Rightarrow> False | Some (addr, data) \<Rightarrow> addr = CPU_DONE_ADDR \<and> data AND 0xFF = 1)"

fun last_write :: "(nat \<Rightarrow> dut) \<Rightarrow> nat \<Rightarrow> int \<Rightarrow> int option" where
  "last_write duts 0 a = None"
| "last_write duts (Suc c) a =
     (case bus_write_at duts c of None \<Rightarrow> last_write duts c a
      | Some (addr, data) \<Rightarrow> if addr = a then Some data else last_write duts c a)"

definition bus_readable :: "(nat \<Rightarrow> dut) \<Rightarrow> bool" where
  "bus_readable duts \<longleftrightarrow> readable duts ''cpu_mem_write_en'' \<and> readable duts ''cpu_mem_write_addr'' \<and>
     readable duts ''cpu_mem_write_data''"

lemma run_body_step:
  assumes "bus_readable duts"
  shows "run_body duts c mem =
    (case bus_write_at duts c of None \<Rightarrow> Inl mem
     | Some (addr, data) \<Rightarrow> if done_at duts c then Inr (Inr (c, AList.update addr data mem)) else Inl (AList.update addr data mem))"
proof -
  have v: "duts c n = Value (sig duts n c)" if "n \<in> {''cpu_mem_write_en'', ''cpu_mem_write_addr'', ''cpu_mem_write_data''}" for n
    using assms that by (auto simp: bus_readable_def readable_def dut_int_Inr_iff)
  show ?thesis
    by (simp add: run_body_def v truthy_def bus_write_at_def done_at_def Let_def)
qed

text \<open>A transmit line whose value can always be read.\<close>

definition one_bit_line :: "(nat \<Rightarrow> sigval) \<Rightarrow> bool" where
  "one_bit_line tx \<longleftrightarrow> (\<forall>n. tx n = Value 0 \<or> tx n = Value 1)"

lemma one_bit_readable: "one_bit_line tx \<Longrightarrow> one_bit tx"
  unfolding one_bit_line_def one_bit_def by (metis sigval.inject)

lemma line_never_raises:
  assumes "one_bit_line tx"
  shows "um_pc (start_monitoring P flag tx n) \<noteq> Raised e"
proof (induction n arbitrary: e)
  case 0
  have "tx 0 = Value 0 \<or> tx 0 = Value 1" using assms by (simp add: one_bit_line_def)
  then show ?case by (auto simp: monitoring_loop_def look_for_start_def int_value_def split: if_splits)
next
  case (Suc n)
  obtain v where v: "tx (Suc n) = Value v" using assms unfolding one_bit_line_def by blast
  show ?case using Suc [of e]
    by (cases "um_pc (start_monitoring P flag tx n)")
      (auto simp: v monitor_edge_def sample_bit_def monitoring_loop_def look_for_start_def int_value_def Let_def split: if_splits)
qed

definition run_inv :: "(nat \<Rightarrow> dut) \<Rightarrow> nat \<Rightarrow> (int \<times> int) list \<Rightarrow> bool" where
  "run_inv duts c mem \<longleftrightarrow> (\<forall>k < c. \<not> done_at duts k) \<and> map_of mem = last_write duts c \<and> distinct (map fst mem)"

lemma run_loop:
  assumes "bus_readable duts" and "one_bit_line tx"
  shows "case for_cycles (run_turn duts tx) limit 0 [] of
      Inl mem \<Rightarrow> run_inv duts limit mem
    | Inr r \<Rightarrow> \<exists>c < limit. \<exists>mem. r = Inr (c, mem) \<and> done_at duts c \<and> (\<forall>k < c. \<not> done_at duts k) \<and>
        map_of mem = last_write duts (Suc c) \<and> distinct (map fst mem)"
proof -
  have turn: "run_turn duts tx c mem = run_body duts c mem" for c mem
    using line_never_raises [OF assms(2)] by (auto simp: run_turn_def split: monitor_pc.split)
  have upd: "map_of (AList.update a d mem) = last_write duts (Suc c)" "distinct (map fst (AList.update a d mem))"
    if "run_inv duts c mem" "bus_write_at duts c = Some (a, d)" for c mem a d
    using that by (auto simp: run_inv_def update_conv' distinct_update)
  have "case for_cycles (run_turn duts tx) limit 0 [] of
      Inl mem \<Rightarrow> run_inv duts (0 + limit) mem
    | Inr r \<Rightarrow> \<exists>c. 0 \<le> c \<and> c < 0 + limit \<and> (\<exists>mem. r = Inr (c, mem) \<and> done_at duts c \<and> (\<forall>k < c. \<not> done_at duts k) \<and>
        map_of mem = last_write duts (Suc c) \<and> distinct (map fst mem))"
  proof (rule for_cycles_rule [where I = "run_inv duts"])
    show "run_inv duts 0 []" by (auto simp: run_inv_def)
  next
    fix c mem mem'
    assume i: "run_inv duts c mem" "run_turn duts tx c mem = Inl mem'"
    then show "run_inv duts (Suc c) mem'"
      using upd [OF i(1)] unfolding turn run_body_step [OF assms(1)]
      by (auto simp: run_inv_def done_at_def less_Suc_eq split: option.splits if_splits)
  next
    fix c mem r
    assume i: "run_inv duts c mem" "run_turn duts tx c mem = Inr r"
    then show "\<exists>mem. r = Inr (c, mem) \<and> done_at duts c \<and> (\<forall>k < c. \<not> done_at duts k) \<and>
        map_of mem = last_write duts (Suc c) \<and> distinct (map fst mem)"
      using upd [OF i(1)] unfolding turn run_body_step [OF assms(1)]
      by (auto simp: run_inv_def split: option.splits if_splits)
  qed
  then show ?thesis by (auto split: sum.splits)
qed

definition first_done :: "(nat \<Rightarrow> dut) \<Rightarrow> nat \<Rightarrow> nat \<Rightarrow> bool" where
  "first_done duts limit c \<longleftrightarrow> c < limit \<and> done_at duts c \<and> list_all (\<lambda>k. \<not> done_at duts k) [0..<c]"

lemma first_done_unique: "first_done duts limit c \<Longrightarrow> first_done duts limit d \<Longrightarrow> c = d"
  by (metis atLeast0LessThan atLeast_upt first_done_def lessThan_iff linorder_neqE_nat list_all_iff)

text \<open>
  C37. \<open>run_c_code\<close> ends at the first store of a word whose low byte is 1 to \<open>CPU_DONE_ADDR\<close> and reports
  completion with that many cycles; without such a store it runs \<open>max_cycles\<close> cycles and reports that
  the limit was reached. The report of an unexpected end is never made. The memory log has each address
  written once, with the last value written to it.
\<close>

theorem run_c_code_result:
  assumes "bus_readable duts" and "one_bit_line tx"
  shows "\<exists>r. run_c_code late duts tx = Inr r \<and> ended r \<noteq> Unexpected \<and>
           (ended r = Completed \<longleftrightarrow> (\<exists>c. first_done duts max_cycles c)) \<and>
           (if ended r = Completed then first_done duts max_cycles (total_cycles r - 1) \<and> 0 < total_cycles r
            else total_cycles r = max_cycles) \<and>
           map_of (mem_log r) = last_write duts (total_cycles r) \<and> distinct (map fst (mem_log r))"
proof -
  note raises = line_never_raises [OF assms(2)]
  have sum: "summarise st c mem (start_monitoring P flag tx n) =
      Inr \<lparr>ended = st, total_cycles = c + 1,
           uart_output = decode_ascii_replace (received_bytes (start_monitoring P flag tx n)), mem_log = mem\<rparr>"
    for st c mem P flag n
    using raises received_string_ok [OF one_bit_readable [OF assms(2)]] by (auto simp: summarise_def split: monitor_pc.split)
  have pos: "0 < max_cycles" by (simp add: max_cycles_def)
  show ?thesis
  proof (cases "for_cycles (run_turn duts tx) max_cycles 0 []")
    case (Inl mem)
    then have "run_inv duts max_cycles mem" using run_loop [where tx = tx and limit = max_cycles, OF assms] by simp
    moreover from this have "\<not> (\<exists>c. first_done duts max_cycles c)" by (auto simp: run_inv_def first_done_def)
    ultimately show ?thesis
      using Inl pos by (simp add: run_c_code_def run_c_code_for_def sum Let_def run_inv_def)
  next
    case (Inr r)
    then obtain c mem where r: "r = Inr (c, mem)" "c < max_cycles" "done_at duts c" "\<forall>k < c. \<not> done_at duts k"
      "map_of mem = last_write duts (Suc c)" "distinct (map fst mem)" using run_loop [where tx = tx and limit = max_cycles, OF assms] by auto
    then have "first_done duts max_cycles c" by (auto simp: first_done_def list_all_iff)
    moreover have "run_c_code late duts tx = summarise Completed c mem (await_monitor late tx c)"
      using Inr r(1) by (simp add: run_c_code_def run_c_code_for_def)
    ultimately show ?thesis
      unfolding await_monitor_def sum using r by auto
  qed
qed

definition done_duts :: "nat \<Rightarrow> dut" where
  "done_duts c n =
     (if n = ''cpu_mem_write_en'' then Value (if c < 3 then 1 else 0)
      else if n = ''cpu_mem_write_addr'' then Value (if c = 1 then 0x10000004 else CPU_DONE_ADDR)
      else Value (if c = 2 then 0x101 else 7))"

theorem run_c_code_result_witness:
  "\<exists>r. run_c_code False done_duts (\<lambda>n. Value 1) = Inr r \<and> ended r = Completed \<and> total_cycles r = 3 \<and>
     map_of (mem_log r) CPU_DONE_ADDR = Some 0x101"
proof -
  have ok: "bus_readable done_duts" by (simp add: bus_readable_def readable_def sig_def done_duts_def)
  have "2 < max_cycles" by (simp add: max_cycles_def)
  moreover have "done_at done_duts 2 \<and> list_all (\<lambda>k. \<not> done_at done_duts k) [0..<2]" by code_simp
  ultimately have fd: "first_done done_duts max_cycles 2" by (simp add: first_done_def)
  have lw: "last_write done_duts 3 CPU_DONE_ADDR = Some 0x101" by code_simp
  obtain r where r: "run_c_code False done_duts (\<lambda>n. Value 1) = Inr r" "ended r = Completed"
    "first_done done_duts max_cycles (total_cycles r - 1)" "0 < total_cycles r" "map_of (mem_log r) = last_write done_duts (total_cycles r)"
    using run_c_code_result [of done_duts "\<lambda>n. Value 1" False, OF ok] fd by (auto simp: one_bit_line_def)
  from first_done_unique [OF r(3) fd] r(4) have "total_cycles r = 3" by simp
  with r lw show ?thesis by auto
qed

section \<open>What the build runs\<close>

text \<open>The commands of a build, in order.\<close>

definition build_plan :: "path \<Rightarrow> path \<Rightarrow> path list \<Rightarrow> (string list \<times> path option) list" where
  "build_plan cwd sim_dir c_files =
     (let b = cwd @ [''build''] in
      map (\<lambda>c. (gcc_object ''-O1'' c (object_file b c), None)) c_files @
      [(gcc_object ''-O3'' (sim_dir @ [''start.S'']) (b @ [''start.o'']), None),
       (link_command (sim_dir @ [''link.ld'']) (map (object_file b) c_files @ [b @ [''start.o'']]) (b @ [''output.elf'']), None),
       (objcopy_binary (b @ [''output.elf'']) (b @ [''output.bin'']), None),
       (truncate_command (b @ [''output.bin'']), None),
       (objcopy_verilog (b @ [''output.bin'']) (b @ [''output.hex'']), None),
       (objdump_command (b @ [''output.elf'']), Some (b @ [''output.lss'']))])"

text \<open>
  The hypotheses on the tools: a log \<open>commands\<close> of the commands that completed; checking, creating and
  resolving paths run nothing; a command that succeeds is logged, one that fails raises and is not.
\<close>

definition tools_law :: "'w tools \<Rightarrow> ('w \<Rightarrow> (string list \<times> path option) list) \<Rightarrow> bool" where
  "tools_law t commands \<longleftrightarrow>
     (\<forall>p. io_keeps commands (t_mkdir t p)) \<and> (\<forall>p. io_keeps commands (t_resolve t p)) \<and> (\<forall>p. io_keeps commands (t_exists t p)) \<and>
     (\<forall>p. io_keeps commands (t_open_w t p)) \<and>
     (\<forall>argv f w. commands (snd (t_run t argv f w)) = commands w @ (if isl (fst (t_run t argv f w)) then [] else [(argv, f)]))"

text \<open>
  \<open>io_runs commands plan R m\<close>: \<open>m\<close> runs the commands of \<open>plan\<close> in order, all of them when it returns, and
  then its result satisfies \<open>R\<close>; when it raises, the commands completed are a prefix of \<open>plan\<close>.
\<close>

definition io_runs :: "('w \<Rightarrow> 'c list) \<Rightarrow> 'c list \<Rightarrow> ('a \<Rightarrow> bool) \<Rightarrow> ('w, 'a) io \<Rightarrow> bool" where
  "io_runs commands plan R m \<longleftrightarrow>
     (\<forall>w. \<exists>k. commands (snd (m w)) = commands w @ take k plan \<and>
        (case fst (m w) of Inl e \<Rightarrow> True | Inr x \<Rightarrow> length plan \<le> k \<and> R x))"

lemma io_runs_bind:
  assumes "io_runs commands p R m" and "\<And>x. R x \<Longrightarrow> io_runs commands q S (f x)"
  shows "io_runs commands (p @ q) S (io_bind m f)"
  unfolding io_runs_def
proof
  fix w
  obtain r w' where m: "m w = (r, w')" by fastforce
  with assms(1) obtain k where k: "commands w' = commands w @ take k p"
    "case r of Inl e \<Rightarrow> True | Inr x \<Rightarrow> length p \<le> k \<and> R x"
    unfolding io_runs_def by (metis fst_conv snd_conv)
  show "\<exists>k. commands (snd (io_bind m f w)) = commands w @ take k (p @ q) \<and>
      (case fst (io_bind m f w) of Inl e \<Rightarrow> True | Inr x \<Rightarrow> length (p @ q) \<le> k \<and> S x)"
  proof (cases r)
    case (Inl e)
    have "take k p = take (min k (length p)) (p @ q)" by (cases "k \<le> length p") auto
    with Inl m k(1) show ?thesis by (auto intro!: exI [of _ "min k (length p)"])
  next
    case (Inr x)
    with k assms(2) obtain j where "commands (snd (f x w')) = commands w' @ take j q"
      "case fst (f x w') of Inl e \<Rightarrow> True | Inr y \<Rightarrow> length q \<le> j \<and> S y"
      unfolding io_runs_def by fastforce
    with Inr m k show ?thesis by (auto intro!: exI [of _ "length p + j"] split: sum.splits)
  qed
qed

lemma io_runs_bind_eq:
  "io_runs commands p (\<lambda>x. x = a) m \<Longrightarrow> io_runs commands q S (f a) \<Longrightarrow> io_runs commands (p @ q) S (io_bind m f)"
  by (rule io_runs_bind [where R = "\<lambda>x. x = a"]) simp_all

lemma io_runs_then:
  "io_runs commands p (\<lambda>_. True) m \<Longrightarrow> io_runs commands q S n \<Longrightarrow> io_runs commands (p @ q) S (io_then m n)"
  unfolding io_then_def by (rule io_runs_bind)

lemma io_runs_return: "R x \<Longrightarrow> io_runs commands [] R (io_return x)"
  by (simp add: io_runs_def)

lemma io_runs_keeps: "io_keeps commands m \<Longrightarrow> io_runs commands [] (\<lambda>_. True) m"
  by (simp add: io_runs_def io_keeps_def split: sum.split)

lemma io_runs_command:
  assumes "tools_law t commands"
  shows "io_runs commands [(argv, f)] (\<lambda>_. True) (t_run t argv f)"
  unfolding io_runs_def
proof
  fix w
  show "\<exists>k. commands (snd (t_run t argv f w)) = commands w @ take k [(argv, f)] \<and>
      (case fst (t_run t argv f w) of Inl e \<Rightarrow> True | Inr x \<Rightarrow> length [(argv, f)] \<le> k \<and> True)"
    using assms by (cases "fst (t_run t argv f w)") (auto simp: tools_law_def intro: exI [of _ 0] exI [of _ 1])
qed

lemma require_file_runs:
  assumes "tools_law t commands"
  shows "io_runs commands [] (\<lambda>_. True) (require_file t p msg)"
  unfolding require_file_def using assms
  by (intro io_runs_keeps io_keeps_intros) (simp add: tools_law_def)

lemma compile_sources_runs:
  assumes "tools_law t commands"
  shows "io_runs commands (map (\<lambda>c. (gcc_object ''-O1'' c (object_file b c), None)) c_files) (\<lambda>objects. objects = map (object_file b) c_files)
    (compile_sources t b c_files)"
proof (induction c_files)
  case Nil
  show ?case unfolding compile_sources.simps list.map by (rule io_runs_return) simp
next
  case (Cons c c_files)
  have "io_runs commands ([] @ [(gcc_object ''-O1'' c (object_file b c), None)] @
      map (\<lambda>c. (gcc_object ''-O1'' c (object_file b c), None)) c_files @ []) (\<lambda>objects. objects = map (object_file b) (c # c_files))
      (compile_sources t b (c # c_files))"
    unfolding compile_sources.simps
    by (intro io_runs_then io_runs_bind_eq [OF Cons.IH] require_file_runs [OF assms] io_runs_command [OF assms] io_runs_return) simp
  then show ?case by simp
qed

lemma tools_keeps:
  assumes "tools_law t commands"
  shows "io_runs commands [] (\<lambda>_. True) (t_mkdir t p)" "io_runs commands [] (\<lambda>_. True) (t_resolve t p)"
    "io_runs commands [] (\<lambda>_. True) (t_open_w t p)"
  using assms by (auto simp: tools_law_def intro: io_runs_keeps)

text \<open>The part of the build after the directory of \<open>start.S\<close> is known.\<close>

definition compile_in :: "'w tools \<Rightarrow> path \<Rightarrow> path list \<Rightarrow> path \<Rightarrow> ('w, path \<times> path \<times> path) io" where
  "compile_in t b c_files sim_dir =
     io_then (require_file t (sim_dir @ [''start.S'']) (''start.s not found in '' @ path_str sim_dir @ ''. Please ensure it exists.''))
     (io_then (require_file t (sim_dir @ [''link.ld'']) (''link.ld not found in '' @ path_str sim_dir @ ''. Please ensure it exists.''))
     (io_bind (compile_sources t b c_files) (\<lambda>objects.
      io_then (t_run t (gcc_object ''-O3'' (sim_dir @ [''start.S'']) (b @ [''start.o''])) None)
      (io_then (t_run t (link_command (sim_dir @ [''link.ld'']) (objects @ [b @ [''start.o'']]) (b @ [''output.elf''])) None)
      (io_then (t_run t (objcopy_binary (b @ [''output.elf'']) (b @ [''output.bin''])) None)
      (io_then (t_run t (truncate_command (b @ [''output.bin''])) None)
      (io_then (t_run t (objcopy_verilog (b @ [''output.bin'']) (b @ [''output.hex''])) None)
      (io_then (t_open_w t (b @ [''output.lss'']))
      (io_then (t_run t (objdump_command (b @ [''output.elf''])) (Some (b @ [''output.lss''])))
        (io_return (b @ [''output.bin''], b @ [''output.hex''], b @ [''output.lss''])))))))))))"

lemma compile_c_files_eq:
  "compile_c_files t c_files =
     io_then (t_mkdir t (t_cwd t @ [''build''])) (io_bind (t_resolve t (t_cwd t)) (compile_in t (t_cwd t @ [''build'']) c_files))"
  by (simp only: compile_c_files_def compile_in_def [abs_def] Let_def)

lemma compile_in_runs:
  assumes "tools_law t commands" and "b = t_cwd t @ [''build'']"
  shows "io_runs commands (build_plan (t_cwd t) sim_dir c_files)
    (\<lambda>r. r = (b @ [''output.bin''], b @ [''output.hex''], b @ [''output.lss''])) (compile_in t b c_files sim_dir)"
proof -
  note step = io_runs_then require_file_runs [OF assms(1)] io_runs_command [OF assms(1)] tools_keeps(3) [OF assms(1)] io_runs_return
  have "io_runs commands ([] @ [] @ map (\<lambda>c. (gcc_object ''-O1'' c (object_file b c), None)) c_files @
      [(gcc_object ''-O3'' (sim_dir @ [''start.S'']) (b @ [''start.o'']), None)] @
      [(link_command (sim_dir @ [''link.ld'']) (map (object_file b) c_files @ [b @ [''start.o'']]) (b @ [''output.elf'']), None)] @
      [(objcopy_binary (b @ [''output.elf'']) (b @ [''output.bin'']), None)] @
      [(truncate_command (b @ [''output.bin'']), None)] @
      [(objcopy_verilog (b @ [''output.bin'']) (b @ [''output.hex'']), None)] @ [] @
      [(objdump_command (b @ [''output.elf'']), Some (b @ [''output.lss'']))] @ [])
    (\<lambda>r. r = (b @ [''output.bin''], b @ [''output.hex''], b @ [''output.lss''])) (compile_in t b c_files sim_dir)"
    unfolding compile_in_def
    by (intro io_runs_bind_eq [OF compile_sources_runs [OF assms(1)]] step refl)
  then show ?thesis unfolding build_plan_def Let_def assms(2) by simp
qed

lemma compile_runs_all:
  assumes "tools_law t commands" and "compile_c_files t c_files w = (Inr x, w')"
  shows "\<exists>sim_dir. commands w' = commands w @ build_plan (t_cwd t) sim_dir c_files"
proof -
  obtain u sim_dir w1 w2 where s: "t_mkdir t (t_cwd t @ [''build'']) w = (Inr u, w1)" "t_resolve t (t_cwd t) w1 = (Inr sim_dir, w2)"
    "compile_in t (t_cwd t @ [''build'']) c_files sim_dir w2 = (Inr x, w')"
    using assms(2) unfolding compile_c_files_eq io_then_def io_bind_Inr by blast
  have k: "io_keeps commands (t_mkdir t p)" "io_keeps commands (t_resolve t p)" for p using assms(1) by (simp_all add: tools_law_def)
  have "commands w2 = commands w" using io_keepsD [OF k(1) s(1)] io_keepsD [OF k(2) s(2)] by simp
  moreover have "commands w' = commands w2 @ build_plan (t_cwd t) sim_dir c_files"
    using compile_in_runs [OF assms(1) refl, of sim_dir c_files] s(3) unfolding io_runs_def by (auto dest!: spec [of _ w2])
  ultimately show ?thesis by auto
qed


text \<open>Tools over a world that is the log itself; a command of the given name fails.\<close>

definition log_tools :: "string \<Rightarrow> (string list \<times> path option) list tools" where
  "log_tools bad =
     \<lparr>t_cwd = [''/'', ''sim''], t_mkdir = (\<lambda>_. io_return ()), t_resolve = io_return, t_exists = (\<lambda>_. io_return True),
      t_run = (\<lambda>argv f w. if hd argv = bad then (Inl (CalledProcessError bad), w) else (Inr (), w @ [(argv, f)])),
      t_open_w = (\<lambda>_. io_return ()), t_setenv = (\<lambda>_ _. io_return ())\<rparr>"

lemma log_tools_law: "tools_law (log_tools bad) id"
  by (auto simp: tools_law_def log_tools_def io_keeps_def)


text \<open>
  The link gets a different object for every source exactly when the C files have different stems
  and none is called \<open>start\<close>: the object of a C file is named after its stem alone, in one directory for
  all, and \<open>start.o\<close> is also the object of \<open>start.S\<close>.
\<close>

theorem objects_distinct_iff:
  "distinct (map (object_file build_dir) c_files @ [build_dir @ [''start.o'']]) \<longleftrightarrow>
     distinct (map path_stem c_files) \<and> ''start'' \<notin> set (map path_stem c_files)"
proof -
  have inj: "object_file build_dir c = object_file build_dir d \<longleftrightarrow> path_stem c = path_stem d" for c d
    by (simp add: object_file_def)
  have "distinct (map (object_file build_dir) c_files) \<longleftrightarrow> distinct (map path_stem c_files)"
    by (simp add: distinct_conv_nth inj)
  moreover have start: "build_dir @ [''start.o''] = object_file build_dir c \<longleftrightarrow> ''start'' = path_stem c" for c
  proof -
    have "''start.o'' = path_stem c @ ''.o'' \<longleftrightarrow> ''start'' @ ''.o'' = path_stem c @ ''.o''" by simp
    also have "\<dots> \<longleftrightarrow> ''start'' = path_stem c" by (simp only: append_same_eq)
    finally show ?thesis by (simp only: object_file_def same_append_eq list.inject) simp
  qed
  moreover have "build_dir @ [''start.o''] \<in> set (map (object_file build_dir) c_files) \<longleftrightarrow> ''start'' \<in> set (map path_stem c_files)"
    unfolding set_map image_iff start by (rule refl)
  ultimately show ?thesis unfolding distinct_append by (simp del: set_map)
qed

section \<open>The command line\<close>

definition make_commands :: "path \<Rightarrow> bool \<Rightarrow> (string list \<times> path option) list" where
  "make_commands cwd clean =
     (if clean then [([''cocotb-clean''], None)] else []) @ [([''make'', ''-f'', path_str (cwd @ [''c_runner.mk''])], None)]"

lemma io_runs_when:
  "(b \<Longrightarrow> io_runs commands p (\<lambda>_. True) m) \<Longrightarrow> io_runs commands (if b then p else []) (\<lambda>_. True) (io_when b m)"
  by (cases b) (simp_all add: io_when_def io_runs_def)

lemma runMakefile_runs:
  assumes "tools_law t commands" and "runMakefile t w = (Inr (), w')"
  shows "\<exists>clean. commands w' = commands w @ make_commands (t_cwd t) clean"
proof -
  obtain clean w1 where ex: "t_exists t (t_cwd t @ [''sim_build'']) w = (Inr clean, w1)"
    using assms(2) unfolding runMakefile_def Let_def io_bind_Inr by blast
  have "io_keeps commands (t_exists t p)" for p using assms(1) by (simp add: tools_law_def)
  note c1 = io_keepsD [OF this ex]
  define m where "m = io_then (io_when clean (t_run t [''cocotb-clean''] None))
      (io_then (require_file t (t_cwd t @ [''c_runner.mk'']) (''Makefile not found at '' @ path_str (t_cwd t @ [''c_runner.mk'']) @ ''. Please ensure it exists.''))
         (t_run t [''make'', ''-f'', path_str (t_cwd t @ [''c_runner.mk''])] None))"
  have "io_runs commands ((if clean then [([''cocotb-clean''], None)] else []) @ [] @
      [([''make'', ''-f'', path_str (t_cwd t @ [''c_runner.mk''])], None)]) (\<lambda>_. True) m"
    unfolding m_def by (intro io_runs_then io_runs_when io_runs_command [OF assms(1)] require_file_runs [OF assms(1)])
  moreover have "m w1 = (Inr (), w')" using assms(2) ex by (simp add: runMakefile_def Let_def m_def)
  ultimately obtain k where "commands w' = commands w1 @ take k (make_commands (t_cwd t) clean)"
    "length (make_commands (t_cwd t) clean) \<le> k"
    unfolding io_runs_def make_commands_def by (auto dest!: spec [of _ w1])
  with c1 show ?thesis by auto
qed

lemma all_exist_keeps:
  assumes "\<And>p. io_keeps commands (t_exists t p)"
  shows "io_keeps commands (all_exist t ps)"
  by (induction ps) (unfold all_exist.simps, (intro io_keeps_intros assms | assumption)+)

text \<open>
  The script's exit status is 0 or 1 whatever the compiler, make and the file system do, unless the
  first look at the C files itself raises. Status 0 means that there was a C file and that every command
  of the build and then make completed, in order; so the one message of success is never given after a
  failed step.
\<close>

theorem run_c_main_status:
  assumes "tools_law t commands" and "\<And>n v. io_keeps commands (t_setenv t n v)"
    and "all_exist t c_files w = (Inr ok, w1)" and "run_c_main t c_files w = (r, w')"
  shows "(r = Inr 0 \<or> r = Inr 1) \<and>
         (r = Inr 0 \<longrightarrow> c_files \<noteq> [] \<and> (\<exists>sim_dir clean. commands w' =
            commands w @ build_plan (t_cwd t) sim_dir c_files @ make_commands (t_cwd t) clean))"
proof -
  have "io_keeps commands (t_exists t p)" for p using assms(1) by (simp add: tools_law_def)
  note c1 = io_keepsD [OF all_exist_keeps [where t = t, OF this] assms(3)]
  define m where "m = io_bind (compile_c_files t c_files) (\<lambda>(bin_file, hex_file, lss_file).
     io_then (t_setenv t ''INSTRUCTION_MEMORY_HEX'' (path_str hex_file)) (io_then (runMakefile t) (io_return (0 :: int))))"
  obtain q w2 where m: "m w1 = (q, w2)" by fastforce
  have main: "(r, w') = (if c_files = [] then (Inr 1, w) else if \<not> ok then (Inr 1, w1)
      else case q of Inl e \<Rightarrow> (Inr 1, w2) | Inr x \<Rightarrow> (Inr x, w2))"
    using assms(3) m unfolding assms(4) [symmetric] run_c_main_def m_def [symmetric]
    by (cases q) (simp_all add: io_bind_def io_catch_def)
  have plan: "\<exists>sim_dir clean. commands w2 = commands w1 @ build_plan (t_cwd t) sim_dir c_files @ make_commands (t_cwd t) clean \<and> x = 0"
    if "q = Inr x" for x
  proof -
    have m1: "m w1 = (Inr x, w2)" using m that by simp
    obtain b h l w3 where b: "compile_c_files t c_files w1 = (Inr (b, h, l), w3)"
      and rest: "io_then (t_setenv t ''INSTRUCTION_MEMORY_HEX'' (path_str h)) (io_then (runMakefile t) (io_return (0 :: int))) w3 = (Inr x, w2)"
      using m1 unfolding m_def io_bind_Inr by auto
    obtain w4 where w4: "t_setenv t ''INSTRUCTION_MEMORY_HEX'' (path_str h) w3 = (Inr (), w4)" "runMakefile t w4 = (Inr (), w2)" "x = 0"
      using rest unfolding io_then_def io_bind_Inr by auto
    obtain sim_dir where "commands w3 = commands w1 @ build_plan (t_cwd t) sim_dir c_files"
      using compile_runs_all [OF assms(1) b] by blast
    moreover obtain clean where "commands w2 = commands w4 @ make_commands (t_cwd t) clean"
      using runMakefile_runs [OF assms(1) w4(2)] by blast
    moreover have "commands w4 = commands w3" by (rule io_keepsD [OF assms(2) w4(1)])
    ultimately show ?thesis using w4(3) by auto
  qed
  show ?thesis using main plan c1 by (cases q) (auto split: if_splits)
qed

theorem run_c_main_status_witness:
  "\<exists>w' sim_dir clean. run_c_main (log_tools []) [[''a.c'']] [] = (Inr 0, w') \<and>
     w' = build_plan [''/'', ''sim''] sim_dir [[''a.c'']] @ make_commands [''/'', ''sim''] clean"
proof -
  have e: "fst (run_c_main (log_tools []) [[''a.c'']] []) = Inr 0" by code_simp
  have a: "all_exist (log_tools []) [[''a.c'']] [] = (Inr True, [])" by (simp add: log_tools_def)
  have k: "io_keeps id (t_setenv (log_tools []) n v)" for n v by (simp add: log_tools_def io_keeps_def)
  obtain w' where w': "run_c_main (log_tools []) [[''a.c'']] [] = (Inr 0, w')" using e by (metis prod.collapse)
  from run_c_main_status [OF log_tools_law k a w'] w' show ?thesis by (auto simp: log_tools_def)
qed

section \<open>The greeting program\<close>

text \<open>
  \<open>uart_init\<close> of \<open>sim/test_uart_hello.c\<close>: the writes it makes to the UART, with a delay between them, and
  the read by which \<open>uart_putc\<close> asks whether the UART is busy.
\<close>

definition hello_uart_init :: "nat \<Rightarrow> uart_in list" where
  "hello_uart_init delay = [bus_write 0x0C 5208, bus_write 0x08 1] @ replicate delay bus_idle"

definition hello_status_read :: uart_in where
  "hello_status_read = bus_idle\<lparr>in_addr := UART_BASE + 0x04, in_read_enable := True\<rparr>"

definition line_regs :: "uart \<Rightarrow> 16 word \<times> 8 word \<times> 8 word \<times> 8 word" where
  "line_regs s = (baud_div s, lcr s, fcr s, ier s)"

lemma idle_line_regs: "line_regs (uart_run s (replicate n bus_idle)) = line_regs s"
proof (induction n arbitrary: s)
  case (Suc n)
  have "\<not> in_rst bus_idle" "\<not> wr bus_idle r" for r by (simp_all add: bus_idle_def wr_def)
  then have "line_regs (uart_step s bus_idle) = line_regs s" by (simp add: line_regs_def uart_step_baud) (simp add: uart_upds)
  with Suc show ?case by simp
qed simp

text \<open>
  \<open>uart_init\<close> does not set the bit period the program and \<open>UartMonitor\<close> mean. The write of 5208 goes
  to the line control register, and as it leaves DLAB clear the divisor stays the 1 of the reset, 16
  clock edges a bit; and the register that \<open>uart_putc\<close> polls for a busy UART is the interrupt enable
  register, which reads 0, so it never waits.
\<close>

theorem hello_divisor_unset:
  "baud_div (uart_run power_on (hello_uart_init delay)) = 1 \<and>
   lcr (uart_run power_on (hello_uart_init delay)) = 0x58 \<and> fifo_enabled (uart_run power_on (hello_uart_init delay)) \<and>
   uart_read_data (uart_run power_on (hello_uart_init delay)) hello_status_read = 0"
proof -
  define s where "s = uart_run power_on [bus_write 0x0C 5208, bus_write 0x08 1]"
  have "line_regs s = (1, 0x58, 1, 0)" unfolding s_def by code_simp
  moreover have "uart_run power_on (hello_uart_init delay) = uart_run s (replicate delay bus_idle)"
    by (simp only: hello_uart_init_def uart_run_append s_def)
  ultimately have r: "line_regs (uart_run power_on (hello_uart_init delay)) = (1, 0x58, 1, 0)"
    by (simp only: idle_line_regs)
  define u where "u = uart_run power_on (hello_uart_init delay)"
  have u: "baud_div u = 1" "lcr u = 0x58" "fcr u = 1" "ier u = 0" using r by (simp_all add: line_regs_def u_def)
  have "reg_sel hello_status_read = 1" by code_simp
  then have "uart_read_data u hello_status_read = 0"
    using u by (simp add: uart_read_data_def dlab_def)
  with u show ?thesis by (simp add: u_def [symmetric] fifo_enabled_def)
qed

end
