(* ===== verification/Sv32_Pages.thy ===== *)
theory Sv32_Pages
  imports Synapse_Prelude
begin

text \<open>
  Sv32 page tables: the two-level walk of the privileged architecture as a recursive function, the
  combinational walker \<open>rtl/mmu/sv32_page_walker.v\<close>, and the permission checks
  \<open>rtl/mmu/sv32_data_check.v\<close> and \<open>rtl/mmu/sv32_instr_check.v\<close>. A part select \<open>w[hi:lo]\<close> is
  \<open>ucast (drop_bit lo w)\<close> at the width of the result, a concatenation is \<open>word_cat\<close>.
\<close>

unbundle bit_operations_syntax

section \<open>Page-table entries\<close>

definition pte_usable :: "32 word \<Rightarrow> bool" where
  "pte_usable pte \<longleftrightarrow>
     bit pte 0 \<and> (ucast (drop_bit 30 pte) :: 2 word) = 0 \<and> \<not> (\<not> bit pte 1 \<and> bit pte 2)"

definition pte_is_leaf :: "32 word \<Rightarrow> bool" where
  "pte_is_leaf pte \<longleftrightarrow> bit pte 1 \<or> bit pte 3"

definition pte_ppn :: "32 word \<Rightarrow> 20 word" where
  "pte_ppn pte = ucast (drop_bit 10 pte)"

definition megapage_misaligned :: "32 word \<Rightarrow> bool" where
  "megapage_misaligned pte \<longleftrightarrow> (ucast (drop_bit 10 pte) :: 10 word) \<noteq> 0"

definition translated_addr :: "32 word \<Rightarrow> bool \<Rightarrow> 32 word \<Rightarrow> 32 word" where
  "translated_addr pte megapage vaddr =
     (if megapage
      then word_cat (word_cat (ucast (drop_bit 20 pte) :: 10 word) (ucast (drop_bit 12 vaddr) :: 10 word) :: 20 word)
                    (ucast vaddr :: 12 word)
      else word_cat (ucast (drop_bit 10 pte) :: 20 word) (ucast vaddr :: 12 word))"

section \<open>The walk of the privileged architecture\<close>

text \<open>
  A table is named by its physical page number, an entry by one ten-bit part of the virtual page
  number: the upper part at level 1, the lower one at level 0. The walk gives the leaf entry and
  whether it was found at level 1, or nothing for a page fault. Physical addresses have 32 bits
  here, so an entry whose page number needs more is a fault.
\<close>

definition page_of :: "32 word \<Rightarrow> 20 word" where
  "page_of vaddr = ucast (drop_bit 12 vaddr)"

definition vpn_part :: "nat \<Rightarrow> 20 word \<Rightarrow> 10 word" where
  "vpn_part level vpn = ucast (drop_bit (10 * level) vpn)"

definition pte_addr :: "20 word \<Rightarrow> nat \<Rightarrow> 20 word \<Rightarrow> 32 word" where
  "pte_addr table level vpn =
     (word_cat table (0 :: 12 word) :: 32 word) + word_cat (vpn_part level vpn) (0 :: 2 word)"

fun sv32_walk :: "(32 word \<Rightarrow> 32 word) \<Rightarrow> 20 word \<Rightarrow> nat \<Rightarrow> 20 word \<Rightarrow> (32 word \<times> bool) option" where
  "sv32_walk mem table 0 vpn =
     (let pte = mem (pte_addr table 0 vpn)
      in if pte_usable pte \<and> pte_is_leaf pte then Some (pte, False) else None)"
| "sv32_walk mem table (Suc level) vpn =
     (let pte = mem (pte_addr table (Suc level) vpn)
      in if \<not> pte_usable pte then None
         else if pte_is_leaf pte then (if megapage_misaligned pte then None else Some (pte, True))
         else sv32_walk mem (pte_ppn pte) level vpn)"

definition root_table :: "32 word \<Rightarrow> 20 word" where
  "root_table satp = ucast satp"

definition translation :: "32 word \<Rightarrow> (32 word \<Rightarrow> 32 word) \<Rightarrow> 20 word \<Rightarrow> (32 word \<times> bool) option" where
  "translation satp mem vpn = sv32_walk mem (root_table satp) 1 vpn"

text \<open>The entries the walk of a page reads.\<close>

definition entries_read :: "32 word \<Rightarrow> (32 word \<Rightarrow> 32 word) \<Rightarrow> 20 word \<Rightarrow> 32 word list" where
  "entries_read satp mem vpn =
     (let a = pte_addr (root_table satp) 1 vpn
      in if pte_usable (mem a) \<and> \<not> pte_is_leaf (mem a) then [a, pte_addr (pte_ppn (mem a)) 0 vpn] else [a])"

definition same_tables :: "32 word \<Rightarrow> (32 word \<Rightarrow> 32 word) \<Rightarrow> (32 word \<Rightarrow> 32 word) \<Rightarrow> bool" where
  "same_tables satp mem mem' \<longleftrightarrow> (\<forall>vpn. \<forall>a \<in> set (entries_read satp mem vpn). mem' a = mem a)"

lemma same_tables_refl [simp]: "same_tables satp mem mem"
  by (simp add: same_tables_def)

lemma same_tables_root:
  assumes "same_tables satp mem mem'"
  shows "mem' (pte_addr (root_table satp) 1 vpn) = mem (pte_addr (root_table satp) 1 vpn)"
  using assms unfolding same_tables_def entries_read_def Let_def by (auto split: if_splits)

lemma same_tables_translation:
  assumes "same_tables satp mem mem'"
  shows "translation satp mem' vpn = translation satp mem vpn"
proof (cases "pte_usable (mem (pte_addr (root_table satp) 1 vpn)) \<and>
              \<not> pte_is_leaf (mem (pte_addr (root_table satp) 1 vpn))")
  case True
  then have "pte_addr (pte_ppn (mem (pte_addr (root_table satp) 1 vpn))) 0 vpn
      \<in> set (entries_read satp mem vpn)"
    by (simp add: entries_read_def Let_def)
  with assms have "mem' (pte_addr (pte_ppn (mem (pte_addr (root_table satp) 1 vpn))) 0 vpn) =
      mem (pte_addr (pte_ppn (mem (pte_addr (root_table satp) 1 vpn))) 0 vpn)"
    unfolding same_tables_def by blast
  with same_tables_root [OF assms, of vpn] show ?thesis
    by (simp add: translation_def Let_def)
next
  case False
  with same_tables_root [OF assms, of vpn] show ?thesis
    by (simp add: translation_def Let_def)
qed

text \<open>A megapage leaf translates every page under its upper part.\<close>

lemma vpn_part_page_of:
  "vpn_part 1 (page_of va) = ucast (drop_bit 22 va)"
  "vpn_part 0 (page_of va) = ucast (drop_bit 12 va)"
  by (rule bit_word_eqI; auto simp: vpn_part_def page_of_def bit_ucast_iff bit_drop_bit_eq)+

lemma translation_megapage:
  assumes "translation satp mem vpn = Some (pte, True)" and "vpn_part 1 vpn = vpn_part 1 vpn'"
  shows "translation satp mem vpn' = Some (pte, True)"
  using assms by (simp add: translation_def Let_def pte_addr_def split: if_splits)

section \<open>The combinational walker\<close>

record page_walker_out =
  pw_phys_addr :: "32 word"
  pw_addr_valid :: bool
  pw_leaf_pte_addr :: "32 word"
  pw_leaf_pte_value :: "32 word"

definition sv32_page_walker ::
  "bool \<Rightarrow> 32 word \<Rightarrow> 32 word \<Rightarrow> 32 word \<Rightarrow> bool \<Rightarrow> 32 word \<Rightarrow> 32 word \<Rightarrow> bool \<Rightarrow> page_walker_out" where
  "sv32_page_walker translate_enable virtual_addr
       l1_pte_addr l1_pte_value l1_pte_backed l0_pte_addr l0_pte_value l0_pte_backed =
     (if translate_enable then
        let invalid = \<lparr>pw_phys_addr = virtual_addr, pw_addr_valid = False,
                       pw_leaf_pte_addr = 0, pw_leaf_pte_value = 0\<rparr>;
            vpn0 = (ucast (drop_bit 12 virtual_addr) :: 10 word)
        in if l1_pte_backed \<and> bit l1_pte_value 0 \<and>
              (ucast (drop_bit 30 l1_pte_value) :: 2 word) = 0 \<and>
              \<not> (\<not> bit l1_pte_value 1 \<and> bit l1_pte_value 2)
           then if bit l1_pte_value 1 \<or> bit l1_pte_value 3
                then if (ucast (drop_bit 10 l1_pte_value) :: 10 word) = 0
                     then \<lparr>pw_phys_addr =
                             word_cat (word_cat (ucast (drop_bit 20 l1_pte_value) :: 10 word) vpn0 :: 20 word)
                                      (ucast virtual_addr :: 12 word),
                           pw_addr_valid = True,
                           pw_leaf_pte_addr = l1_pte_addr, pw_leaf_pte_value = l1_pte_value\<rparr>
                     else invalid
                else if l0_pte_backed \<and> bit l0_pte_value 0 \<and>
                        (ucast (drop_bit 30 l0_pte_value) :: 2 word) = 0 \<and>
                        \<not> (\<not> bit l0_pte_value 1 \<and> bit l0_pte_value 2) \<and>
                        (bit l0_pte_value 1 \<or> bit l0_pte_value 3)
                then \<lparr>pw_phys_addr = word_cat (ucast (drop_bit 10 l0_pte_value) :: 20 word)
                                              (ucast virtual_addr :: 12 word),
                      pw_addr_valid = True,
                      pw_leaf_pte_addr = l0_pte_addr, pw_leaf_pte_value = l0_pte_value\<rparr>
                else invalid
           else invalid
      else \<lparr>pw_phys_addr = virtual_addr, pw_addr_valid = True,
            pw_leaf_pte_addr = 0, pw_leaf_pte_value = 0\<rparr>)"

text \<open>The walker given the entries of the two levels, all backed by memory.\<close>

definition walker_result :: "32 word \<Rightarrow> (32 word \<Rightarrow> 32 word) \<Rightarrow> 32 word \<Rightarrow> page_walker_out" where
  "walker_result satp mem vaddr =
     (let l1 = pte_addr (root_table satp) 1 (page_of vaddr);
          l0 = pte_addr (pte_ppn (mem l1)) 0 (page_of vaddr)
      in sv32_page_walker True vaddr l1 (mem l1) True l0 (mem l0) True)"

lemma walker_result_translation:
  "case translation satp mem (page_of vaddr) of
     None \<Rightarrow> \<not> pw_addr_valid (walker_result satp mem vaddr)
   | Some (pte, megapage) \<Rightarrow>
       pw_addr_valid (walker_result satp mem vaddr) \<and>
       pw_leaf_pte_value (walker_result satp mem vaddr) = pte \<and>
       pw_phys_addr (walker_result satp mem vaddr) = translated_addr pte megapage vaddr"
  by (auto simp: translation_def walker_result_def sv32_page_walker_def Let_def translated_addr_def
        pte_usable_def pte_is_leaf_def megapage_misaligned_def)

section \<open>Permission checks\<close>

definition PRIV_U :: "2 word" where "PRIV_U = 0"
definition PRIV_S :: "2 word" where "PRIV_S = 1"

record data_check_out =
  dc_load_page_fault :: bool
  dc_store_page_fault :: bool
  dc_update_accessed :: bool
  dc_update_dirty :: bool

definition sv32_data_check ::
  "bool \<Rightarrow> bool \<Rightarrow> 2 word \<Rightarrow> bool \<Rightarrow> bool \<Rightarrow> bool \<Rightarrow> bool \<Rightarrow> 32 word \<Rightarrow> data_check_out" where
  "sv32_data_check translate_enable addr_valid_in privilege_mode sum_bit mxr data_rd_en data_wr_req leaf_pte =
     (let effective_read_ok = bit leaf_pte 1 \<or> (mxr \<and> bit leaf_pte 3);
          permission_fault =
            \<not> bit leaf_pte 0 \<or>
            (privilege_mode = PRIV_U \<and> \<not> bit leaf_pte 4) \<or>
            (privilege_mode = PRIV_S \<and> bit leaf_pte 4 \<and> \<not> sum_bit) \<or>
            ((data_rd_en \<and> \<not> data_wr_req) \<and> \<not> effective_read_ok) \<or>
            (data_wr_req \<and> \<not> bit leaf_pte 2) \<or>
            \<not> bit leaf_pte 6 \<or>
            (data_wr_req \<and> \<not> bit leaf_pte 7);
          faulting = translate_enable \<and> (\<not> addr_valid_in \<or> permission_fault)
      in \<lparr>dc_load_page_fault = faulting \<and> data_rd_en \<and> \<not> data_wr_req,
          dc_store_page_fault = faulting \<and> data_wr_req,
          dc_update_accessed = False,
          dc_update_dirty = False\<rparr>)"

definition sv32_instr_check :: "bool \<Rightarrow> bool \<Rightarrow> 2 word \<Rightarrow> 32 word \<Rightarrow> bool" where
  "sv32_instr_check translate_enable addr_valid_in privilege_mode leaf_pte \<longleftrightarrow>
     translate_enable \<and>
     (\<not> addr_valid_in \<or> \<not> bit leaf_pte 3 \<or>
      (privilege_mode = PRIV_U \<and> \<not> bit leaf_pte 4) \<or>
      (privilege_mode = PRIV_S \<and> bit leaf_pte 4) \<or>
      \<not> bit leaf_pte 6)"

text \<open>What the privileged architecture allows, for a valid leaf entry, with hardware that does not
  update the accessed and dirty bits (Svade).\<close>

definition mode_allowed :: "2 word \<Rightarrow> bool \<Rightarrow> 32 word \<Rightarrow> bool" where
  "mode_allowed mode supervisor_may_use_user_page pte \<longleftrightarrow>
     (mode = PRIV_U \<longrightarrow> bit pte 4) \<and> (mode = PRIV_S \<longrightarrow> bit pte 4 \<longrightarrow> supervisor_may_use_user_page)"

definition load_allowed :: "2 word \<Rightarrow> bool \<Rightarrow> bool \<Rightarrow> 32 word \<Rightarrow> bool" where
  "load_allowed mode sum_bit mxr pte \<longleftrightarrow>
     mode_allowed mode sum_bit pte \<and> (bit pte 1 \<or> mxr \<and> bit pte 3) \<and> bit pte 6"

definition store_allowed :: "2 word \<Rightarrow> bool \<Rightarrow> 32 word \<Rightarrow> bool" where
  "store_allowed mode sum_bit pte \<longleftrightarrow> mode_allowed mode sum_bit pte \<and> bit pte 2 \<and> bit pte 6 \<and> bit pte 7"

definition fetch_allowed :: "2 word \<Rightarrow> 32 word \<Rightarrow> bool" where
  "fetch_allowed mode pte \<longleftrightarrow> mode_allowed mode False pte \<and> bit pte 3 \<and> bit pte 6"

lemma data_check_faults:
  assumes "bit pte 0"
  shows "dc_load_page_fault (sv32_data_check t True mode sum_bit mxr rd wr pte) \<longleftrightarrow>
           t \<and> rd \<and> \<not> wr \<and> \<not> load_allowed mode sum_bit mxr pte"
    and "dc_store_page_fault (sv32_data_check t True mode sum_bit mxr rd wr pte) \<longleftrightarrow>
           t \<and> wr \<and> \<not> store_allowed mode sum_bit pte"
  using assms
  by (auto simp: sv32_data_check_def Let_def load_allowed_def store_allowed_def mode_allowed_def)

lemma instr_check_fault:
  "sv32_instr_check t True mode pte \<longleftrightarrow> t \<and> \<not> fetch_allowed mode pte"
  by (auto simp: sv32_instr_check_def fetch_allowed_def mode_allowed_def)

lemma translation_valid: "translation satp mem vpn = Some (pte, m) \<Longrightarrow> bit pte 0"
  by (auto simp: translation_def Let_def pte_usable_def split: if_splits)

end
