(* ===== verification/Sv32_Tlb.thy ===== *)
theory Sv32_Tlb
  imports Sv32_Pages
begin

text \<open>
  The translation cache \<open>rtl/mmu/sv32_tlb.v\<close>: eight leaf entries, a lookup per port, and a
  round-robin fill. The interface states what the MMU relies on: an answer is an entry that was
  filled since the last flush and that covers the page asked for.
\<close>

section \<open>The interface of a translation cache\<close>

locale translation_cache =
  fixes ok :: "'s \<Rightarrow> bool"
    and lookup :: "'s \<Rightarrow> 'v \<Rightarrow> 'e option"
    and flush :: "'s \<Rightarrow> 's"
    and fill :: "'s \<Rightarrow> 'v \<Rightarrow> 'e \<Rightarrow> 's"
    and holds :: "'s \<Rightarrow> ('v \<times> 'e) set"
    and covers :: "'v \<Rightarrow> 'e \<Rightarrow> 'v \<Rightarrow> bool"
  assumes ok_flush: "ok s \<Longrightarrow> ok (flush s)"
    and ok_fill: "ok s \<Longrightarrow> ok (fill s v e)"
    and holds_flush: "ok s \<Longrightarrow> holds (flush s) = {}"
    and holds_fill: "ok s \<Longrightarrow> holds (fill s v e) \<subseteq> insert (v, e) (holds s)"
    and lookup_holds: "ok s \<Longrightarrow> lookup s w = Some e \<Longrightarrow> \<exists>v. (v, e) \<in> holds s \<and> covers v e w"
    and lookup_fill: "ok s \<Longrightarrow> covers v e v \<Longrightarrow> lookup (fill s v e) v \<noteq> None"
begin

definition sound :: "('v \<Rightarrow> 'e option) \<Rightarrow> 's \<Rightarrow> bool" where
  "sound walk s \<longleftrightarrow> ok s \<and> (\<forall>(v, e) \<in> holds s. walk v = Some e)"

definition closed :: "('v \<Rightarrow> 'e option) \<Rightarrow> bool" where
  "closed walk \<longleftrightarrow> (\<forall>v e w. walk v = Some e \<longrightarrow> covers v e w \<longrightarrow> walk w = Some e)"

lemma sound_flush: "ok s \<Longrightarrow> sound walk (flush s)"
  by (simp add: sound_def ok_flush holds_flush)

lemma sound_fill:
  assumes "sound walk s" and "walk v = Some e"
  shows "sound walk (fill s v e)"
  using assms holds_fill [of s v e] ok_fill [of s v e] unfolding sound_def by blast

lemma sound_lookup:
  assumes "sound walk s" and "closed walk" and "lookup s w = Some e"
  shows "walk w = Some e"
  using assms lookup_holds [of s w e] unfolding sound_def closed_def by blast

end

section \<open>Entries, lookup and fill\<close>

record tlb_entry =
  entry_valid :: bool
  entry_tag :: "20 word"
  entry_megapage :: bool
  entry_pte :: "32 word"

record sv32_tlb =
  tlb_entries :: "tlb_entry list"
  next_victim :: "3 word"

definition ENTRIES :: nat where "ENTRIES = 8"

definition tlb_match :: "tlb_entry \<Rightarrow> 32 word \<Rightarrow> bool" where
  "tlb_match e vaddr \<longleftrightarrow>
     entry_valid e \<and>
     (if entry_megapage e then (ucast (drop_bit 10 (entry_tag e)) :: 10 word) = ucast (drop_bit 22 vaddr)
      else entry_tag e = ucast (drop_bit 12 vaddr))"

definition tlb_lookup :: "sv32_tlb \<Rightarrow> 32 word \<Rightarrow> bool \<times> 32 word \<times> bool" where
  "tlb_lookup s vaddr =
     foldl (\<lambda>found e. if tlb_match e vaddr then (True, entry_pte e, entry_megapage e) else found)
       (False, 0, False) (tlb_entries s)"

definition tlb_hit :: "sv32_tlb \<Rightarrow> 32 word \<Rightarrow> bool" where "tlb_hit s vaddr = fst (tlb_lookup s vaddr)"
definition tlb_pte :: "sv32_tlb \<Rightarrow> 32 word \<Rightarrow> 32 word" where "tlb_pte s vaddr = fst (snd (tlb_lookup s vaddr))"
definition tlb_megapage :: "sv32_tlb \<Rightarrow> 32 word \<Rightarrow> bool" where "tlb_megapage s vaddr = snd (snd (tlb_lookup s vaddr))"

definition tlb_reset :: sv32_tlb where
  "tlb_reset =
     \<lparr>tlb_entries = replicate ENTRIES \<lparr>entry_valid = False, entry_tag = 0, entry_megapage = False, entry_pte = 0\<rparr>,
      next_victim = 0\<rparr>"

definition tlb_flush :: "sv32_tlb \<Rightarrow> sv32_tlb" where
  "tlb_flush s = s\<lparr>tlb_entries := map (\<lambda>e. e\<lparr>entry_valid := False\<rparr>) (tlb_entries s)\<rparr>"

definition tlb_fill :: "sv32_tlb \<Rightarrow> 32 word \<Rightarrow> 32 word \<Rightarrow> bool \<Rightarrow> sv32_tlb" where
  "tlb_fill s fill_vaddr fill_pte fill_megapage =
     s\<lparr>tlb_entries := (tlb_entries s)[unat (next_victim s) :=
         \<lparr>entry_valid = True, entry_tag = ucast (drop_bit 12 fill_vaddr),
          entry_megapage = fill_megapage, entry_pte = fill_pte\<rparr>],
       next_victim := (if next_victim s = of_nat ENTRIES - 1 then 0 else next_victim s + 1)\<rparr>"

definition tlb_step :: "sv32_tlb \<Rightarrow> bool \<Rightarrow> bool \<Rightarrow> bool \<Rightarrow> 32 word \<Rightarrow> 32 word \<Rightarrow> bool \<Rightarrow> sv32_tlb" where
  "tlb_step s rst flush fill_en fill_vaddr fill_pte fill_megapage =
     (if rst then tlb_reset
      else if flush then tlb_flush s
      else if fill_en then tlb_fill s fill_vaddr fill_pte fill_megapage
      else s)"

section \<open>The cache implements the interface\<close>

text \<open>Pages stand for addresses: the cache looks at no bit below the page number.\<close>

definition page_base :: "20 word \<Rightarrow> 32 word" where
  "page_base vpn = word_cat vpn (0 :: 12 word)"

definition entry_covers :: "20 word \<Rightarrow> 32 word \<times> bool \<Rightarrow> 20 word \<Rightarrow> bool" where
  "entry_covers v e w \<longleftrightarrow> (if snd e then vpn_part 1 v = vpn_part 1 w else v = w)"

definition tlb_ok :: "sv32_tlb \<Rightarrow> bool" where
  "tlb_ok s \<longleftrightarrow> length (tlb_entries s) = ENTRIES"

definition tlb_holds :: "sv32_tlb \<Rightarrow> (20 word \<times> 32 word \<times> bool) set" where
  "tlb_holds s = {(entry_tag e, entry_pte e, entry_megapage e) | e. e \<in> set (tlb_entries s) \<and> entry_valid e}"

definition tlb_find :: "sv32_tlb \<Rightarrow> 20 word \<Rightarrow> (32 word \<times> bool) option" where
  "tlb_find s vpn = (if tlb_hit s (page_base vpn) then Some (tlb_pte s (page_base vpn), tlb_megapage s (page_base vpn)) else None)"

lemma page_of_base [simp]: "page_of (page_base vpn) = vpn"
  by (rule bit_word_eqI) (auto simp: page_of_def page_base_def bit_ucast_iff bit_drop_bit_eq bit_word_cat_iff)

lemma tlb_match_page:
  "tlb_match e vaddr \<longleftrightarrow>
     entry_valid e \<and> entry_covers (entry_tag e) (entry_pte e, entry_megapage e) (page_of vaddr)"
  using vpn_part_page_of [of vaddr]
  by (simp add: tlb_match_def entry_covers_def vpn_part_def page_of_def)

lemma tlb_lookup_page: "page_of a = page_of b \<Longrightarrow> tlb_lookup s a = tlb_lookup s b"
  by (simp add: tlb_lookup_def tlb_match_page)

lemma tlb_find_page:
  "tlb_find s (page_of va) = (if tlb_hit s va then Some (tlb_pte s va, tlb_megapage s va) else None)"
  using tlb_lookup_page [of "page_base (page_of va)" va s]
  by (simp add: tlb_find_def tlb_hit_def tlb_pte_def tlb_megapage_def)

text \<open>The last matching entry answers.\<close>

lemma lookup_cases:
  "(\<exists>e \<in> set es. tlb_match e va \<and> foldl (\<lambda>found e. if tlb_match e va then (True, entry_pte e, entry_megapage e) else found) d es
        = (True, entry_pte e, entry_megapage e)) \<or>
   ((\<forall>e \<in> set es. \<not> tlb_match e va) \<and>
    foldl (\<lambda>found e. if tlb_match e va then (True, entry_pte e, entry_megapage e) else found) d es = d)"
  by (induction es rule: rev_induct) auto

lemma tlb_hit_iff: "tlb_hit s va \<longleftrightarrow> (\<exists>e \<in> set (tlb_entries s). tlb_match e va)"
  using lookup_cases [of "tlb_entries s" va "(False, 0, False)"]
  by (auto simp: tlb_hit_def tlb_lookup_def)

lemma tlb_lookup_entry:
  assumes "tlb_hit s va"
  shows "\<exists>e \<in> set (tlb_entries s). tlb_match e va \<and> tlb_pte s va = entry_pte e \<and> tlb_megapage s va = entry_megapage e"
  using assms lookup_cases [of "tlb_entries s" va "(False, 0, False)"]
  by (auto simp: tlb_hit_def tlb_pte_def tlb_megapage_def tlb_lookup_def)

lemma victim_in_range: "unat (v :: 3 word) < ENTRIES"
  using unsigned_less [of v] by (simp add: ENTRIES_def)

interpretation tlb: translation_cache tlb_ok tlb_find tlb_flush
  "\<lambda>s v e. tlb_fill s (page_base v) (fst e) (snd e)" tlb_holds entry_covers
proof
  fix s v e w e'
  assume ok: "tlb_ok s"
  show "tlb_ok (tlb_flush s)" using ok by (simp add: tlb_ok_def tlb_flush_def)
  show "tlb_ok (tlb_fill s (page_base v) (fst e) (snd e))" using ok by (simp add: tlb_ok_def tlb_fill_def)
  show "tlb_holds (tlb_flush s) = {}" by (auto simp: tlb_holds_def tlb_flush_def)
  have tag: "(ucast (drop_bit 12 (page_base v)) :: 20 word) = v"
    using page_of_base [of v] by (simp add: page_of_def)
  show "tlb_holds (tlb_fill s (page_base v) (fst e) (snd e)) \<subseteq> insert (v, e) (tlb_holds s)"
    using set_update_subset_insert [of "tlb_entries s"]
    by (fastforce simp: tlb_holds_def tlb_fill_def tag)
  show "\<exists>v. (v, e') \<in> tlb_holds s \<and> entry_covers v e' w" if "tlb_find s w = Some e'"
  proof -
    from that have "tlb_hit s (page_base w)" and e': "e' = (tlb_pte s (page_base w), tlb_megapage s (page_base w))"
      by (auto simp: tlb_find_def split: if_splits)
    from tlb_lookup_entry [OF this(1)] e' show ?thesis
      by (auto simp: tlb_match_page tlb_holds_def)
  qed
  show "tlb_find (tlb_fill s (page_base v) (fst e) (snd e)) v \<noteq> None" if "entry_covers v e v"
  proof -
    let ?e = "\<lparr>entry_valid = True, entry_tag = v, entry_megapage = snd e, entry_pte = fst e\<rparr>"
    have "?e \<in> set ((tlb_entries s)[unat (next_victim s) := ?e])"
      using ok victim_in_range by (simp add: tlb_ok_def set_update_memI)
    moreover have "tlb_match ?e (page_base v)" using that by (simp add: tlb_match_page)
    ultimately have "tlb_hit (tlb_fill s (page_base v) (fst e) (snd e)) (page_base v)"
      unfolding tlb_hit_iff by (auto simp: tlb_fill_def tag)
    then show ?thesis by (simp add: tlb_find_def)
  qed
qed

end
