(* ===== verification/Sv32_Mmu.thy ===== *)
theory Sv32_Mmu
  imports Sv32_Tlb
begin

text \<open>
  The memory management unit \<open>rtl/mmu/sv32_mmu.v\<close>: the translation cache, the walker that reads one
  page-table entry at a time over the data memory, the faults held for a requester, and the outputs
  of both sides. The clocked block assigns without blocking: right-hand sides read the registers
  \<open>s\<close> of before the edge, and the last assignment to a register wins.
\<close>

section \<open>Registers and inputs\<close>

record sv32_mmu =
  mmu_tlb :: sv32_tlb
  fill_en :: bool
  fill_vaddr :: "32 word"
  fill_pte :: "32 word"
  fill_megapage :: bool
  instr_fault_valid :: bool
  instr_fault_vaddr :: "32 word"
  data_fault_valid :: bool
  data_fault_vaddr :: "32 word"
  walk_state :: "2 word"
  walk_aborted :: bool
  walk_side :: bool
  walk_vaddr :: "32 word"
  walk_level0_base :: "32 word"
  walk_accepted :: bool

record sv32_mmu_in =
  mi_rst :: bool
  mi_flush_tlb :: bool
  mi_satp :: "32 word"
  mi_data_sum :: bool
  mi_data_mxr :: bool
  mi_instr_translate_enable :: bool
  mi_instr_virtual_addr :: "32 word"
  mi_instr_priv_mode :: "2 word"
  mi_data_translate_enable :: bool
  mi_data_virtual_addr :: "32 word"
  mi_data_rd_en :: bool
  mi_data_wr_req :: bool
  mi_data_priv_mode :: "2 word"
  mi_walk_gnt :: bool
  mi_walk_rvalid :: bool
  mi_walk_rdata :: "32 word"

definition WALK_IDLE :: "2 word" where "WALK_IDLE = 0"
definition WALK_LEVEL1 :: "2 word" where "WALK_LEVEL1 = 1"
definition WALK_LEVEL0 :: "2 word" where "WALK_LEVEL0 = 2"
definition SIDE_DATA :: bool where "SIDE_DATA = False"
definition SIDE_INSTR :: bool where "SIDE_INSTR = True"

lemmas walk_states [rtl_simps] = WALK_IDLE_def WALK_LEVEL1_def WALK_LEVEL0_def

section \<open>Wires and outputs\<close>

definition tlb_instr_hit :: "sv32_mmu \<Rightarrow> sv32_mmu_in \<Rightarrow> bool" where
  "tlb_instr_hit s i = tlb_hit (mmu_tlb s) (mi_instr_virtual_addr i)"

definition tlb_data_hit :: "sv32_mmu \<Rightarrow> sv32_mmu_in \<Rightarrow> bool" where
  "tlb_data_hit s i = tlb_hit (mmu_tlb s) (mi_data_virtual_addr i)"

definition instr_fault_match :: "sv32_mmu \<Rightarrow> sv32_mmu_in \<Rightarrow> bool" where
  "instr_fault_match s i \<longleftrightarrow>
     instr_fault_valid s \<and>
     (ucast (drop_bit 12 (instr_fault_vaddr s)) :: 20 word) = ucast (drop_bit 12 (mi_instr_virtual_addr i))"

definition data_fault_match :: "sv32_mmu \<Rightarrow> sv32_mmu_in \<Rightarrow> bool" where
  "data_fault_match s i \<longleftrightarrow>
     data_fault_valid s \<and>
     (ucast (drop_bit 12 (data_fault_vaddr s)) :: 20 word) = ucast (drop_bit 12 (mi_data_virtual_addr i))"

definition instr_perm_fault :: "sv32_mmu \<Rightarrow> sv32_mmu_in \<Rightarrow> bool" where
  "instr_perm_fault s i =
     sv32_instr_check (mi_instr_translate_enable i \<and> tlb_instr_hit s i) True (mi_instr_priv_mode i)
       (tlb_pte (mmu_tlb s) (mi_instr_virtual_addr i))"

definition data_perm_check :: "sv32_mmu \<Rightarrow> sv32_mmu_in \<Rightarrow> data_check_out" where
  "data_perm_check s i =
     sv32_data_check (mi_data_translate_enable i \<and> tlb_data_hit s i) True (mi_data_priv_mode i)
       (mi_data_sum i) (mi_data_mxr i) (mi_data_rd_en i) (mi_data_wr_req i)
       (tlb_pte (mmu_tlb s) (mi_data_virtual_addr i))"

definition instr_phys_addr :: "sv32_mmu \<Rightarrow> sv32_mmu_in \<Rightarrow> 32 word" where
  "instr_phys_addr s i =
     (if \<not> mi_instr_translate_enable i then mi_instr_virtual_addr i
      else translated_addr (tlb_pte (mmu_tlb s) (mi_instr_virtual_addr i))
             (tlb_megapage (mmu_tlb s) (mi_instr_virtual_addr i)) (mi_instr_virtual_addr i))"

definition data_phys_addr :: "sv32_mmu \<Rightarrow> sv32_mmu_in \<Rightarrow> 32 word" where
  "data_phys_addr s i =
     (if \<not> mi_data_translate_enable i then mi_data_virtual_addr i
      else translated_addr (tlb_pte (mmu_tlb s) (mi_data_virtual_addr i))
             (tlb_megapage (mmu_tlb s) (mi_data_virtual_addr i)) (mi_data_virtual_addr i))"

definition instr_ready :: "sv32_mmu \<Rightarrow> sv32_mmu_in \<Rightarrow> bool" where
  "instr_ready s i \<longleftrightarrow> \<not> mi_instr_translate_enable i \<or> tlb_instr_hit s i \<or> instr_fault_match s i"

definition data_ready :: "sv32_mmu \<Rightarrow> sv32_mmu_in \<Rightarrow> bool" where
  "data_ready s i \<longleftrightarrow> \<not> mi_data_translate_enable i \<or> tlb_data_hit s i \<or> data_fault_match s i"

definition instr_page_fault :: "sv32_mmu \<Rightarrow> sv32_mmu_in \<Rightarrow> bool" where
  "instr_page_fault s i \<longleftrightarrow>
     mi_instr_translate_enable i \<and> (instr_perm_fault s i \<or> instr_fault_match s i)"

definition data_load_page_fault :: "sv32_mmu \<Rightarrow> sv32_mmu_in \<Rightarrow> bool" where
  "data_load_page_fault s i \<longleftrightarrow>
     mi_data_translate_enable i \<and>
     (dc_load_page_fault (data_perm_check s i) \<or>
      (data_fault_match s i \<and> mi_data_rd_en i \<and> \<not> mi_data_wr_req i))"

definition data_store_page_fault :: "sv32_mmu \<Rightarrow> sv32_mmu_in \<Rightarrow> bool" where
  "data_store_page_fault s i \<longleftrightarrow>
     mi_data_translate_enable i \<and>
     (dc_store_page_fault (data_perm_check s i) \<or> (data_fault_match s i \<and> mi_data_wr_req i))"

definition data_walk_needed :: "sv32_mmu \<Rightarrow> sv32_mmu_in \<Rightarrow> bool" where
  "data_walk_needed s i \<longleftrightarrow>
     mi_data_translate_enable i \<and> (mi_data_rd_en i \<or> mi_data_wr_req i) \<and>
     \<not> tlb_data_hit s i \<and> \<not> data_fault_match s i \<and> \<not> fill_en s"

definition instr_walk_needed :: "sv32_mmu \<Rightarrow> sv32_mmu_in \<Rightarrow> bool" where
  "instr_walk_needed s i \<longleftrightarrow>
     mi_instr_translate_enable i \<and> \<not> tlb_instr_hit s i \<and> \<not> instr_fault_match s i \<and> \<not> fill_en s"

definition walk_req :: "sv32_mmu \<Rightarrow> bool" where
  "walk_req s \<longleftrightarrow> walk_state s \<noteq> WALK_IDLE \<and> \<not> walk_accepted s"

definition walk_addr :: "sv32_mmu \<Rightarrow> sv32_mmu_in \<Rightarrow> 32 word" where
  "walk_addr s i =
     (if walk_state s = WALK_LEVEL1
      then word_cat (ucast (mi_satp i) :: 20 word) (0 :: 12 word) +
           word_cat (ucast (drop_bit 22 (walk_vaddr s)) :: 10 word) (0 :: 2 word)
      else walk_level0_base s + word_cat (ucast (drop_bit 12 (walk_vaddr s)) :: 10 word) (0 :: 2 word))"

section \<open>The clocked block\<close>

definition mmu_reset :: sv32_mmu where
  "mmu_reset =
     \<lparr>mmu_tlb = tlb_reset,
      fill_en = False, fill_vaddr = 0, fill_pte = 0, fill_megapage = False,
      instr_fault_valid = False, instr_fault_vaddr = 0,
      data_fault_valid = False, data_fault_vaddr = 0,
      walk_state = WALK_IDLE, walk_aborted = False, walk_side = SIDE_DATA,
      walk_vaddr = 0, walk_level0_base = 0, walk_accepted = False\<rparr>"

definition mmu_drop_faults :: "sv32_mmu \<Rightarrow> sv32_mmu_in \<Rightarrow> sv32_mmu \<Rightarrow> sv32_mmu" where
  "mmu_drop_faults s i t =
     t\<lparr>instr_fault_valid :=
         (if mi_flush_tlb i \<or> \<not> mi_instr_translate_enable i \<or>
             (instr_fault_valid s \<and>
              (ucast (drop_bit 12 (instr_fault_vaddr s)) :: 20 word) \<noteq> ucast (drop_bit 12 (mi_instr_virtual_addr i)))
          then False else instr_fault_valid t),
       data_fault_valid :=
         (if mi_flush_tlb i \<or> \<not> mi_data_translate_enable i \<or>
             (data_fault_valid s \<and>
              (ucast (drop_bit 12 (data_fault_vaddr s)) :: 20 word) \<noteq> ucast (drop_bit 12 (mi_data_virtual_addr i)))
          then False else data_fault_valid t)\<rparr>"

definition mmu_start_walk :: "sv32_mmu \<Rightarrow> sv32_mmu_in \<Rightarrow> sv32_mmu \<Rightarrow> sv32_mmu" where
  "mmu_start_walk s i t =
     (let t = t\<lparr>walk_accepted := False, walk_aborted := False\<rparr>
      in if data_walk_needed s i
         then t\<lparr>walk_side := SIDE_DATA, walk_vaddr := mi_data_virtual_addr i, walk_state := WALK_LEVEL1\<rparr>
         else if instr_walk_needed s i
         then t\<lparr>walk_side := SIDE_INSTR, walk_vaddr := mi_instr_virtual_addr i, walk_state := WALK_LEVEL1\<rparr>
         else t)"

definition mmu_response :: "sv32_mmu \<Rightarrow> sv32_mmu_in \<Rightarrow> sv32_mmu \<Rightarrow> sv32_mmu" where
  "mmu_response s i t =
     (let pte = mi_walk_rdata i
      in if walk_aborted s \<or> mi_flush_tlb i then t\<lparr>walk_state := WALK_IDLE\<rparr>
         else if \<not> pte_usable pte \<or>
                 (pte_is_leaf pte \<and> walk_state s = WALK_LEVEL1 \<and> (ucast (drop_bit 10 pte) :: 10 word) \<noteq> 0) \<or>
                 (\<not> pte_is_leaf pte \<and> walk_state s = WALK_LEVEL0)
         then (if walk_side s = SIDE_INSTR
               then t\<lparr>instr_fault_valid := True, instr_fault_vaddr := walk_vaddr s, walk_state := WALK_IDLE\<rparr>
               else t\<lparr>data_fault_valid := True, data_fault_vaddr := walk_vaddr s, walk_state := WALK_IDLE\<rparr>)
         else if pte_is_leaf pte
         then t\<lparr>fill_en := True, fill_vaddr := walk_vaddr s, fill_pte := pte,
                fill_megapage := (walk_state s = WALK_LEVEL1), walk_state := WALK_IDLE\<rparr>
         else t\<lparr>walk_level0_base := word_cat (ucast (drop_bit 10 pte) :: 20 word) (0 :: 12 word),
                walk_state := WALK_LEVEL0\<rparr>)"

definition mmu_walk :: "sv32_mmu \<Rightarrow> sv32_mmu_in \<Rightarrow> sv32_mmu \<Rightarrow> sv32_mmu" where
  "mmu_walk s i t =
     (if walk_state s = WALK_IDLE then mmu_start_walk s i t
      else if walk_state s = WALK_LEVEL1 \<or> walk_state s = WALK_LEVEL0
      then let t = (if mi_walk_gnt i then t\<lparr>walk_accepted := True\<rparr> else t)
           in if mi_walk_rvalid i then mmu_response s i (t\<lparr>walk_accepted := False\<rparr>) else t
      else t\<lparr>walk_state := WALK_IDLE\<rparr>)"

definition mmu_step :: "sv32_mmu \<Rightarrow> sv32_mmu_in \<Rightarrow> sv32_mmu" where
  "mmu_step s i =
     (if mi_rst i then mmu_reset
      else let t = s\<lparr>fill_en := False\<rparr>;
               t = (if mi_flush_tlb i \<and> walk_state s \<noteq> WALK_IDLE then t\<lparr>walk_aborted := True\<rparr> else t);
               t = mmu_drop_faults s i t;
               t = mmu_walk s i t
           in t\<lparr>mmu_tlb := tlb_step (mmu_tlb s) (mi_rst i) (mi_flush_tlb i)
                              (fill_en s) (fill_vaddr s) (fill_pte s) (fill_megapage s)\<rparr>)"

fun mmu_at :: "(nat \<Rightarrow> sv32_mmu_in) \<Rightarrow> nat \<Rightarrow> sv32_mmu" where
  "mmu_at inp 0 = mmu_reset"
| "mmu_at inp (Suc n) = mmu_step (mmu_at inp n) (inp n)"

section \<open>What the registers hold\<close>

text \<open>
  The registers against the page tables in memory: every cached entry and the entry about to be
  filled are results of the walk, a held fault is a page with no translation, and a walk at the last
  level that will not be abandoned has followed the first-level entry of memory.
\<close>

definition walk_ok :: "32 word \<Rightarrow> (32 word \<Rightarrow> 32 word) \<Rightarrow> sv32_mmu \<Rightarrow> bool" where
  "walk_ok satp mem s \<longleftrightarrow>
     walk_state s \<in> {WALK_IDLE, WALK_LEVEL1, WALK_LEVEL0} \<and>
     (walk_state s = WALK_LEVEL0 \<and> \<not> walk_aborted s \<longrightarrow>
       (let pte = mem (pte_addr (root_table satp) 1 (page_of (walk_vaddr s)))
        in pte_usable pte \<and> \<not> pte_is_leaf pte \<and> walk_level0_base s = word_cat (pte_ppn pte) (0 :: 12 word)))"

definition faults_ok :: "32 word \<Rightarrow> (32 word \<Rightarrow> 32 word) \<Rightarrow> sv32_mmu \<Rightarrow> bool" where
  "faults_ok satp mem s \<longleftrightarrow>
     (instr_fault_valid s \<longrightarrow> translation satp mem (page_of (instr_fault_vaddr s)) = None) \<and>
     (data_fault_valid s \<longrightarrow> translation satp mem (page_of (data_fault_vaddr s)) = None)"

definition fill_ok :: "32 word \<Rightarrow> (32 word \<Rightarrow> 32 word) \<Rightarrow> sv32_mmu \<Rightarrow> bool" where
  "fill_ok satp mem s \<longleftrightarrow>
     (fill_en s \<longrightarrow> translation satp mem (page_of (fill_vaddr s)) = Some (fill_pte s, fill_megapage s))"

definition mmu_inv :: "32 word \<Rightarrow> (32 word \<Rightarrow> 32 word) \<Rightarrow> sv32_mmu \<Rightarrow> bool" where
  "mmu_inv satp mem s \<longleftrightarrow>
     tlb.sound (translation satp mem) (mmu_tlb s) \<and>
     fill_ok satp mem s \<and> faults_ok satp mem s \<and> walk_ok satp mem s"

lemma walk_states_distinct [simp]:
  "WALK_IDLE \<noteq> WALK_LEVEL1" "WALK_LEVEL1 \<noteq> WALK_IDLE" "WALK_IDLE \<noteq> WALK_LEVEL0"
  "WALK_LEVEL0 \<noteq> WALK_IDLE" "WALK_LEVEL1 \<noteq> WALK_LEVEL0" "WALK_LEVEL0 \<noteq> WALK_LEVEL1"
  "SIDE_INSTR \<noteq> SIDE_DATA" "SIDE_DATA \<noteq> SIDE_INSTR"
  by (simp_all add: rtl_simps SIDE_INSTR_def SIDE_DATA_def)

lemma closed_translation: "tlb.closed (translation satp mem)"
  unfolding tlb.closed_def
  by (auto simp: entry_covers_def split: if_splits intro: translation_megapage)

lemma tlb_fill_page: "tlb_fill s va pte m = tlb_fill s (page_base (page_of va)) pte m"
  using page_of_base [of "page_of va"] by (simp add: tlb_fill_def page_of_def)

lemma tlb_reset_sound: "tlb.sound walk tlb_reset"
  by (auto simp: tlb.sound_def tlb_ok_def tlb_holds_def tlb_reset_def)

lemma mmu_inv_reset: "mmu_inv satp mem mmu_reset"
  by (simp add: mmu_inv_def tlb_reset_sound fill_ok_def faults_ok_def walk_ok_def mmu_reset_def)

lemma mmu_inv_tables:
  assumes "mmu_inv satp mem s" and "same_tables satp mem mem'"
  shows "mmu_inv satp mem' s"
proof -
  have "translation satp mem' = translation satp mem"
    using same_tables_translation [OF assms(2)] by auto
  with assms(1) same_tables_root [OF assms(2)] show ?thesis
    by (simp add: mmu_inv_def fill_ok_def faults_ok_def walk_ok_def)
qed

text \<open>What a response decides, by the level of the walk.\<close>

lemma walk_addr_pte:
  "walk_state s = WALK_LEVEL1 \<Longrightarrow>
     walk_addr s i = pte_addr (root_table (mi_satp i)) 1 (page_of (walk_vaddr s))"
  "walk_state s = WALK_LEVEL0 \<Longrightarrow> walk_level0_base s = word_cat table (0 :: 12 word) \<Longrightarrow>
     walk_addr s i = pte_addr table 0 (page_of (walk_vaddr s))"
  by (simp_all add: walk_addr_def pte_addr_def vpn_part_page_of [simplified] root_table_def)

lemma response_level1:
  assumes "walk_state s = WALK_LEVEL1" and "pte = mem (walk_addr s i)"
  shows "translation (mi_satp i) mem (page_of (walk_vaddr s)) =
     (if \<not> pte_usable pte \<or> (pte_is_leaf pte \<and> megapage_misaligned pte) then None
      else if pte_is_leaf pte then Some (pte, True)
      else sv32_walk mem (pte_ppn pte) 0 (page_of (walk_vaddr s)))"
  using assms by (simp add: translation_def walk_addr_pte(1) Let_def)

lemma response_level0:
  assumes "walk_state s = WALK_LEVEL0" and "\<not> walk_aborted s" and "walk_ok (mi_satp i) mem s"
    and "pte = mem (walk_addr s i)"
  shows "translation (mi_satp i) mem (page_of (walk_vaddr s)) =
     (if \<not> pte_usable pte \<or> \<not> pte_is_leaf pte then None else Some (pte, False))"
proof -
  from assms(1-3) have l1: "pte_usable (mem (pte_addr (root_table (mi_satp i)) 1 (page_of (walk_vaddr s))))"
      "\<not> pte_is_leaf (mem (pte_addr (root_table (mi_satp i)) 1 (page_of (walk_vaddr s))))"
      "walk_level0_base s =
         word_cat (pte_ppn (mem (pte_addr (root_table (mi_satp i)) 1 (page_of (walk_vaddr s))))) (0 :: 12 word)"
    by (simp_all add: walk_ok_def Let_def)
  from l1(1,2) walk_addr_pte(2) [OF assms(1) l1(3)] assms(4) show ?thesis
    by (simp add: translation_def Let_def)
qed

section \<open>One clock edge\<close>

lemmas mmu_step_simps =
  mmu_step_def mmu_drop_faults_def mmu_walk_def mmu_start_walk_def mmu_response_def Let_def

lemma mmu_step_tlb:
  "\<not> mi_rst i \<Longrightarrow> mmu_tlb (mmu_step s i) =
     (if mi_flush_tlb i then tlb_flush (mmu_tlb s)
      else if fill_en s then tlb_fill (mmu_tlb s) (fill_vaddr s) (fill_pte s) (fill_megapage s)
      else mmu_tlb s)"
  by (simp add: mmu_step_def tlb_step_def Let_def)

text \<open>A fence or a reset leaves nothing that depends on the tables of before.\<close>

lemma mmu_step_fence:
  assumes "mmu_inv satp mem s" and "mi_flush_tlb i \<or> mi_rst i"
  shows "mmu_inv satp' mem' (mmu_step s i)"
proof (cases "mi_rst i")
  case True
  then show ?thesis by (simp add: mmu_step_def mmu_inv_reset)
next
  case False
  with assms(2) have flush: "mi_flush_tlb i" by simp
  have st: "walk_state s \<in> {WALK_IDLE, WALK_LEVEL1, WALK_LEVEL0}"
    using assms(1) by (simp add: mmu_inv_def walk_ok_def)
  have "tlb.sound (translation satp' mem') (mmu_tlb (mmu_step s i))"
  proof -
    from assms(1) have "tlb_ok (mmu_tlb s)" by (simp add: mmu_inv_def tlb.sound_def)
    then show ?thesis using flush False by (simp add: mmu_step_tlb tlb.sound_flush)
  qed
  moreover have "\<not> fill_en (mmu_step s i)" using flush False by (simp add: mmu_step_simps)
  moreover have "\<not> instr_fault_valid (mmu_step s i)" "\<not> data_fault_valid (mmu_step s i)"
    using flush False by (simp_all add: mmu_step_simps)
  moreover have "walk_ok satp' mem' (mmu_step s i)"
    using flush False st by (auto simp: mmu_step_simps walk_ok_def)
  ultimately show ?thesis by (simp add: mmu_inv_def fill_ok_def faults_ok_def)
qed

text \<open>Between fences an edge keeps the registers in step with the tables.\<close>

lemma mmu_step_tlb_sound:
  assumes "mmu_inv satp mem s" and "\<not> mi_rst i" and "\<not> mi_flush_tlb i"
  shows "tlb.sound (translation satp mem) (mmu_tlb (mmu_step s i))"
proof (cases "fill_en s")
  case True
  with assms have "translation satp mem (page_of (fill_vaddr s)) = Some (fill_pte s, fill_megapage s)"
    and "tlb.sound (translation satp mem) (mmu_tlb s)"
    by (simp_all add: mmu_inv_def fill_ok_def)
  then have "tlb.sound (translation satp mem)
      (tlb_fill (mmu_tlb s) (page_base (page_of (fill_vaddr s))) (fill_pte s) (fill_megapage s))"
    using tlb.sound_fill by fastforce
  with True assms(2,3) show ?thesis by (simp add: mmu_step_tlb tlb_fill_page [of _ "fill_vaddr s"])
next
  case False
  with assms show ?thesis by (simp add: mmu_step_tlb mmu_inv_def)
qed

definition answered :: "sv32_mmu \<Rightarrow> sv32_mmu_in \<Rightarrow> bool" where
  "answered s i \<longleftrightarrow>
     (walk_state s = WALK_LEVEL1 \<or> walk_state s = WALK_LEVEL0) \<and> mi_walk_rvalid i \<and> \<not> walk_aborted s"

lemma mmu_step_quiet:
  assumes "\<not> mi_rst i" and "\<not> mi_flush_tlb i" and "\<not> answered s i"
  shows "\<not> fill_en (mmu_step s i)"
    and "instr_fault_valid (mmu_step s i) \<Longrightarrow> instr_fault_valid s"
    and "instr_fault_vaddr (mmu_step s i) = instr_fault_vaddr s"
    and "data_fault_valid (mmu_step s i) \<Longrightarrow> data_fault_valid s"
    and "data_fault_vaddr (mmu_step s i) = data_fault_vaddr s"
  using assms by (auto simp: mmu_step_simps answered_def split: if_splits)

lemma mmu_step_answered:
  assumes "\<not> mi_rst i" and "\<not> mi_flush_tlb i" and "answered s i" and "mi_satp i = satp"
    and "walk_ok satp mem s" and "mi_walk_rdata i = mem (walk_addr s i)"
    and "faults_ok satp mem s"
  shows "fill_ok satp mem (mmu_step s i)" and "faults_ok satp mem (mmu_step s i)"
    and "walk_ok satp mem (mmu_step s i)"
proof -
  let ?pte = "mem (walk_addr s i)" and ?v = "page_of (walk_vaddr s)"
  from assms(3) consider "walk_state s = WALK_LEVEL1" | "walk_state s = WALK_LEVEL0"
    by (auto simp: answered_def)
  then have "fill_ok satp mem (mmu_step s i) \<and> faults_ok satp mem (mmu_step s i) \<and> walk_ok satp mem (mmu_step s i)"
  proof cases
    case 1
    have tr: "translation satp mem ?v =
       (if \<not> pte_usable ?pte \<or> (pte_is_leaf ?pte \<and> megapage_misaligned ?pte) then None
        else if pte_is_leaf ?pte then Some (?pte, True) else sv32_walk mem (pte_ppn ?pte) 0 ?v)"
      using response_level1 [OF 1 refl, where i = i and mem = mem] assms(4) by simp
    have a: "walk_addr s i = pte_addr (root_table satp) 1 ?v" using walk_addr_pte(1) [OF 1, of i] assms(4) by simp
    show ?thesis
      using assms(1,2,3,6,7) 1 tr a
      by (auto simp: mmu_step_simps answered_def fill_ok_def faults_ok_def walk_ok_def
            megapage_misaligned_def pte_ppn_def)
  next
    case 2
    have na: "\<not> walk_aborted s" using assms(3) by (simp add: answered_def)
    have tr: "translation satp mem ?v = (if \<not> pte_usable ?pte \<or> \<not> pte_is_leaf ?pte then None else Some (?pte, False))"
      using response_level0 [OF 2 na _ refl, where i = i and mem = mem] assms(4,5) by simp
    show ?thesis
      using assms(1,2,3,6,7) 2 tr
      by (auto simp: mmu_step_simps answered_def fill_ok_def faults_ok_def walk_ok_def)
  qed
  then show "fill_ok satp mem (mmu_step s i)" "faults_ok satp mem (mmu_step s i)" "walk_ok satp mem (mmu_step s i)"
    by auto
qed

lemma mmu_step_inv:
  assumes inv: "mmu_inv satp mem s" and "\<not> mi_rst i" and "\<not> mi_flush_tlb i" and "mi_satp i = satp"
    and port: "walk_state s \<noteq> WALK_IDLE \<Longrightarrow> mi_walk_rvalid i \<Longrightarrow> mi_walk_rdata i = mem (walk_addr s i)"
  shows "mmu_inv satp mem (mmu_step s i)"
proof (cases "answered s i")
  case True
  then have "mi_walk_rdata i = mem (walk_addr s i)" using port by (auto simp: answered_def)
  with assms(1-4) True show ?thesis
    using mmu_step_answered [of i s satp mem] mmu_step_tlb_sound [of satp mem s i]
    by (simp add: mmu_inv_def)
next
  case False
  note quiet = mmu_step_quiet [OF assms(2,3) False]
  have "walk_ok satp mem (mmu_step s i)"
    using assms(1-3) False by (auto simp: mmu_inv_def walk_ok_def mmu_step_simps answered_def)
  with quiet inv show ?thesis
    using mmu_step_tlb_sound [OF inv assms(2,3)]
    by (auto simp: mmu_inv_def fill_ok_def faults_ok_def)
qed

section \<open>Whole runs\<close>

text \<open>
  The memory behind the walk port answers a read with the word at the address presented, and
  software changes \<open>satp\<close> and the tables in use only together with a fence (\<open>SFENCE.VMA\<close> or a
  write of \<open>satp\<close>, which both raise \<open>flush_tlb\<close>).
\<close>

definition walk_port_answers :: "(nat \<Rightarrow> sv32_mmu_in) \<Rightarrow> (nat \<Rightarrow> 32 word \<Rightarrow> 32 word) \<Rightarrow> bool" where
  "walk_port_answers inp mem \<longleftrightarrow>
     (\<forall>n. walk_state (mmu_at inp n) \<noteq> WALK_IDLE \<longrightarrow> mi_walk_rvalid (inp n) \<longrightarrow>
        mi_walk_rdata (inp n) = mem n (walk_addr (mmu_at inp n) (inp n)))"

definition tables_fenced :: "(nat \<Rightarrow> sv32_mmu_in) \<Rightarrow> (nat \<Rightarrow> 32 word \<Rightarrow> 32 word) \<Rightarrow> bool" where
  "tables_fenced inp mem \<longleftrightarrow>
     (\<forall>n. \<not> mi_rst (inp n) \<longrightarrow> \<not> mi_flush_tlb (inp n) \<longrightarrow>
        mi_satp (inp (Suc n)) = mi_satp (inp n) \<and> same_tables (mi_satp (inp n)) (mem n) (mem (Suc n)))"

lemma mmu_at_inv:
  assumes "walk_port_answers inp mem" and "tables_fenced inp mem"
  shows "mmu_inv (mi_satp (inp n)) (mem n) (mmu_at inp n)"
proof (induction n)
  case 0
  show ?case by (simp add: mmu_inv_reset)
next
  case (Suc n)
  show ?case
  proof (cases "mi_flush_tlb (inp n) \<or> mi_rst (inp n)")
    case True
    with Suc.IH show ?thesis by (simp add: mmu_step_fence)
  next
    case False
    then have "mmu_inv (mi_satp (inp n)) (mem n) (mmu_step (mmu_at inp n) (inp n))"
      using Suc.IH assms(1) by (intro mmu_step_inv) (auto simp: walk_port_answers_def)
    with False assms(2) show ?thesis
      using mmu_inv_tables by (fastforce simp: tables_fenced_def)
  qed
qed

text \<open>What the invariant says of the outputs.\<close>

definition data_answer :: "sv32_mmu \<Rightarrow> sv32_mmu_in \<Rightarrow> (32 word \<times> bool) option \<Rightarrow> bool" where
  "data_answer s i walked \<longleftrightarrow>
     (case walked of
        None \<Rightarrow>
          data_load_page_fault s i = (mi_data_rd_en i \<and> \<not> mi_data_wr_req i) \<and>
          data_store_page_fault s i = mi_data_wr_req i
      | Some (pte, megapage) \<Rightarrow>
          data_load_page_fault s i =
            (mi_data_rd_en i \<and> \<not> mi_data_wr_req i \<and>
             \<not> load_allowed (mi_data_priv_mode i) (mi_data_sum i) (mi_data_mxr i) pte) \<and>
          data_store_page_fault s i =
            (mi_data_wr_req i \<and> \<not> store_allowed (mi_data_priv_mode i) (mi_data_sum i) pte) \<and>
          data_phys_addr s i = translated_addr pte megapage (mi_data_virtual_addr i))"

definition instr_answer :: "sv32_mmu \<Rightarrow> sv32_mmu_in \<Rightarrow> (32 word \<times> bool) option \<Rightarrow> bool" where
  "instr_answer s i walked \<longleftrightarrow>
     (case walked of
        None \<Rightarrow> instr_page_fault s i
      | Some (pte, megapage) \<Rightarrow>
          instr_page_fault s i = (\<not> fetch_allowed (mi_instr_priv_mode i) pte) \<and>
          instr_phys_addr s i = translated_addr pte megapage (mi_instr_virtual_addr i))"

lemma tlb_hit_translation:
  assumes "mmu_inv satp mem s" and "tlb_hit (mmu_tlb s) va"
  shows "translation satp mem (page_of va) = Some (tlb_pte (mmu_tlb s) va, tlb_megapage (mmu_tlb s) va)"
proof -
  from assms(1) have "tlb.sound (translation satp mem) (mmu_tlb s)" by (simp add: mmu_inv_def)
  moreover have "tlb_find (mmu_tlb s) (page_of va) = Some (tlb_pte (mmu_tlb s) va, tlb_megapage (mmu_tlb s) va)"
    using assms(2) by (simp add: tlb_find_page)
  ultimately show ?thesis by (rule tlb.sound_lookup [OF _ closed_translation])
qed

lemma fault_match_translation:
  assumes "mmu_inv satp mem s"
  shows "instr_fault_match s i \<Longrightarrow> translation satp mem (page_of (mi_instr_virtual_addr i)) = None"
    and "data_fault_match s i \<Longrightarrow> translation satp mem (page_of (mi_data_virtual_addr i)) = None"
  using assms
  by (auto simp: mmu_inv_def faults_ok_def instr_fault_match_def data_fault_match_def page_of_def)

lemma mmu_data_answer:
  assumes "mmu_inv satp mem s" and "mi_data_translate_enable i" and "data_ready s i"
  shows "data_answer s i (translation satp mem (page_of (mi_data_virtual_addr i)))"
proof (cases "tlb_data_hit s i")
  case True
  then have tr: "translation satp mem (page_of (mi_data_virtual_addr i)) =
      Some (tlb_pte (mmu_tlb s) (mi_data_virtual_addr i), tlb_megapage (mmu_tlb s) (mi_data_virtual_addr i))"
    using tlb_hit_translation [OF assms(1)] by (simp add: tlb_data_hit_def)
  moreover have "\<not> data_fault_match s i" using fault_match_translation(2) [OF assms(1), of i] tr by auto
  ultimately show ?thesis
    using True assms(2) data_check_faults [OF translation_valid [OF tr]]
    by (simp add: data_answer_def data_load_page_fault_def data_store_page_fault_def data_phys_addr_def
          data_perm_check_def)
next
  case False
  with assms(2,3) have m: "data_fault_match s i" by (simp add: data_ready_def)
  from fault_match_translation(2) [OF assms(1) m] m False assms(2) show ?thesis
    by (simp add: data_answer_def data_load_page_fault_def data_store_page_fault_def
          data_perm_check_def sv32_data_check_def Let_def)
qed

lemma mmu_instr_answer:
  assumes "mmu_inv satp mem s" and "mi_instr_translate_enable i" and "instr_ready s i"
  shows "instr_answer s i (translation satp mem (page_of (mi_instr_virtual_addr i)))"
proof (cases "tlb_instr_hit s i")
  case True
  then have tr: "translation satp mem (page_of (mi_instr_virtual_addr i)) =
      Some (tlb_pte (mmu_tlb s) (mi_instr_virtual_addr i), tlb_megapage (mmu_tlb s) (mi_instr_virtual_addr i))"
    using tlb_hit_translation [OF assms(1)] by (simp add: tlb_instr_hit_def)
  moreover have "\<not> instr_fault_match s i" using fault_match_translation(1) [OF assms(1), of i] tr by auto
  ultimately show ?thesis
    using True assms(2)
    by (simp add: instr_answer_def instr_page_fault_def instr_phys_addr_def instr_perm_fault_def instr_check_fault)
next
  case False
  with assms(2,3) have m: "instr_fault_match s i" by (simp add: instr_ready_def)
  from fault_match_translation(1) [OF assms(1) m] m False assms(2) show ?thesis
    by (simp add: instr_answer_def instr_page_fault_def)
qed

text \<open>
  C19. Whatever was cached, evicted or abandoned before, an answer of the memory management unit is
  the answer of a fresh walk of the page tables: when it says ready for a translated access, it raises
  a page fault exactly when the walk finds no leaf or the leaf forbids the access, on the right
  one of the two fault lines, and otherwise gives the physical address of the walk. The hypotheses
  are the walk port's contract and the fence discipline of software.
\<close>

theorem mmu_translates:
  assumes "walk_port_answers inp mem" and "tables_fenced inp mem"
  shows "(mi_data_translate_enable (inp n) \<and> data_ready (mmu_at inp n) (inp n) \<longrightarrow>
           data_answer (mmu_at inp n) (inp n)
             (translation (mi_satp (inp n)) (mem n) (page_of (mi_data_virtual_addr (inp n))))) \<and>
         (mi_instr_translate_enable (inp n) \<and> instr_ready (mmu_at inp n) (inp n) \<longrightarrow>
           instr_answer (mmu_at inp n) (inp n)
             (translation (mi_satp (inp n)) (mem n) (page_of (mi_instr_virtual_addr (inp n)))))"
  using mmu_data_answer mmu_instr_answer mmu_at_inv [OF assms] by blast

section \<open>A request is answered\<close>

lemma mmu_at_shape: "tlb_ok (mmu_tlb (mmu_at inp n)) \<and> walk_state (mmu_at inp n) \<in> {WALK_IDLE, WALK_LEVEL1, WALK_LEVEL0}"
proof (induction n)
  case 0
  show ?case by (simp add: mmu_reset_def tlb_reset_def tlb_ok_def)
next
  case (Suc n)
  have "tlb_ok (tlb_flush t)" "tlb_ok (tlb_fill t va pte m)" if "tlb_ok t" for t va pte m
    using that by (simp_all add: tlb_ok_def tlb_flush_def tlb_fill_def)
  moreover have "tlb_ok tlb_reset" by (simp add: tlb_ok_def tlb_reset_def)
  ultimately have "tlb_ok (mmu_tlb (mmu_step (mmu_at inp n) (inp n)))"
    using Suc by (simp add: mmu_step_def tlb_step_def Let_def mmu_reset_def)
  moreover have "walk_state (mmu_step (mmu_at inp n) (inp n)) \<in> {WALK_IDLE, WALK_LEVEL1, WALK_LEVEL0}"
    using Suc by (auto simp: mmu_step_simps mmu_reset_def)
  ultimately show ?case by simp
qed

definition undisturbed :: "(nat \<Rightarrow> sv32_mmu_in) \<Rightarrow> nat \<Rightarrow> bool" where
  "undisturbed inp n \<longleftrightarrow> (\<forall>m \<ge> n. \<not> mi_rst (inp m) \<and> \<not> mi_flush_tlb (inp m))"

definition responsive :: "(nat \<Rightarrow> sv32_mmu_in) \<Rightarrow> nat \<Rightarrow> nat \<Rightarrow> bool" where
  "responsive inp latency n \<longleftrightarrow>
     (\<forall>m \<ge> n. walk_state (mmu_at inp m) \<noteq> WALK_IDLE \<longrightarrow> (\<exists>k \<le> latency. mi_walk_rvalid (inp (m + k))))"

definition same_walk :: "sv32_mmu \<Rightarrow> sv32_mmu \<Rightarrow> bool" where
  "same_walk s t \<longleftrightarrow> walk_vaddr t = walk_vaddr s \<and> walk_side t = walk_side s \<and> walk_aborted t = walk_aborted s"

text \<open>How a walk ends when it was not abandoned: an entry to fill, or a fault for its side.\<close>

definition walk_outcome :: "sv32_mmu \<Rightarrow> sv32_mmu \<Rightarrow> bool" where
  "walk_outcome s t \<longleftrightarrow>
     (fill_en t \<and> fill_vaddr t = walk_vaddr s) \<or>
     (walk_side s = SIDE_DATA \<and> data_fault_valid t \<and> data_fault_vaddr t = walk_vaddr s) \<or>
     (walk_side s = SIDE_INSTR \<and> instr_fault_valid t \<and> instr_fault_vaddr t = walk_vaddr s)"

lemma walk_waits:
  assumes "undisturbed inp n" and "walk_state (mmu_at inp n) \<noteq> WALK_IDLE"
    and "\<And>j. j < k \<Longrightarrow> \<not> mi_walk_rvalid (inp (n + j))"
  shows "walk_state (mmu_at inp (n + k)) = walk_state (mmu_at inp n) \<and> same_walk (mmu_at inp n) (mmu_at inp (n + k))"
  using assms(3)
proof (induction k)
  case 0
  show ?case by (simp add: same_walk_def)
next
  case (Suc k)
  then have IH: "walk_state (mmu_at inp (n + k)) = walk_state (mmu_at inp n)"
    "same_walk (mmu_at inp n) (mmu_at inp (n + k))" by auto
  have "\<not> mi_walk_rvalid (inp (n + k))" "\<not> mi_rst (inp (n + k))" "\<not> mi_flush_tlb (inp (n + k))"
    using Suc.prems assms(1) by (simp_all add: undisturbed_def)
  moreover have "walk_state (mmu_at inp n) \<in> {WALK_LEVEL1, WALK_LEVEL0}"
    using mmu_at_shape [of inp n] assms(2) by auto
  ultimately show ?case
    using IH by (auto simp: mmu_step_simps same_walk_def)
qed

lemma next_response:
  assumes "undisturbed inp n" and "responsive inp L n" and "walk_state (mmu_at inp n) \<noteq> WALK_IDLE"
  obtains k where "k \<le> L" and "mi_walk_rvalid (inp (n + k))"
    and "walk_state (mmu_at inp (n + k)) = walk_state (mmu_at inp n)"
    and "same_walk (mmu_at inp n) (mmu_at inp (n + k))"
proof -
  define k where "k = (LEAST k. mi_walk_rvalid (inp (n + k)))"
  from assms(2,3) obtain k' where "k' \<le> L" and "mi_walk_rvalid (inp (n + k'))"
    unfolding responsive_def by blast
  then have "k \<le> L" and r: "mi_walk_rvalid (inp (n + k))"
    unfolding k_def by (auto intro: LeastI dest: Least_le)
  moreover have "\<not> mi_walk_rvalid (inp (n + j))" if "j < k" for j
    using that not_less_Least unfolding k_def by blast
  ultimately show ?thesis using walk_waits [OF assms(1,3), of k] that by blast
qed

lemma response_last:
  assumes "walk_state s = WALK_LEVEL0" and "mi_walk_rvalid i" and "\<not> mi_rst i" and "\<not> mi_flush_tlb i"
  shows "walk_state (mmu_step s i) = WALK_IDLE"
    and "\<not> walk_aborted s \<Longrightarrow> walk_outcome s (mmu_step s i)"
  using assms by (auto simp: mmu_step_simps walk_outcome_def SIDE_INSTR_def SIDE_DATA_def)

lemma response_first:
  assumes "walk_state s = WALK_LEVEL1" and "mi_walk_rvalid i" and "\<not> mi_rst i" and "\<not> mi_flush_tlb i"
  shows "walk_state (mmu_step s i) = WALK_LEVEL0 \<and> same_walk s (mmu_step s i) \<or>
         walk_state (mmu_step s i) = WALK_IDLE \<and> (\<not> walk_aborted s \<longrightarrow> walk_outcome s (mmu_step s i))"
  using assms by (auto simp: mmu_step_simps walk_outcome_def same_walk_def SIDE_INSTR_def SIDE_DATA_def)

lemma undisturbed_later: "undisturbed inp n \<Longrightarrow> n \<le> m \<Longrightarrow> undisturbed inp m"
  by (simp add: undisturbed_def)

lemma responsive_later: "responsive inp L n \<Longrightarrow> n \<le> m \<Longrightarrow> responsive inp L m"
  by (simp add: responsive_def)

lemma walk_outcome_same: "same_walk s t \<Longrightarrow> walk_outcome t u \<Longrightarrow> walk_outcome s u"
  by (simp add: same_walk_def walk_outcome_def)

text \<open>Each level costs one response, so a walk is over after two.\<close>

lemma level0_ends:
  assumes "undisturbed inp n" and "responsive inp L n" and "walk_state (mmu_at inp n) = WALK_LEVEL0"
  obtains m where "n < m" and "m \<le> n + L + 1" and "walk_state (mmu_at inp m) = WALK_IDLE"
    and "\<not> walk_aborted (mmu_at inp n) \<longrightarrow> walk_outcome (mmu_at inp n) (mmu_at inp m)"
proof -
  have "walk_state (mmu_at inp n) \<noteq> WALK_IDLE" using assms(3) by simp
  then obtain k where k: "k \<le> L" "mi_walk_rvalid (inp (n + k))"
      "walk_state (mmu_at inp (n + k)) = walk_state (mmu_at inp n)" "same_walk (mmu_at inp n) (mmu_at inp (n + k))"
    by (rule next_response [OF assms(1,2)])
  have q: "\<not> mi_rst (inp (n + k))" "\<not> mi_flush_tlb (inp (n + k))" using assms(1) by (simp_all add: undisturbed_def)
  show ?thesis
  proof (rule that [of "Suc (n + k)"])
    show "walk_state (mmu_at inp (Suc (n + k))) = WALK_IDLE"
      using response_last(1) [OF k(3) [unfolded assms(3)] k(2) q] by simp
    show "\<not> walk_aborted (mmu_at inp n) \<longrightarrow> walk_outcome (mmu_at inp n) (mmu_at inp (Suc (n + k)))"
      using response_last(2) [OF k(3) [unfolded assms(3)] k(2) q] walk_outcome_same [OF k(4)] k(4) by (simp add: same_walk_def)
  qed (use k(1) in auto)
qed

lemma walk_ends:
  assumes "undisturbed inp n" and "responsive inp L n" and "walk_state (mmu_at inp n) \<noteq> WALK_IDLE"
  obtains m where "n < m" and "m \<le> n + 2 * L + 2" and "walk_state (mmu_at inp m) = WALK_IDLE"
    and "\<not> walk_aborted (mmu_at inp n) \<longrightarrow> walk_outcome (mmu_at inp n) (mmu_at inp m)"
proof (cases "walk_state (mmu_at inp n) = WALK_LEVEL0")
  case True
  obtain m where m: "n < m" "m \<le> n + L + 1" "walk_state (mmu_at inp m) = WALK_IDLE"
    "\<not> walk_aborted (mmu_at inp n) \<longrightarrow> walk_outcome (mmu_at inp n) (mmu_at inp m)"
    by (rule level0_ends [OF assms(1,2) True])
  from m(2) have "m \<le> n + 2 * L + 2" by simp
  with m show ?thesis by (intro that)
next
  case False
  then have l1: "walk_state (mmu_at inp n) = WALK_LEVEL1" using mmu_at_shape [of inp n] assms(3) by auto
  obtain k where k: "k \<le> L" "mi_walk_rvalid (inp (n + k))"
      "walk_state (mmu_at inp (n + k)) = walk_state (mmu_at inp n)" "same_walk (mmu_at inp n) (mmu_at inp (n + k))"
    by (rule next_response [OF assms])
  have q: "\<not> mi_rst (inp (n + k))" "\<not> mi_flush_tlb (inp (n + k))" using assms(1) by (simp_all add: undisturbed_def)
  let ?s = "mmu_at inp (Suc (n + k))"
  consider "walk_state ?s = WALK_LEVEL0" "same_walk (mmu_at inp n) ?s"
    | "walk_state ?s = WALK_IDLE" "\<not> walk_aborted (mmu_at inp n) \<longrightarrow> walk_outcome (mmu_at inp n) ?s"
    using response_first [OF k(3) [unfolded l1] k(2) q] k(4) by (auto simp: same_walk_def walk_outcome_def)
  then show ?thesis
  proof cases
    case 1
    have "undisturbed inp (Suc (n + k))" "responsive inp L (Suc (n + k))"
      using assms(1,2) by (auto intro: undisturbed_later responsive_later)
    from level0_ends [OF this 1(1)] obtain m where m: "Suc (n + k) < m" "m \<le> Suc (n + k) + L + 1"
      "walk_state (mmu_at inp m) = WALK_IDLE" "\<not> walk_aborted ?s \<longrightarrow> walk_outcome ?s (mmu_at inp m)" .
    have "\<not> walk_aborted (mmu_at inp n) \<longrightarrow> walk_outcome (mmu_at inp n) (mmu_at inp m)"
      using m(4) walk_outcome_same [OF 1(2)] 1(2) unfolding same_walk_def by blast
    moreover from m(1,2) k(1) have "n < m" "m \<le> n + 2 * L + 2" by simp_all
    ultimately show ?thesis using m(3) by (intro that)
  next
    case 2
    from k(1) have "n < Suc (n + k)" "Suc (n + k) \<le> n + 2 * L + 2" by simp_all
    with 2 show ?thesis by (intro that)
  qed
qed

text \<open>The requester keeps asking for a page.\<close>

definition data_held :: "(nat \<Rightarrow> sv32_mmu_in) \<Rightarrow> nat \<Rightarrow> bool" where
  "data_held inp n \<longleftrightarrow>
     (\<forall>m \<ge> n. mi_data_translate_enable (inp m) \<and> (mi_data_rd_en (inp m) \<or> mi_data_wr_req (inp m)) \<and>
        page_of (mi_data_virtual_addr (inp m)) = page_of (mi_data_virtual_addr (inp n)))"

lemma data_heldD:
  assumes "data_held inp n" and "n \<le> m"
  shows "mi_data_translate_enable (inp m)" and "mi_data_rd_en (inp m) \<or> mi_data_wr_req (inp m)"
    and "page_of (mi_data_virtual_addr (inp m)) = page_of (mi_data_virtual_addr (inp n))"
  using assms unfolding data_held_def by blast+

lemma idle_fill_drains:
  assumes "walk_state (mmu_at inp m) = WALK_IDLE" and "undisturbed inp m"
  obtains m' where "m \<le> m'" and "m' \<le> m + 1" and "walk_state (mmu_at inp m') = WALK_IDLE"
    and "\<not> fill_en (mmu_at inp m')"
proof (cases "fill_en (mmu_at inp m)")
  case True
  with assms have "walk_state (mmu_at inp (Suc m)) = WALK_IDLE" "\<not> fill_en (mmu_at inp (Suc m))"
    by (simp_all add: undisturbed_def mmu_step_simps data_walk_needed_def instr_walk_needed_def)
  then show ?thesis by (intro that [of "Suc m"]) simp_all
next
  case False
  with assms(1) show ?thesis by (intro that [of m]) simp_all
qed

lemma data_walk_starts:
  assumes "walk_state (mmu_at inp m) = WALK_IDLE" and "\<not> fill_en (mmu_at inp m)" and "undisturbed inp m"
    and "data_held inp n" and "n \<le> m" and "\<not> data_ready (mmu_at inp m) (inp m)"
  shows "walk_state (mmu_at inp (Suc m)) = WALK_LEVEL1"
    and "walk_side (mmu_at inp (Suc m)) = SIDE_DATA" and "\<not> walk_aborted (mmu_at inp (Suc m))"
    and "page_of (walk_vaddr (mmu_at inp (Suc m))) = page_of (mi_data_virtual_addr (inp n))"
proof -
  have "data_walk_needed (mmu_at inp m) (inp m)"
    using assms(2,6) data_heldD [OF assms(4,5)] by (auto simp: data_walk_needed_def data_ready_def)
  with assms(1,3) data_heldD(3) [OF assms(4,5)] show
    "walk_state (mmu_at inp (Suc m)) = WALK_LEVEL1"
    "walk_side (mmu_at inp (Suc m)) = SIDE_DATA" "\<not> walk_aborted (mmu_at inp (Suc m))"
    "page_of (walk_vaddr (mmu_at inp (Suc m))) = page_of (mi_data_virtual_addr (inp n))"
    by (simp_all add: undisturbed_def mmu_step_simps)
qed

lemma filled_then_ready:
  assumes "fill_en (mmu_at inp m)" and "page_of (fill_vaddr (mmu_at inp m)) = page_of (mi_data_virtual_addr (inp n))"
    and "undisturbed inp m" and "data_held inp n" and "n \<le> m"
  shows "data_ready (mmu_at inp (Suc m)) (inp (Suc m))"
proof -
  let ?s = "mmu_at inp m" and ?v = "page_of (mi_data_virtual_addr (inp (Suc m)))"
  have v: "page_of (fill_vaddr ?s) = ?v" using assms(2) data_heldD(3) [OF assms(4), of "Suc m"] assms(5) by simp
  have "tlb_find (tlb_fill (mmu_tlb ?s) (page_base ?v) (fill_pte ?s) (fill_megapage ?s)) ?v \<noteq> None"
    using tlb.lookup_fill [of "mmu_tlb ?s" ?v "(fill_pte ?s, fill_megapage ?s)"] mmu_at_shape [of inp m]
    by (simp add: entry_covers_def)
  then have "tlb_find (mmu_tlb (mmu_at inp (Suc m))) ?v \<noteq> None"
    using assms(1,3) tlb_fill_page [of "mmu_tlb ?s" "fill_vaddr ?s"]
    by (simp add: mmu_step_tlb undisturbed_def v)
  then show ?thesis by (simp add: data_ready_def tlb_data_hit_def tlb_find_page split: if_splits)
qed

lemma outcome_then_ready:
  assumes "walk_outcome s (mmu_at inp m)" and "walk_side s = SIDE_DATA"
    and "page_of (walk_vaddr s) = page_of (mi_data_virtual_addr (inp n))"
    and "undisturbed inp m" and "data_held inp n" and "n \<le> m"
  shows "data_ready (mmu_at inp m) (inp m) \<or> data_ready (mmu_at inp (Suc m)) (inp (Suc m))"
proof (cases "fill_en (mmu_at inp m) \<and> fill_vaddr (mmu_at inp m) = walk_vaddr s")
  case True
  with assms(3-6) show ?thesis using filled_then_ready [of inp m n] by simp
next
  case False
  with assms(1,2) have "data_fault_valid (mmu_at inp m)" "data_fault_vaddr (mmu_at inp m) = walk_vaddr s"
    by (auto simp: walk_outcome_def)
  then have "data_fault_match (mmu_at inp m) (inp m)"
    using assms(3) data_heldD(3) [OF assms(5,6)] by (simp add: data_fault_match_def page_of_def)
  then show ?thesis by (simp add: data_ready_def)
qed

text \<open>
  C28. A data request is always answered: if the walk port gives each read of the walker a response
  within \<open>L\<close> cycles, then a load or store that keeps asking for its page, while software does not
  fence, finds the unit ready after at most \<open>4 L + 7\<close> cycles, whatever walk was under way for the
  other side and whatever fill was pending.
\<close>

theorem mmu_data_request_answered:
  assumes "undisturbed inp n" and "responsive inp L n" and "data_held inp n"
  shows "\<exists>m. n \<le> m \<and> m \<le> n + 4 * L + 7 \<and> data_ready (mmu_at inp m) (inp m)"
proof -
  have later: "undisturbed inp m" "responsive inp L m" if "n \<le> m" for m
    using assms(1,2) that by (auto intro: undisturbed_later responsive_later)
  obtain a where a: "n \<le> a" "a \<le> n + 2 * L + 2" "walk_state (mmu_at inp a) = WALK_IDLE"
  proof (cases "walk_state (mmu_at inp n) = WALK_IDLE")
    case True
    then show ?thesis by (intro that [of n]) simp_all
  next
    case False
    from walk_ends [OF assms(1,2) False] obtain m where "n < m" "m \<le> n + 2 * L + 2" "walk_state (mmu_at inp m) = WALK_IDLE" .
    then show ?thesis by (intro that [of m]) simp_all
  qed
  obtain b where b: "a \<le> b" "b \<le> a + 1" "walk_state (mmu_at inp b) = WALK_IDLE" "\<not> fill_en (mmu_at inp b)"
    by (rule idle_fill_drains [OF a(3) later(1) [OF a(1)]])
  have nb: "n \<le> b" using a(1) b(1) by simp
  show ?thesis
  proof (cases "data_ready (mmu_at inp b) (inp b)")
    case True
    with nb a(2) b(2) show ?thesis by (intro exI [of _ b]) simp
  next
    case False
    note start = data_walk_starts [OF b(3,4) later(1) [OF nb] assms(3) nb False]
    have nSb: "n \<le> Suc b" using nb by simp
    have "walk_state (mmu_at inp (Suc b)) \<noteq> WALK_IDLE" using start(1) by simp
    then obtain c where c: "Suc b < c" "c \<le> Suc b + 2 * L + 2"
        "\<not> walk_aborted (mmu_at inp (Suc b)) \<longrightarrow> walk_outcome (mmu_at inp (Suc b)) (mmu_at inp c)"
      by (rule walk_ends [OF later [OF nSb]])
    have nc: "n \<le> c" using nSb c(1) by simp
    from c(3) start(3) have "walk_outcome (mmu_at inp (Suc b)) (mmu_at inp c)" by blast
    from outcome_then_ready [OF this start(2,4) later(1) [OF nc] assms(3) nc]
    obtain m where "data_ready (mmu_at inp m) (inp m)" "c \<le> m" "m \<le> c + 1" by fastforce
    with nc c(2) b(2) a(2) show ?thesis by (intro exI [of _ m]) simp
  qed
qed

section \<open>A two-level walk\<close>

text \<open>A supervisor load of address \<open>0x123\<close> through tables at \<open>0x1000\<close> and \<open>0x2000\<close>.\<close>

definition demo_tables :: "32 word \<Rightarrow> 32 word" where
  "demo_tables a = (if a = 0x1000 then 0x801 else if a = 0x2000 then 0x14CF else 0)"

definition demo_mmu_in :: "(nat \<Rightarrow> bool) \<Rightarrow> nat \<Rightarrow> sv32_mmu_in" where
  "demo_mmu_in rvalid n =
     \<lparr>mi_rst = False, mi_flush_tlb = False, mi_satp = 0x80000001, mi_data_sum = False, mi_data_mxr = False,
      mi_instr_translate_enable = False, mi_instr_virtual_addr = 0, mi_instr_priv_mode = 1,
      mi_data_translate_enable = True, mi_data_virtual_addr = 0x123, mi_data_rd_en = True,
      mi_data_wr_req = False, mi_data_priv_mode = 1, mi_walk_gnt = True,
      mi_walk_rvalid = rvalid n,
      mi_walk_rdata = (if n = 1 then 0x801 else if n = 2 then 0x14CF else 0)\<rparr>"

definition demo_rvalid :: "nat \<Rightarrow> bool" where "demo_rvalid n \<longleftrightarrow> n = 1 \<or> n = 2"

lemma demo_port: "walk_port_answers (demo_mmu_in demo_rvalid) (\<lambda>_. demo_tables)"
proof -
  have "mi_walk_rdata (demo_mmu_in demo_rvalid n) =
      demo_tables (walk_addr (mmu_at (demo_mmu_in demo_rvalid) n) (demo_mmu_in demo_rvalid n))"
    if "n = 1 \<or> n = 2" for n
    using that by (elim disjE; hypsubst; code_simp)
  then show ?thesis by (simp add: walk_port_answers_def demo_mmu_in_def demo_rvalid_def)
qed

lemma demo_fenced: "tables_fenced (demo_mmu_in demo_rvalid) (\<lambda>_. demo_tables)"
  by (simp add: tables_fenced_def demo_mmu_in_def)

theorem mmu_translates_witness:
  "data_answer (mmu_at (demo_mmu_in demo_rvalid) 4) (demo_mmu_in demo_rvalid 4) (Some (0x14CF, False)) \<and>
   data_phys_addr (mmu_at (demo_mmu_in demo_rvalid) 4) (demo_mmu_in demo_rvalid 4) = 0x5123"
proof -
  have "data_ready (mmu_at (demo_mmu_in demo_rvalid) 4) (demo_mmu_in demo_rvalid 4)" by code_simp
  moreover have "mi_data_translate_enable (demo_mmu_in demo_rvalid 4)" by code_simp
  moreover have "translation (mi_satp (demo_mmu_in demo_rvalid 4)) demo_tables
      (page_of (mi_data_virtual_addr (demo_mmu_in demo_rvalid 4))) = Some (0x14CF, False)"
    by code_simp
  moreover have "translated_addr 0x14CF False (mi_data_virtual_addr (demo_mmu_in demo_rvalid 4)) = 0x5123"
    by code_simp
  ultimately show ?thesis
    using mmu_translates [OF demo_port demo_fenced, of 4] by (simp add: data_answer_def)
qed

theorem mmu_data_request_answered_witness:
  "\<exists>m. 0 \<le> m \<and> m \<le> 0 + 4 * 0 + 7 \<and>
       data_ready (mmu_at (demo_mmu_in (\<lambda>_. True)) m) (demo_mmu_in (\<lambda>_. True) m)"
  by (rule mmu_data_request_answered)
     (simp_all add: undisturbed_def responsive_def data_held_def demo_mmu_in_def)

end
