(* ===== verification/Store_Path.thy ===== *)
theory Store_Path
  imports Synapse_Prelude
begin

text \<open>
  The way of a store to memory: the store buffer \<open>rtl/store_buffer.v\<close>, and the arbitration of the
  data bus in \<open>rtl/top.v\<close> between a load of the core, the draining of the buffer and the page walker.
  The data cache answers by \<open>dcache_gnt\<close> and \<open>dcache_rvalid\<close>, inputs here. The interface states what
  a queue on the way to memory promises: what leaves it is what entered, complete and in order.
\<close>

unbundle bit_operations_syntax

section \<open>The interface of an ordered flow\<close>

locale ordered_flow =
  fixes ok :: "'s \<Rightarrow> bool"
    and legal :: "'s \<Rightarrow> 'i \<Rightarrow> bool"
    and queue :: "'s \<Rightarrow> 'a list"
    and "next" :: "'s \<Rightarrow> 'i \<Rightarrow> 's"
    and entering :: "'s \<Rightarrow> 'i \<Rightarrow> 'a list"
    and leaving :: "'s \<Rightarrow> 'i \<Rightarrow> 'a list"
  assumes ok_next: "ok s \<Longrightarrow> legal s i \<Longrightarrow> ok (next s i)"
    and flow: "ok s \<Longrightarrow> legal s i \<Longrightarrow> leaving s i @ queue (next s i) = queue s @ entering s i"
begin

fun run :: "'s \<Rightarrow> 'i list \<Rightarrow> 's" where
  "run s [] = s"
| "run s (i # is) = run (next s i) is"

fun entered :: "'s \<Rightarrow> 'i list \<Rightarrow> 'a list" where
  "entered s [] = []"
| "entered s (i # is) = entering s i @ entered (next s i) is"

fun left :: "'s \<Rightarrow> 'i list \<Rightarrow> 'a list" where
  "left s [] = []"
| "left s (i # is) = leaving s i @ left (next s i) is"

fun legal_run :: "'s \<Rightarrow> 'i list \<Rightarrow> bool" where
  "legal_run s [] = True"
| "legal_run s (i # is) \<longleftrightarrow> legal s i \<and> legal_run (next s i) is"

lemma ok_run: "ok s \<Longrightarrow> legal_run s is \<Longrightarrow> ok (run s is)"
  by (induction "is" arbitrary: s) (simp_all add: ok_next)

lemma conservation:
  "ok s \<Longrightarrow> legal_run s is \<Longrightarrow> left s is @ queue (run s is) = queue s @ entered s is"
proof (induction "is" arbitrary: s)
  case (Cons i "is")
  then have "left (next s i) is @ queue (run (next s i) is) = queue (next s i) @ entered (next s i) is"
    by (simp add: ok_next)
  with flow [of s i] Cons.prems show ?case by simp
qed simp

end

section \<open>The store buffer\<close>

definition DEPTH :: nat where "DEPTH = 4"

record store_buffer =
  addr_q :: "32 word list"
  be_q :: "4 word list"
  data_q :: "32 word list"
  ram_q :: "bool list"
  sb_count :: "3 word"

record store =
  st_addr :: "32 word"
  st_be :: "4 word"
  st_data :: "32 word"
  st_ram :: bool

definition sb_tail :: "store_buffer \<Rightarrow> bool \<Rightarrow> 3 word" where
  "sb_tail s pop = (if pop then sb_count s - 1 else sb_count s)"

definition sb_empty :: "store_buffer \<Rightarrow> bool" where "sb_empty s \<longleftrightarrow> sb_count s = 0"
definition sb_full :: "store_buffer \<Rightarrow> bool" where "sb_full s \<longleftrightarrow> sb_count s = of_nat DEPTH"

definition sb_drained :: "store_buffer \<Rightarrow> bool \<Rightarrow> bool \<Rightarrow> bool" where
  "sb_drained s push pop \<longleftrightarrow> sb_tail s pop = 0 \<and> \<not> push"

definition sb_head :: "store_buffer \<Rightarrow> store" where
  "sb_head s = \<lparr>st_addr = addr_q s ! 0, st_be = be_q s ! 0, st_data = data_q s ! 0, st_ram = ram_q s ! 0\<rparr>"

definition word_of :: "32 word \<Rightarrow> 30 word" where
  "word_of addr = ucast (drop_bit 2 addr)"

definition sb_match :: "store_buffer \<Rightarrow> 32 word \<Rightarrow> bool" where
  "sb_match s match_addr \<longleftrightarrow>
     fold (\<lambda>i found. if i < unat (sb_count s) \<and> word_of (addr_q s ! i) = word_of match_addr then True else found)
       [0..<DEPTH] False"

text \<open>
  One array at the clock edge: the entry at the tail takes the pushed value, every other entry but
  the last takes the entry behind it when the head leaves.
\<close>

definition shift_in :: "bool \<Rightarrow> bool \<Rightarrow> 3 word \<Rightarrow> 'a \<Rightarrow> 'a list \<Rightarrow> 'a list" where
  "shift_in push pop tail x xs =
     map (\<lambda>j. if push \<and> j = unat tail then x
              else if pop \<and> j < DEPTH - 1 then xs ! (j + 1)
              else xs ! j) [0..<DEPTH]"

definition sb_reset :: store_buffer where
  "sb_reset = \<lparr>addr_q = replicate DEPTH 0, be_q = replicate DEPTH 0, data_q = replicate DEPTH 0,
               ram_q = replicate DEPTH False, sb_count = 0\<rparr>"

definition sb_step :: "store_buffer \<Rightarrow> bool \<Rightarrow> bool \<Rightarrow> store \<Rightarrow> bool \<Rightarrow> store_buffer" where
  "sb_step s rst push x pop =
     (if rst then sb_reset
      else let tail = sb_tail s pop
           in \<lparr>addr_q = shift_in push pop tail (st_addr x) (addr_q s),
               be_q = shift_in push pop tail (st_be x) (be_q s),
               data_q = shift_in push pop tail (st_data x) (data_q s),
               ram_q = shift_in push pop tail (st_ram x) (ram_q s),
               sb_count = tail + (if push then 1 else 0)\<rparr>)"

section \<open>The arbitration of the data bus\<close>

record store_path =
  sp_buffer :: store_buffer
  data_bus_walk_owner_q :: bool
  data_bus_drain_owner_q :: bool

record store_path_in =
  sp_rst :: bool
  cpu_data_bus_req :: bool
  cpu_mem_write_en :: bool
  cpu_write_byte_enable :: "4 word"
  cpu_mem_write_data :: "32 word"
  phys_data_addr :: "32 word"
  cpu_ram_access :: bool
  cpu_device_access :: bool
  mmu_walk_req :: bool
  dcache_gnt :: bool
  dcache_rvalid :: bool

text \<open>The write the core presents.\<close>

definition cpu_store :: "store_path_in \<Rightarrow> store" where
  "cpu_store i = \<lparr>st_addr = phys_data_addr i, st_be = cpu_write_byte_enable i,
                  st_data = cpu_mem_write_data i, st_ram = cpu_ram_access i\<rparr>"

definition store_buf_push_req :: "store_path \<Rightarrow> store_path_in \<Rightarrow> bool" where
  "store_buf_push_req s i \<longleftrightarrow> cpu_data_bus_req i \<and> cpu_mem_write_en i \<and> \<not> sb_full (sp_buffer s)"

definition cpu_load_go :: "store_path \<Rightarrow> store_path_in \<Rightarrow> bool" where
  "cpu_load_go s i \<longleftrightarrow>
     cpu_data_bus_req i \<and> \<not> cpu_mem_write_en i \<and> \<not> sb_match (sp_buffer s) (phys_data_addr i) \<and>
     \<not> (cpu_device_access i \<and> \<not> sb_empty (sp_buffer s))"

definition drain_req :: "store_path \<Rightarrow> store_path_in \<Rightarrow> bool" where
  "drain_req s i \<longleftrightarrow> \<not> sb_empty (sp_buffer s) \<or> store_buf_push_req s i"

definition drain_store :: "store_path \<Rightarrow> store_path_in \<Rightarrow> store" where
  "drain_store s i = (if sb_empty (sp_buffer s) then cpu_store i else sb_head (sp_buffer s))"

definition data_bus_drain_sel :: "store_path \<Rightarrow> store_path_in \<Rightarrow> bool" where
  "data_bus_drain_sel s i \<longleftrightarrow> drain_req s i \<and> \<not> cpu_load_go s i"

definition data_bus_walk_sel :: "store_path \<Rightarrow> store_path_in \<Rightarrow> bool" where
  "data_bus_walk_sel s i \<longleftrightarrow> mmu_walk_req i \<and> \<not> cpu_load_go s i \<and> \<not> drain_req s i"

definition data_bus_walk_owns :: "store_path \<Rightarrow> store_path_in \<Rightarrow> bool" where
  "data_bus_walk_owns s i \<longleftrightarrow> data_bus_walk_owner_q s \<or> (data_bus_walk_sel s i \<and> dcache_gnt i)"

definition data_bus_drain_owns :: "store_path \<Rightarrow> store_path_in \<Rightarrow> bool" where
  "data_bus_drain_owns s i \<longleftrightarrow> data_bus_drain_owner_q s \<or> (data_bus_drain_sel s i \<and> dcache_gnt i)"

definition drain_done :: "store_path \<Rightarrow> store_path_in \<Rightarrow> bool" where
  "drain_done s i \<longleftrightarrow> dcache_rvalid i \<and> data_bus_drain_owns s i"

definition store_buf_push :: "store_path \<Rightarrow> store_path_in \<Rightarrow> bool" where
  "store_buf_push s i \<longleftrightarrow> store_buf_push_req s i \<and> \<not> (sb_empty (sp_buffer s) \<and> drain_done s i)"

definition store_buf_pop :: "store_path \<Rightarrow> store_path_in \<Rightarrow> bool" where
  "store_buf_pop s i \<longleftrightarrow> drain_done s i \<and> \<not> sb_empty (sp_buffer s)"

definition mmu_walk_gnt :: "store_path \<Rightarrow> store_path_in \<Rightarrow> bool" where
  "mmu_walk_gnt s i \<longleftrightarrow> dcache_gnt i \<and> data_bus_walk_sel s i"

definition mmu_walk_rvalid :: "store_path \<Rightarrow> store_path_in \<Rightarrow> bool" where
  "mmu_walk_rvalid s i \<longleftrightarrow> dcache_rvalid i \<and> data_bus_walk_owns s i"

definition cpu_data_gnt :: "store_path \<Rightarrow> store_path_in \<Rightarrow> bool" where
  "cpu_data_gnt s i = (if cpu_mem_write_en i then store_buf_push_req s i else dcache_gnt i \<and> cpu_load_go s i)"

definition cpu_data_rvalid :: "store_path \<Rightarrow> store_path_in \<Rightarrow> bool" where
  "cpu_data_rvalid s i =
     (if cpu_mem_write_en i then store_buf_push_req s i
      else dcache_rvalid i \<and> \<not> data_bus_walk_owns s i \<and> \<not> data_bus_drain_owns s i)"

definition sp_reset :: store_path where
  "sp_reset = \<lparr>sp_buffer = sb_reset, data_bus_walk_owner_q = False, data_bus_drain_owner_q = False\<rparr>"

definition sp_step :: "store_path \<Rightarrow> store_path_in \<Rightarrow> store_path" where
  "sp_step s i =
     \<lparr>sp_buffer = sb_step (sp_buffer s) (sp_rst i) (store_buf_push s i) (cpu_store i) (store_buf_pop s i),
      data_bus_walk_owner_q =
        (if sp_rst i then False else if dcache_rvalid i then False
         else if dcache_gnt i then data_bus_walk_sel s i else data_bus_walk_owner_q s),
      data_bus_drain_owner_q =
        (if sp_rst i then False else if dcache_rvalid i then False
         else if dcache_gnt i then data_bus_drain_sel s i else data_bus_drain_owner_q s)\<rparr>"

section \<open>The buffer holds a queue\<close>

definition sb_entry :: "store_buffer \<Rightarrow> nat \<Rightarrow> store" where
  "sb_entry s j = \<lparr>st_addr = addr_q s ! j, st_be = be_q s ! j, st_data = data_q s ! j, st_ram = ram_q s ! j\<rparr>"

definition sb_list :: "store_buffer \<Rightarrow> store list" where
  "sb_list s = map (sb_entry s) [0..<unat (sb_count s)]"

definition sb_ok :: "store_buffer \<Rightarrow> bool" where
  "sb_ok s \<longleftrightarrow> length (addr_q s) = DEPTH \<and> length (be_q s) = DEPTH \<and> length (data_q s) = DEPTH \<and>
               length (ram_q s) = DEPTH \<and> unat (sb_count s) \<le> DEPTH"

lemma sb_empty_iff: "sb_empty s \<longleftrightarrow> sb_list s = []"
  by (auto simp: sb_empty_def sb_list_def unat_eq_zero)

lemma sb_full_iff: "sb_ok s \<Longrightarrow> sb_full s \<longleftrightarrow> length (sb_list s) = DEPTH"
  by (simp add: sb_full_def sb_list_def DEPTH_def word_unat_eq_iff)

lemma sb_head_entry: "sb_head s = sb_entry s 0"
  by (simp add: sb_head_def sb_entry_def)

lemma sb_ok_reset: "sb_ok sb_reset" and sb_list_reset: "sb_list sb_reset = []"
  by (simp_all add: sb_ok_def sb_reset_def sb_list_def)

lemma fold_find: "fold (\<lambda>i found. if P i then True else found) is b \<longleftrightarrow> b \<or> (\<exists>i \<in> set is. P i)"
  by (induction "is" arbitrary: b) auto

text \<open>The match line is set exactly when a buffered write goes to the word.\<close>

lemma sb_match_iff:
  assumes "sb_ok s"
  shows "sb_match s addr \<longleftrightarrow> (\<exists>w \<in> set (sb_list s). word_of (st_addr w) = word_of addr)"
  using assms by (auto simp: sb_match_def fold_find sb_list_def sb_entry_def sb_ok_def)

lemma sb_entry_step:
  "j < DEPTH \<Longrightarrow> sb_entry (sb_step s False push x pop) j =
     (if push \<and> j = unat (sb_tail s pop) then x
      else if pop \<and> j < DEPTH - 1 then sb_entry s (j + 1) else sb_entry s j)"
  by (simp add: sb_entry_def sb_step_def shift_in_def Let_def)

lemma sb_tail_unat:
  "(pop \<Longrightarrow> \<not> sb_empty s) \<Longrightarrow>
     unat (sb_tail s pop) = (if pop then unat (sb_count s) - 1 else unat (sb_count s))"
  by (simp add: sb_tail_def sb_empty_def unat_minus_one)

lemma sb_tail_room:
  assumes "sb_ok s" and "\<not> sb_full s" and "pop \<Longrightarrow> \<not> sb_empty s"
  shows "unat (sb_tail s pop) < DEPTH"
  using assms sb_full_iff [OF assms(1)] sb_tail_unat [of pop s] by (auto simp: sb_ok_def sb_list_def)

lemma sb_count_step:
  assumes "sb_ok s" and "push \<Longrightarrow> \<not> sb_full s" and "pop \<Longrightarrow> \<not> sb_empty s"
  shows "unat (sb_count (sb_step s False push x pop)) = unat (sb_tail s pop) + (if push then 1 else 0)"
proof (cases push)
  case True
  with assms have "unat (sb_tail s pop) < DEPTH" by (intro sb_tail_room) auto
  with True show ?thesis by (simp add: sb_step_def Let_def DEPTH_def unat_word_ariths)
qed (simp add: sb_step_def Let_def)

lemma map_shift: "0 < n \<Longrightarrow> f 0 # map (\<lambda>j. f (Suc j)) [0..<n - 1] = map f [0..<n]"
  by (cases n) (simp_all add: upt_conv_Cons map_Suc_upt [symmetric] comp_def del: upt_Suc)

lemma sb_step_flow:
  assumes "sb_ok s" and "push \<Longrightarrow> \<not> sb_full s" and "pop \<Longrightarrow> \<not> sb_empty s"
  shows "sb_ok (sb_step s False push x pop)"
    and "(if pop then [sb_head s] else []) @ sb_list (sb_step s False push x pop) =
           sb_list s @ (if push then [x] else [])"
proof -
  let ?s = "sb_step s False push x pop" and ?t = "unat (sb_tail s pop)"
  have tail: "?t = (if pop then unat (sb_count s) - 1 else unat (sb_count s))"
    using assms(3) by (rule sb_tail_unat)
  have pos: "0 < unat (sb_count s)" if pop
    using assms(3) that by (simp add: sb_empty_def unat_gt_0)
  have room: "?t < DEPTH" if push
    using assms that by (intro sb_tail_room) auto
  have t_le: "?t \<le> DEPTH" "pop \<Longrightarrow> ?t < DEPTH"
    using assms(1) pos tail by (fastforce simp: sb_ok_def)+
  have count: "unat (sb_count ?s) = ?t + (if push then 1 else 0)"
    using assms by (rule sb_count_step)
  show "sb_ok ?s"
    using count t_le room by (auto simp: sb_ok_def sb_step_def shift_in_def Let_def)
  have "map (sb_entry ?s) [0..<?t] = map (\<lambda>j. if pop then sb_entry s (j + 1) else sb_entry s j) [0..<?t]"
    using t_le by (intro map_cong) (auto simp: sb_entry_step)
  moreover have "sb_list ?s = map (sb_entry ?s) [0..<?t] @ (if push then [x] else [])"
    using count room by (simp add: sb_list_def sb_entry_step)
  moreover have "(if pop then [sb_head s] else []) @
      map (\<lambda>j. if pop then sb_entry s (j + 1) else sb_entry s j) [0..<?t] = sb_list s"
    using tail pos map_shift [of "unat (sb_count s)" "sb_entry s"]
    by (simp add: sb_list_def sb_head_entry)
  ultimately show "(if pop then [sb_head s] else []) @ sb_list ?s = sb_list s @ (if push then [x] else [])"
    by (metis append_assoc)
qed

interpretation sb: ordered_flow sb_ok
  "\<lambda>s (push, x, pop). (push \<longrightarrow> \<not> sb_full s) \<and> (pop \<longrightarrow> \<not> sb_empty s)"
  sb_list "\<lambda>s (push, x, pop). sb_step s False push x pop"
  "\<lambda>s (push, x, pop). if push then [x] else []" "\<lambda>s (push, x, pop). if pop then [sb_head s] else []"
proof
  fix s and i :: "bool \<times> store \<times> bool"
  obtain push x pop where i: "i = (push, x, pop)" by (cases i)
  assume "sb_ok s" and "case i of (push, x, pop) \<Rightarrow> (push \<longrightarrow> \<not> sb_full s) \<and> (pop \<longrightarrow> \<not> sb_empty s)"
  then show "sb_ok (case i of (push, x, pop) \<Rightarrow> sb_step s False push x pop)"
    and "(case i of (push, x, pop) \<Rightarrow> if pop then [sb_head s] else []) @
         sb_list (case i of (push, x, pop) \<Rightarrow> sb_step s False push x pop) =
         sb_list s @ (case i of (push, x, pop) \<Rightarrow> if push then [x] else [])"
    using sb_step_flow [of s push pop x] by (simp_all add: i)
qed

section \<open>The path to memory\<close>

text \<open>
  What a write does to the word it goes to, as the data cache merges it: byte enables and data are
  shifted to the lanes of the address, and lanes beyond the word are cut off.
\<close>

definition lane_be :: "store \<Rightarrow> 4 word" where
  "lane_be w = push_bit (unat (ucast (st_addr w) :: 2 word)) (st_be w)"

definition lane_data :: "store \<Rightarrow> 32 word" where
  "lane_data w = push_bit (8 * unat (ucast (st_addr w) :: 2 word)) (st_data w)"

definition merge_bytes :: "4 word \<Rightarrow> 32 word \<Rightarrow> 32 word \<Rightarrow> 32 word" where
  "merge_bytes be new old =
     fold (\<lambda>b v. if bit be b then (v AND NOT (push_bit (8 * b) 0xFF)) OR (new AND push_bit (8 * b) 0xFF) else v)
       [0..<4] old"

definition perform :: "(30 word \<Rightarrow> 32 word) \<Rightarrow> store \<Rightarrow> 30 word \<Rightarrow> 32 word" where
  "perform m w = m(word_of (st_addr w) := merge_bytes (lane_be w) (lane_data w) (m (word_of (st_addr w))))"

definition accepts :: "store_path \<Rightarrow> store_path_in \<Rightarrow> store list" where
  "accepts s i = (if store_buf_push_req s i then [cpu_store i] else [])"

definition performs :: "store_path \<Rightarrow> store_path_in \<Rightarrow> store list" where
  "performs s i = (if drain_done s i then [drain_store s i] else [])"

fun sp_run :: "store_path \<Rightarrow> store_path_in list \<Rightarrow> store_path" where
  "sp_run s [] = s"
| "sp_run s (i # is) = sp_run (sp_step s i) is"

fun writes_accepted :: "store_path \<Rightarrow> store_path_in list \<Rightarrow> store list" where
  "writes_accepted s [] = []"
| "writes_accepted s (i # is) = accepts s i @ writes_accepted (sp_step s i) is"

fun writes_performed :: "store_path \<Rightarrow> store_path_in list \<Rightarrow> store list" where
  "writes_performed s [] = []"
| "writes_performed s (i # is) = performs s i @ writes_performed (sp_step s i) is"

text \<open>A write the bus is working on is still in the buffer.\<close>

definition sp_ok :: "store_path \<Rightarrow> bool" where
  "sp_ok s \<longleftrightarrow> sb_ok (sp_buffer s) \<and> (data_bus_drain_owner_q s \<longrightarrow> \<not> sb_empty (sp_buffer s))"

lemma sp_ok_reset: "sp_ok sp_reset"
  by (simp add: sp_ok_def sp_reset_def sb_ok_reset)

lemma sp_step_buffer:
  "\<not> sp_rst i \<Longrightarrow> sp_buffer (sp_step s i) =
     sb_step (sp_buffer s) False (store_buf_push s i) (cpu_store i) (store_buf_pop s i)"
  by (simp add: sp_step_def)

lemma sp_step_flow:
  assumes "sp_ok s" and "\<not> sp_rst i"
  shows "performs s i @ sb_list (sp_buffer (sp_step s i)) = sb_list (sp_buffer s) @ accepts s i"
    and "sb_ok (sp_buffer (sp_step s i))"
proof -
  let ?b = "sp_buffer s"
  have ok: "sb_ok ?b" and push: "store_buf_push s i \<Longrightarrow> \<not> sb_full ?b" and pop: "store_buf_pop s i \<Longrightarrow> \<not> sb_empty ?b"
    using assms(1) by (auto simp: sp_ok_def store_buf_push_def store_buf_push_req_def store_buf_pop_def)
  have flow: "(if store_buf_pop s i then [sb_head ?b] else []) @ sb_list (sp_buffer (sp_step s i)) =
      sb_list ?b @ (if store_buf_push s i then [cpu_store i] else [])"
    and "sb_ok (sp_buffer (sp_step s i))"
    using sb_step_flow [OF ok, of "store_buf_push s i" "store_buf_pop s i" "cpu_store i"] push pop assms(2)
    by (simp_all add: sp_step_buffer)
  then show "sb_ok (sp_buffer (sp_step s i))" by simp
  show "performs s i @ sb_list (sp_buffer (sp_step s i)) = sb_list ?b @ accepts s i"
  proof (cases "sb_empty ?b")
    case True
    then have "drain_done s i \<Longrightarrow> store_buf_push_req s i"
      using assms(1) by (auto simp: sp_ok_def drain_done_def data_bus_drain_owns_def data_bus_drain_sel_def drain_req_def)
    with True flow show ?thesis
      by (cases "drain_done s i")
         (simp_all add: performs_def accepts_def drain_store_def store_buf_push_def store_buf_pop_def sb_empty_iff)
  next
    case False
    with flow show ?thesis
      by (auto simp: performs_def accepts_def drain_store_def store_buf_push_def store_buf_pop_def split: if_splits)
  qed
qed

lemma sp_step_owner:
  assumes "sp_ok s" and "\<not> sp_rst i" and "data_bus_drain_owner_q (sp_step s i)"
  shows "\<not> drain_done s i" and "sb_list (sp_buffer (sp_step s i)) \<noteq> []"
proof -
  show nd: "\<not> drain_done s i" using assms(2,3) by (auto simp: sp_step_def drain_done_def split: if_splits)
  have "\<not> sb_empty (sp_buffer s) \<or> store_buf_push_req s i"
    using assms by (auto simp: sp_step_def data_bus_drain_sel_def drain_req_def sp_ok_def split: if_splits)
  with sp_step_flow(1) [OF assms(1,2)] nd show "sb_list (sp_buffer (sp_step s i)) \<noteq> []"
    by (auto simp: performs_def accepts_def sb_empty_iff)
qed

lemma sp_ok_step: "sp_ok s \<Longrightarrow> \<not> sp_rst i \<Longrightarrow> sp_ok (sp_step s i)"
  using sp_step_flow(2) sp_step_owner(2) by (auto simp: sp_ok_def sb_empty_iff)

interpretation sp: ordered_flow sp_ok "\<lambda>s i. \<not> sp_rst i" "\<lambda>s. sb_list (sp_buffer s)" sp_step accepts performs
  by unfold_locales (simp_all add: sp_ok_step sp_step_flow(1))

lemma sp_logs:
  "sp.run s is = sp_run s is" "sp.entered s is = writes_accepted s is" "sp.left s is = writes_performed s is"
  "sp.legal_run s is = (\<forall>i \<in> set is. \<not> sp_rst i)"
  by (induction "is" arbitrary: s) simp_all

lemma sp_run_conservation:
  assumes "\<forall>i \<in> set is. \<not> sp_rst i"
  shows "writes_performed sp_reset is @ sb_list (sp_buffer (sp_run sp_reset is)) = writes_accepted sp_reset is"
    and "sp_ok (sp_run sp_reset is)"
  using sp.conservation [OF sp_ok_reset, of "is"] sp.ok_run [OF sp_ok_reset, of "is"] assms
  by (simp_all add: sp_logs sp_reset_def sb_list_reset)

text \<open>Writes to other words leave a word alone.\<close>

lemma perform_other:
  "\<forall>w \<in> set ws. word_of (st_addr w) \<noteq> a \<Longrightarrow> foldl perform m ws a = m a"
  by (induction ws arbitrary: m) (auto simp: perform_def)

text \<open>
  C20. Stores reach memory as if there were no buffer. The writes accepted from the core are exactly
  the writes performed on the bus followed by those in the buffer, in program order, and never more
  than four wait. A load goes to memory only when performing the waiting writes could not change the
  word it reads; a load from a device, and a read of the page walker, only when no write waits or
  enters. This holds for every behaviour of the data cache.
\<close>

theorem store_path_in_order:
  assumes "\<forall>i \<in> set is. \<not> sp_rst i"
  shows "writes_accepted sp_reset is =
           writes_performed sp_reset is @ sb_list (sp_buffer (sp_run sp_reset is)) \<and>
         length (sb_list (sp_buffer (sp_run sp_reset is))) \<le> DEPTH \<and>
         (cpu_load_go (sp_run sp_reset is) i \<longrightarrow>
           foldl perform m (writes_performed sp_reset is) (word_of (phys_data_addr i)) =
           foldl perform m (writes_accepted sp_reset is) (word_of (phys_data_addr i))) \<and>
         (cpu_load_go (sp_run sp_reset is) i \<and> cpu_device_access i \<or>
          data_bus_walk_sel (sp_run sp_reset is) i \<longrightarrow>
           writes_performed sp_reset is = writes_accepted sp_reset is \<and>
           \<not> store_buf_push_req (sp_run sp_reset is) i)"
proof -
  let ?s = "sp_run sp_reset is" and ?a = "word_of (phys_data_addr i)"
  note cons = sp_run_conservation [OF assms]
  from cons(2) have ok: "sb_ok (sp_buffer ?s)" by (simp add: sp_ok_def)
  have load: "foldl perform m (writes_performed sp_reset is) ?a = foldl perform m (writes_accepted sp_reset is) ?a"
    if "cpu_load_go ?s i"
  proof -
    from that have "\<forall>w \<in> set (sb_list (sp_buffer ?s)). word_of (st_addr w) \<noteq> ?a"
      by (auto simp: cpu_load_go_def sb_match_iff [OF ok])
    then show ?thesis by (simp add: cons(1) [symmetric] perform_other)
  qed
  have drained: "sb_list (sp_buffer ?s) = [] \<and> \<not> store_buf_push_req ?s i"
    if "cpu_load_go ?s i \<and> cpu_device_access i \<or> data_bus_walk_sel ?s i"
    using that by (auto simp: cpu_load_go_def data_bus_walk_sel_def drain_req_def sb_empty_iff store_buf_push_req_def)
  moreover have "length (sb_list (sp_buffer ?s)) \<le> DEPTH" using ok by (simp add: sb_ok_def sb_list_def)
  ultimately show ?thesis using load drained cons(1) by auto
qed

text \<open>
  A write is performed as it was granted: between the grant of a drained write and its response the
  buffer keeps presenting the same write, whatever the core does meanwhile.
\<close>

definition working_on :: "store \<Rightarrow> store_path \<Rightarrow> bool" where
  "working_on w s \<longleftrightarrow> sp_ok s \<and> data_bus_drain_owner_q s \<and> hd (sb_list (sp_buffer s)) = w"

lemma working_on_head:
  assumes "working_on w s"
  shows "drain_store s i = w"
proof -
  from assms have "\<not> sb_empty (sp_buffer s)" by (simp add: working_on_def sp_ok_def)
  moreover then have "0 < unat (sb_count (sp_buffer s))" by (simp add: sb_empty_def unat_gt_0)
  then have "hd (sb_list (sp_buffer s)) = sb_head (sp_buffer s)"
    by (simp add: sb_list_def sb_head_entry hd_map)
  ultimately show ?thesis using assms by (simp add: drain_store_def working_on_def)
qed

lemma working_on_starts:
  assumes "sp_ok s" and "data_bus_drain_sel s i" and "dcache_gnt i" and "\<not> dcache_rvalid i" and "\<not> sp_rst i"
  shows "working_on (drain_store s i) (sp_step s i)"
proof -
  have own: "data_bus_drain_owner_q (sp_step s i)" using assms(2-5) by (simp add: sp_step_def)
  note step = sp_step_owner [OF assms(1,5) own] sp_step_flow(1) [OF assms(1,5)]
  have "hd (sb_list (sp_buffer (sp_step s i))) = drain_store s i"
  proof (cases "sb_empty (sp_buffer s)")
    case True
    with step show ?thesis by (auto simp: performs_def accepts_def sb_empty_iff drain_store_def split: if_splits)
  next
    case False
    then have "0 < unat (sb_count (sp_buffer s))" by (simp add: sb_empty_def unat_gt_0)
    then have "hd (sb_list (sp_buffer s)) = sb_head (sp_buffer s)"
      by (simp add: sb_list_def sb_head_entry hd_map)
    with False step show ?thesis by (simp add: performs_def sb_empty_iff drain_store_def)
  qed
  with own sp_ok_step [OF assms(1,5)] show ?thesis by (simp add: working_on_def)
qed

lemma working_on_waits:
  assumes "working_on w s" and "\<not> dcache_gnt i" and "\<not> dcache_rvalid i" and "\<not> sp_rst i"
  shows "working_on w (sp_step s i)"
proof -
  have ok: "sp_ok s" and hd: "hd (sb_list (sp_buffer s)) = w" and ne: "sb_list (sp_buffer s) \<noteq> []"
    using assms(1) by (auto simp: working_on_def sp_ok_def sb_empty_iff)
  have "data_bus_drain_owner_q (sp_step s i)" using assms by (simp add: sp_step_def working_on_def)
  moreover have "hd (sb_list (sp_buffer (sp_step s i))) = w"
    using sp_step_flow(1) [OF ok assms(4)] sp_step_owner(1) [OF ok assms(4)] calculation hd ne
    by (simp add: performs_def)
  ultimately show ?thesis using sp_ok_step [OF ok assms(4)] by (simp add: working_on_def)
qed

lemma granted_write_performed:
  assumes "sp_ok s" and "data_bus_drain_sel s i" and "dcache_gnt i" and "\<not> dcache_rvalid i" and "\<not> sp_rst i"
    and "\<forall>j \<in> set js. \<not> dcache_gnt j \<and> \<not> dcache_rvalid j \<and> \<not> sp_rst j" and "dcache_rvalid k"
  shows "performs (sp_run (sp_step s i) js) k = [drain_store s i]"
proof -
  have "working_on w (sp_run t js)" if "working_on w t" for w t
    using that assms(6) by (induction js arbitrary: t) (simp_all add: working_on_waits)
  then have w: "working_on (drain_store s i) (sp_run (sp_step s i) js)"
    using working_on_starts [OF assms(1-5)] by blast
  then show ?thesis
    using assms(7) working_on_head [OF w] by (simp add: performs_def drain_done_def data_bus_drain_owns_def working_on_def)
qed

text \<open>Three stores while the bus does not answer, then a load of another word.\<close>

definition demo_store_in :: "32 word \<Rightarrow> bool \<Rightarrow> store_path_in" where
  "demo_store_in addr write =
     \<lparr>sp_rst = False, cpu_data_bus_req = True, cpu_mem_write_en = write, cpu_write_byte_enable = 1,
      cpu_mem_write_data = 0xAB, phys_data_addr = addr, cpu_ram_access = True, cpu_device_access = False,
      mmu_walk_req = False, dcache_gnt = False, dcache_rvalid = False\<rparr>"

definition demo_stores :: "store_path_in list" where
  "demo_stores = [demo_store_in 0x80000001 True, demo_store_in 0x80000002 True, demo_store_in 0x80000004 True]"

theorem store_path_in_order_witness:
  "map st_addr (writes_accepted sp_reset demo_stores) = [0x80000001, 0x80000002, 0x80000004] \<and>
   foldl perform (\<lambda>_. 0) (writes_performed sp_reset demo_stores) (word_of 0x80000008) =
   foldl perform (\<lambda>_. 0) (writes_accepted sp_reset demo_stores) (word_of 0x80000008) \<and>
   foldl perform (\<lambda>_. 0) (writes_accepted sp_reset demo_stores) (word_of 0x80000000) = 0x00ABAB00"
proof -
  have "cpu_load_go (sp_run sp_reset demo_stores) (demo_store_in 0x80000008 False)" by code_simp
  moreover have "\<forall>i \<in> set demo_stores. \<not> sp_rst i" by (simp add: demo_stores_def demo_store_in_def)
  moreover have "phys_data_addr (demo_store_in 0x80000008 False) = 0x80000008" by (simp add: demo_store_in_def)
  moreover have "map st_addr (writes_accepted sp_reset demo_stores) = [0x80000001, 0x80000002, 0x80000004]" by code_simp
  moreover have "foldl perform (\<lambda>_. 0) (writes_accepted sp_reset demo_stores) (word_of 0x80000000) = 0x00ABAB00" by code_simp
  ultimately show ?thesis
    using store_path_in_order [of demo_stores "demo_store_in 0x80000008 False" "\<lambda>_. 0"] by simp
qed

end
