(* ===== verification/Interrupts.thy ===== *)
theory Interrupts
  imports Synapse_Prelude
begin

text \<open>
  Interrupts: the platform-level controller \<open>rtl/core_modules/plic.v\<close> with its gateways, the core
  timer \<open>rtl/core_modules/timer.v\<close>, and the choice of the interrupt a hart takes,
  \<open>rtl/core_modules/interrupt_controller.v\<close>. A vector \<open>[NUM_SOURCES:1]\<close> is a function of the source.
\<close>

unbundle bit_operations_syntax

section \<open>The platform-level interrupt controller\<close>

definition NUM_SOURCES :: nat where "NUM_SOURCES = 2"

definition PLIC_BASE :: "32 word" where "PLIC_BASE = 0x0C000000"
definition PLIC_END :: "32 word" where "PLIC_END = 0x0C3FFFFF"
definition PRIORITY_BASE :: "32 word" where "PRIORITY_BASE = PLIC_BASE"
definition PENDING_ADDR :: "32 word" where "PENDING_ADDR = PLIC_BASE + 0x001000"
definition ENABLE_M_ADDR :: "32 word" where "ENABLE_M_ADDR = PLIC_BASE + 0x002000"
definition ENABLE_S_ADDR :: "32 word" where "ENABLE_S_ADDR = PLIC_BASE + 0x002080"
definition THRESHOLD_M_ADDR :: "32 word" where "THRESHOLD_M_ADDR = PLIC_BASE + 0x200000"
definition CLAIM_M_ADDR :: "32 word" where "CLAIM_M_ADDR = PLIC_BASE + 0x200004"
definition THRESHOLD_S_ADDR :: "32 word" where "THRESHOLD_S_ADDR = PLIC_BASE + 0x201000"
definition CLAIM_S_ADDR :: "32 word" where "CLAIM_S_ADDR = PLIC_BASE + 0x201004"

lemmas plic_addrs [rtl_simps] =
  PLIC_BASE_def PLIC_END_def PRIORITY_BASE_def PENDING_ADDR_def ENABLE_M_ADDR_def ENABLE_S_ADDR_def
  THRESHOLD_M_ADDR_def CLAIM_M_ADDR_def THRESHOLD_S_ADDR_def CLAIM_S_ADDR_def

record plic =
  priority_q :: "nat \<Rightarrow> 3 word"
  pending :: "nat \<Rightarrow> bool"
  gateway_busy :: "nat \<Rightarrow> bool"
  enable_m :: "nat \<Rightarrow> bool"
  enable_s :: "nat \<Rightarrow> bool"
  threshold_m :: "3 word"
  threshold_s :: "3 word"

record plic_in =
  pl_rst :: bool
  pl_addr :: "32 word"
  pl_write_data :: "32 word"
  pl_write_enable :: bool
  pl_read_enable :: bool
  pl_source_irq :: "nat \<Rightarrow> bool"

definition sources :: "nat list" where "sources = [1..<Suc NUM_SOURCES]"

definition best_source :: "plic \<Rightarrow> (nat \<Rightarrow> bool) \<Rightarrow> 3 word \<Rightarrow> 5 word" where
  "best_source s enabled threshold =
     fst (fold (\<lambda>j (best, best_priority).
             if pending s j \<and> enabled j \<and> best_priority < priority_q s j then (of_nat j, priority_q s j)
             else (best, best_priority)) sources (0, threshold))"

definition plic_access :: "plic_in \<Rightarrow> bool" where
  "plic_access i \<longleftrightarrow> PLIC_BASE \<le> pl_addr i \<and> pl_addr i \<le> PLIC_END"

definition claim_id_m :: "plic \<Rightarrow> 5 word" where "claim_id_m s = best_source s (enable_m s) (threshold_m s)"
definition claim_id_s :: "plic \<Rightarrow> 5 word" where "claim_id_s s = best_source s (enable_s s) (threshold_s s)"

definition claim_read_m :: "plic \<Rightarrow> plic_in \<Rightarrow> bool" where
  "claim_read_m s i \<longleftrightarrow> pl_read_enable i \<and> plic_access i \<and> pl_addr i = CLAIM_M_ADDR \<and> claim_id_m s \<noteq> 0"

definition claim_read_s :: "plic \<Rightarrow> plic_in \<Rightarrow> bool" where
  "claim_read_s s i \<longleftrightarrow> pl_read_enable i \<and> plic_access i \<and> pl_addr i = CLAIM_S_ADDR \<and> claim_id_s s \<noteq> 0"

definition complete_write :: "plic_in \<Rightarrow> bool" where
  "complete_write i \<longleftrightarrow>
     pl_write_enable i \<and> plic_access i \<and> (pl_addr i = CLAIM_M_ADDR \<or> pl_addr i = CLAIM_S_ADDR)"

definition machine_external_interrupt :: "plic \<Rightarrow> bool" where
  "machine_external_interrupt s \<longleftrightarrow> claim_id_m s \<noteq> 0"

definition supervisor_external_interrupt :: "plic \<Rightarrow> bool" where
  "supervisor_external_interrupt s \<longleftrightarrow> claim_id_s s \<noteq> 0"

definition plic_reset :: plic where
  "plic_reset = \<lparr>priority_q = (\<lambda>_. 1), pending = (\<lambda>_. False), gateway_busy = (\<lambda>_. False),
                 enable_m = (\<lambda>_. False), enable_s = (\<lambda>_. False), threshold_m = 0, threshold_s = 0\<rparr>"

definition plic_write :: "plic \<Rightarrow> plic_in \<Rightarrow> plic \<Rightarrow> plic" where
  "plic_write s i t =
     (if pl_write_enable i \<and> plic_access i then
        let t = t\<lparr>priority_q := (\<lambda>j. if j \<in> set sources \<and> pl_addr i = PRIORITY_BASE + 4 * of_nat j
                                     then ucast (pl_write_data i) else priority_q t j)\<rparr>
        in if pl_addr i = ENABLE_M_ADDR then t\<lparr>enable_m := (\<lambda>j. j \<in> set sources \<and> bit (pl_write_data i) j)\<rparr>
           else if pl_addr i = ENABLE_S_ADDR then t\<lparr>enable_s := (\<lambda>j. j \<in> set sources \<and> bit (pl_write_data i) j)\<rparr>
           else if pl_addr i = THRESHOLD_M_ADDR then t\<lparr>threshold_m := ucast (pl_write_data i)\<rparr>
           else if pl_addr i = THRESHOLD_S_ADDR then t\<lparr>threshold_s := ucast (pl_write_data i)\<rparr>
           else t
      else t)"

text \<open>One turn of the gateway loop; the later assignment to \<open>pending[j]\<close> wins.\<close>

definition plic_gateway :: "plic \<Rightarrow> plic_in \<Rightarrow> nat \<Rightarrow> plic \<Rightarrow> plic" where
  "plic_gateway s i j t =
     (let t = (if (claim_read_m s i \<and> claim_id_m s = of_nat j) \<or> (claim_read_s s i \<and> claim_id_s s = of_nat j)
               then t\<lparr>pending := (pending t)(j := False)\<rparr> else t)
      in if complete_write i \<and> pl_write_data i = of_nat j \<and> gateway_busy s j
         then if pl_source_irq i j then t\<lparr>pending := (pending t)(j := True)\<rparr>
              else t\<lparr>gateway_busy := (gateway_busy t)(j := False)\<rparr>
         else if \<not> gateway_busy s j \<and> pl_source_irq i j
         then t\<lparr>pending := (pending t)(j := True), gateway_busy := (gateway_busy t)(j := True)\<rparr>
         else t)"

definition plic_step :: "plic \<Rightarrow> plic_in \<Rightarrow> plic" where
  "plic_step s i =
     (if pl_rst i then plic_reset
      else fold (plic_gateway s i) sources (plic_write s i s))"

definition plic_vector :: "(nat \<Rightarrow> bool) \<Rightarrow> 32 word" where
  "plic_vector v = fold (\<lambda>j w. if v j then set_bit j w else w) sources 0"

definition plic_read_data :: "plic \<Rightarrow> plic_in \<Rightarrow> 32 word" where
  "plic_read_data s i =
     (if pl_read_enable i \<and> plic_access i then
        if pl_addr i = PENDING_ADDR then plic_vector (pending s)
        else if pl_addr i = ENABLE_M_ADDR then plic_vector (enable_m s)
        else if pl_addr i = ENABLE_S_ADDR then plic_vector (enable_s s)
        else if pl_addr i = THRESHOLD_M_ADDR then ucast (threshold_m s)
        else if pl_addr i = THRESHOLD_S_ADDR then ucast (threshold_s s)
        else if pl_addr i = CLAIM_M_ADDR then ucast (claim_id_m s)
        else if pl_addr i = CLAIM_S_ADDR then ucast (claim_id_s s)
        else fold (\<lambda>k v. if pl_addr i = PRIORITY_BASE + 4 * of_nat k then ucast (priority_q s k) else v) sources 0
      else 0)"

fun plic_at :: "(nat \<Rightarrow> plic_in) \<Rightarrow> nat \<Rightarrow> plic" where
  "plic_at inp 0 = plic_reset"
| "plic_at inp (Suc n) = plic_step (plic_at inp n) (inp n)"

section \<open>The choice of the source\<close>

definition candidate :: "plic \<Rightarrow> (nat \<Rightarrow> bool) \<Rightarrow> 3 word \<Rightarrow> nat \<Rightarrow> bool" where
  "candidate s enabled threshold j \<longleftrightarrow>
     j \<in> set sources \<and> pending s j \<and> enabled j \<and> threshold < priority_q s j"

text \<open>The better of two candidates: the higher priority, or the lower number.\<close>

definition beats :: "plic \<Rightarrow> nat \<Rightarrow> nat \<Rightarrow> bool" where
  "beats s j k \<longleftrightarrow> priority_q s k < priority_q s j \<or> (priority_q s k = priority_q s j \<and> j \<le> k)"

lemma best_source_fold:
  fixes s :: plic and enabled :: "nat \<Rightarrow> bool" and threshold :: "3 word"
  assumes "sorted js" and "distinct js"
  defines "C \<equiv> \<lambda>j. pending s j \<and> enabled j \<and> threshold < priority_q s j"
    and "r \<equiv> fold (\<lambda>j (best, bp). if pending s j \<and> enabled j \<and> bp < priority_q s j then (of_nat j, priority_q s j)
                   else (best, bp)) js (0 :: 5 word, threshold)"
  shows "(if \<exists>j \<in> set js. C j
          then \<exists>j \<in> set js. C j \<and> r = (of_nat j, priority_q s j) \<and> (\<forall>k \<in> set js. C k \<longrightarrow> beats s j k)
          else r = (0, threshold))"
  using assms(1,2) unfolding r_def
proof (induction js rule: rev_induct)
  case Nil
  then show ?case by simp
next
  case (snoc x js)
  let ?f = "\<lambda>j (best, bp). if pending s j \<and> enabled j \<and> bp < priority_q s j then (of_nat j :: 5 word, priority_q s j) else (best, bp)"
  have less: "\<forall>k \<in> set js. k < x" using snoc.prems by (auto simp: sorted_append order.strict_iff_order)
  have IH: "if \<exists>j \<in> set js. C j
     then \<exists>j \<in> set js. C j \<and> fold ?f js (0 :: 5 word, threshold) = (of_nat j, priority_q s j) \<and> (\<forall>k \<in> set js. C k \<longrightarrow> beats s j k)
     else fold ?f js (0, threshold) = (0, threshold)"
    using snoc by (simp add: sorted_append)
  show ?case
  proof (cases "\<exists>j \<in> set js. C j")
    case True
    with IH obtain j where j: "j \<in> set js" "C j" "fold ?f js (0 :: 5 word, threshold) = (of_nat j, priority_q s j)"
        "\<forall>k \<in> set js. C k \<longrightarrow> beats s j k" by auto
    show ?thesis
    proof (cases "C x \<and> priority_q s j < priority_q s x")
      case True
      then have "\<forall>k \<in> set (js @ [x]). C k \<longrightarrow> beats s x k" using j(4) by (fastforce simp: beats_def)
      with True j show ?thesis by (auto simp: C_def)
    next
      case False
      then have "C x \<longrightarrow> beats s j x" using less j(1) by (auto simp: beats_def not_less order.order_iff_strict)
      moreover have "fold ?f (js @ [x]) (0 :: 5 word, threshold) = (of_nat j, priority_q s j)"
        using False j(2,3) by (auto simp: C_def)
      ultimately show ?thesis using True j(1,2,4) by auto
    qed
  next
    case False
    with IH show ?thesis by (auto simp: C_def beats_def)
  qed
qed

lemma sources_simps: "sorted sources" "distinct sources" "set sources = {1..NUM_SOURCES}"
  by (auto simp: sources_def simp del: upt_Suc)

lemma source_id:
  assumes "j \<in> set sources" and "k \<in> set sources"
  shows "(of_nat j :: 5 word) = of_nat k \<longleftrightarrow> j = k" and "(of_nat j :: 5 word) \<noteq> 0"
    and "(of_nat j :: 32 word) = of_nat k \<longleftrightarrow> j = k"
  using assms by (auto simp: sources_def NUM_SOURCES_def upt_rec)

lemma best_source_spec:
  "best_source s enabled threshold = 0 \<longleftrightarrow> (\<forall>j. \<not> candidate s enabled threshold j)"
  "j \<in> set sources \<Longrightarrow> best_source s enabled threshold = of_nat j \<longleftrightarrow>
     candidate s enabled threshold j \<and> (\<forall>k. candidate s enabled threshold k \<longrightarrow> beats s j k)"
proof -
  note spec = best_source_fold [OF sources_simps(1,2), where s = s and enabled = enabled and threshold = threshold]
  have beats_antisym: "beats s a b \<Longrightarrow> beats s b a \<Longrightarrow> a = b" for a b by (auto simp: beats_def)
  have eq: "(\<exists>j \<in> set sources. pending s j \<and> enabled j \<and> threshold < priority_q s j) \<longleftrightarrow> (\<exists>j. candidate s enabled threshold j)"
    by (auto simp: candidate_def)
  have some: "\<exists>j. candidate s enabled threshold j \<and> best_source s enabled threshold = of_nat j \<and>
      (\<forall>k. candidate s enabled threshold k \<longrightarrow> beats s j k)" if "\<exists>j. candidate s enabled threshold j"
    using spec that unfolding eq by (auto simp: best_source_def candidate_def)
  have none: "best_source s enabled threshold = 0" if "\<forall>j. \<not> candidate s enabled threshold j"
    using spec that unfolding eq by (simp add: best_source_def)
  have cand: "candidate s enabled threshold k \<Longrightarrow> k \<in> set sources" for k by (simp add: candidate_def)
  show "best_source s enabled threshold = 0 \<longleftrightarrow> (\<forall>j. \<not> candidate s enabled threshold j)"
    using some none source_id(2) cand by metis
  show "best_source s enabled threshold = of_nat j \<longleftrightarrow>
     candidate s enabled threshold j \<and> (\<forall>k. candidate s enabled threshold k \<longrightarrow> beats s j k)" if "j \<in> set sources"
    using some none source_id(1,2) cand beats_antisym that by metis
qed

section \<open>Gateways: claim and complete\<close>

definition claims :: "plic \<Rightarrow> plic_in \<Rightarrow> nat \<Rightarrow> bool" where
  "claims s i j \<longleftrightarrow> (claim_read_m s i \<and> claim_id_m s = of_nat j) \<or> (claim_read_s s i \<and> claim_id_s s = of_nat j)"

definition completes :: "plic_in \<Rightarrow> nat \<Rightarrow> bool" where
  "completes i j \<longleftrightarrow> complete_write i \<and> pl_write_data i = of_nat j"

lemma plic_write_gateway [simp]:
  "pending (plic_write s i t) = pending t" "gateway_busy (plic_write s i t) = gateway_busy t"
  by (simp_all add: plic_write_def Let_def)

lemma plic_gateway_other:
  "k \<noteq> j \<Longrightarrow> pending (plic_gateway s i k t) j = pending t j"
  "k \<noteq> j \<Longrightarrow> gateway_busy (plic_gateway s i k t) j = gateway_busy t j"
  by (simp_all add: plic_gateway_def Let_def)

lemma plic_gateway_own:
  assumes "pending t j = pending s j" and "gateway_busy t j = gateway_busy s j"
  shows "pending (plic_gateway s i j t) j = pending (plic_gateway s i j s) j"
    and "gateway_busy (plic_gateway s i j t) j = gateway_busy (plic_gateway s i j s) j"
  using assms by (auto simp: plic_gateway_def Let_def)

lemma plic_gateway_fold:
  assumes "j \<in> set js" and "distinct js" and "pending t j = pending s j" and "gateway_busy t j = gateway_busy s j"
  shows "pending (fold (plic_gateway s i) js t) j = pending (plic_gateway s i j s) j"
    and "gateway_busy (fold (plic_gateway s i) js t) j = gateway_busy (plic_gateway s i j s) j"
proof -
  have others: "pending (fold (plic_gateway s i) ks t) j = pending t j"
    "gateway_busy (fold (plic_gateway s i) ks t) j = gateway_busy t j" if "j \<notin> set ks" for ks t
    using that by (induction ks arbitrary: t) (auto simp: plic_gateway_other)
  from assms(1) obtain ks ls where js: "js = ks @ j # ls" by (meson split_list)
  let ?t = "fold (plic_gateway s i) ks t"
  have "j \<notin> set ks" "j \<notin> set ls" using assms(2) js by auto
  then have t: "pending ?t j = pending s j" "gateway_busy ?t j = gateway_busy s j"
    and "pending (fold (plic_gateway s i) js t) j = pending (plic_gateway s i j ?t) j"
    and "gateway_busy (fold (plic_gateway s i) js t) j = gateway_busy (plic_gateway s i j ?t) j"
    using assms(3,4) others by (simp_all add: js)
  then show "pending (fold (plic_gateway s i) js t) j = pending (plic_gateway s i j s) j"
    and "gateway_busy (fold (plic_gateway s i) js t) j = gateway_busy (plic_gateway s i j s) j"
    using plic_gateway_own [OF t] by simp_all
qed

lemma plic_step_source:
  assumes "j \<in> set sources" and "\<not> pl_rst i"
  shows "pending (plic_step s i) j \<longleftrightarrow>
           (pl_source_irq i j \<and> (completes i j \<or> \<not> gateway_busy s j)) \<or> (pending s j \<and> \<not> claims s i j)"
    and "gateway_busy (plic_step s i) j \<longleftrightarrow>
           pl_source_irq i j \<or> (gateway_busy s j \<and> \<not> completes i j)"
  using plic_gateway_fold [OF assms(1) sources_simps(2), where s = s and t = "plic_write s i s" and i = i] assms(2)
  by (auto simp: plic_step_def plic_gateway_def Let_def claims_def completes_def)

lemma claims_candidate:
  assumes "j \<in> set sources" and "claims s i j"
  shows "pending s j"
  using assms best_source_spec(2) [OF assms(1)]
  by (auto simp: claims_def claim_id_m_def claim_id_s_def candidate_def)

text \<open>Software completes only what is not pending, that is, what it has claimed.\<close>

definition disciplined :: "(nat \<Rightarrow> plic_in) \<Rightarrow> nat \<Rightarrow> bool" where
  "disciplined inp j \<longleftrightarrow> (\<forall>n. \<not> pl_rst (inp n) \<and> (completes (inp n) j \<longrightarrow> \<not> pending (plic_at inp n) j))"

lemma pending_busy:
  assumes "j \<in> set sources" and "disciplined inp j"
  shows "pending (plic_at inp n) j \<Longrightarrow> gateway_busy (plic_at inp n) j"
proof (induction n)
  case (Suc n)
  have "\<not> pl_rst (inp n)" using assms(2) by (simp add: disciplined_def)
  note step = plic_step_source [OF assms(1) this, of "plic_at inp n"]
  from Suc assms(2) show ?case by (auto simp: step disciplined_def)
qed (simp add: plic_reset_def)

lemma claimed_quiet:
  assumes "j \<in> set sources" and "disciplined inp j" and "claims (plic_at inp n) (inp n) j"
    and "\<And>k. n < k \<Longrightarrow> k < n + d + 1 \<Longrightarrow> \<not> completes (inp k) j"
  shows "\<not> pending (plic_at inp (n + d + 1)) j \<and> gateway_busy (plic_at inp (n + d + 1)) j"
  using assms(4)
proof (induction d)
  case 0
  have r: "\<not> pl_rst (inp n)" using assms(2) by (simp add: disciplined_def)
  have p: "pending (plic_at inp n) j" using claims_candidate [OF assms(1,3)] .
  then have "gateway_busy (plic_at inp n) j" "\<not> completes (inp n) j"
    using pending_busy [OF assms(1,2)] assms(2) by (auto simp: disciplined_def)
  with assms(3) show ?case by (simp add: plic_step_source [OF assms(1) r])
next
  case (Suc d)
  have r: "\<not> pl_rst (inp (n + d + 1))" using assms(2) by (simp add: disciplined_def)
  have "\<not> completes (inp (n + d + 1)) j" using Suc.prems by simp
  moreover have "\<not> pending (plic_at inp (n + d + 1)) j \<and> gateway_busy (plic_at inp (n + d + 1)) j"
    using Suc by simp
  ultimately show ?case using plic_step_source [OF assms(1) r, of "plic_at inp (n + d + 1)"] by simp
qed


text \<open>Source 1 is enabled, raised, claimed, and stays high without being completed.\<close>

definition demo_plic_in :: "nat \<Rightarrow> plic_in" where
  "demo_plic_in n =
     \<lparr>pl_rst = False, pl_addr = (if n = 0 then ENABLE_M_ADDR else CLAIM_M_ADDR), pl_write_data = 2,
      pl_write_enable = (n = 0), pl_read_enable = (n = 1), pl_source_irq = (\<lambda>j. j = 1)\<rparr>"


section \<open>The core timer\<close>

definition MSIP :: "32 word" where "MSIP = 0x02000000"
definition MTIMECMP_LO :: "32 word" where "MTIMECMP_LO = 0x02004000"
definition MTIMECMP_HI :: "32 word" where "MTIMECMP_HI = 0x02004004"
definition MTIME_LO :: "32 word" where "MTIME_LO = 0x0200BFF8"
definition MTIME_HI :: "32 word" where "MTIME_HI = 0x0200BFFC"

lemmas timer_addrs [rtl_simps] = MSIP_def MTIMECMP_LO_def MTIMECMP_HI_def MTIME_LO_def MTIME_HI_def

record timer =
  mtime :: "64 word"
  mtimecmp :: "64 word"
  msip :: bool

record timer_in =
  tm_rst :: bool
  tm_addr :: "32 word"
  tm_write_data :: "32 word"
  tm_write_enable :: bool
  tm_read_enable :: bool

definition timer_valid :: "timer_in \<Rightarrow> bool" where
  "timer_valid i \<longleftrightarrow> tm_addr i \<in> {MSIP, MTIMECMP_LO, MTIMECMP_HI, MTIME_LO, MTIME_HI}"

definition timer_interrupt :: "timer \<Rightarrow> bool" where
  "timer_interrupt s \<longleftrightarrow> mtimecmp s \<le> mtime s"

definition set_lo :: "32 word \<Rightarrow> 64 word \<Rightarrow> 64 word" where
  "set_lo w v = word_cat (ucast (drop_bit 32 v) :: 32 word) w"

definition set_hi :: "32 word \<Rightarrow> 64 word \<Rightarrow> 64 word" where
  "set_hi w v = word_cat w (ucast v :: 32 word)"

text \<open>A write of one half of \<open>mtime\<close> is assigned after the increment, which reaches the other half.\<close>

definition timer_step :: "timer \<Rightarrow> timer_in \<Rightarrow> timer" where
  "timer_step s i =
     (if tm_rst i then \<lparr>mtime = 0, mtimecmp = 0xFFFFFFFFFFFFFFFF, msip = False\<rparr>
      else let t = s\<lparr>mtime := mtime s + 1\<rparr>
           in if tm_write_enable i \<and> timer_valid i then
                if tm_addr i = MSIP then t\<lparr>msip := bit (tm_write_data i) 0\<rparr>
                else if tm_addr i = MTIMECMP_LO then t\<lparr>mtimecmp := set_lo (tm_write_data i) (mtimecmp t)\<rparr>
                else if tm_addr i = MTIMECMP_HI then t\<lparr>mtimecmp := set_hi (tm_write_data i) (mtimecmp t)\<rparr>
                else if tm_addr i = MTIME_LO then t\<lparr>mtime := set_lo (tm_write_data i) (mtime t)\<rparr>
                else if tm_addr i = MTIME_HI then t\<lparr>mtime := set_hi (tm_write_data i) (mtime t)\<rparr>
                else t
              else t)"

definition timer_read_data :: "timer \<Rightarrow> timer_in \<Rightarrow> 32 word" where
  "timer_read_data s i =
     (if tm_read_enable i \<and> timer_valid i then
        if tm_addr i = MSIP then (if msip s then 1 else 0)
        else if tm_addr i = MTIMECMP_LO then ucast (mtimecmp s)
        else if tm_addr i = MTIMECMP_HI then ucast (drop_bit 32 (mtimecmp s))
        else if tm_addr i = MTIME_LO then ucast (mtime s)
        else if tm_addr i = MTIME_HI then ucast (drop_bit 32 (mtime s))
        else 0
      else 0)"

lemma set_halves:
  "ucast (set_lo w v) = w" "drop_bit 32 (set_lo w v) = drop_bit 32 v"
  "ucast (drop_bit 32 (set_hi w v)) = w" "(ucast (set_hi w v) :: 32 word) = ucast v"
  by (rule bit_word_eqI; auto simp: set_lo_def set_hi_def bit_ucast_iff bit_drop_bit_eq bit_word_cat_iff dest: bit_imp_le_length)+

lemma set_both_halves: "set_hi hi (set_lo lo v) = word_cat hi lo"
  by (rule bit_word_eqI) (auto simp: set_lo_def set_hi_def bit_ucast_iff bit_word_cat_iff)

text \<open>A compare value written in two halves, in either order, is the value compared.\<close>

lemma timer_compare_written:
  assumes "\<not> tm_rst i" "tm_write_enable i" "tm_addr i = MTIMECMP_LO"
    and "\<not> tm_rst j" "tm_write_enable j" "tm_addr j = MTIMECMP_HI"
  shows "mtimecmp (timer_step (timer_step s i) j) = word_cat (tm_write_data j) (tm_write_data i)"
    and "mtimecmp (timer_step (timer_step s j) i) = word_cat (tm_write_data j) (tm_write_data i)"
proof -
  have "set_lo lo (set_hi hi v) = word_cat hi lo" for lo hi v
    by (rule bit_word_eqI) (auto simp: set_lo_def set_hi_def bit_ucast_iff bit_drop_bit_eq bit_word_cat_iff)
  then show "mtimecmp (timer_step (timer_step s j) i) = word_cat (tm_write_data j) (tm_write_data i)"
    using assms by (simp add: timer_step_def Let_def timer_valid_def rtl_simps)
  show "mtimecmp (timer_step (timer_step s i) j) = word_cat (tm_write_data j) (tm_write_data i)"
    using assms by (simp add: timer_step_def Let_def timer_valid_def rtl_simps set_both_halves)
qed

text \<open>Left alone the counter counts cycles, and the interrupt comes at the compare value.\<close>

fun timer_run :: "timer \<Rightarrow> timer_in list \<Rightarrow> timer" where
  "timer_run s [] = s"
| "timer_run s (i # is) = timer_run (timer_step s i) is"

lemma timer_counts:
  assumes "\<forall>i \<in> set is. \<not> tm_rst i \<and> \<not> tm_write_enable i"
  shows "mtime (timer_run s is) = mtime s + of_nat (length is)" and "mtimecmp (timer_run s is) = mtimecmp s"
  using assms by (induction "is" arbitrary: s) (auto simp: timer_step_def Let_def)

lemma timer_fires:
  assumes "\<forall>i \<in> set is. \<not> tm_rst i \<and> \<not> tm_write_enable i" and "unat (mtime s) + length is < 2 ^ 64"
  shows "timer_interrupt (timer_run s is) \<longleftrightarrow> unat (mtimecmp s) \<le> unat (mtime s) + length is"
proof -
  have "unat (mtime s + of_nat (length is)) = unat (mtime s) + length is"
    using assms(2) by (simp add: unat_word_ariths unat_of_nat)
  then show ?thesis by (simp add: timer_interrupt_def timer_counts [OF assms(1)] word_le_nat_alt)
qed

section \<open>The interrupt a hart takes\<close>

definition PRIV_M :: "2 word" where "PRIV_M = 3"
definition INT_PRIV_S :: "2 word" where "INT_PRIV_S = 1"
definition INT_PRIV_U :: "2 word" where "INT_PRIV_U = 0"

record interrupt_out =
  interrupt_pending :: bool
  interrupt_cause :: "32 word"
  interrupt_to_supervisor :: bool
  interrupt_pc :: "32 word"

definition no_interrupt :: "32 word \<Rightarrow> interrupt_out" where
  "no_interrupt current_pc =
     \<lparr>interrupt_pending = False, interrupt_cause = 0, interrupt_to_supervisor = False, interrupt_pc = current_pc\<rparr>"

text \<open>The two conditional blocks, one after the other.\<close>

definition machine_block :: "32 word \<Rightarrow> 32 word \<Rightarrow> 32 word \<Rightarrow> 32 word \<Rightarrow> 2 word \<Rightarrow> interrupt_out \<Rightarrow> interrupt_out" where
  "machine_block mstatus mie mip mideleg privilege_mode out =
     (if privilege_mode \<noteq> PRIV_M \<or> bit mstatus 3 then
        if bit mip 11 \<and> bit mie 11 then out\<lparr>interrupt_pending := True, interrupt_cause := 0x8000000B\<rparr>
        else if bit mip 3 \<and> bit mie 3 then out\<lparr>interrupt_pending := True, interrupt_cause := 0x80000003\<rparr>
        else if bit mip 7 \<and> bit mie 7 then out\<lparr>interrupt_pending := True, interrupt_cause := 0x80000007\<rparr>
        else if bit mip 9 \<and> bit mie 9 \<and> \<not> bit mideleg 9
        then out\<lparr>interrupt_pending := True, interrupt_cause := 0x80000009\<rparr>
        else if bit mip 1 \<and> bit mie 1 \<and> \<not> bit mideleg 1
        then out\<lparr>interrupt_pending := True, interrupt_cause := 0x80000001\<rparr>
        else if bit mip 5 \<and> bit mie 5 \<and> \<not> bit mideleg 5
        then out\<lparr>interrupt_pending := True, interrupt_cause := 0x80000005\<rparr>
        else out
      else out)"

definition supervisor_block :: "32 word \<Rightarrow> 32 word \<Rightarrow> 32 word \<Rightarrow> 32 word \<Rightarrow> 2 word \<Rightarrow> interrupt_out \<Rightarrow> interrupt_out" where
  "supervisor_block mstatus mie mip mideleg privilege_mode out =
     (if \<not> interrupt_pending out \<and>
         (privilege_mode = INT_PRIV_U \<or> (privilege_mode = INT_PRIV_S \<and> bit mstatus 1)) then
        if bit mip 9 \<and> bit mie 9 \<and> bit mideleg 9
        then out\<lparr>interrupt_pending := True, interrupt_cause := 0x80000009, interrupt_to_supervisor := True\<rparr>
        else if bit mip 1 \<and> bit mie 1 \<and> bit mideleg 1
        then out\<lparr>interrupt_pending := True, interrupt_cause := 0x80000001, interrupt_to_supervisor := True\<rparr>
        else if bit mip 5 \<and> bit mie 5 \<and> bit mideleg 5
        then out\<lparr>interrupt_pending := True, interrupt_cause := 0x80000005, interrupt_to_supervisor := True\<rparr>
        else out
      else out)"

definition interrupt_controller ::
  "32 word \<Rightarrow> 32 word \<Rightarrow> 32 word \<Rightarrow> 32 word \<Rightarrow> 2 word \<Rightarrow> 32 word \<Rightarrow> interrupt_out" where
  "interrupt_controller mstatus mie mip mideleg privilege_mode current_pc =
     supervisor_block mstatus mie mip mideleg privilege_mode
       (machine_block mstatus mie mip mideleg privilege_mode (no_interrupt current_pc))"

text \<open>
  The rule of the privileged architecture: interrupt \<open>k\<close> is taken to machine mode unless it is a
  supervisor interrupt that is delegated; a mode takes its interrupts from any less privileged mode,
  and from itself when its global enable bit is set; machine mode goes first, and in each mode the
  order is external, software, timer, machine interrupts before supervisor ones.
\<close>

definition delegated :: "32 word \<Rightarrow> nat \<Rightarrow> bool" where
  "delegated mideleg k \<longleftrightarrow> k \<in> {1, 5, 9} \<and> bit mideleg k"

definition takes_machine :: "32 word \<Rightarrow> 2 word \<Rightarrow> bool" where
  "takes_machine mstatus mode \<longleftrightarrow> (if mode = PRIV_M then bit mstatus 3 else True)"

definition takes_supervisor :: "32 word \<Rightarrow> 2 word \<Rightarrow> bool" where
  "takes_supervisor mstatus mode \<longleftrightarrow> (if mode = INT_PRIV_S then bit mstatus 1 else mode = INT_PRIV_U)"

definition machine_choice :: "32 word \<Rightarrow> 32 word \<Rightarrow> 32 word \<Rightarrow> 32 word \<Rightarrow> 2 word \<Rightarrow> nat option" where
  "machine_choice mstatus mie mip mideleg mode =
     List.find (\<lambda>k. takes_machine mstatus mode \<and> bit mip k \<and> bit mie k \<and> \<not> delegated mideleg k) [11, 3, 7, 9, 1, 5]"

definition supervisor_choice :: "32 word \<Rightarrow> 32 word \<Rightarrow> 32 word \<Rightarrow> 32 word \<Rightarrow> 2 word \<Rightarrow> nat option" where
  "supervisor_choice mstatus mie mip mideleg mode =
     List.find (\<lambda>k. takes_supervisor mstatus mode \<and> bit mip k \<and> bit mie k \<and> delegated mideleg k) [9, 1, 5]"

definition cause_code :: "nat \<Rightarrow> 32 word" where
  "cause_code k = set_bit 31 (of_nat k)"

lemma cause_codes:
  "cause_code 11 = 0x8000000B" "cause_code 3 = 0x80000003" "cause_code 7 = 0x80000007"
  "cause_code 9 = 0x80000009" "cause_code (Suc 0) = 0x80000001" "cause_code 5 = 0x80000005"
  by (simp_all add: cause_code_def set_bit_eq_or push_bit_eq_mult)

lemma delegated_simps:
  "delegated mideleg 11 = False" "delegated mideleg 3 = False" "delegated mideleg 7 = False"
  "delegated mideleg 9 = bit mideleg 9" "delegated mideleg (Suc 0) = bit mideleg (Suc 0)"
  "delegated mideleg 5 = bit mideleg 5"
  by (simp_all add: delegated_def)

lemma machine_block_choice:
  "machine_block mstatus mie mip mideleg mode out =
     (case machine_choice mstatus mie mip mideleg mode of
        None \<Rightarrow> out
      | Some k \<Rightarrow> out\<lparr>interrupt_pending := True, interrupt_cause := cause_code k\<rparr>)"
proof -
  have enabled: "(mode \<noteq> PRIV_M \<or> bit mstatus 3) = takes_machine mstatus mode" by (simp add: takes_machine_def)
  show ?thesis
    unfolding machine_block_def enabled machine_choice_def
    by (cases "takes_machine mstatus mode") (simp_all add: delegated_simps cause_codes)
qed

lemma supervisor_block_choice:
  "supervisor_block mstatus mie mip mideleg mode out =
     (case supervisor_choice mstatus mie mip mideleg mode of
        None \<Rightarrow> out
      | Some k \<Rightarrow> if interrupt_pending out then out
                  else out\<lparr>interrupt_pending := True, interrupt_cause := cause_code k, interrupt_to_supervisor := True\<rparr>)"
proof -
  have enabled: "(mode = INT_PRIV_U \<or> mode = INT_PRIV_S \<and> bit mstatus 1) = takes_supervisor mstatus mode"
    by (auto simp: takes_supervisor_def INT_PRIV_U_def INT_PRIV_S_def)
  show ?thesis
    unfolding supervisor_block_def enabled supervisor_choice_def
    by (cases "takes_supervisor mstatus mode") (simp_all add: delegated_simps cause_codes)
qed

lemma interrupt_controller_choice:
  "interrupt_controller mstatus mie mip mideleg mode pc =
     (case machine_choice mstatus mie mip mideleg mode of
        Some k \<Rightarrow> \<lparr>interrupt_pending = True, interrupt_cause = cause_code k, interrupt_to_supervisor = False, interrupt_pc = pc\<rparr>
      | None \<Rightarrow>
          (case supervisor_choice mstatus mie mip mideleg mode of
             Some k \<Rightarrow> \<lparr>interrupt_pending = True, interrupt_cause = cause_code k, interrupt_to_supervisor = True, interrupt_pc = pc\<rparr>
           | None \<Rightarrow> no_interrupt pc))"
  by (simp add: interrupt_controller_def machine_block_choice supervisor_block_choice no_interrupt_def split: option.splits)

end
