(* ===== verification/Alu.thy ===== *)
theory Alu
  imports Synapse_Prelude "HOL-Library.Signed_Division"
begin

text \<open>
  The arithmetic-logic unit \<open>rtl/core_modules/alu.v\<close> with the instruction identifiers of
  \<open>rtl/include/instr_defines.vh\<close>, against the integer meaning of the RV32I and RV32M instructions.
\<close>

unbundle bit_operations_syntax

section \<open>The unit\<close>

definition INSTR_ADD :: "7 word" where "INSTR_ADD = 0x01"
definition INSTR_SUB :: "7 word" where "INSTR_SUB = 0x02"
definition INSTR_XOR :: "7 word" where "INSTR_XOR = 0x03"
definition INSTR_OR :: "7 word" where "INSTR_OR = 0x04"
definition INSTR_AND :: "7 word" where "INSTR_AND = 0x05"
definition INSTR_SLL :: "7 word" where "INSTR_SLL = 0x06"
definition INSTR_SRL :: "7 word" where "INSTR_SRL = 0x07"
definition INSTR_SRA :: "7 word" where "INSTR_SRA = 0x08"
definition INSTR_SLT :: "7 word" where "INSTR_SLT = 0x09"
definition INSTR_SLTU :: "7 word" where "INSTR_SLTU = 0x0A"
definition INSTR_ADDI :: "7 word" where "INSTR_ADDI = 0x0B"
definition INSTR_XORI :: "7 word" where "INSTR_XORI = 0x0C"
definition INSTR_ORI :: "7 word" where "INSTR_ORI = 0x0D"
definition INSTR_ANDI :: "7 word" where "INSTR_ANDI = 0x0E"
definition INSTR_SLLI :: "7 word" where "INSTR_SLLI = 0x0F"
definition INSTR_SRLI :: "7 word" where "INSTR_SRLI = 0x10"
definition INSTR_SRAI :: "7 word" where "INSTR_SRAI = 0x11"
definition INSTR_SLTI :: "7 word" where "INSTR_SLTI = 0x12"
definition INSTR_SLTIU :: "7 word" where "INSTR_SLTIU = 0x13"
definition INSTR_MUL :: "7 word" where "INSTR_MUL = 0x30"
definition INSTR_MULH :: "7 word" where "INSTR_MULH = 0x31"
definition INSTR_MULHSU :: "7 word" where "INSTR_MULHSU = 0x32"
definition INSTR_MULHU :: "7 word" where "INSTR_MULHU = 0x33"
definition INSTR_DIV :: "7 word" where "INSTR_DIV = 0x34"
definition INSTR_DIVU :: "7 word" where "INSTR_DIVU = 0x35"
definition INSTR_REM :: "7 word" where "INSTR_REM = 0x36"
definition INSTR_REMU :: "7 word" where "INSTR_REMU = 0x37"

lemmas alu_ids [rtl_simps] =
  INSTR_ADD_def INSTR_SUB_def INSTR_XOR_def INSTR_OR_def INSTR_AND_def INSTR_SLL_def INSTR_SRL_def
  INSTR_SRA_def INSTR_SLT_def INSTR_SLTU_def INSTR_ADDI_def INSTR_XORI_def INSTR_ORI_def INSTR_ANDI_def
  INSTR_SLLI_def INSTR_SRLI_def INSTR_SRAI_def INSTR_SLTI_def INSTR_SLTIU_def INSTR_MUL_def
  INSTR_MULH_def INSTR_MULHSU_def INSTR_MULHU_def INSTR_DIV_def INSTR_DIVU_def INSTR_REM_def INSTR_REMU_def

definition mul_signed :: "32 word \<Rightarrow> 32 word \<Rightarrow> 64 word" where
  "mul_signed rs1 rs2 = scast rs1 * scast rs2"

definition mul_mixed :: "32 word \<Rightarrow> 32 word \<Rightarrow> 64 word" where
  "mul_mixed rs1 rs2 = scast rs1 * ucast rs2"

definition mul_unsigned :: "32 word \<Rightarrow> 32 word \<Rightarrow> 64 word" where
  "mul_unsigned rs1 rs2 = ucast rs1 * ucast rs2"

definition shift_amount :: "32 word \<Rightarrow> nat" where
  "shift_amount w = unat (ucast w :: 5 word)"

definition flag :: "bool \<Rightarrow> 32 word" where "flag b = (if b then 1 else 0)"

definition div_overflow :: "32 word \<Rightarrow> 32 word \<Rightarrow> bool" where
  "div_overflow rs1 rs2 \<longleftrightarrow> rs1 = 0x80000000 \<and> rs2 = 0xFFFFFFFF"

definition alu :: "32 word \<Rightarrow> 32 word \<Rightarrow> 32 word \<Rightarrow> 7 word \<Rightarrow> 32 word" where
  "alu rs1 rs2 imm instr_id =
     (if instr_id = INSTR_ADD then rs1 + rs2
      else if instr_id = INSTR_SUB then rs1 - rs2
      else if instr_id = INSTR_XOR then rs1 XOR rs2
      else if instr_id = INSTR_OR then rs1 OR rs2
      else if instr_id = INSTR_AND then rs1 AND rs2
      else if instr_id = INSTR_SLL then push_bit (shift_amount rs2) rs1
      else if instr_id = INSTR_SRL then drop_bit (shift_amount rs2) rs1
      else if instr_id = INSTR_SRA then signed_drop_bit (shift_amount rs2) rs1
      else if instr_id = INSTR_SLT then flag (rs1 <s rs2)
      else if instr_id = INSTR_SLTU then flag (rs1 < rs2)
      else if instr_id = INSTR_ADDI then rs1 + imm
      else if instr_id = INSTR_XORI then rs1 XOR imm
      else if instr_id = INSTR_ORI then rs1 OR imm
      else if instr_id = INSTR_ANDI then rs1 AND imm
      else if instr_id = INSTR_SLLI then push_bit (shift_amount imm) rs1
      else if instr_id = INSTR_SRLI then drop_bit (shift_amount imm) rs1
      else if instr_id = INSTR_SRAI then signed_drop_bit (shift_amount imm) rs1
      else if instr_id = INSTR_SLTI then flag (rs1 <s imm)
      else if instr_id = INSTR_SLTIU then flag (rs1 < imm)
      else if instr_id = INSTR_MUL then ucast (mul_signed rs1 rs2)
      else if instr_id = INSTR_MULH then ucast (drop_bit 32 (mul_signed rs1 rs2))
      else if instr_id = INSTR_MULHSU then ucast (drop_bit 32 (mul_mixed rs1 rs2))
      else if instr_id = INSTR_MULHU then ucast (drop_bit 32 (mul_unsigned rs1 rs2))
      else if instr_id = INSTR_DIV then
        (if rs2 = 0 then 0xFFFFFFFF else if div_overflow rs1 rs2 then 0x80000000
         else word_of_int (sint rs1 sdiv sint rs2))
      else if instr_id = INSTR_DIVU then (if rs2 = 0 then 0xFFFFFFFF else rs1 div rs2)
      else if instr_id = INSTR_REM then
        (if rs2 = 0 then rs1 else if div_overflow rs1 rs2 then 0
         else word_of_int (sint rs1 smod sint rs2))
      else if instr_id = INSTR_REMU then (if rs2 = 0 then rs1 else rs1 mod rs2)
      else 0)"

section \<open>The instructions on integers\<close>

text \<open>
  The instruction set manual defines the operations on the integers two registers stand for, signed
  or unsigned, with the result reduced to 32 bits. Division rounds towards zero, by zero it gives all
  ones with the dividend as remainder; overflow needs no case of its own.
\<close>

datatype rv_op =
    ADD | SUB | XOR_op | OR_op | AND_op | SLL | SRL | SRA | SLT | SLTU
  | MUL | MULH | MULHSU | MULHU | DIV | DIVU | REM | REMU

definition quot0 :: "int \<Rightarrow> int \<Rightarrow> int" where
  "quot0 a b = (if (a < 0) = (b < 0) then \<bar>a\<bar> div \<bar>b\<bar> else - (\<bar>a\<bar> div \<bar>b\<bar>))"

fun rv_result :: "rv_op \<Rightarrow> 32 word \<Rightarrow> 32 word \<Rightarrow> 32 word" where
  "rv_result ADD a b = word_of_int (sint a + sint b)"
| "rv_result SUB a b = word_of_int (sint a - sint b)"
| "rv_result XOR_op a b = a XOR b"
| "rv_result OR_op a b = a OR b"
| "rv_result AND_op a b = a AND b"
| "rv_result SLL a b = word_of_int (uint a * 2 ^ nat (uint b mod 32))"
| "rv_result SRL a b = word_of_int (uint a div 2 ^ nat (uint b mod 32))"
| "rv_result SRA a b = word_of_int (sint a div 2 ^ nat (uint b mod 32))"
| "rv_result SLT a b = (if sint a < sint b then 1 else 0)"
| "rv_result SLTU a b = (if uint a < uint b then 1 else 0)"
| "rv_result MUL a b = word_of_int (sint a * sint b)"
| "rv_result MULH a b = word_of_int ((sint a * sint b) div 2 ^ 32)"
| "rv_result MULHSU a b = word_of_int ((sint a * uint b) div 2 ^ 32)"
| "rv_result MULHU a b = word_of_int ((uint a * uint b) div 2 ^ 32)"
| "rv_result DIV a b = (if b = 0 then - 1 else word_of_int (quot0 (sint a) (sint b)))"
| "rv_result DIVU a b = (if b = 0 then - 1 else word_of_int (uint a div uint b))"
| "rv_result REM a b = (if b = 0 then a else word_of_int (sint a - sint b * quot0 (sint a) (sint b)))"
| "rv_result REMU a b = (if b = 0 then a else word_of_int (uint a mod uint b))"

text \<open>The identifiers with a register and with an immediate operand.\<close>

fun reg_id :: "rv_op \<Rightarrow> 7 word" where
  "reg_id ADD = INSTR_ADD" | "reg_id SUB = INSTR_SUB" | "reg_id XOR_op = INSTR_XOR" | "reg_id OR_op = INSTR_OR"
| "reg_id AND_op = INSTR_AND" | "reg_id SLL = INSTR_SLL" | "reg_id SRL = INSTR_SRL" | "reg_id SRA = INSTR_SRA"
| "reg_id SLT = INSTR_SLT" | "reg_id SLTU = INSTR_SLTU" | "reg_id MUL = INSTR_MUL" | "reg_id MULH = INSTR_MULH"
| "reg_id MULHSU = INSTR_MULHSU" | "reg_id MULHU = INSTR_MULHU" | "reg_id DIV = INSTR_DIV"
| "reg_id DIVU = INSTR_DIVU" | "reg_id REM = INSTR_REM" | "reg_id REMU = INSTR_REMU"

fun imm_id :: "rv_op \<Rightarrow> 7 word option" where
  "imm_id ADD = Some INSTR_ADDI" | "imm_id XOR_op = Some INSTR_XORI" | "imm_id OR_op = Some INSTR_ORI"
| "imm_id AND_op = Some INSTR_ANDI" | "imm_id SLL = Some INSTR_SLLI" | "imm_id SRL = Some INSTR_SRLI"
| "imm_id SRA = Some INSTR_SRAI" | "imm_id SLT = Some INSTR_SLTI" | "imm_id SLTU = Some INSTR_SLTIU"
| "imm_id _ = None"

section \<open>The parts\<close>

lemma shift_amount_mod: "shift_amount w = nat (uint w mod 32)"
  by (simp add: shift_amount_def unsigned_ucast_eq take_bit_eq_mod nat_mod_distrib)

lemma word_of_sint_sum: "a + b = word_of_int (sint a + sint b)" "a - b = word_of_int (sint a - sint b)"
  for a b :: "32 word"
  by simp_all

lemma shifts:
  "push_bit k a = word_of_int (uint a * 2 ^ k)"
  "drop_bit k a = word_of_int (uint a div 2 ^ k)"
  "signed_drop_bit k a = word_of_int (sint a div 2 ^ k)" for a :: "32 word"
proof -
  show "push_bit k a = word_of_int (uint a * 2 ^ k)"
    by (simp add: push_bit_eq_mult)
  show "drop_bit k a = word_of_int (uint a div 2 ^ k)"
    by (rule bit_word_eqI) (simp add: bit_drop_bit_eq bit_simps flip: drop_bit_eq_div)
  show "signed_drop_bit k a = word_of_int (sint a div 2 ^ k)"
    by (rule bit_word_eqI) (auto simp: bit_simps simp flip: drop_bit_eq_div)
qed

lemma high_word:
  "(ucast (drop_bit 32 (word_of_int x :: 64 word)) :: 32 word) = word_of_int (x div 2 ^ 32)"
proof -
  have "x div 2 ^ 32 = drop_bit 32 x" by (simp only: drop_bit_eq_div)
  then show ?thesis by (simp only:) (rule bit_word_eqI, simp add: bit_simps)
qed

lemma products:
  "mul_signed a b = word_of_int (sint a * sint b)"
  "mul_mixed a b = word_of_int (sint a * uint b)"
  "mul_unsigned a b = word_of_int (uint a * uint b)"
proof -
  have s: "(scast a :: 64 word) = word_of_int (sint a)" "(ucast a :: 64 word) = word_of_int (uint a)" for a :: "32 word"
    by (simp_all)
  show "mul_signed a b = word_of_int (sint a * sint b)" "mul_mixed a b = word_of_int (sint a * uint b)"
    "mul_unsigned a b = word_of_int (uint a * uint b)"
    by (simp_all only: mul_signed_def mul_mixed_def mul_unsigned_def s wi_hom_mult)
qed

lemma low_word: "(ucast (word_of_int x :: 64 word) :: 32 word) = word_of_int x"
  by (rule bit_word_eqI) (simp add: bit_simps)

lemma product_results:
  "(ucast (mul_signed a b) :: 32 word) = word_of_int (sint a * sint b)"
  "(ucast (drop_bit 32 (mul_signed a b)) :: 32 word) = word_of_int ((sint a * sint b) div 2 ^ 32)"
  "(ucast (drop_bit 32 (mul_mixed a b)) :: 32 word) = word_of_int ((sint a * uint b) div 2 ^ 32)"
  "(ucast (drop_bit 32 (mul_unsigned a b)) :: 32 word) = word_of_int ((uint a * uint b) div 2 ^ 32)"
  by (simp_all only: products high_word low_word)

lemma quot0_sdiv: "quot0 a b = a sdiv b"
  by (auto simp: quot0_def signed_divide_int_def sgn_if)

lemma smod_quot0: "a smod b = a - b * quot0 a b" for a b :: int
  by (simp add: quot0_sdiv minus_mult_sdiv_eq_smod)

text \<open>The only quotient that does not fit is the one the unit singles out, and there wrapping agrees.\<close>

lemma overflow_results:
  assumes "div_overflow a b"
  shows "word_of_int (quot0 (sint a) (sint b)) = (0x80000000 :: 32 word)"
    and "word_of_int (sint a - sint b * quot0 (sint a) (sint b)) = (0 :: 32 word)"
proof -
  have "sint a = - (2 ^ 31)" "sint b = - 1" using assms by (simp_all add: div_overflow_def)
  then show "word_of_int (quot0 (sint a) (sint b)) = (0x80000000 :: 32 word)"
    and "word_of_int (sint a - sint b * quot0 (sint a) (sint b)) = (0 :: 32 word)"
    by (simp_all add: quot0_def)
qed

section \<open>The unit computes the instructions\<close>

lemma alu_arith:
  "alu a b imm INSTR_ADD = rv_result ADD a b" "alu a b imm INSTR_SUB = rv_result SUB a b"
  "alu a b imm INSTR_XOR = rv_result XOR_op a b" "alu a b imm INSTR_OR = rv_result OR_op a b"
  "alu a b imm INSTR_AND = rv_result AND_op a b"
  by (simp_all add: alu_def rtl_simps)

lemma alu_shift:
  "alu a b imm INSTR_SLL = rv_result SLL a b" "alu a b imm INSTR_SRL = rv_result SRL a b"
  "alu a b imm INSTR_SRA = rv_result SRA a b"
  by (simp_all add: alu_def rtl_simps shift_amount_mod shifts)

lemma alu_compare:
  "alu a b imm INSTR_SLT = rv_result SLT a b" "alu a b imm INSTR_SLTU = rv_result SLTU a b"
  by (simp_all add: alu_def rtl_simps flag_def word_sless_alt word_less_def)

lemma alu_mul:
  "alu a b imm INSTR_MUL = rv_result MUL a b" "alu a b imm INSTR_MULH = rv_result MULH a b"
  "alu a b imm INSTR_MULHSU = rv_result MULHSU a b" "alu a b imm INSTR_MULHU = rv_result MULHU a b"
  unfolding alu_def rv_result.simps product_results by (simp_all add: rtl_simps)

lemma alu_div:
  "alu a b imm INSTR_DIV = rv_result DIV a b" "alu a b imm INSTR_DIVU = rv_result DIVU a b"
  "alu a b imm INSTR_REM = rv_result REM a b" "alu a b imm INSTR_REMU = rv_result REMU a b"
  using overflow_results [of a b]
  by (auto simp: alu_def rtl_simps quot0_sdiv smod_quot0 word_div_def word_mod_def)

lemma alu_immediate:
  "alu a b imm INSTR_ADDI = rv_result ADD a imm" "alu a b imm INSTR_XORI = rv_result XOR_op a imm"
  "alu a b imm INSTR_ORI = rv_result OR_op a imm" "alu a b imm INSTR_ANDI = rv_result AND_op a imm"
  "alu a b imm INSTR_SLLI = rv_result SLL a imm" "alu a b imm INSTR_SRLI = rv_result SRL a imm"
  "alu a b imm INSTR_SRAI = rv_result SRA a imm" "alu a b imm INSTR_SLTI = rv_result SLT a imm"
  "alu a b imm INSTR_SLTIU = rv_result SLTU a imm"
  by (simp_all add: alu_def rtl_simps flag_def word_sless_alt word_less_def shift_amount_mod shifts)

lemma alu_reg_id: "alu a b imm (reg_id op) = rv_result op a b"
  by (cases op) (simp_all only: reg_id.simps alu_arith alu_shift alu_compare alu_mul alu_div)

lemma alu_imm_id: "imm_id op = Some i \<Longrightarrow> alu a b imm i = rv_result op a imm"
  by (cases op) (auto simp: alu_immediate)

text \<open>
  C21. The arithmetic-logic unit computes the RV32I and RV32M instructions: for every operation the
  result with a register operand, and where there is one the result with an immediate operand, is
  the integer operation of the instruction set manual on the signed or unsigned values of the
  operands, reduced to 32 bits, division by zero and the overflowing division included.
\<close>

theorem alu_computes_rv32im:
  "alu a b imm (reg_id op) = rv_result op a b \<and>
   (case imm_id op of Some i \<Rightarrow> alu a b imm i = rv_result op a imm | None \<Rightarrow> True)"
  using alu_reg_id [of a b imm op] alu_imm_id [of op _ a b imm] by (simp split: option.split)

end
