(* ===== verification/Decoder.thy ===== *)
theory Decoder
  imports Alu Memory_Unit
begin

text \<open>
  The instruction decoder \<open>rtl/core_modules/decoder.v\<close>, with the identifiers of
  \<open>rtl/include/instr_defines.vh\<close> that the ALU and the memory unit do not use, against the encodings
  of the instruction set manual, given as an assembler.
\<close>

unbundle bit_operations_syntax

section \<open>The identifiers\<close>

definition INSTR_INVALID :: "7 word" where "INSTR_INVALID = 0x00"
definition INSTR_BEQ :: "7 word" where "INSTR_BEQ = 0x1C"
definition INSTR_BNE :: "7 word" where "INSTR_BNE = 0x1D"
definition INSTR_BLT :: "7 word" where "INSTR_BLT = 0x1E"
definition INSTR_BGE :: "7 word" where "INSTR_BGE = 0x1F"
definition INSTR_BLTU :: "7 word" where "INSTR_BLTU = 0x20"
definition INSTR_BGEU :: "7 word" where "INSTR_BGEU = 0x21"
definition INSTR_JAL :: "7 word" where "INSTR_JAL = 0x22"
definition INSTR_JALR :: "7 word" where "INSTR_JALR = 0x23"
definition INSTR_LUI :: "7 word" where "INSTR_LUI = 0x24"
definition INSTR_AUIPC :: "7 word" where "INSTR_AUIPC = 0x25"
definition INSTR_FENCE_I :: "7 word" where "INSTR_FENCE_I = 0x26"
definition INSTR_CSRRW :: "7 word" where "INSTR_CSRRW = 0x27"
definition INSTR_CSRRS :: "7 word" where "INSTR_CSRRS = 0x28"
definition INSTR_CSRRC :: "7 word" where "INSTR_CSRRC = 0x29"
definition INSTR_CSRRWI :: "7 word" where "INSTR_CSRRWI = 0x2A"
definition INSTR_CSRRSI :: "7 word" where "INSTR_CSRRSI = 0x2B"
definition INSTR_CSRRCI :: "7 word" where "INSTR_CSRRCI = 0x2C"
definition INSTR_MRET :: "7 word" where "INSTR_MRET = 0x2D"
definition INSTR_ECALL :: "7 word" where "INSTR_ECALL = 0x2E"
definition INSTR_EBREAK :: "7 word" where "INSTR_EBREAK = 0x2F"
definition INSTR_WFI :: "7 word" where "INSTR_WFI = 0x38"
definition INSTR_SRET :: "7 word" where "INSTR_SRET = 0x39"
definition INSTR_FENCE :: "7 word" where "INSTR_FENCE = 0x3A"
definition INSTR_SFENCE_VMA :: "7 word" where "INSTR_SFENCE_VMA = 0x3B"
definition INSTR_PAUSE :: "7 word" where "INSTR_PAUSE = 0x3C"
definition INSTR_LR_W :: "7 word" where "INSTR_LR_W = 0x40"
definition INSTR_SC_W :: "7 word" where "INSTR_SC_W = 0x41"
definition INSTR_AMOSWAP_W :: "7 word" where "INSTR_AMOSWAP_W = 0x42"
definition INSTR_AMOADD_W :: "7 word" where "INSTR_AMOADD_W = 0x43"
definition INSTR_AMOAND_W :: "7 word" where "INSTR_AMOAND_W = 0x44"
definition INSTR_AMOOR_W :: "7 word" where "INSTR_AMOOR_W = 0x45"
definition INSTR_AMOXOR_W :: "7 word" where "INSTR_AMOXOR_W = 0x46"
definition INSTR_AMOMAX_W :: "7 word" where "INSTR_AMOMAX_W = 0x47"
definition INSTR_AMOMIN_W :: "7 word" where "INSTR_AMOMIN_W = 0x48"
definition INSTR_AMOMAXU_W :: "7 word" where "INSTR_AMOMAXU_W = 0x49"
definition INSTR_AMOMINU_W :: "7 word" where "INSTR_AMOMINU_W = 0x4A"

lemmas decoder_ids [rtl_simps] =
  INSTR_INVALID_def INSTR_BEQ_def INSTR_BNE_def INSTR_BLT_def INSTR_BGE_def INSTR_BLTU_def INSTR_BGEU_def
  INSTR_JAL_def INSTR_JALR_def INSTR_LUI_def INSTR_AUIPC_def INSTR_FENCE_I_def INSTR_CSRRW_def INSTR_CSRRS_def
  INSTR_CSRRC_def INSTR_CSRRWI_def INSTR_CSRRSI_def INSTR_CSRRCI_def INSTR_MRET_def INSTR_ECALL_def
  INSTR_EBREAK_def INSTR_WFI_def INSTR_SRET_def INSTR_FENCE_def INSTR_SFENCE_VMA_def INSTR_PAUSE_def
  INSTR_LR_W_def INSTR_SC_W_def INSTR_AMOSWAP_W_def INSTR_AMOADD_W_def INSTR_AMOAND_W_def INSTR_AMOOR_W_def
  INSTR_AMOXOR_W_def INSTR_AMOMAX_W_def INSTR_AMOMIN_W_def INSTR_AMOMAXU_W_def INSTR_AMOMINU_W_def

section \<open>The decoder\<close>

text \<open>The bits of an instruction from \<open>lo\<close> on, as many as the result has, and the copies of one bit.\<close>

definition field :: "nat \<Rightarrow> 32 word \<Rightarrow> 'a::len word" where
  "field lo instr = ucast (drop_bit lo instr)"

definition copies :: "bool \<Rightarrow> 'a::len word" where
  "copies b = (if b then - 1 else 0)"

definition dec_opcode :: "32 word \<Rightarrow> 7 word" where "dec_opcode instr = field 0 instr"

definition is_i_instr :: "32 word \<Rightarrow> bool" where
  "is_i_instr instr \<longleftrightarrow> dec_opcode instr = 0b0000011 \<or> dec_opcode instr = 0b0010011 \<or> dec_opcode instr = 0b1100111"

definition is_u_instr :: "32 word \<Rightarrow> bool" where
  "is_u_instr instr \<longleftrightarrow> dec_opcode instr = 0b0010111 \<or> dec_opcode instr = 0b0110111"

definition is_b_instr :: "32 word \<Rightarrow> bool" where "is_b_instr instr \<longleftrightarrow> dec_opcode instr = 0b1100011"

definition is_j_instr :: "32 word \<Rightarrow> bool" where "is_j_instr instr \<longleftrightarrow> dec_opcode instr = 0b1101111"

definition is_s_instr :: "32 word \<Rightarrow> bool" where "is_s_instr instr \<longleftrightarrow> dec_opcode instr = 0b0100011"

definition is_r_instr :: "32 word \<Rightarrow> bool" where
  "is_r_instr instr \<longleftrightarrow> dec_opcode instr = 0b0110011 \<or> dec_opcode instr = 0b0100111 \<or> dec_opcode instr = 0b1010011"

definition is_csr_instr :: "32 word \<Rightarrow> bool" where "is_csr_instr instr \<longleftrightarrow> dec_opcode instr = 0b1110011"

definition is_amo_instr :: "32 word \<Rightarrow> bool" where "is_amo_instr instr \<longleftrightarrow> dec_opcode instr = 0b0101111"

definition func3 :: "32 word \<Rightarrow> 3 word" where "func3 instr = field 12 instr"

definition func7 :: "32 word \<Rightarrow> 7 word" where "func7 instr = (if is_r_instr instr then field 25 instr else 0)"

definition funct5 :: "32 word \<Rightarrow> 5 word" where "funct5 instr = field 27 instr"

definition dec_imm :: "32 word \<Rightarrow> 32 word" where
  "dec_imm instr =
     (if is_i_instr instr then word_cat (copies (bit instr 31) :: 21 word) (field 20 instr :: 11 word)
      else if is_s_instr instr then
        word_cat (copies (bit instr 31) :: 21 word)
          (word_cat (field 25 instr :: 6 word) (field 7 instr :: 5 word) :: 11 word)
      else if is_b_instr instr then
        word_cat (copies (bit instr 31) :: 20 word)
          (word_cat (field 7 instr :: 1 word)
            (word_cat (field 25 instr :: 6 word)
              (word_cat (field 8 instr :: 4 word) (0 :: 1 word) :: 5 word) :: 11 word) :: 12 word)
      else if is_u_instr instr then word_cat (field 12 instr :: 20 word) (0 :: 12 word)
      else if is_j_instr instr then
        word_cat (copies (bit instr 31) :: 12 word)
          (word_cat (field 12 instr :: 8 word)
            (word_cat (field 20 instr :: 1 word)
              (word_cat (field 25 instr :: 6 word)
                (word_cat (field 21 instr :: 4 word) (0 :: 1 word) :: 5 word) :: 11 word) :: 12 word) :: 20 word)
      else if is_csr_instr instr then word_cat (0 :: 20 word) (field 20 instr :: 12 word)
      else 0)"

definition id_of_r :: "7 word \<Rightarrow> 3 word \<Rightarrow> 7 word" where
  "id_of_r f7 f3 =
     (if f7 = 0x00 \<and> f3 = 0 then INSTR_ADD
      else if f7 = 0x20 \<and> f3 = 0 then INSTR_SUB
      else if f7 = 0x01 \<and> f3 = 0 then INSTR_MUL
      else if f7 = 0x01 \<and> f3 = 1 then INSTR_MULH
      else if f7 = 0x01 \<and> f3 = 2 then INSTR_MULHSU
      else if f7 = 0x01 \<and> f3 = 3 then INSTR_MULHU
      else if f7 = 0x00 \<and> f3 = 4 then INSTR_XOR
      else if f7 = 0x00 \<and> f3 = 6 then INSTR_OR
      else if f7 = 0x00 \<and> f3 = 7 then INSTR_AND
      else if f7 = 0x00 \<and> f3 = 1 then INSTR_SLL
      else if f7 = 0x00 \<and> f3 = 5 then INSTR_SRL
      else if f7 = 0x20 \<and> f3 = 5 then INSTR_SRA
      else if f7 = 0x00 \<and> f3 = 2 then INSTR_SLT
      else if f7 = 0x00 \<and> f3 = 3 then INSTR_SLTU
      else if f7 = 0x01 \<and> f3 = 4 then INSTR_DIV
      else if f7 = 0x01 \<and> f3 = 5 then INSTR_DIVU
      else if f7 = 0x01 \<and> f3 = 6 then INSTR_REM
      else if f7 = 0x01 \<and> f3 = 7 then INSTR_REMU
      else INSTR_INVALID)"

definition id_of_i :: "3 word \<Rightarrow> 7 word \<Rightarrow> 7 word" where
  "id_of_i f3 imm11_5 =
     (if f3 = 0 then INSTR_ADDI
      else if f3 = 4 then INSTR_XORI
      else if f3 = 6 then INSTR_ORI
      else if f3 = 7 then INSTR_ANDI
      else if f3 = 1 then (if imm11_5 = 0x00 then INSTR_SLLI else INSTR_INVALID)
      else if f3 = 5 then (if imm11_5 = 0x00 then INSTR_SRLI else if imm11_5 = 0x20 then INSTR_SRAI else INSTR_INVALID)
      else if f3 = 2 then INSTR_SLTI
      else if f3 = 3 then INSTR_SLTIU
      else INSTR_INVALID)"

definition id_of_load :: "3 word \<Rightarrow> 7 word" where
  "id_of_load f3 =
     (if f3 = 0 then INSTR_LB else if f3 = 1 then INSTR_LH else if f3 = 2 then INSTR_LW
      else if f3 = 4 then INSTR_LBU else if f3 = 5 then INSTR_LHU else INSTR_INVALID)"

definition id_of_store :: "3 word \<Rightarrow> 7 word" where
  "id_of_store f3 =
     (if f3 = 0 then INSTR_SB else if f3 = 1 then INSTR_SH else if f3 = 2 then INSTR_SW else INSTR_INVALID)"

definition id_of_branch :: "3 word \<Rightarrow> 7 word" where
  "id_of_branch f3 =
     (if f3 = 0 then INSTR_BEQ else if f3 = 1 then INSTR_BNE else if f3 = 4 then INSTR_BLT
      else if f3 = 5 then INSTR_BGE else if f3 = 6 then INSTR_BLTU else if f3 = 7 then INSTR_BGEU
      else INSTR_INVALID)"

definition id_of_amo :: "3 word \<Rightarrow> 5 word \<Rightarrow> 5 word \<Rightarrow> 7 word" where
  "id_of_amo f3 f5 rs2_field =
     (if f3 \<noteq> 0b010 then INSTR_INVALID
      else if f5 = 0b00010 then (if rs2_field = 0 then INSTR_LR_W else INSTR_INVALID)
      else if f5 = 0b00011 then INSTR_SC_W
      else if f5 = 0b00001 then INSTR_AMOSWAP_W
      else if f5 = 0b00000 then INSTR_AMOADD_W
      else if f5 = 0b01100 then INSTR_AMOAND_W
      else if f5 = 0b01000 then INSTR_AMOOR_W
      else if f5 = 0b00100 then INSTR_AMOXOR_W
      else if f5 = 0b10100 then INSTR_AMOMAX_W
      else if f5 = 0b10000 then INSTR_AMOMIN_W
      else if f5 = 0b11100 then INSTR_AMOMAXU_W
      else if f5 = 0b11000 then INSTR_AMOMINU_W
      else INSTR_INVALID)"

definition id_of_fence :: "32 word \<Rightarrow> 7 word" where
  "id_of_fence instr =
     (if func3 instr = 0 then (if instr = 0x0100000F then INSTR_PAUSE else INSTR_FENCE)
      else if func3 instr = 1 then INSTR_FENCE_I
      else INSTR_INVALID)"

definition id_of_csr :: "3 word \<Rightarrow> 7 word" where
  "id_of_csr f3 =
     (if f3 = 1 then INSTR_CSRRW else if f3 = 2 then INSTR_CSRRS else if f3 = 3 then INSTR_CSRRC
      else if f3 = 5 then INSTR_CSRRWI else if f3 = 6 then INSTR_CSRRSI else if f3 = 7 then INSTR_CSRRCI
      else INSTR_INVALID)"

definition id_of_system :: "32 word \<Rightarrow> 7 word" where
  "id_of_system instr =
     (if instr = 0x30200073 then INSTR_MRET
      else if instr = 0x10200073 then INSTR_SRET
      else if instr = 0x10500073 then INSTR_WFI
      else if instr = 0x00000073 then INSTR_ECALL
      else if instr = 0x00100073 then INSTR_EBREAK
      else if (field 25 instr :: 7 word) = 0b0001001 \<and> func3 instr = 0b000 \<and> (field 7 instr :: 5 word) = 0b00000
      then INSTR_SFENCE_VMA
      else id_of_csr (func3 instr))"

definition dec_instr_id :: "32 word \<Rightarrow> 7 word" where
  "dec_instr_id instr =
     (if dec_opcode instr = 0b0110011 then id_of_r (func7 instr) (func3 instr)
      else if dec_opcode instr = 0b0010011 then id_of_i (func3 instr) (field 5 (dec_imm instr))
      else if dec_opcode instr = 0b0000011 then id_of_load (func3 instr)
      else if dec_opcode instr = 0b0100011 then id_of_store (func3 instr)
      else if dec_opcode instr = 0b1100011 then id_of_branch (func3 instr)
      else if dec_opcode instr = 0b1101111 then INSTR_JAL
      else if dec_opcode instr = 0b1100111 then INSTR_JALR
      else if dec_opcode instr = 0b0110111 then INSTR_LUI
      else if dec_opcode instr = 0b0010111 then INSTR_AUIPC
      else if dec_opcode instr = 0b0101111 then id_of_amo (func3 instr) (funct5 instr) (field 20 instr)
      else if dec_opcode instr = 0b0001111 then id_of_fence instr
      else if dec_opcode instr = 0b1110011 then id_of_system instr
      else INSTR_INVALID)"

record decoder_out =
  d_rs2 :: "5 word"
  d_rs1 :: "5 word"
  d_imm :: "32 word"
  d_rd :: "5 word"
  d_rs1_valid :: bool
  d_rs2_valid :: bool
  d_rd_valid :: bool
  d_opcode :: "7 word"
  d_instr_id :: "7 word"

definition decoder :: "32 word \<Rightarrow> decoder_out" where
  "decoder instr =
     (let r = is_r_instr instr; u = is_u_instr instr; s = is_s_instr instr; b = is_b_instr instr;
          j = is_j_instr instr; i = is_i_instr instr; c = is_csr_instr instr; a = is_amo_instr instr
      in \<lparr>d_rs2 = (if r \<or> s \<or> b \<or> a then field 20 instr else 0),
          d_rs1 = (if r \<or> s \<or> b \<or> i \<or> c \<or> a then field 15 instr else 0),
          d_imm = dec_imm instr,
          d_rd = (if r \<or> u \<or> j \<or> i \<or> c \<or> a then field 7 instr else 0),
          d_rs1_valid = (r \<or> i \<or> s \<or> b \<or> (c \<and> \<not> bit (func3 instr) 2) \<or> a),
          d_rs2_valid = (r \<or> s \<or> b \<or> (a \<and> funct5 instr \<noteq> 0b00010)),
          d_rd_valid = (r \<or> u \<or> j \<or> i \<or> c \<or> a),
          d_opcode = dec_opcode instr, d_instr_id = dec_instr_id instr\<rparr>)"

section \<open>An assembler\<close>

text \<open>The instruction formats of the manual; branch and jump offsets come without their lowest bit.\<close>

definition r_type :: "7 word \<Rightarrow> 5 word \<Rightarrow> 5 word \<Rightarrow> 3 word \<Rightarrow> 5 word \<Rightarrow> 7 word \<Rightarrow> 32 word" where
  "r_type f7 rs2 rs1 f3 rd opc =
     word_cat f7 (word_cat rs2 (word_cat rs1 (word_cat f3 (word_cat rd opc :: 12 word) :: 15 word) :: 20 word) :: 25 word)"

definition i_type :: "12 word \<Rightarrow> 5 word \<Rightarrow> 3 word \<Rightarrow> 5 word \<Rightarrow> 7 word \<Rightarrow> 32 word" where
  "i_type imm rs1 f3 rd opc = r_type (ucast (drop_bit 5 imm)) (ucast imm) rs1 f3 rd opc"

definition s_type :: "12 word \<Rightarrow> 5 word \<Rightarrow> 5 word \<Rightarrow> 3 word \<Rightarrow> 7 word \<Rightarrow> 32 word" where
  "s_type imm rs2 rs1 f3 opc = r_type (ucast (drop_bit 5 imm)) rs2 rs1 f3 (ucast imm) opc"

definition b_type :: "12 word \<Rightarrow> 5 word \<Rightarrow> 5 word \<Rightarrow> 3 word \<Rightarrow> 7 word \<Rightarrow> 32 word" where
  "b_type off rs2 rs1 f3 opc =
     r_type (word_cat (ucast (drop_bit 11 off) :: 1 word) (ucast (drop_bit 4 off) :: 6 word)) rs2 rs1 f3
       (word_cat (ucast off :: 4 word) (ucast (drop_bit 10 off) :: 1 word)) opc"

definition u_type :: "20 word \<Rightarrow> 5 word \<Rightarrow> 7 word \<Rightarrow> 32 word" where
  "u_type imm rd opc = word_cat imm (word_cat rd opc :: 12 word)"

definition j_type :: "20 word \<Rightarrow> 5 word \<Rightarrow> 7 word \<Rightarrow> 32 word" where
  "j_type off rd opc =
     u_type (word_cat (ucast (drop_bit 19 off) :: 1 word)
              (word_cat (ucast off :: 10 word)
                (word_cat (ucast (drop_bit 10 off) :: 1 word) (ucast (drop_bit 11 off) :: 8 word) :: 9 word) :: 19 word))
       rd opc"

datatype load_op = LB | LH | LW | LBU | LHU
datatype store_op = SB | SH | SW
datatype branch_op = BEQ | BNE | BLT | BGE | BLTU | BGEU
datatype amo_op = AMOSWAP | AMOADD | AMOAND | AMOOR | AMOXOR | AMOMAX | AMOMIN | AMOMAXU | AMOMINU
datatype csr_op = CSRRW | CSRRS | CSRRC
datatype system_op = ECALL | EBREAK | MRET | SRET | WFI

text \<open>
  RV32IMA with control and status registers, fences and the privileged instructions. The operands
  come in the order destination, first and second source, immediate; the two bits of an atomic are its
  ordering.
\<close>

datatype rv_instr =
    Op rv_op "5 word" "5 word" "5 word"
  | OpImm rv_op "5 word" "5 word" "12 word"
  | ShiftImm rv_op "5 word" "5 word" "5 word"
  | Load load_op "5 word" "5 word" "12 word"
  | Store store_op "5 word" "5 word" "12 word"
  | Branch branch_op "5 word" "5 word" "12 word"
  | Jal "5 word" "20 word"
  | Jalr "5 word" "5 word" "12 word"
  | Lui "5 word" "20 word"
  | Auipc "5 word" "20 word"
  | LrW "5 word" "5 word" "2 word"
  | ScW "5 word" "5 word" "5 word" "2 word"
  | Amo amo_op "5 word" "5 word" "5 word" "2 word"
  | Csr csr_op "5 word" "5 word" "12 word"
  | CsrImm csr_op "5 word" "5 word" "12 word"
  | System system_op
  | SfenceVma "5 word" "5 word"
  | Fence "12 word"
  | FenceI

fun op_code :: "rv_op \<Rightarrow> 7 word \<times> 3 word" where
  "op_code ADD = (0, 0)" | "op_code SUB = (0x20, 0)" | "op_code SLL = (0, 1)" | "op_code SLT = (0, 2)"
| "op_code SLTU = (0, 3)" | "op_code XOR_op = (0, 4)" | "op_code SRL = (0, 5)" | "op_code SRA = (0x20, 5)"
| "op_code OR_op = (0, 6)" | "op_code AND_op = (0, 7)" | "op_code MUL = (1, 0)" | "op_code MULH = (1, 1)"
| "op_code MULHSU = (1, 2)" | "op_code MULHU = (1, 3)" | "op_code DIV = (1, 4)" | "op_code DIVU = (1, 5)"
| "op_code REM = (1, 6)" | "op_code REMU = (1, 7)"

fun load_code :: "load_op \<Rightarrow> 3 word \<times> 7 word" where
  "load_code LB = (0, INSTR_LB)" | "load_code LH = (1, INSTR_LH)" | "load_code LW = (2, INSTR_LW)"
| "load_code LBU = (4, INSTR_LBU)" | "load_code LHU = (5, INSTR_LHU)"

fun store_code :: "store_op \<Rightarrow> 3 word \<times> 7 word" where
  "store_code SB = (0, INSTR_SB)" | "store_code SH = (1, INSTR_SH)" | "store_code SW = (2, INSTR_SW)"

fun branch_code :: "branch_op \<Rightarrow> 3 word \<times> 7 word" where
  "branch_code BEQ = (0, INSTR_BEQ)" | "branch_code BNE = (1, INSTR_BNE)" | "branch_code BLT = (4, INSTR_BLT)"
| "branch_code BGE = (5, INSTR_BGE)" | "branch_code BLTU = (6, INSTR_BLTU)" | "branch_code BGEU = (7, INSTR_BGEU)"

fun amo_code :: "amo_op \<Rightarrow> 5 word \<times> 7 word" where
  "amo_code AMOSWAP = (1, INSTR_AMOSWAP_W)" | "amo_code AMOADD = (0, INSTR_AMOADD_W)"
| "amo_code AMOAND = (0xC, INSTR_AMOAND_W)" | "amo_code AMOOR = (8, INSTR_AMOOR_W)"
| "amo_code AMOXOR = (4, INSTR_AMOXOR_W)" | "amo_code AMOMAX = (0x14, INSTR_AMOMAX_W)"
| "amo_code AMOMIN = (0x10, INSTR_AMOMIN_W)" | "amo_code AMOMAXU = (0x1C, INSTR_AMOMAXU_W)"
| "amo_code AMOMINU = (0x18, INSTR_AMOMINU_W)"

fun csr_code :: "csr_op \<Rightarrow> 3 word \<times> 7 word \<times> 7 word" where
  "csr_code CSRRW = (1, INSTR_CSRRW, INSTR_CSRRWI)" | "csr_code CSRRS = (2, INSTR_CSRRS, INSTR_CSRRSI)"
| "csr_code CSRRC = (3, INSTR_CSRRC, INSTR_CSRRCI)"

fun system_code :: "system_op \<Rightarrow> 12 word \<times> 7 word" where
  "system_code ECALL = (0, INSTR_ECALL)" | "system_code EBREAK = (1, INSTR_EBREAK)"
| "system_code MRET = (0x302, INSTR_MRET)" | "system_code SRET = (0x102, INSTR_SRET)"
| "system_code WFI = (0x105, INSTR_WFI)"

fun wf_instr :: "rv_instr \<Rightarrow> bool" where
  "wf_instr (OpImm op _ _ _) \<longleftrightarrow> op \<in> {ADD, SLT, SLTU, XOR_op, OR_op, AND_op}"
| "wf_instr (ShiftImm op _ _ _) \<longleftrightarrow> op \<in> {SLL, SRL, SRA}"
| "wf_instr _ \<longleftrightarrow> True"

fun encode :: "rv_instr \<Rightarrow> 32 word" where
  "encode (Op op rd rs1 rs2) = r_type (fst (op_code op)) rs2 rs1 (snd (op_code op)) rd 0x33"
| "encode (OpImm op rd rs1 imm) = i_type imm rs1 (snd (op_code op)) rd 0x13"
| "encode (ShiftImm op rd rs1 shamt) = r_type (fst (op_code op)) shamt rs1 (snd (op_code op)) rd 0x13"
| "encode (Load op rd rs1 imm) = i_type imm rs1 (fst (load_code op)) rd 0x03"
| "encode (Store op rs1 rs2 imm) = s_type imm rs2 rs1 (fst (store_code op)) 0x23"
| "encode (Branch op rs1 rs2 off) = b_type off rs2 rs1 (fst (branch_code op)) 0x63"
| "encode (Jal rd off) = j_type off rd 0x6F"
| "encode (Jalr rd rs1 imm) = i_type imm rs1 0 rd 0x67"
| "encode (Lui rd imm) = u_type imm rd 0x37"
| "encode (Auipc rd imm) = u_type imm rd 0x17"
| "encode (LrW rd rs1 order) = r_type (word_cat (2 :: 5 word) order) 0 rs1 2 rd 0x2F"
| "encode (ScW rd rs1 rs2 order) = r_type (word_cat (3 :: 5 word) order) rs2 rs1 2 rd 0x2F"
| "encode (Amo op rd rs1 rs2 order) = r_type (word_cat (fst (amo_code op)) order) rs2 rs1 2 rd 0x2F"
| "encode (Csr op rd rs1 csr) = i_type csr rs1 (fst (csr_code op)) rd 0x73"
| "encode (CsrImm op rd uimm csr) = i_type csr uimm (fst (csr_code op) + 4) rd 0x73"
| "encode (System op) = i_type (fst (system_code op)) 0 0 0 0x73"
| "encode (SfenceVma rs1 rs2) = r_type 9 rs2 rs1 0 0 0x73"
| "encode (Fence order) = i_type order 0 0 0 0x0F"
| "encode FenceI = i_type 0 0 1 0 0x0F"

section \<open>Fields of the formats\<close>

lemma bit_field: "bit (field lo w :: 'a::len word) n \<longleftrightarrow> n < LENGTH('a) \<and> bit w (lo + n)"
  by (auto simp: field_def bit_word_ucast_iff bit_drop_bit_eq dest: bit_imp_le_length)

lemma bit_copies: "bit (copies b :: 'a::len word) n \<longleftrightarrow> n < LENGTH('a) \<and> b"
  by (simp add: copies_def)

lemma bit_r_type:
  "bit (r_type f7 rs2 rs1 f3 rd opc) n \<longleftrightarrow>
     (if n < 7 then bit opc n else if n < 12 then bit rd (n - 7) else if n < 15 then bit f3 (n - 12)
      else if n < 20 then bit rs1 (n - 15) else if n < 25 then bit rs2 (n - 20) else bit f7 (n - 25))"
  by (auto simp: r_type_def bit_word_cat_iff dest: bit_imp_le_length)

lemma bit_u_type:
  "bit (u_type imm rd opc) n \<longleftrightarrow>
     (if n < 7 then bit opc n else if n < 12 then bit rd (n - 7) else bit imm (n - 12))"
  by (auto simp: u_type_def bit_word_cat_iff dest: bit_imp_le_length)

lemma r_type_fields [simp]:
  "(field 0 (r_type f7 rs2 rs1 f3 rd opc) :: 7 word) = opc"
  "(field 7 (r_type f7 rs2 rs1 f3 rd opc) :: 5 word) = rd"
  "(field 12 (r_type f7 rs2 rs1 f3 rd opc) :: 3 word) = f3"
  "(field 15 (r_type f7 rs2 rs1 f3 rd opc) :: 5 word) = rs1"
  "(field 20 (r_type f7 rs2 rs1 f3 rd opc) :: 5 word) = rs2"
  "(field 25 (r_type f7 rs2 rs1 f3 rd opc) :: 7 word) = f7"
  by (rule bit_word_eqI; simp add: bit_field bit_r_type)+

lemma r_type_of_fields:
  "r_type (field 25 w) (field 20 w) (field 15 w) (field 12 w) (field 7 w) (field 0 w) = w"
  by (rule bit_word_eqI) (auto simp: bit_field bit_r_type)

lemma u_type_fields [simp]:
  "(field 0 (u_type imm rd opc) :: 7 word) = opc"
  "(field 7 (u_type imm rd opc) :: 5 word) = rd"
  "(field 12 (u_type imm rd opc) :: 20 word) = imm"
  by (rule bit_word_eqI; simp add: bit_field bit_u_type)+

lemma type_opcodes [simp]:
  "dec_opcode (r_type f7 rs2 rs1 f3 rd opc) = opc" "dec_opcode (i_type imm rs1 f3 rd opc) = opc"
  "dec_opcode (s_type imm rs2 rs1 f3 opc) = opc" "dec_opcode (b_type off rs2 rs1 f3 opc) = opc"
  "dec_opcode (u_type uimm rd opc) = opc" "dec_opcode (j_type joff rd opc) = opc"
  by (simp_all add: dec_opcode_def i_type_def s_type_def b_type_def j_type_def)

lemma type_func3 [simp]:
  "func3 (r_type f7 rs2 rs1 f3 rd opc) = f3" "func3 (i_type imm rs1 f3 rd opc) = f3"
  "func3 (s_type imm rs2 rs1 f3 opc) = f3" "func3 (b_type off rs2 rs1 f3 opc) = f3"
  by (simp_all add: func3_def i_type_def s_type_def b_type_def)

lemma type_registers [simp]:
  "(field 7 (i_type imm rs1 f3 rd opc) :: 5 word) = rd" "(field 15 (i_type imm rs1 f3 rd opc) :: 5 word) = rs1"
  "(field 20 (s_type imm rs2 rs1 f3 opc) :: 5 word) = rs2" "(field 15 (s_type imm rs2 rs1 f3 opc) :: 5 word) = rs1"
  "(field 20 (b_type off rs2 rs1 f3 opc) :: 5 word) = rs2" "(field 15 (b_type off rs2 rs1 f3 opc) :: 5 word) = rs1"
  "(field 7 (j_type joff rd opc) :: 5 word) = rd"
  by (simp_all add: i_type_def s_type_def b_type_def j_type_def)

lemma funct5_r_type [simp]: "funct5 (r_type (word_cat f5 (order :: 2 word)) rs2 rs1 f3 rd opc) = f5"
  by (rule bit_word_eqI) (simp add: funct5_def bit_field bit_r_type bit_word_cat_iff)

lemma i_type_imm [simp]: "(field 20 (i_type imm rs1 f3 rd opc) :: 12 word) = imm"
  by (rule bit_word_eqI)
    (auto simp: i_type_def bit_field bit_r_type bit_word_ucast_iff bit_drop_bit_eq not_less)

text \<open>The immediates are the sign-extended operands, byte offsets for branches and jumps.\<close>

lemma bit_sext:
  "n < 32 \<Longrightarrow> bit (scast (w :: 'a::len word) :: 32 word) n \<longleftrightarrow>
     bit w (if n < LENGTH('a) - 1 then n else LENGTH('a) - 1)"
  by (auto simp: bit_signed_iff min_def)

lemma dec_imm_i:
  "opc \<in> {0x03, 0x13, 0x67} \<Longrightarrow> dec_imm (i_type imm rs1 f3 rd opc) = scast imm"
  by (rule bit_word_eqI)
    (auto simp: dec_imm_def is_i_instr_def bit_word_cat_iff bit_copies bit_field i_type_def bit_r_type
      bit_word_ucast_iff bit_sext bit_drop_bit_eq)

lemma dec_imm_s: "dec_imm (s_type imm rs2 rs1 f3 0x23) = scast imm"
  by (rule bit_word_eqI)
    (auto simp: dec_imm_def is_i_instr_def is_s_instr_def bit_word_cat_iff bit_copies bit_field s_type_def bit_r_type
      bit_word_ucast_iff bit_sext bit_drop_bit_eq)

lemma bit_twice_sext:
  "n < 32 \<Longrightarrow> bit (2 * scast (w :: 'a::len word) :: 32 word) n \<longleftrightarrow>
     0 < n \<and> bit w (if n < LENGTH('a) then n - 1 else LENGTH('a) - 1)"
  by (auto simp: bit_double_iff bit_sext)

lemma dec_imm_b: "dec_imm (b_type off rs2 rs1 f3 0x63) = 2 * scast off"
proof (rule bit_word_eqI)
  fix n :: nat
  assume "n < LENGTH(32)"
  then show "bit (dec_imm (b_type off rs2 rs1 f3 0x63)) n = bit (2 * scast off :: 32 word) n"
    by (cases "n = 11")
      (auto simp: dec_imm_def is_i_instr_def is_s_instr_def is_b_instr_def bit_word_cat_iff bit_copies bit_field
        b_type_def bit_r_type bit_word_ucast_iff bit_twice_sext bit_drop_bit_eq)
qed

lemma dec_imm_u: "opc \<in> {0x37, 0x17} \<Longrightarrow> dec_imm (u_type imm rd opc) = push_bit 12 (ucast imm)"
  by (rule bit_word_eqI)
    (auto simp: dec_imm_def is_i_instr_def is_s_instr_def is_b_instr_def is_u_instr_def bit_word_cat_iff
      bit_word_ucast_iff bit_push_bit_iff)

lemma dec_imm_j: "dec_imm (j_type off rd 0x6F) = 2 * scast off"
proof (rule bit_word_eqI)
  fix n :: nat
  assume "n < LENGTH(32)"
  then show "bit (dec_imm (j_type off rd 0x6F)) n = bit (2 * scast off :: 32 word) n"
    by (cases "n = 11"; cases "n = 20")
      (auto simp: dec_imm_def is_i_instr_def is_s_instr_def is_b_instr_def is_u_instr_def is_j_instr_def
        bit_word_cat_iff bit_copies bit_field j_type_def bit_u_type bit_word_ucast_iff bit_twice_sext bit_drop_bit_eq)
qed

section \<open>Decoding what was assembled\<close>

text \<open>What the decoder should say: the operands an instruction has, its immediate and its identifier.\<close>

definition outputs ::
  "5 word option \<Rightarrow> 5 word option \<Rightarrow> 5 word option \<Rightarrow> 32 word \<Rightarrow> 7 word \<Rightarrow> 7 word \<Rightarrow> decoder_out" where
  "outputs rd rs1 rs2 imm opc ident =
     \<lparr>d_rs2 = (case rs2 of None \<Rightarrow> 0 | Some r \<Rightarrow> r), d_rs1 = (case rs1 of None \<Rightarrow> 0 | Some r \<Rightarrow> r), d_imm = imm,
      d_rd = (case rd of None \<Rightarrow> 0 | Some r \<Rightarrow> r), d_rs1_valid = (rs1 \<noteq> None), d_rs2_valid = (rs2 \<noteq> None),
      d_rd_valid = (rd \<noteq> None), d_opcode = opc, d_instr_id = ident\<rparr>"

fun decoded :: "rv_instr \<Rightarrow> decoder_out" where
  "decoded (Op op rd rs1 rs2) = outputs (Some rd) (Some rs1) (Some rs2) 0 0x33 (reg_id op)"
| "decoded (OpImm op rd rs1 imm) = outputs (Some rd) (Some rs1) None (scast imm) 0x13 (the (imm_id op))"
| "decoded (ShiftImm op rd rs1 shamt) =
     outputs (Some rd) (Some rs1) None (word_cat (fst (op_code op)) shamt) 0x13 (the (imm_id op))"
| "decoded (Load op rd rs1 imm) = outputs (Some rd) (Some rs1) None (scast imm) 0x03 (snd (load_code op))"
| "decoded (Store op rs1 rs2 imm) = outputs None (Some rs1) (Some rs2) (scast imm) 0x23 (snd (store_code op))"
| "decoded (Branch op rs1 rs2 off) = outputs None (Some rs1) (Some rs2) (2 * scast off) 0x63 (snd (branch_code op))"
| "decoded (Jal rd off) = outputs (Some rd) None None (2 * scast off) 0x6F INSTR_JAL"
| "decoded (Jalr rd rs1 imm) = outputs (Some rd) (Some rs1) None (scast imm) 0x67 INSTR_JALR"
| "decoded (Lui rd imm) = outputs (Some rd) None None (push_bit 12 (ucast imm)) 0x37 INSTR_LUI"
| "decoded (Auipc rd imm) = outputs (Some rd) None None (push_bit 12 (ucast imm)) 0x17 INSTR_AUIPC"
| "decoded (LrW rd rs1 order) = outputs (Some rd) (Some rs1) None 0 0x2F INSTR_LR_W"
| "decoded (ScW rd rs1 rs2 order) = outputs (Some rd) (Some rs1) (Some rs2) 0 0x2F INSTR_SC_W"
| "decoded (Amo op rd rs1 rs2 order) = outputs (Some rd) (Some rs1) (Some rs2) 0 0x2F (snd (amo_code op))"
| "decoded (Csr op rd rs1 csr) = outputs (Some rd) (Some rs1) None (ucast csr) 0x73 (fst (snd (csr_code op)))"
| "decoded (CsrImm op rd uimm csr) =
     (outputs (Some rd) None None (ucast csr) 0x73 (snd (snd (csr_code op))))\<lparr>d_rs1 := uimm\<rparr>"
| "decoded (System op) = outputs (Some 0) (Some 0) None (ucast (fst (system_code op))) 0x73 (snd (system_code op))"
| "decoded (SfenceVma rs1 rs2) =
     outputs (Some 0) (Some rs1) None (ucast (word_cat (9 :: 7 word) rs2 :: 12 word)) 0x73 INSTR_SFENCE_VMA"
| "decoded (Fence order) = outputs None None None 0 0x0F (if order = 0x010 then INSTR_PAUSE else INSTR_FENCE)"
| "decoded FenceI = outputs None None None 0 0x0F INSTR_FENCE_I"

lemmas decoder_classes =
  is_i_instr_def is_u_instr_def is_b_instr_def is_j_instr_def is_s_instr_def is_r_instr_def is_csr_instr_def
  is_amo_instr_def

lemma r_type_as_i: "r_type f7 rs2 rs1 f3 rd opc = i_type (word_cat f7 rs2) rs1 f3 rd opc"
proof -
  have "(ucast (drop_bit 5 (word_cat f7 rs2 :: 12 word)) :: 7 word) = f7"
    by (rule bit_word_eqI) (simp add: bit_word_ucast_iff bit_drop_bit_eq bit_word_cat_iff)
  moreover have "(ucast (word_cat f7 rs2 :: 12 word) :: 5 word) = rs2"
    by (rule bit_word_eqI) (simp add: bit_word_ucast_iff bit_word_cat_iff)
  ultimately show ?thesis by (simp only: i_type_def)
qed

lemma dec_imm_csr: "dec_imm (i_type imm rs1 f3 rd 0x73) = ucast imm"
  by (rule bit_word_eqI)
    (auto simp: dec_imm_def decoder_classes bit_word_cat_iff bit_word_ucast_iff)

lemma dec_imm_none: "dec_opcode w \<in> {0x33, 0x2F, 0x0F} \<Longrightarrow> dec_imm w = 0"
  by (auto simp: dec_imm_def decoder_classes)

text \<open>A shift has its amount in the low bits of the immediate and seven bits of function above.\<close>

lemma dec_imm_shift:
  assumes "f7 \<in> {0, 0x20}"
  shows "dec_imm (r_type f7 shamt rs1 f3 rd 0x13) = word_cat f7 shamt"
proof -
  have "\<not> bit f7 6" using assms by auto
  moreover from this have "\<not> bit f7 (n - 5)" if "11 \<le> n" for n
    using that by (cases "n = 11") (auto dest: bit_imp_le_length)
  ultimately show ?thesis
    unfolding r_type_as_i
    by (subst dec_imm_i, simp, intro bit_word_eqI)
      (auto simp: bit_sext bit_word_cat_iff dest: bit_imp_le_length)
qed

lemma field_shift [simp]: "(field 5 (word_cat (f7 :: 7 word) (shamt :: 5 word) :: 32 word) :: 7 word) = f7"
  by (rule bit_word_eqI) (simp add: bit_field bit_word_cat_iff)

lemma zero_functions [simp]:
  "(field 5 (ucast (shamt :: 5 word) :: 32 word) :: 7 word) = 0"
  "funct5 (r_type (ucast (order :: 2 word)) rs2 rs1 f3 rd opc) = 0"
  by (rule bit_word_eqI; simp add: bit_field funct5_def bit_r_type bit_word_ucast_iff)+

lemma func7_r_type [simp]: "func7 (r_type f7 rs2 rs1 f3 rd 0x33) = f7"
  by (simp add: func7_def decoder_classes)

text \<open>The system instructions that are told by their whole word have function 0.\<close>

lemma id_of_system_csr: "func3 w \<noteq> 0 \<Longrightarrow> id_of_system w = id_of_csr (func3 w)"
proof -
  have "func3 0x30200073 = 0" "func3 0x10200073 = 0" "func3 0x10500073 = 0" "func3 0x00000073 = 0" "func3 0x00100073 = 0"
    by code_simp+
  then show "func3 w \<noteq> 0 \<Longrightarrow> id_of_system w = id_of_csr (func3 w)" by (auto simp: id_of_system_def)
qed

lemma id_of_system_sfence: "id_of_system (r_type 9 rs2 rs1 0 0 0x73) = INSTR_SFENCE_VMA"
proof -
  have "(field 25 (0x30200073 :: 32 word) :: 7 word) = 0x18" "(field 25 (0x10200073 :: 32 word) :: 7 word) = 8"
    "(field 25 (0x10500073 :: 32 word) :: 7 word) = 8" "(field 25 (0x00000073 :: 32 word) :: 7 word) = 0"
    "(field 25 (0x00100073 :: 32 word) :: 7 word) = 0"
    by code_simp+
  moreover have "r_type 9 rs2 rs1 0 0 0x73 \<noteq> v" if "(field 25 v :: 7 word) \<noteq> 9" for v using that by auto
  ultimately show ?thesis by (simp add: id_of_system_def)
qed

lemmas decoder_simps = decoder_def Let_def decoder_classes outputs_def dec_instr_id_def

lemma decode_op: "decoder (encode (Op op rd rs1 rs2)) = decoded (Op op rd rs1 rs2)"
  by (cases op) (simp_all add: decoder_simps dec_imm_none id_of_r_def)

lemma decode_op_imm:
  "op \<in> {ADD, SLT, SLTU, XOR_op, OR_op, AND_op} \<Longrightarrow>
   decoder (encode (OpImm op rd rs1 imm)) = decoded (OpImm op rd rs1 imm)"
  by (auto simp: decoder_simps dec_imm_i id_of_i_def)

lemma decode_shift:
  "op \<in> {SLL, SRL, SRA} \<Longrightarrow>
   decoder (encode (ShiftImm op rd rs1 shamt)) = decoded (ShiftImm op rd rs1 shamt)"
  by (auto simp: decoder_simps dec_imm_shift id_of_i_def)

lemma decode_memory:
  "decoder (encode (Load lop rd rs1 imm)) = decoded (Load lop rd rs1 imm)"
  "decoder (encode (Store sop rs1 rs2 imm)) = decoded (Store sop rs1 rs2 imm)"
  by (cases lop; simp add: decoder_simps dec_imm_i id_of_load_def)
    (cases sop; simp add: decoder_simps dec_imm_s id_of_store_def)

lemma decode_control:
  "decoder (encode (Branch op rs1 rs2 off)) = decoded (Branch op rs1 rs2 off)"
  "decoder (encode (Jal rd joff)) = decoded (Jal rd joff)"
  "decoder (encode (Jalr rd rs1 imm)) = decoded (Jalr rd rs1 imm)"
  "decoder (encode (Lui rd uimm)) = decoded (Lui rd uimm)"
  "decoder (encode (Auipc rd uimm)) = decoded (Auipc rd uimm)"
  by (cases op; simp add: decoder_simps dec_imm_b id_of_branch_def)
    (simp_all add: decoder_simps dec_imm_j dec_imm_i dec_imm_u)

lemma decode_atomic:
  "decoder (encode (LrW rd rs1 order)) = decoded (LrW rd rs1 order)"
  "decoder (encode (ScW rd rs1 rs2 order)) = decoded (ScW rd rs1 rs2 order)"
  "decoder (encode (Amo op rd rs1 rs2 order)) = decoded (Amo op rd rs1 rs2 order)"
  by (cases op; simp add: decoder_simps dec_imm_none id_of_amo_def)+

lemma decode_csr:
  "decoder (encode (Csr op rd rs1 csr)) = decoded (Csr op rd rs1 csr)"
  "decoder (encode (CsrImm op rd uimm csr)) = decoded (CsrImm op rd uimm csr)"
  by (cases op; simp add: decoder_simps dec_imm_csr id_of_system_csr id_of_csr_def)+

lemma system_words:
  "i_type 0 0 0 0 0x73 = 0x00000073" "i_type 1 0 0 0 0x73 = 0x00100073" "i_type 0x302 0 0 0 0x73 = 0x30200073"
  "i_type 0x102 0 0 0 0x73 = 0x10200073" "i_type 0x105 0 0 0 0x73 = 0x10500073" "i_type 0x010 0 0 0 0x0F = 0x0100000F"
  by code_simp+

lemma id_of_system_word: "id_of_system (i_type (fst (system_code op)) 0 0 0 0x73) = snd (system_code op)"
  by (cases op) (simp_all only: system_code.simps fst_conv snd_conv system_words, simp_all add: id_of_system_def)

lemma fence_word: "i_type order 0 0 0 0x0F = 0x0100000F \<longleftrightarrow> order = 0x010"
proof
  assume "i_type order 0 0 0 0x0F = 0x0100000F"
  then have "(field 20 (i_type order 0 0 0 0x0F) :: 12 word) = field 20 (i_type 0x010 0 0 0 0x0F)"
    by (simp only: system_words)
  then show "order = 0x010" by simp
qed (simp only: system_words)

lemma decode_system:
  "decoder (encode (System op)) = decoded (System op)"
  "decoder (encode (SfenceVma rs1 rs2)) = decoded (SfenceVma rs1 rs2)"
  "decoder (encode (Fence order)) = decoded (Fence order)"
  "decoder (encode FenceI) = decoded FenceI"
proof -
  show "decoder (encode (System op)) = decoded (System op)"
    by (simp add: decoder_simps dec_imm_csr id_of_system_word)
  have "dec_imm (r_type 9 rs2 rs1 0 0 0x73) = ucast (word_cat (9 :: 7 word) rs2 :: 12 word)"
    by (simp only: r_type_as_i dec_imm_csr)
  then show "decoder (encode (SfenceVma rs1 rs2)) = decoded (SfenceVma rs1 rs2)"
    by (simp add: decoder_simps id_of_system_sfence)
  show "decoder (encode (Fence order)) = decoded (Fence order)"
    by (simp add: decoder_simps dec_imm_none id_of_fence_def fence_word)
  show "decoder (encode FenceI) = decoded FenceI"
    by (simp add: decoder_simps dec_imm_none id_of_fence_def)
qed

lemma decoder_encode: "wf_instr i \<Longrightarrow> decoder (encode i) = decoded i"
  by (cases i) (simp_all only: wf_instr.simps decode_op decode_op_imm decode_shift decode_memory decode_control
      decode_atomic decode_csr decode_system)

section \<open>Nothing else is decoded\<close>

lemma i_type_of_fields: "i_type (field 20 w) (field 15 w) (field 12 w) (field 7 w) (field 0 w) = w"
  by (rule bit_word_eqI)
    (auto simp: i_type_def bit_field bit_r_type bit_word_ucast_iff bit_drop_bit_eq)

lemma s_type_of_fields:
  "s_type (word_cat (field 25 w :: 7 word) (field 7 w :: 5 word)) (field 20 w) (field 15 w) (field 12 w) (field 0 w) = w"
  by (rule bit_word_eqI)
    (auto simp: s_type_def bit_field bit_r_type bit_word_ucast_iff bit_drop_bit_eq bit_word_cat_iff)

lemma u_type_of_fields: "u_type (field 12 w) (field 7 w) (field 0 w) = w"
  by (rule bit_word_eqI) (auto simp: bit_field bit_u_type)

lemma b_type_of_fields:
  "\<exists>off. b_type off (field 20 w) (field 15 w) (field 12 w) (field 0 w) = w"
proof
  let ?off = "word_cat (field 31 w :: 1 word) (word_cat (field 7 w :: 1 word)
      (word_cat (field 25 w :: 6 word) (field 8 w :: 4 word) :: 10 word) :: 11 word) :: 12 word"
  show "b_type ?off (field 20 w) (field 15 w) (field 12 w) (field 0 w) = w"
  proof (rule bit_word_eqI)
    fix n :: nat
    assume "n < LENGTH(32)"
    then show "bit (b_type ?off (field 20 w) (field 15 w) (field 12 w) (field 0 w)) n = bit w n"
      by (cases "n = 7"; cases "n = 31")
        (auto simp: b_type_def bit_field bit_r_type bit_word_ucast_iff bit_drop_bit_eq bit_word_cat_iff)
  qed
qed

lemma j_type_of_fields: "\<exists>off. j_type off (field 7 w) (field 0 w) = w"
proof
  let ?off = "word_cat (field 31 w :: 1 word) (word_cat (field 12 w :: 8 word)
      (word_cat (field 20 w :: 1 word) (field 21 w :: 10 word) :: 11 word) :: 19 word) :: 20 word"
  show "j_type ?off (field 7 w) (field 0 w) = w"
  proof (rule bit_word_eqI)
    fix n :: nat
    assume "n < LENGTH(32)"
    then show "bit (j_type ?off (field 7 w) (field 0 w)) n = bit w n"
      by (cases "n = 20"; cases "n = 31")
        (auto simp: j_type_def bit_field bit_u_type bit_word_ucast_iff bit_drop_bit_eq bit_word_cat_iff)
  qed
qed

text \<open>An identifier other than the invalid one comes from a row of the tables.\<close>

lemma else_valid:
  "(if c then x else e) \<noteq> v \<Longrightarrow> (c \<Longrightarrow> x \<noteq> v \<Longrightarrow> P) \<Longrightarrow> (\<not> c \<Longrightarrow> e \<noteq> v \<Longrightarrow> P) \<Longrightarrow> P"
  by (simp split: if_splits)

lemma op_rows: "id_of_r f7 f3 \<noteq> INSTR_INVALID \<Longrightarrow> \<exists>op. op_code op = (f7, f3)"
  unfolding id_of_r_def by (elim else_valid; metis op_code.simps)

lemma load_rows: "id_of_load f3 \<noteq> INSTR_INVALID \<Longrightarrow> \<exists>op. fst (load_code op) = f3"
  unfolding id_of_load_def by (elim else_valid; metis load_code.simps fst_conv)

lemma store_rows: "id_of_store f3 \<noteq> INSTR_INVALID \<Longrightarrow> \<exists>op. fst (store_code op) = f3"
  unfolding id_of_store_def by (elim else_valid; metis store_code.simps fst_conv)

lemma branch_rows: "id_of_branch f3 \<noteq> INSTR_INVALID \<Longrightarrow> \<exists>op. fst (branch_code op) = f3"
  unfolding id_of_branch_def by (elim else_valid; metis branch_code.simps fst_conv)

lemma csr_rows:
  assumes "id_of_csr f3 \<noteq> INSTR_INVALID"
  shows "\<exists>op. fst (csr_code op) = f3 \<or> fst (csr_code op) + 4 = f3"
proof -
  have codes: "fst (csr_code CSRRW) = 1" "fst (csr_code CSRRS) = 2" "fst (csr_code CSRRC) = 3"
    "fst (csr_code CSRRW) + 4 = 5" "fst (csr_code CSRRS) + 4 = 6" "fst (csr_code CSRRC) + 4 = 7"
    by simp_all
  show ?thesis by (insert assms, unfold id_of_csr_def, elim else_valid; metis codes)
qed

lemma imm_rows:
  assumes "id_of_i f3 f7 \<noteq> INSTR_INVALID"
  shows "(\<exists>op \<in> {SLL, SRL, SRA}. op_code op = (f7, f3)) \<or>
    (\<exists>op \<in> {ADD, SLT, SLTU, XOR_op, OR_op, AND_op}. snd (op_code op) = f3)"
  using assms by (auto simp: id_of_i_def split: if_splits)

lemma amo_rows:
  assumes "id_of_amo f3 f5 r \<noteq> INSTR_INVALID"
  shows "f3 = 2 \<and> (f5 = 2 \<and> r = 0 \<or> f5 = 3 \<or> (\<exists>op. fst (amo_code op) = f5))"
proof -
  have codes: "fst (amo_code AMOSWAP) = 1" "fst (amo_code AMOADD) = 0" "fst (amo_code AMOAND) = 0xC"
    "fst (amo_code AMOOR) = 8" "fst (amo_code AMOXOR) = 4" "fst (amo_code AMOMAX) = 0x14"
    "fst (amo_code AMOMIN) = 0x10" "fst (amo_code AMOMAXU) = 0x1C" "fst (amo_code AMOMINU) = 0x18"
    by simp_all
  show ?thesis by (insert assms, unfold id_of_amo_def, elim else_valid; metis codes)
qed

lemma system_rows:
  assumes "id_of_system w \<noteq> INSTR_INVALID"
  shows "(\<exists>op. w = encode (System op)) \<or>
    (field 25 w :: 7 word) = 9 \<and> func3 w = 0 \<and> (field 7 w :: 5 word) = 0 \<or>
    id_of_csr (func3 w) \<noteq> INSTR_INVALID"
proof -
  have codes: "encode (System MRET) = 0x30200073" "encode (System SRET) = 0x10200073" "encode (System WFI) = 0x10500073"
    "encode (System ECALL) = 0x00000073" "encode (System EBREAK) = 0x00100073"
    by (simp_all add: system_words)
  show ?thesis by (insert assms, unfold id_of_system_def, elim else_valid; metis codes)
qed

lemma is_encoding: "encode i = w \<Longrightarrow> wf_instr i \<Longrightarrow> \<exists>i. wf_instr i \<and> encode i = w"
  by blast

lemma only_op:
  assumes "dec_opcode w = 0x33" "id_of_r (func7 w) (func3 w) \<noteq> INSTR_INVALID"
  shows "\<exists>i. wf_instr i \<and> encode i = w"
proof -
  obtain op where "op_code op = (func7 w, func3 w)" using op_rows assms(2) by blast
  then have "encode (Op op (field 7 w) (field 15 w) (field 20 w)) = w"
    using r_type_of_fields [of w] assms(1) by (simp add: dec_opcode_def func7_def func3_def is_r_instr_def)
  then show ?thesis by (rule is_encoding) simp
qed

lemma only_imm:
  assumes "dec_opcode w = 0x13" "id_of_i (func3 w) (field 5 (dec_imm w)) \<noteq> INSTR_INVALID"
  shows "\<exists>i. wf_instr i \<and> encode i = w"
proof -
  have opc: "(field 0 w :: 7 word) = 0x13" using assms(1) by (simp add: dec_opcode_def)
  have imm: "(field 5 (dec_imm w) :: 7 word) = field 25 w"
  proof -
    have "dec_imm w = scast (field 20 w :: 12 word)"
      using dec_imm_i [of "0x13" "field 20 w" "field 15 w" "field 12 w" "field 7 w"] i_type_of_fields [of w] opc by simp
    then show ?thesis
      by (intro bit_word_eqI) (auto simp: bit_field bit_sext not_less le_less_Suc_eq numeral_eq_Suc)
  qed
  from imm_rows [OF assms(2)] show ?thesis
  proof (elim disjE bexE)
    fix op assume op: "op \<in> {SLL, SRL, SRA}" "op_code op = (field 5 (dec_imm w), func3 w)"
    then have "encode (ShiftImm op (field 7 w) (field 15 w) (field 20 w)) = w"
      using r_type_of_fields [of w] opc by (simp add: func3_def imm)
    then show ?thesis by (rule is_encoding) (use op(1) in simp)
  next
    fix op assume op: "op \<in> {ADD, SLT, SLTU, XOR_op, OR_op, AND_op}" "snd (op_code op) = func3 w"
    then have "encode (OpImm op (field 7 w) (field 15 w) (field 20 w)) = w"
      using i_type_of_fields [of w] opc by (simp add: func3_def)
    then show ?thesis by (rule is_encoding) (use op(1) in simp)
  qed
qed

lemma only_memory:
  assumes "dec_opcode w = 0x03 \<and> id_of_load (func3 w) \<noteq> INSTR_INVALID \<or>
    dec_opcode w = 0x23 \<and> id_of_store (func3 w) \<noteq> INSTR_INVALID"
  shows "\<exists>i. wf_instr i \<and> encode i = w"
  using assms
proof (elim disjE conjE)
  assume "dec_opcode w = 0x03" "id_of_load (func3 w) \<noteq> INSTR_INVALID"
  moreover obtain op where "fst (load_code op) = func3 w" using load_rows calculation(2) by blast
  ultimately have "encode (Load op (field 7 w) (field 15 w) (field 20 w)) = w"
    using i_type_of_fields [of w] by (simp add: dec_opcode_def func3_def)
  then show ?thesis by (rule is_encoding) simp
next
  assume "dec_opcode w = 0x23" "id_of_store (func3 w) \<noteq> INSTR_INVALID"
  moreover obtain op where "fst (store_code op) = func3 w" using store_rows calculation(2) by blast
  ultimately have "encode (Store op (field 15 w) (field 20 w) (word_cat (field 25 w :: 7 word) (field 7 w :: 5 word))) = w"
    using s_type_of_fields [of w] by (simp add: dec_opcode_def func3_def)
  then show ?thesis by (rule is_encoding) simp
qed

lemma only_branch:
  assumes "dec_opcode w = 0x63" "id_of_branch (func3 w) \<noteq> INSTR_INVALID"
  shows "\<exists>i. wf_instr i \<and> encode i = w"
proof -
  obtain op where "fst (branch_code op) = func3 w" using branch_rows assms(2) by blast
  moreover obtain off where "b_type off (field 20 w) (field 15 w) (field 12 w) (field 0 w) = w"
    using b_type_of_fields by blast
  ultimately have "encode (Branch op (field 15 w) (field 20 w) off) = w"
    using assms(1) by (simp add: dec_opcode_def func3_def)
  then show ?thesis by (rule is_encoding) simp
qed

lemma only_jump:
  assumes "dec_opcode w \<in> {0x6F, 0x37, 0x17}"
  shows "\<exists>i. wf_instr i \<and> encode i = w"
proof -
  obtain off where "j_type off (field 7 w) (field 0 w) = w" using j_type_of_fields by blast
  then have "encode (Jal (field 7 w) off) = w \<or> encode (Lui (field 7 w) (field 12 w)) = w \<or>
      encode (Auipc (field 7 w) (field 12 w)) = w"
    using assms u_type_of_fields [of w] by (auto simp: dec_opcode_def)
  then show ?thesis by (elim disjE is_encoding) simp_all
qed

lemma order_of_fields: "word_cat (funct5 w) (field 25 w :: 2 word) = (field 25 w :: 7 word)"
  by (rule bit_word_eqI) (auto simp: funct5_def bit_field bit_word_cat_iff)

lemma only_atomic:
  assumes "dec_opcode w = 0x2F" "id_of_amo (func3 w) (funct5 w) (field 20 w) \<noteq> INSTR_INVALID"
  shows "\<exists>i. wf_instr i \<and> encode i = w"
proof -
  have w: "r_type (word_cat (funct5 w) (field 25 w :: 2 word)) (field 20 w) (field 15 w) 2 (field 7 w) 0x2F = w"
    using r_type_of_fields [of w] amo_rows [OF assms(2)] assms(1)
    by (simp add: dec_opcode_def func3_def order_of_fields)
  consider "funct5 w = 2" "(field 20 w :: 5 word) = 0" | "funct5 w = 3" | op where "fst (amo_code op) = funct5 w"
    using amo_rows [OF assms(2)] by blast
  then show ?thesis
  proof cases
    case 1
    with w have "encode (LrW (field 7 w) (field 15 w) (field 25 w)) = w" by simp
    then show ?thesis by (rule is_encoding) simp
  next
    case 2
    with w have "encode (ScW (field 7 w) (field 15 w) (field 20 w) (field 25 w)) = w" by simp
    then show ?thesis by (rule is_encoding) simp
  next
    case 3
    with w have "encode (Amo op (field 7 w) (field 15 w) (field 20 w) (field 25 w)) = w" by simp
    then show ?thesis by (rule is_encoding) simp
  qed
qed

lemma only_system:
  assumes "dec_opcode w = 0x73" "id_of_system w \<noteq> INSTR_INVALID"
  shows "\<exists>i. wf_instr i \<and> encode i = w"
proof -
  have opc: "(field 0 w :: 7 word) = 0x73" using assms(1) by (simp add: dec_opcode_def)
  consider op where "w = encode (System op)"
    | "(field 25 w :: 7 word) = 9" "func3 w = 0" "(field 7 w :: 5 word) = 0"
    | op where "fst (csr_code op) = func3 w \<or> fst (csr_code op) + 4 = func3 w"
    using system_rows [OF assms(2)] csr_rows by blast
  then show ?thesis
  proof cases
    case 1
    then show ?thesis by (intro exI [of _ "System op"]) simp
  next
    case 2
    then have "encode (SfenceVma (field 15 w) (field 20 w)) = w"
      using r_type_of_fields [of w] opc by (simp add: func3_def)
    then show ?thesis by (rule is_encoding) simp
  next
    case 3
    then have "encode (Csr op (field 7 w) (field 15 w) (field 20 w)) = w \<or>
        encode (CsrImm op (field 7 w) (field 15 w) (field 20 w)) = w"
      using i_type_of_fields [of w] opc by (auto simp: func3_def)
    then show ?thesis by (elim disjE is_encoding) simp_all
  qed
qed

lemma decoder_only:
  assumes "dec_instr_id w \<noteq> INSTR_INVALID" "dec_opcode w \<notin> {0x67, 0x0F}"
  shows "\<exists>i. wf_instr i \<and> encode i = w"
  by (insert assms, unfold dec_instr_id_def, elim else_valid)
    (simp_all add: only_op only_imm only_memory only_branch only_jump only_atomic only_system)

section \<open>From the word to the result\<close>

text \<open>The result of an instruction that computes, for the values of its source registers.\<close>

fun operation :: "rv_instr \<Rightarrow> 32 word \<Rightarrow> 32 word \<Rightarrow> 32 word option" where
  "operation (Op op _ _ _) a b = Some (rv_result op a b)"
| "operation (OpImm op _ _ imm) a b = Some (rv_result op a (scast imm))"
| "operation (ShiftImm op _ _ shamt) a b = Some (rv_result op a (ucast shamt))"
| "operation _ a b = None"

lemma shift_operand:
  assumes "op \<in> {SLL, SRL, SRA}"
  shows "rv_result op a (word_cat (f7 :: 7 word) (shamt :: 5 word)) = rv_result op a (ucast shamt)"
proof -
  have "(ucast (word_cat f7 shamt :: 32 word) :: 5 word) = ucast (ucast shamt :: 32 word)"
    by (rule bit_word_eqI) (simp add: bit_word_ucast_iff bit_word_cat_iff)
  then have "shift_amount (word_cat f7 shamt) = shift_amount (ucast shamt)" by (simp only: shift_amount_def)
  then show ?thesis
    using assms unfolding shift_amount_mod by (elim insertE emptyE) (simp_all only: rv_result.simps)
qed

lemma alu_decoded:
  assumes "wf_instr i" "operation i a b = Some v"
  shows "alu a b (d_imm (decoded i)) (d_instr_id (decoded i)) = v"
  using assms
proof (cases i)
  case (OpImm op rd rs1 imm)
  then obtain ident where "imm_id op = Some ident" using assms(1) by auto
  then show ?thesis using OpImm assms(2) by (auto simp: outputs_def alu_imm_id)
next
  case (ShiftImm op rd rs1 shamt)
  then have op: "op \<in> {SLL, SRL, SRA}" using assms(1) by simp
  then obtain ident where "imm_id op = Some ident" by auto
  then show ?thesis using ShiftImm assms(2) shift_operand [OF op] by (auto simp: outputs_def alu_imm_id)
qed (auto simp: outputs_def alu_reg_id)

text \<open>
  C22. The decoder accepts the instruction set and nothing else. Every instruction of RV32IMA, Zicsr
  and the privileged set, assembled by the formats of the manual, is decoded to its identifier, its
  registers with their validity, and its immediate, sign-extended where the format says so; for those
  that compute, the ALU with this immediate and identifier gives the result of the instruction. And a
  word that gets an identifier is the assembled form of some instruction, except under the opcodes
  of \<open>JALR\<close> and the fences, where the decoder ignores the fields it has no use for.
\<close>

theorem decoder_exact:
  "(wf_instr i \<longrightarrow>
      decoder (encode i) = decoded i \<and>
      (\<forall>v. operation i a b = Some v \<longrightarrow>
         alu a b (d_imm (decoder (encode i))) (d_instr_id (decoder (encode i))) = v)) \<and>
   (d_instr_id (decoder w) \<noteq> INSTR_INVALID \<and> d_opcode (decoder w) \<notin> {0x67, 0x0F} \<longrightarrow>
      (\<exists>j. wf_instr j \<and> encode j = w))"
  using decoder_encode [of i] alu_decoded [of i a b] decoder_only [of w] by (simp add: decoder_def Let_def)

theorem decoder_exact_witness:
  "decoder 0x40525193 = decoded (ShiftImm SRA 3 4 5) \<and>
   alu 0x80000000 0 (d_imm (decoder 0x40525193)) (d_instr_id (decoder 0x40525193)) = 0xFC000000 \<and>
   (\<exists>j. wf_instr j \<and> encode j = 0x40525193)"
proof -
  have wf: "wf_instr (ShiftImm SRA 3 4 5)" by simp
  have word: "encode (ShiftImm SRA 3 4 5) = 0x40525193" by code_simp
  have result: "operation (ShiftImm SRA 3 4 5) 0x80000000 0 = Some 0xFC000000" by code_simp
  have valid: "d_instr_id (decoder 0x40525193) \<noteq> INSTR_INVALID" "d_opcode (decoder 0x40525193) \<notin> {0x67, 0x0F}"
    by code_simp+
  show ?thesis
    using decoder_exact [of "ShiftImm SRA 3 4 5" "0x80000000" 0 "0x40525193"] wf result valid unfolding word by blast
qed

end
