(* ===== verification/Csr_File.thy ===== *)
theory Csr_File
  imports Interrupts Sv32_Pages Decoder
begin

text \<open>
  The control and status registers: \<open>rtl/core_modules/csr_file.v\<close> with its counters, trap entry,
  return from a trap and register reads and writes, and the read-modify-write operations of
  \<open>rtl/core_modules/csr_exec.v\<close>. A part select that is assigned to is \<open>put_bit\<close>.
\<close>

unbundle bit_operations_syntax

section \<open>Addresses and masks\<close>

definition CSR_MSTATUS :: "12 word" where "CSR_MSTATUS = 0x300"
definition CSR_MISA :: "12 word" where "CSR_MISA = 0x301"
definition CSR_MEDELEG :: "12 word" where "CSR_MEDELEG = 0x302"
definition CSR_MIDELEG :: "12 word" where "CSR_MIDELEG = 0x303"
definition CSR_MIE :: "12 word" where "CSR_MIE = 0x304"
definition CSR_MTVEC :: "12 word" where "CSR_MTVEC = 0x305"
definition CSR_MCOUNTEREN :: "12 word" where "CSR_MCOUNTEREN = 0x306"
definition CSR_MSCRATCH :: "12 word" where "CSR_MSCRATCH = 0x340"
definition CSR_MEPC :: "12 word" where "CSR_MEPC = 0x341"
definition CSR_MCAUSE :: "12 word" where "CSR_MCAUSE = 0x342"
definition CSR_MTVAL :: "12 word" where "CSR_MTVAL = 0x343"
definition CSR_MIP :: "12 word" where "CSR_MIP = 0x344"
definition CSR_MCOUNTINHIBIT :: "12 word" where "CSR_MCOUNTINHIBIT = 0x320"
definition CSR_SSTATUS :: "12 word" where "CSR_SSTATUS = 0x100"
definition CSR_SIE :: "12 word" where "CSR_SIE = 0x104"
definition CSR_STVEC :: "12 word" where "CSR_STVEC = 0x105"
definition CSR_SCOUNTEREN :: "12 word" where "CSR_SCOUNTEREN = 0x106"
definition CSR_SSCRATCH :: "12 word" where "CSR_SSCRATCH = 0x140"
definition CSR_SEPC :: "12 word" where "CSR_SEPC = 0x141"
definition CSR_SCAUSE :: "12 word" where "CSR_SCAUSE = 0x142"
definition CSR_STVAL :: "12 word" where "CSR_STVAL = 0x143"
definition CSR_SIP :: "12 word" where "CSR_SIP = 0x144"
definition CSR_SATP :: "12 word" where "CSR_SATP = 0x180"
definition CSR_PMPCFG0 :: "12 word" where "CSR_PMPCFG0 = 0x3A0"
definition CSR_PMPADDR0 :: "12 word" where "CSR_PMPADDR0 = 0x3B0"
definition CSR_MCYCLE :: "12 word" where "CSR_MCYCLE = 0xB00"
definition CSR_MINSTRET :: "12 word" where "CSR_MINSTRET = 0xB02"
definition CSR_MCYCLEH :: "12 word" where "CSR_MCYCLEH = 0xB80"
definition CSR_MINSTRETH :: "12 word" where "CSR_MINSTRETH = 0xB82"
definition CSR_CYCLE :: "12 word" where "CSR_CYCLE = 0xC00"
definition CSR_TIME :: "12 word" where "CSR_TIME = 0xC01"
definition CSR_INSTRET :: "12 word" where "CSR_INSTRET = 0xC02"
definition CSR_CYCLEH :: "12 word" where "CSR_CYCLEH = 0xC80"
definition CSR_TIMEH :: "12 word" where "CSR_TIMEH = 0xC81"
definition CSR_INSTRETH :: "12 word" where "CSR_INSTRETH = 0xC82"
definition CSR_TSELECT :: "12 word" where "CSR_TSELECT = 0x7A0"
definition CSR_TDATA1 :: "12 word" where "CSR_TDATA1 = 0x7A1"
definition CSR_TDATA2 :: "12 word" where "CSR_TDATA2 = 0x7A2"
definition CSR_TDATA3 :: "12 word" where "CSR_TDATA3 = 0x7A3"
definition CSR_MVENDORID :: "12 word" where "CSR_MVENDORID = 0xF11"
definition CSR_MARCHID :: "12 word" where "CSR_MARCHID = 0xF12"
definition CSR_MIMPID :: "12 word" where "CSR_MIMPID = 0xF13"
definition CSR_MHARTID :: "12 word" where "CSR_MHARTID = 0xF14"
definition CSR_MTOPI :: "12 word" where "CSR_MTOPI = 0xFB0"
definition CSR_SCOVTOVF :: "12 word" where "CSR_SCOVTOVF = 0xDA0"
definition CSR_MSTATUSH :: "12 word" where "CSR_MSTATUSH = 0x310"
definition CSR_MENVCFG :: "12 word" where "CSR_MENVCFG = 0x30A"
definition CSR_MENVCFGH :: "12 word" where "CSR_MENVCFGH = 0x31A"
definition CSR_MSECCFG :: "12 word" where "CSR_MSECCFG = 0x747"
definition CSR_MSECCFGH :: "12 word" where "CSR_MSECCFGH = 0x757"
definition CSR_MCONFIGPTR :: "12 word" where "CSR_MCONFIGPTR = 0xF15"

lemmas csr_addrs [rtl_simps] =
  CSR_MSTATUS_def CSR_MISA_def CSR_MEDELEG_def CSR_MIDELEG_def CSR_MIE_def CSR_MTVEC_def CSR_MCOUNTEREN_def
  CSR_MSCRATCH_def CSR_MEPC_def CSR_MCAUSE_def CSR_MTVAL_def CSR_MIP_def CSR_MCOUNTINHIBIT_def CSR_SSTATUS_def
  CSR_SIE_def CSR_STVEC_def CSR_SCOUNTEREN_def CSR_SSCRATCH_def CSR_SEPC_def CSR_SCAUSE_def CSR_STVAL_def
  CSR_SIP_def CSR_SATP_def CSR_PMPCFG0_def CSR_PMPADDR0_def CSR_MCYCLE_def CSR_MINSTRET_def CSR_MCYCLEH_def
  CSR_MINSTRETH_def CSR_CYCLE_def CSR_TIME_def CSR_INSTRET_def CSR_CYCLEH_def CSR_TIMEH_def CSR_INSTRETH_def
  CSR_TSELECT_def CSR_TDATA1_def CSR_TDATA2_def CSR_TDATA3_def CSR_MVENDORID_def CSR_MARCHID_def
  CSR_MIMPID_def CSR_MHARTID_def CSR_MTOPI_def CSR_SCOVTOVF_def CSR_MSTATUSH_def CSR_MENVCFG_def
  CSR_MENVCFGH_def CSR_MSECCFG_def CSR_MSECCFGH_def CSR_MCONFIGPTR_def

definition SSTATUS_MASK :: "32 word" where "SSTATUS_MASK = 0x000C0122"
definition S_INTERRUPT_MASK :: "32 word" where "S_INTERRUPT_MASK = 0x00000222"
definition MSTATUS_WRITABLE_MASK :: "32 word" where "MSTATUS_WRITABLE_MASK = 0x007E19AA"
definition SUPPORTED_MISA :: "32 word" where "SUPPORTED_MISA = 0x40141101"
definition MCOUNTINHIBIT_MASK :: "32 word" where "MCOUNTINHIBIT_MASK = 0x00000005"
definition COUNTEREN_MASK :: "32 word" where "COUNTEREN_MASK = 0x00000007"

lemmas csr_masks [rtl_simps] =
  SSTATUS_MASK_def S_INTERRUPT_MASK_def MSTATUS_WRITABLE_MASK_def SUPPORTED_MISA_def MCOUNTINHIBIT_MASK_def
  COUNTEREN_MASK_def

definition put_bit :: "nat \<Rightarrow> bool \<Rightarrow> 32 word \<Rightarrow> 32 word" where
  "put_bit n b w = (if b then set_bit n w else unset_bit n w)"

definition put_mpp :: "2 word \<Rightarrow> 32 word \<Rightarrow> 32 word" where
  "put_mpp v w = put_bit 12 (bit v 1) (put_bit 11 (bit v 0) w)"

definition get_mpp :: "32 word \<Rightarrow> 2 word" where
  "get_mpp w = ucast (drop_bit 11 w)"

section \<open>The registers\<close>

record csr_file =
  mstatus :: "32 word"
  misa :: "32 word"
  medeleg :: "32 word"
  mideleg :: "32 word"
  mie :: "32 word"
  mtvec :: "32 word"
  mcounteren :: "32 word"
  mscratch :: "32 word"
  mepc :: "32 word"
  mcause :: "32 word"
  mtval :: "32 word"
  mip :: "32 word"
  mcountinhibit :: "32 word"
  cycle_counter :: "64 word"
  instret_counter :: "64 word"
  privilege_mode :: "2 word"
  stvec :: "32 word"
  scounteren :: "32 word"
  sscratch :: "32 word"
  sepc :: "32 word"
  scause :: "32 word"
  stval :: "32 word"
  satp :: "32 word"
  pmpcfg0 :: "32 word"
  pmpaddr0 :: "32 word"
  tselect :: "2 word"
  trigger_ctl :: "2 word \<Rightarrow> 7 word"
  trigger_addr :: "2 word \<Rightarrow> 32 word"
  ssip_software_pending :: bool
  stip_software_pending :: bool
  seip_software_pending :: bool

record csr_in =
  cs_rst :: bool
  cs_addr :: "12 word"
  cs_write_data :: "32 word"
  cs_write_enable :: bool
  cs_read_enable :: bool
  cs_interrupt_cause :: "32 word"
  cs_interrupt_pc :: "32 word"
  cs_exception_pc :: "32 word"
  cs_interrupt_taken :: bool
  cs_mret :: bool
  cs_sret :: bool
  cs_interrupt_to_supervisor :: bool
  cs_trap_to_supervisor :: bool
  cs_ecall :: bool
  cs_ebreak :: bool
  cs_illegal :: bool
  cs_instr_misaligned :: bool
  cs_load_misaligned :: bool
  cs_store_misaligned :: bool
  cs_instr_page_fault :: bool
  cs_load_page_fault :: bool
  cs_store_page_fault :: bool
  cs_breakpoint_trigger :: bool
  cs_exception_tval :: "32 word"
  cs_instret_increment :: bool
  cs_timer_interrupt :: bool
  cs_machine_software_interrupt :: bool
  cs_machine_external_interrupt :: bool
  cs_supervisor_external_interrupt :: bool
  cs_mtime :: "64 word"

definition csr_reset :: csr_file where
  "csr_reset =
     \<lparr>mstatus = 0x00001800, misa = SUPPORTED_MISA, medeleg = 0, mideleg = 0, mie = 0, mtvec = 0, mcounteren = 0,
      mscratch = 0, mepc = 0, mcause = 0, mtval = 0, mip = 0, mcountinhibit = 0, cycle_counter = 0,
      instret_counter = 0, privilege_mode = PRIV_M, stvec = 0, scounteren = 0, sscratch = 0, sepc = 0, scause = 0,
      stval = 0, satp = 0, pmpcfg0 = 0, pmpaddr0 = 0, tselect = 0, trigger_ctl = (\<lambda>_. 0), trigger_addr = (\<lambda>_. 0),
      ssip_software_pending = False, stip_software_pending = False, seip_software_pending = False\<rparr>"

definition sstatus :: "csr_file \<Rightarrow> 32 word" where "sstatus s = mstatus s AND SSTATUS_MASK"
definition sie :: "csr_file \<Rightarrow> 32 word" where "sie s = mie s AND S_INTERRUPT_MASK"
definition sip :: "csr_file \<Rightarrow> 32 word" where "sip s = mip s AND S_INTERRUPT_MASK"

definition tdata1_read :: "csr_file \<Rightarrow> 32 word" where
  "tdata1_read s = word_cat (2 :: 4 word) (word_cat (0 :: 21 word) (trigger_ctl s (tselect s)) :: 28 word)"

section \<open>Exceptions\<close>

definition synchronous_exception :: "csr_in \<Rightarrow> bool" where
  "synchronous_exception i \<longleftrightarrow>
     cs_ecall i \<or> cs_ebreak i \<or> cs_illegal i \<or> cs_instr_misaligned i \<or> cs_load_misaligned i \<or>
     cs_store_misaligned i \<or> cs_instr_page_fault i \<or> cs_load_page_fault i \<or> cs_store_page_fault i \<or>
     cs_breakpoint_trigger i"

definition ecall_cause :: "csr_file \<Rightarrow> 32 word" where
  "ecall_cause s = (if privilege_mode s = PRIV_U then 8 else if privilege_mode s = PRIV_S then 9 else 0xB)"

definition page_fault_exception :: "csr_in \<Rightarrow> bool" where
  "page_fault_exception i \<longleftrightarrow> cs_instr_page_fault i \<or> cs_load_page_fault i \<or> cs_store_page_fault i"

definition exception_cause :: "csr_file \<Rightarrow> csr_in \<Rightarrow> 32 word" where
  "exception_cause s i =
     (if cs_load_page_fault i then 0xD
      else if cs_store_page_fault i then 0xF
      else if cs_instr_page_fault i then 0xC
      else if cs_instr_misaligned i then 0
      else if cs_breakpoint_trigger i then 3
      else if cs_illegal i then 2
      else if cs_ebreak i then 3
      else if cs_load_misaligned i then 4
      else if cs_store_misaligned i then 6
      else if cs_instr_page_fault i then 0xC
      else if cs_load_page_fault i then 0xD
      else if cs_store_page_fault i then 0xF
      else ecall_cause s)"

definition exception_tval :: "csr_in \<Rightarrow> 32 word" where
  "exception_tval i = (if \<not> page_fault_exception i \<and> (cs_ecall i \<or> cs_ebreak i) then 0 else cs_exception_tval i)"

section \<open>Reads\<close>

definition csr_valid :: "12 word \<Rightarrow> bool" where
  "csr_valid a \<longleftrightarrow>
     a \<in> {CSR_MSTATUS, CSR_MISA, CSR_MEDELEG, CSR_MIDELEG, CSR_MIE, CSR_MTVEC, CSR_MCOUNTEREN,
          CSR_MSCRATCH, CSR_MEPC, CSR_MCAUSE, CSR_MTVAL, CSR_MCOUNTINHIBIT, CSR_SSTATUS, CSR_SIE, CSR_STVEC,
          CSR_SCOUNTEREN, CSR_SSCRATCH, CSR_SEPC, CSR_SCAUSE, CSR_STVAL, CSR_SIP, CSR_SATP, CSR_MIP,
          CSR_PMPCFG0, CSR_PMPADDR0, CSR_MCYCLE, CSR_MINSTRET, CSR_MCYCLEH, CSR_MINSTRETH, CSR_CYCLE,
          CSR_TIME, CSR_INSTRET, CSR_CYCLEH, CSR_TIMEH, CSR_INSTRETH, CSR_TSELECT, CSR_TDATA1, CSR_TDATA2,
          CSR_TDATA3, CSR_MVENDORID, CSR_MARCHID, CSR_MIMPID, CSR_MHARTID, CSR_MSTATUSH, CSR_MENVCFG,
          CSR_MENVCFGH, CSR_MSECCFG, CSR_MSECCFGH, CSR_MCONFIGPTR} \<or>
     (0xB03 \<le> a \<and> a \<le> 0xB1F) \<or> (0xB83 \<le> a \<and> a \<le> 0xB9F) \<or> (0x323 \<le> a \<and> a \<le> 0x33F)"

text \<open>The read port, for a value \<open>mt\<close> of the timer; an address that is not valid reads as 0.\<close>

definition csr_value :: "csr_file \<Rightarrow> 64 word \<Rightarrow> 12 word \<Rightarrow> 32 word" where
  "csr_value s mt a =
     (if a = CSR_MSTATUS then mstatus s
      else if a = CSR_SSTATUS then sstatus s
      else if a = CSR_MISA then misa s
      else if a = CSR_MEDELEG then medeleg s
      else if a = CSR_MIDELEG then mideleg s
      else if a = CSR_MIE then mie s
      else if a = CSR_SIE then sie s
      else if a = CSR_MTVEC then mtvec s
      else if a = CSR_MCOUNTEREN then mcounteren s
      else if a = CSR_MSCRATCH then mscratch s
      else if a = CSR_MEPC then mepc s
      else if a = CSR_MCAUSE then mcause s
      else if a = CSR_MTVAL then mtval s
      else if a = CSR_MIP then mip s
      else if a = CSR_MCOUNTINHIBIT then mcountinhibit s
      else if a = CSR_STVEC then stvec s
      else if a = CSR_SCOUNTEREN then scounteren s
      else if a = CSR_SSCRATCH then sscratch s
      else if a = CSR_SEPC then sepc s
      else if a = CSR_SCAUSE then scause s
      else if a = CSR_STVAL then stval s
      else if a = CSR_SATP then satp s
      else if a = CSR_SIP then sip s
      else if a = CSR_MCYCLE then ucast (cycle_counter s)
      else if a = CSR_MINSTRET then ucast (instret_counter s)
      else if a = CSR_MCYCLEH then ucast (drop_bit 32 (cycle_counter s))
      else if a = CSR_MINSTRETH then ucast (drop_bit 32 (instret_counter s))
      else if a = CSR_CYCLE then ucast (cycle_counter s)
      else if a = CSR_TIME then ucast mt
      else if a = CSR_INSTRET then ucast (instret_counter s)
      else if a = CSR_CYCLEH then ucast (drop_bit 32 (cycle_counter s))
      else if a = CSR_TIMEH then ucast (drop_bit 32 mt)
      else if a = CSR_INSTRETH then ucast (drop_bit 32 (instret_counter s))
      else if a = CSR_TSELECT then ucast (tselect s)
      else if a = CSR_TDATA1 then tdata1_read s
      else if a = CSR_TDATA2 then trigger_addr s (tselect s)
      else 0)"

definition csr_read :: "csr_file \<Rightarrow> csr_in \<Rightarrow> 32 word" where
  "csr_read s i = (if cs_read_enable i \<and> csr_valid (cs_addr i) then csr_value s (cs_mtime i) (cs_addr i) else 0)"

definition rmw_data :: "csr_file \<Rightarrow> csr_in \<Rightarrow> 32 word" where
  "rmw_data s i =
     (if cs_addr i = CSR_MIP then put_bit 9 (seip_software_pending s) (csr_read s i) else csr_read s i)"

section \<open>Writes\<close>

definition vector_word :: "32 word \<Rightarrow> 32 word" where
  "vector_word d = word_cat (ucast (drop_bit 2 d) :: 30 word) (word_cat (0 :: 1 word) (ucast d :: 1 word) :: 2 word)"

definition trigger_word :: "32 word \<Rightarrow> 7 word" where
  "trigger_word d = word_cat (ucast (drop_bit 6 d) :: 1 word) (word_cat (0 :: 1 word) (ucast d :: 5 word) :: 6 word)"

text \<open>The case distinction of the write port: \<open>s\<close> holds the registers read, \<open>t\<close> those assigned so far.\<close>

definition csr_write :: "csr_file \<Rightarrow> 12 word \<Rightarrow> 32 word \<Rightarrow> csr_file \<Rightarrow> csr_file" where
  "csr_write s a d t =
     (if a = CSR_MSTATUS then t\<lparr>mstatus := d AND MSTATUS_WRITABLE_MASK\<rparr>
      else if a = CSR_SSTATUS then t\<lparr>mstatus := (mstatus s AND NOT SSTATUS_MASK) OR (d AND SSTATUS_MASK)\<rparr>
      else if a = CSR_MISA then t\<lparr>misa := (d AND SUPPORTED_MISA) OR 0x40000000\<rparr>
      else if a = CSR_MEDELEG then t\<lparr>medeleg := d\<rparr>
      else if a = CSR_MIDELEG then t\<lparr>mideleg := d\<rparr>
      else if a = CSR_MIE then t\<lparr>mie := d\<rparr>
      else if a = CSR_SIE then t\<lparr>mie := (mie s AND NOT S_INTERRUPT_MASK) OR (d AND S_INTERRUPT_MASK)\<rparr>
      else if a = CSR_MTVEC then t\<lparr>mtvec := vector_word d\<rparr>
      else if a = CSR_MCOUNTEREN then t\<lparr>mcounteren := d AND COUNTEREN_MASK\<rparr>
      else if a = CSR_MSCRATCH then t\<lparr>mscratch := d\<rparr>
      else if a = CSR_MEPC then t\<lparr>mepc := d\<rparr>
      else if a = CSR_MCAUSE then t\<lparr>mcause := d\<rparr>
      else if a = CSR_MTVAL then t\<lparr>mtval := d\<rparr>
      else if a = CSR_MCOUNTINHIBIT then t\<lparr>mcountinhibit := d AND MCOUNTINHIBIT_MASK\<rparr>
      else if a = CSR_STVEC then t\<lparr>stvec := vector_word d\<rparr>
      else if a = CSR_SCOUNTEREN then t\<lparr>scounteren := d AND COUNTEREN_MASK\<rparr>
      else if a = CSR_SSCRATCH then t\<lparr>sscratch := d\<rparr>
      else if a = CSR_SEPC then t\<lparr>sepc := d\<rparr>
      else if a = CSR_SCAUSE then t\<lparr>scause := d\<rparr>
      else if a = CSR_STVAL then t\<lparr>stval := d\<rparr>
      else if a = CSR_SATP then t\<lparr>satp := d\<rparr>
      else if a = CSR_SIP then t\<lparr>ssip_software_pending := bit d 1\<rparr>
      else if a = CSR_MIP then t\<lparr>ssip_software_pending := bit d 1, stip_software_pending := bit d 5, seip_software_pending := bit d 9\<rparr>
      else if a = CSR_TSELECT then t\<lparr>tselect := ucast d\<rparr>
      else if a = CSR_TDATA1 then t\<lparr>trigger_ctl := (trigger_ctl s)(tselect s := trigger_word d)\<rparr>
      else if a = CSR_TDATA2 then t\<lparr>trigger_addr := (trigger_addr s)(tselect s := d)\<rparr>
      else if a = CSR_PMPCFG0 then t\<lparr>pmpcfg0 := d\<rparr>
      else if a = CSR_PMPADDR0 then t\<lparr>pmpaddr0 := d\<rparr>
      else if a = CSR_MCYCLE then t\<lparr>cycle_counter := set_lo d (cycle_counter s)\<rparr>
      else if a = CSR_MCYCLEH then t\<lparr>cycle_counter := set_hi d (cycle_counter s)\<rparr>
      else if a = CSR_MINSTRET then t\<lparr>instret_counter := set_lo d (instret_counter s)\<rparr>
      else if a = CSR_MINSTRETH then t\<lparr>instret_counter := set_hi d (instret_counter s)\<rparr>
      else t)"

definition writes_mcycle :: "csr_in \<Rightarrow> bool" where
  "writes_mcycle i \<longleftrightarrow> cs_write_enable i \<and> (cs_addr i = CSR_MCYCLE \<or> cs_addr i = CSR_MCYCLEH)"

definition writes_minstret :: "csr_in \<Rightarrow> bool" where
  "writes_minstret i \<longleftrightarrow> cs_write_enable i \<and> (cs_addr i = CSR_MINSTRET \<or> cs_addr i = CSR_MINSTRETH)"

section \<open>The clock edge\<close>

text \<open>What every edge does: the counters, and the pending bits that follow their sources.\<close>

definition csr_tick :: "csr_file \<Rightarrow> csr_in \<Rightarrow> csr_file" where
  "csr_tick s i = s\<lparr>
     cycle_counter :=
       (if \<not> bit (mcountinhibit s) 0 \<and> \<not> writes_mcycle i then cycle_counter s + 1 else cycle_counter s),
     instret_counter :=
       (if cs_instret_increment i \<and> \<not> bit (mcountinhibit s) 2 \<and> \<not> writes_minstret i
        then instret_counter s + 1 else instret_counter s),
     mip :=
       put_bit 11 (cs_machine_external_interrupt i)
        (put_bit 9 (seip_software_pending s \<or> cs_supervisor_external_interrupt i)
         (put_bit 7 (cs_timer_interrupt i)
          (put_bit 5 (stip_software_pending s)
           (put_bit 3 (cs_machine_software_interrupt i)
            (put_bit 1 (ssip_software_pending s) (mip s))))))\<rparr>"

text \<open>Entry to a trap in either mode; an exception also writes the trap value.\<close>

definition enter_supervisor :: "csr_file \<Rightarrow> 32 word \<Rightarrow> 32 word \<Rightarrow> csr_file \<Rightarrow> csr_file" where
  "enter_supervisor s pc cause t = t\<lparr>
     sepc := pc, scause := cause,
     mstatus := put_bit 8 (privilege_mode s = PRIV_S) (put_bit 1 False (put_bit 5 (bit (mstatus s) 1) (mstatus s))),
     privilege_mode := PRIV_S\<rparr>"

definition enter_machine :: "csr_file \<Rightarrow> 32 word \<Rightarrow> 32 word \<Rightarrow> csr_file \<Rightarrow> csr_file" where
  "enter_machine s pc cause t = t\<lparr>
     mepc := pc, mcause := cause,
     mstatus := put_mpp (privilege_mode s) (put_bit 3 False (put_bit 7 (bit (mstatus s) 3) (mstatus s))),
     privilege_mode := PRIV_M\<rparr>"

definition return_machine :: "csr_file \<Rightarrow> csr_file \<Rightarrow> csr_file" where
  "return_machine s t = t\<lparr>
     mstatus :=
       (let m = put_mpp PRIV_U (put_bit 7 True (put_bit 3 (bit (mstatus s) 7) (mstatus s)))
        in if get_mpp (mstatus s) \<noteq> PRIV_M then put_bit 17 False m else m),
     privilege_mode := get_mpp (mstatus s)\<rparr>"

definition return_supervisor :: "csr_file \<Rightarrow> csr_file \<Rightarrow> csr_file" where
  "return_supervisor s t = t\<lparr>
     mstatus := put_bit 8 False (put_bit 5 True (put_bit 1 (bit (mstatus s) 5) (mstatus s))),
     privilege_mode := (if bit (mstatus s) 8 then PRIV_S else PRIV_U)\<rparr>"

definition csr_step :: "csr_file \<Rightarrow> csr_in \<Rightarrow> csr_file" where
  "csr_step s i =
     (if cs_rst i then csr_reset
      else let t = csr_tick s i
           in if cs_interrupt_taken i then
                if cs_interrupt_to_supervisor i then enter_supervisor s (cs_interrupt_pc i) (cs_interrupt_cause i) t
                else enter_machine s (cs_interrupt_pc i) (cs_interrupt_cause i) t
              else if cs_mret i then return_machine s t
              else if cs_sret i then return_supervisor s t
              else if synchronous_exception i then
                if cs_trap_to_supervisor i
                then (enter_supervisor s (cs_exception_pc i) (exception_cause s i) t)\<lparr>stval := exception_tval i\<rparr>
                else (enter_machine s (cs_exception_pc i) (exception_cause s i) t)\<lparr>mtval := exception_tval i\<rparr>
              else if cs_write_enable i \<and> csr_valid (cs_addr i) then csr_write s (cs_addr i) (cs_write_data i) t
              else t)"

fun csr_run :: "csr_file \<Rightarrow> csr_in list \<Rightarrow> csr_file" where
  "csr_run s [] = s"
| "csr_run s (i # is) = csr_run (csr_step s i) is"

section \<open>The operations of the register instructions\<close>

record csr_exec_out =
  cx_write_data :: "32 word"
  cx_write_enable :: bool
  cx_rd_value :: "32 word"

definition csr_exec :: "7 word \<Rightarrow> 32 word \<Rightarrow> 5 word \<Rightarrow> 32 word \<Rightarrow> 32 word \<Rightarrow> csr_exec_out" where
  "csr_exec ident rs1_value rs1_addr read_data rmw =
     (let uimm = (ucast rs1_addr :: 32 word);
          out = (\<lambda>data enable. \<lparr>cx_write_data = data, cx_write_enable = enable, cx_rd_value = read_data\<rparr>)
      in if ident = INSTR_CSRRW then out rs1_value True
         else if ident = INSTR_CSRRS then out (rmw OR rs1_value) (rs1_addr \<noteq> 0)
         else if ident = INSTR_CSRRC then out (rmw AND NOT rs1_value) (rs1_addr \<noteq> 0)
         else if ident = INSTR_CSRRWI then out uimm True
         else if ident = INSTR_CSRRSI then out (rmw OR uimm) (rs1_addr \<noteq> 0)
         else if ident = INSTR_CSRRCI then out (rmw AND NOT uimm) (rs1_addr \<noteq> 0)
         else out 0 False)"

section \<open>What holds of every state\<close>

lemma bit_put_bit [simp]: "n < 32 \<Longrightarrow> bit (put_bit n b w) k \<longleftrightarrow> (if k = n then b else bit w k)"
  by (auto simp: put_bit_def bit_set_bit_iff bit_unset_bit_iff dest: bit_imp_le_length)

lemma get_put_mpp [simp]: "get_mpp (put_mpp v w) = v"
  by (rule bit_word_eqI)
     (auto simp: get_mpp_def put_mpp_def bit_ucast_iff bit_drop_bit_eq less_Suc_eq numeral_2_eq_2)

lemma get_mpp_put_bit [simp]: "n < 11 \<or> 12 < n \<Longrightarrow> n < 32 \<Longrightarrow> get_mpp (put_bit n b w) = get_mpp w"
  by (rule bit_word_eqI) (auto simp: get_mpp_def bit_ucast_iff bit_drop_bit_eq)

lemma bit_put_mpp [simp]: "k \<noteq> 11 \<Longrightarrow> k \<noteq> 12 \<Longrightarrow> bit (put_mpp v w) k = bit w k"
  by (simp add: put_mpp_def)

text \<open>The bits a register can hold: a write keeps them, and so do the traps.\<close>

definition fits :: "32 word \<Rightarrow> 32 word \<Rightarrow> bool" where
  "fits m w \<longleftrightarrow> w AND m = w"

definition csr_wf :: "csr_file \<Rightarrow> bool" where
  "csr_wf s \<longleftrightarrow>
     fits MSTATUS_WRITABLE_MASK (mstatus s) \<and> fits SUPPORTED_MISA (misa s) \<and> bit (misa s) 30 \<and>
     fits 0xFFFFFFFD (mtvec s) \<and> fits 0xFFFFFFFD (stvec s) \<and> fits COUNTEREN_MASK (mcounteren s) \<and>
     fits COUNTEREN_MASK (scounteren s) \<and> fits MCOUNTINHIBIT_MASK (mcountinhibit s) \<and>
     (\<forall>k. \<not> bit (trigger_ctl s k) 5)"

lemma fits_iff: "fits m w \<longleftrightarrow> (\<forall>k. bit w k \<longrightarrow> bit m k)"
proof
  assume "fits m w"
  then have "bit (w AND m) k = bit w k" for k by (simp only: fits_def)
  then show "\<forall>k. bit w k \<longrightarrow> bit m k" by (auto simp only: bit_and_iff)
next
  assume "\<forall>k. bit w k \<longrightarrow> bit m k"
  then show "fits m w" unfolding fits_def by (intro bit_eqI) (auto simp only: bit_and_iff)
qed

lemma fits_put_bit: "n < 32 \<Longrightarrow> bit m n \<Longrightarrow> fits m w \<Longrightarrow> fits m (put_bit n b w)"
  by (simp add: fits_iff)

lemma fits_put_mpp: "bit m 11 \<Longrightarrow> bit m 12 \<Longrightarrow> fits m w \<Longrightarrow> fits m (put_mpp v w)"
  by (simp add: put_mpp_def fits_put_bit)

lemma fits_and: "fits m (w AND m)"
  by (simp add: fits_iff bit_and_iff)

lemma fits_merge: "fits m w \<Longrightarrow> fits m k \<Longrightarrow> fits m ((w AND NOT k) OR (d AND k))"
  by (auto simp: fits_iff bit_and_iff bit_or_iff bit_not_iff)

lemma fits_or: "fits m w \<Longrightarrow> fits m v \<Longrightarrow> fits m (w OR v)"
  by (auto simp: fits_iff bit_or_iff)

lemma mstatus_bits [simp]:
  "bit MSTATUS_WRITABLE_MASK (Suc 0)" "bit MSTATUS_WRITABLE_MASK 3" "bit MSTATUS_WRITABLE_MASK 5"
  "bit MSTATUS_WRITABLE_MASK 7" "bit MSTATUS_WRITABLE_MASK 8" "bit MSTATUS_WRITABLE_MASK 11"
  "bit MSTATUS_WRITABLE_MASK 12" "bit MSTATUS_WRITABLE_MASK 17"
  by (simp_all add: MSTATUS_WRITABLE_MASK_def)

lemma vector_word_and: "vector_word d = d AND 0xFFFFFFFD"
proof -
  have "bit (vector_word d) n = bit (d AND NOT 2) n" if "n < 32" for n
  proof -
    consider "n = 0" | "n = 1" | k where "n = k + 2" by (metis One_nat_def add_2_eq_Suc' nat.exhaust)
    then show ?thesis
      by cases (use that in \<open>auto simp: vector_word_def bit_word_cat_iff bit_ucast_iff bit_drop_bit_eq bit_and_iff
        bit_not_iff bit_2_iff\<close>)
  qed
  then have "vector_word d = d AND NOT 2" by (intro bit_word_eqI) simp
  moreover have "(0xFFFFFFFD :: 32 word) = NOT 2" by code_simp
  ultimately show ?thesis by (simp only:)
qed

lemma csr_wf_free [simp]:
  "csr_wf (t\<lparr>medeleg := x0\<rparr>) = csr_wf t" "csr_wf (t\<lparr>mideleg := x1\<rparr>) = csr_wf t"
  "csr_wf (t\<lparr>mie := x2\<rparr>) = csr_wf t" "csr_wf (t\<lparr>mscratch := x3\<rparr>) = csr_wf t"
  "csr_wf (t\<lparr>mepc := x4\<rparr>) = csr_wf t" "csr_wf (t\<lparr>mcause := x5\<rparr>) = csr_wf t"
  "csr_wf (t\<lparr>mtval := x6\<rparr>) = csr_wf t" "csr_wf (t\<lparr>mip := x7\<rparr>) = csr_wf t"
  "csr_wf (t\<lparr>cycle_counter := x8\<rparr>) = csr_wf t"
  "csr_wf (t\<lparr>instret_counter := x9\<rparr>) = csr_wf t"
  "csr_wf (t\<lparr>privilege_mode := x10\<rparr>) = csr_wf t"
  "csr_wf (t\<lparr>sscratch := x11\<rparr>) = csr_wf t" "csr_wf (t\<lparr>sepc := x12\<rparr>) = csr_wf t"
  "csr_wf (t\<lparr>scause := x13\<rparr>) = csr_wf t" "csr_wf (t\<lparr>stval := x14\<rparr>) = csr_wf t"
  "csr_wf (t\<lparr>satp := x15\<rparr>) = csr_wf t" "csr_wf (t\<lparr>pmpcfg0 := x16\<rparr>) = csr_wf t"
  "csr_wf (t\<lparr>pmpaddr0 := x17\<rparr>) = csr_wf t"
  "csr_wf (t\<lparr>tselect := x18\<rparr>) = csr_wf t"
  "csr_wf (t\<lparr>trigger_addr := x19\<rparr>) = csr_wf t"
  "csr_wf (t\<lparr>ssip_software_pending := x20\<rparr>) = csr_wf t"
  "csr_wf (t\<lparr>stip_software_pending := x21\<rparr>) = csr_wf t"
  "csr_wf (t\<lparr>seip_software_pending := x22\<rparr>) = csr_wf t"
  by (simp_all add: csr_wf_def)

lemma csr_wf_fields:
  "csr_wf t \<Longrightarrow> fits MSTATUS_WRITABLE_MASK w \<Longrightarrow> csr_wf (t\<lparr>mstatus := w\<rparr>)"
  "csr_wf t \<Longrightarrow> fits SUPPORTED_MISA w \<Longrightarrow> bit w 30 \<Longrightarrow> csr_wf (t\<lparr>misa := w\<rparr>)"
  "csr_wf t \<Longrightarrow> csr_wf (t\<lparr>mtvec := vector_word d\<rparr>)" "csr_wf t \<Longrightarrow> csr_wf (t\<lparr>stvec := vector_word d\<rparr>)"
  "csr_wf t \<Longrightarrow> csr_wf (t\<lparr>mcounteren := d AND COUNTEREN_MASK\<rparr>)"
  "csr_wf t \<Longrightarrow> csr_wf (t\<lparr>scounteren := d AND COUNTEREN_MASK\<rparr>)"
  "csr_wf t \<Longrightarrow> csr_wf (t\<lparr>mcountinhibit := d AND MCOUNTINHIBIT_MASK\<rparr>)"
  "csr_wf s \<Longrightarrow> csr_wf t \<Longrightarrow> csr_wf (t\<lparr>trigger_ctl := (trigger_ctl s)(k := trigger_word d)\<rparr>)"
  by (simp_all add: csr_wf_def fits_and vector_word_and trigger_word_def bit_word_cat_iff bit_ucast_iff)

lemma csr_wf_if: "(c \<Longrightarrow> csr_wf s) \<Longrightarrow> (\<not> c \<Longrightarrow> csr_wf t) \<Longrightarrow> csr_wf (if c then s else t)"
  by simp

lemma misa_written: "fits SUPPORTED_MISA (d AND SUPPORTED_MISA OR 0x40000000)"
  by (rule fits_or [OF fits_and]) (simp add: fits_def SUPPORTED_MISA_def)

lemma sstatus_written: "csr_wf s \<Longrightarrow> fits MSTATUS_WRITABLE_MASK ((mstatus s AND NOT SSTATUS_MASK) OR (d AND SSTATUS_MASK))"
  by (rule fits_merge) (simp_all add: csr_wf_def fits_def rtl_simps)

lemma csr_wf_write: "csr_wf s \<Longrightarrow> csr_wf t \<Longrightarrow> csr_wf (csr_write s a d t)"
  unfolding csr_write_def
  by (intro csr_wf_if; simp add: csr_wf_fields fits_and misa_written sstatus_written bit_or_iff)

lemma mstatus_fits: "csr_wf s \<Longrightarrow> fits MSTATUS_WRITABLE_MASK (mstatus s)"
  by (simp add: csr_wf_def)

lemma csr_wf_traps:
  assumes "csr_wf s" "csr_wf t"
  shows "csr_wf (enter_supervisor s pc cause t)" "csr_wf (enter_machine s pc cause t)"
    "csr_wf (return_machine s t)" "csr_wf (return_supervisor s t)"
    "csr_wf (t\<lparr>stval := w\<rparr>)" "csr_wf (t\<lparr>mtval := w\<rparr>)"
  using assms
  by (simp_all add: csr_wf_fields enter_supervisor_def enter_machine_def return_machine_def return_supervisor_def
        Let_def fits_put_bit fits_put_mpp mstatus_fits)

lemma csr_wf_step:
  assumes "csr_wf s" shows "csr_wf (csr_step s i)"
proof -
  have "csr_wf (csr_tick s i)" using assms by (simp add: csr_wf_def csr_tick_def)
  moreover have "csr_wf csr_reset" by (simp add: csr_wf_def csr_reset_def fits_def rtl_simps)
  ultimately show ?thesis
    using assms by (simp add: csr_step_def Let_def csr_wf_write csr_wf_traps)
qed

lemma csr_wf_run: "csr_wf s \<Longrightarrow> csr_wf (csr_run s is)"
  by (induction "is" arbitrary: s) (simp_all add: csr_wf_step)


section \<open>Reading back what was written\<close>

text \<open>
  The registers that show part of another one, or the same one, and the bits a write can change, as
  the privileged architecture asks of write-any read-legal fields for the features this hart has.
\<close>

definition backing :: "12 word \<Rightarrow> 12 word" where
  "backing a =
     (if a = CSR_SSTATUS then CSR_MSTATUS else if a = CSR_SIE then CSR_MIE else if a = CSR_SIP then CSR_MIP
      else if a = CSR_CYCLE then CSR_MCYCLE else if a = CSR_CYCLEH then CSR_MCYCLEH
      else if a = CSR_INSTRET then CSR_MINSTRET else if a = CSR_INSTRETH then CSR_MINSTRETH else a)"

definition visible :: "12 word \<Rightarrow> 32 word" where
  "visible a =
     (if a = CSR_SSTATUS then SSTATUS_MASK else if a = CSR_SIE \<or> a = CSR_SIP then S_INTERRUPT_MASK else - 1)"

definition writable :: "12 word \<Rightarrow> 32 word" where
  "writable a =
     (if a = CSR_MSTATUS then MSTATUS_WRITABLE_MASK
      else if a = CSR_SSTATUS then SSTATUS_MASK
      else if a = CSR_SIE then S_INTERRUPT_MASK
      else if a = CSR_MISA then SUPPORTED_MISA AND NOT 0x40000000
      else if a = CSR_MTVEC \<or> a = CSR_STVEC then 0xFFFFFFFD
      else if a = CSR_MCOUNTEREN \<or> a = CSR_SCOUNTEREN then COUNTEREN_MASK
      else if a = CSR_MCOUNTINHIBIT then MCOUNTINHIBIT_MASK
      else if a = CSR_TSELECT then 3
      else if a = CSR_TDATA1 then 0x5F
      else if a \<in> {CSR_MEDELEG, CSR_MIDELEG, CSR_MIE, CSR_MSCRATCH, CSR_MEPC, CSR_MCAUSE, CSR_MTVAL, CSR_SSCRATCH,
                   CSR_SEPC, CSR_SCAUSE, CSR_STVAL, CSR_SATP, CSR_TDATA2, CSR_MCYCLE, CSR_MCYCLEH, CSR_MINSTRET,
                   CSR_MINSTRETH} then - 1
      else 0)"

definition cycle_csrs :: "12 word set" where "cycle_csrs = {CSR_MCYCLE, CSR_MCYCLEH}"
definition instret_csrs :: "12 word set" where "instret_csrs = {CSR_MINSTRET, CSR_MINSTRETH}"

text \<open>
  The registers whose value after a write of \<open>a\<close> does not depend on the hardware: no pending bits, no
  timer, a counter only when it is written, the trigger that is selected only while it stays selected.
\<close>

definition settled :: "12 word \<Rightarrow> 12 word \<Rightarrow> bool" where
  "settled a b \<longleftrightarrow>
     backing b \<noteq> CSR_MIP \<and> b \<noteq> CSR_TIME \<and> b \<noteq> CSR_TIMEH \<and>
     (backing b \<in> cycle_csrs \<longrightarrow> a \<in> cycle_csrs) \<and> (backing b \<in> instret_csrs \<longrightarrow> a \<in> instret_csrs) \<and>
     (b = CSR_TDATA1 \<or> b = CSR_TDATA2 \<longrightarrow> a \<noteq> CSR_TSELECT)"

definition merged :: "12 word \<Rightarrow> 32 word \<Rightarrow> 32 word \<Rightarrow> 32 word" where
  "merged a old d = (old AND NOT (writable a)) OR (d AND writable a)"


lemmas csr_value_simps = csr_value_def sstatus_def sie_def sip_def tdata1_read_def

text \<open>Each register is read at its own addresses only.\<close>

lemma csr_value_other:
  "b \<notin> {CSR_MSTATUS, CSR_SSTATUS} \<Longrightarrow> csr_value (t\<lparr>mstatus := w\<rparr>) mt b = csr_value t mt b"
  "b \<notin> {CSR_MIE, CSR_SIE} \<Longrightarrow> csr_value (t\<lparr>mie := w\<rparr>) mt b = csr_value t mt b"
  "b \<notin> {CSR_MIP, CSR_SIP} \<Longrightarrow> csr_value (t\<lparr>mip := w\<rparr>) mt b = csr_value t mt b"
  "b \<notin> {CSR_MCYCLE, CSR_MCYCLEH, CSR_CYCLE, CSR_CYCLEH} \<Longrightarrow> csr_value (t\<lparr>cycle_counter := v\<rparr>) mt b = csr_value t mt b"
  "b \<notin> {CSR_MINSTRET, CSR_MINSTRETH, CSR_INSTRET, CSR_INSTRETH} \<Longrightarrow> csr_value (t\<lparr>instret_counter := v\<rparr>) mt b = csr_value t mt b"
  "b \<noteq> CSR_TDATA1 \<Longrightarrow> csr_value (t\<lparr>trigger_ctl := c\<rparr>) mt b = csr_value t mt b"
  "b \<noteq> CSR_TDATA2 \<Longrightarrow> csr_value (t\<lparr>trigger_addr := f\<rparr>) mt b = csr_value t mt b"
  "b \<notin> {CSR_TSELECT, CSR_TDATA1, CSR_TDATA2} \<Longrightarrow> csr_value (t\<lparr>tselect := k\<rparr>) mt b = csr_value t mt b"
  by (simp_all add: csr_value_simps rtl_simps cong: if_cong)

lemma csr_value_own:
  "csr_value (t\<lparr>misa := w\<rparr>) mt b = (if b = CSR_MISA then w else csr_value t mt b)"
  "csr_value (t\<lparr>medeleg := w\<rparr>) mt b = (if b = CSR_MEDELEG then w else csr_value t mt b)"
  "csr_value (t\<lparr>mideleg := w\<rparr>) mt b = (if b = CSR_MIDELEG then w else csr_value t mt b)"
  "csr_value (t\<lparr>mtvec := w\<rparr>) mt b = (if b = CSR_MTVEC then w else csr_value t mt b)"
  "csr_value (t\<lparr>mcounteren := w\<rparr>) mt b = (if b = CSR_MCOUNTEREN then w else csr_value t mt b)"
  "csr_value (t\<lparr>mscratch := w\<rparr>) mt b = (if b = CSR_MSCRATCH then w else csr_value t mt b)"
  "csr_value (t\<lparr>mepc := w\<rparr>) mt b = (if b = CSR_MEPC then w else csr_value t mt b)"
  "csr_value (t\<lparr>mcause := w\<rparr>) mt b = (if b = CSR_MCAUSE then w else csr_value t mt b)"
  "csr_value (t\<lparr>mtval := w\<rparr>) mt b = (if b = CSR_MTVAL then w else csr_value t mt b)"
  "csr_value (t\<lparr>mcountinhibit := w\<rparr>) mt b = (if b = CSR_MCOUNTINHIBIT then w else csr_value t mt b)"
  "csr_value (t\<lparr>stvec := w\<rparr>) mt b = (if b = CSR_STVEC then w else csr_value t mt b)"
  "csr_value (t\<lparr>scounteren := w\<rparr>) mt b = (if b = CSR_SCOUNTEREN then w else csr_value t mt b)"
  "csr_value (t\<lparr>sscratch := w\<rparr>) mt b = (if b = CSR_SSCRATCH then w else csr_value t mt b)"
  "csr_value (t\<lparr>sepc := w\<rparr>) mt b = (if b = CSR_SEPC then w else csr_value t mt b)"
  "csr_value (t\<lparr>scause := w\<rparr>) mt b = (if b = CSR_SCAUSE then w else csr_value t mt b)"
  "csr_value (t\<lparr>stval := w\<rparr>) mt b = (if b = CSR_STVAL then w else csr_value t mt b)"
  "csr_value (t\<lparr>satp := w\<rparr>) mt b = (if b = CSR_SATP then w else csr_value t mt b)"
  by (simp_all add: csr_value_simps rtl_simps cong: if_cong)

lemma csr_value_hidden:
  "csr_value (t\<lparr>pmpcfg0 := p1\<rparr>) mt b = csr_value t mt b"
  "csr_value (t\<lparr>pmpaddr0 := p1\<rparr>) mt b = csr_value t mt b"
  "csr_value (t\<lparr>ssip_software_pending := s1\<rparr>) mt b = csr_value t mt b"
  "csr_value (t\<lparr>stip_software_pending := s1\<rparr>) mt b = csr_value t mt b"
  "csr_value (t\<lparr>seip_software_pending := s1\<rparr>) mt b = csr_value t mt b"
  by (simp_all add: csr_value_simps cong: if_cong)

lemma csr_write_at:
  "csr_write s CSR_MSTATUS d t = t\<lparr>mstatus := d AND MSTATUS_WRITABLE_MASK\<rparr>"
  "csr_write s CSR_SSTATUS d t = t\<lparr>mstatus := (mstatus s AND NOT SSTATUS_MASK) OR (d AND SSTATUS_MASK)\<rparr>"
  "csr_write s CSR_MISA d t = t\<lparr>misa := (d AND SUPPORTED_MISA) OR 0x40000000\<rparr>"
  "csr_write s CSR_MEDELEG d t = t\<lparr>medeleg := d\<rparr>"
  "csr_write s CSR_MIDELEG d t = t\<lparr>mideleg := d\<rparr>"
  "csr_write s CSR_MIE d t = t\<lparr>mie := d\<rparr>"
  "csr_write s CSR_SIE d t = t\<lparr>mie := (mie s AND NOT S_INTERRUPT_MASK) OR (d AND S_INTERRUPT_MASK)\<rparr>"
  "csr_write s CSR_MTVEC d t = t\<lparr>mtvec := vector_word d\<rparr>"
  "csr_write s CSR_MCOUNTEREN d t = t\<lparr>mcounteren := d AND COUNTEREN_MASK\<rparr>"
  "csr_write s CSR_MSCRATCH d t = t\<lparr>mscratch := d\<rparr>"
  "csr_write s CSR_MEPC d t = t\<lparr>mepc := d\<rparr>"
  "csr_write s CSR_MCAUSE d t = t\<lparr>mcause := d\<rparr>"
  "csr_write s CSR_MTVAL d t = t\<lparr>mtval := d\<rparr>"
  "csr_write s CSR_MCOUNTINHIBIT d t = t\<lparr>mcountinhibit := d AND MCOUNTINHIBIT_MASK\<rparr>"
  "csr_write s CSR_STVEC d t = t\<lparr>stvec := vector_word d\<rparr>"
  "csr_write s CSR_SCOUNTEREN d t = t\<lparr>scounteren := d AND COUNTEREN_MASK\<rparr>"
  "csr_write s CSR_SSCRATCH d t = t\<lparr>sscratch := d\<rparr>"
  "csr_write s CSR_SEPC d t = t\<lparr>sepc := d\<rparr>"
  "csr_write s CSR_SCAUSE d t = t\<lparr>scause := d\<rparr>"
  "csr_write s CSR_STVAL d t = t\<lparr>stval := d\<rparr>"
  "csr_write s CSR_SATP d t = t\<lparr>satp := d\<rparr>"
  "csr_write s CSR_SIP d t = t\<lparr>ssip_software_pending := bit d 1\<rparr>"
  "csr_write s CSR_MIP d t = t\<lparr>ssip_software_pending := bit d 1, stip_software_pending := bit d 5, seip_software_pending := bit d 9\<rparr>"
  "csr_write s CSR_TSELECT d t = t\<lparr>tselect := ucast d\<rparr>"
  "csr_write s CSR_TDATA1 d t = t\<lparr>trigger_ctl := (trigger_ctl s)(tselect s := trigger_word d)\<rparr>"
  "csr_write s CSR_TDATA2 d t = t\<lparr>trigger_addr := (trigger_addr s)(tselect s := d)\<rparr>"
  "csr_write s CSR_PMPCFG0 d t = t\<lparr>pmpcfg0 := d\<rparr>"
  "csr_write s CSR_PMPADDR0 d t = t\<lparr>pmpaddr0 := d\<rparr>"
  "csr_write s CSR_MCYCLE d t = t\<lparr>cycle_counter := set_lo d (cycle_counter s)\<rparr>"
  "csr_write s CSR_MCYCLEH d t = t\<lparr>cycle_counter := set_hi d (cycle_counter s)\<rparr>"
  "csr_write s CSR_MINSTRET d t = t\<lparr>instret_counter := set_lo d (instret_counter s)\<rparr>"
  "csr_write s CSR_MINSTRETH d t = t\<lparr>instret_counter := set_hi d (instret_counter s)\<rparr>"
  by (simp_all add: csr_write_def rtl_simps)

definition write_csrs :: "12 word list" where
  "write_csrs =
     [CSR_MSTATUS, CSR_SSTATUS, CSR_MISA, CSR_MEDELEG, CSR_MIDELEG, CSR_MIE, CSR_SIE, CSR_MTVEC,
      CSR_MCOUNTEREN, CSR_MSCRATCH, CSR_MEPC, CSR_MCAUSE, CSR_MTVAL, CSR_MCOUNTINHIBIT, CSR_STVEC,
      CSR_SCOUNTEREN, CSR_SSCRATCH, CSR_SEPC, CSR_SCAUSE, CSR_STVAL, CSR_SATP, CSR_SIP, CSR_MIP,
      CSR_TSELECT, CSR_TDATA1, CSR_TDATA2, CSR_PMPCFG0, CSR_PMPADDR0, CSR_MCYCLE, CSR_MCYCLEH,
      CSR_MINSTRET, CSR_MINSTRETH]"

lemma csr_write_none: "a \<notin> set write_csrs \<Longrightarrow> csr_write s a d t = t"
  by (simp add: csr_write_def write_csrs_def)

lemma csr_value_view: "csr_value s mt b = csr_value s mt (backing b) AND visible b"
proof (cases "backing b = b")
  case True
  then have "visible b = - 1" by (auto simp: backing_def visible_def rtl_simps split: if_splits)
  with True show ?thesis by simp
next
  case False
  then have "b \<in> {CSR_SSTATUS, CSR_SIE, CSR_SIP, CSR_CYCLE, CSR_CYCLEH, CSR_INSTRET, CSR_INSTRETH}"
    by (auto simp: backing_def split: if_splits)
  then show ?thesis
    by (elim insertE emptyE; hypsubst; simp add: csr_value_simps backing_def visible_def rtl_simps)
qed

lemma csr_value_same:
  "cycle_counter t = v \<Longrightarrow> t\<lparr>cycle_counter := v\<rparr> = t" "instret_counter t = v \<Longrightarrow> t\<lparr>instret_counter := v\<rparr> = t"
  by auto

lemma csr_value_tick:
  assumes "backing c \<noteq> CSR_MIP" and "backing c \<in> cycle_csrs \<Longrightarrow> writes_mcycle i"
    and "backing c \<in> instret_csrs \<Longrightarrow> writes_minstret i"
  shows "csr_value (csr_tick s i) mt c = csr_value s mt c"
proof -
  have sets: "backing c = CSR_MIP \<longleftrightarrow> c \<in> {CSR_MIP, CSR_SIP}"
    "backing c \<in> cycle_csrs \<longleftrightarrow> c \<in> {CSR_MCYCLE, CSR_MCYCLEH, CSR_CYCLE, CSR_CYCLEH}"
    "backing c \<in> instret_csrs \<longleftrightarrow> c \<in> {CSR_MINSTRET, CSR_MINSTRETH, CSR_INSTRET, CSR_INSTRETH}"
    by (auto simp: backing_def cycle_csrs_def instret_csrs_def rtl_simps split: if_splits)
  have cycle: "csr_value (s\<lparr>cycle_counter := cycle_counter (csr_tick s i)\<rparr>) mt c = csr_value s mt c"
  proof (cases "writes_mcycle i")
    case True
    then have "cycle_counter s = cycle_counter (csr_tick s i)" by (simp add: csr_tick_def)
    then show ?thesis by (simp only: csr_value_same)
  next
    case False
    with assms(2) sets(2) show ?thesis by (intro csr_value_other) auto
  qed
  have instret: "csr_value (t\<lparr>instret_counter := instret_counter (csr_tick s i)\<rparr>) mt c = csr_value t mt c"
    if "instret_counter t = instret_counter s" for t :: csr_file
  proof (cases "writes_minstret i")
    case True
    with that have "instret_counter t = instret_counter (csr_tick s i)" by (simp add: csr_tick_def)
    then show ?thesis by (simp only: csr_value_same)
  next
    case False
    with assms(3) sets(3) show ?thesis by (intro csr_value_other) auto
  qed
  have tick: "csr_tick s i = s\<lparr>cycle_counter := cycle_counter (csr_tick s i),
      instret_counter := instret_counter (csr_tick s i), mip := mip (csr_tick s i)\<rparr>"
    by (simp add: csr_tick_def)
  show ?thesis
    using assms(1) sets(1) by (subst tick) (simp add: csr_value_other(3) instret cycle)
qed

section \<open>Words merged under a mask\<close>

lemma merge_fits: "fits m old \<Longrightarrow> (old AND NOT m) OR (d AND m) = d AND m"
  by (rule bit_eqI) (auto simp: fits_iff bit_or_iff bit_and_iff bit_not_iff)

lemma bit_constants:
  "bit (0x40000000 :: 32 word) n \<longleftrightarrow> n = 30" "bit (0x5F :: 32 word) n \<longleftrightarrow> n = 6 \<or> n < 5"
proof -
  have "(0x40000000 :: 32 word) = push_bit 30 1" "(0x5F :: 32 word) = push_bit 6 1 OR mask 5"
    by (simp_all add: mask_eq_exp_minus_1)
  then show "bit (0x40000000 :: 32 word) n \<longleftrightarrow> n = 30" "bit (0x5F :: 32 word) n \<longleftrightarrow> n = 6 \<or> n < 5"
    by (auto simp only: bit_push_bit_iff bit_1_iff bit_or_iff bit_mask_iff possible_bit_word) auto
qed

lemma merge_fixed:
  "fits m old \<Longrightarrow> fits old f \<Longrightarrow> fits m f \<Longrightarrow> (old AND NOT (m AND NOT f)) OR (d AND (m AND NOT f)) = (d AND m) OR f"
  by (rule bit_eqI) (auto simp: fits_iff bit_or_iff bit_and_iff bit_not_iff)

lemma merge_misa:
  assumes "fits SUPPORTED_MISA old" "bit old 30"
  shows "(old AND NOT (SUPPORTED_MISA AND NOT 0x40000000)) OR (d AND (SUPPORTED_MISA AND NOT 0x40000000)) =
    (d AND SUPPORTED_MISA) OR 0x40000000"
proof (rule merge_fixed)
  show "fits old 0x40000000" using assms(2) unfolding fits_iff bit_constants by simp
  show "fits SUPPORTED_MISA 0x40000000" by (simp add: fits_def SUPPORTED_MISA_def)
qed (rule assms(1))

lemma merge_tselect:
  "(ucast (k :: 2 word) AND NOT 3) OR (d AND 3) = (ucast (ucast d :: 2 word) :: 32 word)"
proof -
  have mask: "(3 :: 32 word) = mask 2" by (simp add: mask_eq_exp_minus_1)
  show ?thesis
    unfolding mask by (rule bit_word_eqI) (auto simp: bit_or_iff bit_and_iff bit_not_iff bit_mask_iff bit_ucast_iff
      dest: bit_imp_le_length)
qed

lemma merge_trigger:
  assumes m: "\<And>n. bit (m :: 32 word) n \<longleftrightarrow> n = 6 \<or> n < 5" and c: "\<not> bit (c :: 7 word) 5"
  shows "(word_cat (2 :: 4 word) (word_cat (0 :: 21 word) c :: 28 word) AND NOT m) OR (d AND m) =
    (word_cat (2 :: 4 word) (word_cat (0 :: 21 word) (trigger_word d) :: 28 word) :: 32 word)"
proof (rule bit_word_eqI)
  fix n assume n: "n < LENGTH(32)"
  have word: "bit (trigger_word d) n \<longleftrightarrow> (n = 6 \<or> n < 5) \<and> bit d n"
    by (auto simp: trigger_word_def bit_word_cat_iff bit_ucast_iff bit_drop_bit_eq)
  have five: "\<not> bit (trigger_word d) 5" by (simp add: trigger_word_def bit_word_cat_iff bit_ucast_iff)
  consider "28 \<le> n" | "7 \<le> n" "n < 28" | "n = 6 \<or> n < 5" | "n = 5" by linarith
  then show "bit ((word_cat (2 :: 4 word) (word_cat (0 :: 21 word) c :: 28 word) AND NOT m) OR (d AND m)) n =
      bit (word_cat (2 :: 4 word) (word_cat (0 :: 21 word) (trigger_word d) :: 28 word) :: 32 word) n"
    by cases (use n c five in \<open>auto simp: bit_or_iff bit_and_iff bit_not_iff m word bit_word_cat_iff bit_word_ucast_iff
        dest: bit_imp_le_length\<close>)
qed

lemma csr_value_at:
  "csr_value s mt CSR_MSTATUS = mstatus s" "csr_value s mt CSR_MISA = misa s" "csr_value s mt CSR_MEDELEG = medeleg s"
  "csr_value s mt CSR_MIDELEG = mideleg s" "csr_value s mt CSR_MIE = mie s" "csr_value s mt CSR_MTVEC = mtvec s"
  "csr_value s mt CSR_MCOUNTEREN = mcounteren s" "csr_value s mt CSR_MSCRATCH = mscratch s"
  "csr_value s mt CSR_MEPC = mepc s" "csr_value s mt CSR_MCAUSE = mcause s" "csr_value s mt CSR_MTVAL = mtval s"
  "csr_value s mt CSR_MCOUNTINHIBIT = mcountinhibit s" "csr_value s mt CSR_STVEC = stvec s"
  "csr_value s mt CSR_SCOUNTEREN = scounteren s" "csr_value s mt CSR_SSCRATCH = sscratch s"
  "csr_value s mt CSR_SEPC = sepc s" "csr_value s mt CSR_SCAUSE = scause s" "csr_value s mt CSR_STVAL = stval s"
  "csr_value s mt CSR_SATP = satp s" "csr_value s mt CSR_MCYCLE = ucast (cycle_counter s)"
  "csr_value s mt CSR_MCYCLEH = ucast (drop_bit 32 (cycle_counter s))"
  "csr_value s mt CSR_MINSTRET = ucast (instret_counter s)"
  "csr_value s mt CSR_MINSTRETH = ucast (drop_bit 32 (instret_counter s))"
  "csr_value s mt CSR_TSELECT = ucast (tselect s)" "csr_value s mt CSR_TDATA1 = tdata1_read s"
  "csr_value s mt CSR_TDATA2 = trigger_addr s (tselect s)"
  "csr_value s mt CSR_PMPCFG0 = 0" "csr_value s mt CSR_PMPADDR0 = 0"
  by (simp_all add: csr_value_simps rtl_simps)

lemma csr_write_whole:
  assumes "a \<in> {CSR_MEDELEG, CSR_MIDELEG, CSR_MIE, CSR_MSCRATCH, CSR_MEPC, CSR_MCAUSE, CSR_MTVAL, CSR_SSCRATCH,
    CSR_SEPC, CSR_SCAUSE, CSR_STVAL, CSR_SATP}" and "backing c = c"
  shows "csr_value (csr_write s a d t) mt c = (if c = backing a then merged a (csr_value s mt c) d else csr_value t mt c)"
proof -
  have a: "merged a x d = d" "backing a = a" for x
    using assms(1) by (auto simp: merged_def writable_def backing_def rtl_simps)
  have c: "c \<noteq> CSR_SIE" using assms(2) by (auto simp: backing_def rtl_simps)
  have "csr_value (csr_write s a d t) mt c = (if c = a then d else csr_value t mt c)"
    using assms(1) c by (elim insertE emptyE; simp add: csr_write_at csr_value_own csr_value_at csr_value_other)
  then show ?thesis by (simp only: a)
qed

lemma csr_write_masked:
  assumes "a \<in> {CSR_MSTATUS, CSR_SSTATUS, CSR_MISA, CSR_SIE, CSR_MTVEC, CSR_STVEC, CSR_MCOUNTEREN, CSR_SCOUNTEREN,
    CSR_MCOUNTINHIBIT}" and "backing c = c" and "csr_wf s"
  shows "csr_value (csr_write s a d t) mt c = (if c = backing a then merged a (csr_value s mt c) d else csr_value t mt c)"
proof -
  have c: "c \<noteq> CSR_SIE" "c \<noteq> CSR_SSTATUS" using assms(2) by (auto simp: backing_def rtl_simps)
  have fits: "fits MSTATUS_WRITABLE_MASK (mstatus s)" "fits SUPPORTED_MISA (misa s)" "bit (misa s) 30"
    "fits 0xFFFFFFFD (mtvec s)" "fits 0xFFFFFFFD (stvec s)" "fits COUNTEREN_MASK (mcounteren s)"
    "fits COUNTEREN_MASK (scounteren s)" "fits MCOUNTINHIBIT_MASK (mcountinhibit s)"
    using assms(3) by (simp_all add: csr_wf_def)
  have vector: "vector_word d = d AND 0xFFFFFFFD" by (rule vector_word_and)
  have backing: "backing CSR_MSTATUS = CSR_MSTATUS" "backing CSR_SSTATUS = CSR_MSTATUS" "backing CSR_MISA = CSR_MISA"
    "backing CSR_SIE = CSR_MIE" "backing CSR_MTVEC = CSR_MTVEC" "backing CSR_STVEC = CSR_STVEC"
    "backing CSR_MCOUNTEREN = CSR_MCOUNTEREN" "backing CSR_SCOUNTEREN = CSR_SCOUNTEREN"
    "backing CSR_MCOUNTINHIBIT = CSR_MCOUNTINHIBIT"
    by (simp_all add: backing_def rtl_simps)
  have masks: "writable CSR_MSTATUS = MSTATUS_WRITABLE_MASK" "writable CSR_SSTATUS = SSTATUS_MASK"
    "writable CSR_MISA = SUPPORTED_MISA AND NOT 0x40000000" "writable CSR_SIE = S_INTERRUPT_MASK"
    "writable CSR_MTVEC = 0xFFFFFFFD" "writable CSR_STVEC = 0xFFFFFFFD" "writable CSR_MCOUNTEREN = COUNTEREN_MASK"
    "writable CSR_SCOUNTEREN = COUNTEREN_MASK" "writable CSR_MCOUNTINHIBIT = MCOUNTINHIBIT_MASK"
    by (simp_all add: writable_def rtl_simps)
  have "csr_value (csr_write s a d t) mt (backing a) = merged a (csr_value s mt (backing a)) d"
    using assms(1)
    by (elim insertE emptyE; hypsubst)
       (simp_all only: merged_def masks backing csr_write_at csr_value_at vector csr_file.simps merge_fits [OF fits(1)]
         merge_misa [OF fits(2,3)] merge_fits [OF fits(4)] merge_fits [OF fits(5)] merge_fits [OF fits(6)]
         merge_fits [OF fits(7)] merge_fits [OF fits(8)], simp_all)
  moreover have "csr_value (csr_write s a d t) mt c = csr_value t mt c" if "c \<noteq> backing a"
    using assms(1) c that by (elim insertE emptyE; simp add: backing csr_write_at csr_value_own csr_value_other)
  ultimately show ?thesis by simp
qed

lemma csr_write_counter:
  assumes "a \<in> cycle_csrs \<union> instret_csrs" and "backing c = c"
    and "a \<in> cycle_csrs \<Longrightarrow> cycle_counter t = cycle_counter s"
    and "a \<in> instret_csrs \<Longrightarrow> instret_counter t = instret_counter s"
  shows "csr_value (csr_write s a d t) mt c = (if c = backing a then merged a (csr_value s mt c) d else csr_value t mt c)"
proof -
  have a: "merged a x d = d" "backing a = a" for x
    using assms(1) by (auto simp: merged_def writable_def backing_def cycle_csrs_def instret_csrs_def rtl_simps)
  have c: "c \<notin> {CSR_CYCLE, CSR_CYCLEH, CSR_INSTRET, CSR_INSTRETH}" using assms(2) by (auto simp: backing_def rtl_simps)
  have distinct: "CSR_MCYCLE \<noteq> CSR_MCYCLEH" "CSR_MINSTRET \<noteq> CSR_MINSTRETH" by (simp_all add: rtl_simps)
  have "csr_value (csr_write s a d t) mt c = (if c = a then d else csr_value t mt c)"
  proof (cases "a \<in> cycle_csrs")
    case True
    then have "cycle_counter t = cycle_counter s" and "a = CSR_MCYCLE \<or> a = CSR_MCYCLEH"
      using assms(3) by (auto simp: cycle_csrs_def)
    with c distinct show ?thesis
      by (cases "c \<in> {CSR_MCYCLE, CSR_MCYCLEH}")
         (elim disjE insertE emptyE; simp add: csr_write_at csr_value_at csr_value_other set_halves)+
  next
    case False
    then have "instret_counter t = instret_counter s" and "a = CSR_MINSTRET \<or> a = CSR_MINSTRETH"
      using assms(1,4) by (auto simp: instret_csrs_def)
    with c distinct show ?thesis
      by (cases "c \<in> {CSR_MINSTRET, CSR_MINSTRETH}")
         (elim disjE insertE emptyE; simp add: csr_write_at csr_value_at csr_value_other set_halves)+
  qed
  then show ?thesis by (simp only: a)
qed

lemma csr_write_rest:
  assumes "a \<in> {CSR_SIP, CSR_MIP, CSR_TSELECT, CSR_TDATA1, CSR_TDATA2, CSR_PMPCFG0, CSR_PMPADDR0}" and "backing c = c"
    and "c \<noteq> CSR_MIP" and "c = CSR_TDATA1 \<or> c = CSR_TDATA2 \<Longrightarrow> a \<noteq> CSR_TSELECT" and "csr_wf s" and "tselect t = tselect s"
  shows "csr_value (csr_write s a d t) mt c = (if c = backing a then merged a (csr_value s mt c) d else csr_value t mt c)"
proof -
  have "c \<noteq> CSR_SIP" using assms(2) by (auto simp: backing_def rtl_simps)
  have trigger: "a = CSR_TSELECT \<longrightarrow> c \<noteq> CSR_TDATA1 \<and> c \<noteq> CSR_TDATA2" using assms(4) by blast
  have wf: "\<not> bit (trigger_ctl s (tselect s)) 5" using assms(5) by (simp add: csr_wf_def)
  have backing: "backing CSR_TSELECT = CSR_TSELECT" "backing CSR_TDATA1 = CSR_TDATA1" "backing CSR_TDATA2 = CSR_TDATA2"
    "backing CSR_PMPCFG0 = CSR_PMPCFG0" "backing CSR_PMPADDR0 = CSR_PMPADDR0" "backing CSR_SIP = CSR_MIP"
    "backing CSR_MIP = CSR_MIP"
    by (simp_all add: backing_def rtl_simps)
  have masks: "writable CSR_TSELECT = 3" "writable CSR_TDATA1 = 0x5F" "writable CSR_TDATA2 = - 1"
    "writable CSR_PMPCFG0 = 0" "writable CSR_PMPADDR0 = 0"
    by (simp_all add: writable_def rtl_simps)
  have "csr_value (csr_write s a d t) mt (backing a) = merged a (csr_value s mt (backing a)) d" if "backing a \<noteq> CSR_MIP"
    using assms(1) that
    by (elim insertE emptyE; hypsubst)
       (simp_all only: merged_def masks backing csr_write_at csr_value_at csr_file.simps merge_tselect tdata1_read_def
         assms(6) fun_upd_same merge_trigger [OF bit_constants(2) wf] simp_thms, simp_all add: assms(6))
  moreover have "csr_value (csr_write s a d t) mt c = csr_value t mt c" if "c \<noteq> backing a"
    using assms(1,3) trigger that
    by (elim insertE emptyE; simp add: backing csr_write_at csr_value_hidden csr_value_other)
  ultimately show ?thesis using assms(3) by auto
qed


lemma csr_value_written:
  assumes "csr_wf s" "backing c = c" "settled a c" "writes_mcycle i \<longleftrightarrow> a \<in> cycle_csrs"
    "writes_minstret i \<longleftrightarrow> a \<in> instret_csrs"
  shows "csr_value (csr_write s a d (csr_tick s i)) mt c =
    (if c = backing a then merged a (csr_value s mt c) d else csr_value s mt c)"
proof -
  have c: "c \<noteq> CSR_MIP" "c = CSR_TDATA1 \<or> c = CSR_TDATA2 \<Longrightarrow> a \<noteq> CSR_TSELECT"
    using assms(2,3) by (auto simp: settled_def)
  have tick: "csr_value (csr_tick s i) mt c = csr_value s mt c"
    using assms(2-5) by (intro csr_value_tick) (auto simp: settled_def)
  have kept: "tselect (csr_tick s i) = tselect s" "a \<in> cycle_csrs \<Longrightarrow> cycle_counter (csr_tick s i) = cycle_counter s"
    "a \<in> instret_csrs \<Longrightarrow> instret_counter (csr_tick s i) = instret_counter s"
    using assms(4,5) by (simp_all add: csr_tick_def)
  consider "a \<in> {CSR_MEDELEG, CSR_MIDELEG, CSR_MIE, CSR_MSCRATCH, CSR_MEPC, CSR_MCAUSE, CSR_MTVAL, CSR_SSCRATCH, CSR_SEPC,
      CSR_SCAUSE, CSR_STVAL, CSR_SATP}"
    | "a \<in> {CSR_MSTATUS, CSR_SSTATUS, CSR_MISA, CSR_SIE, CSR_MTVEC, CSR_STVEC, CSR_MCOUNTEREN, CSR_SCOUNTEREN,
      CSR_MCOUNTINHIBIT}"
    | "a \<in> cycle_csrs \<union> instret_csrs"
    | "a \<in> {CSR_SIP, CSR_MIP, CSR_TSELECT, CSR_TDATA1, CSR_TDATA2, CSR_PMPCFG0, CSR_PMPADDR0}"
    | "a \<notin> set write_csrs"
    by (auto simp: write_csrs_def cycle_csrs_def instret_csrs_def)
  then show ?thesis
  proof cases
    case 1 then show ?thesis by (simp only: csr_write_whole assms(2) tick)
  next
    case 2 then show ?thesis by (simp only: csr_write_masked assms(1,2) tick)
  next
    case 3 then show ?thesis by (simp only: csr_write_counter assms(2) kept tick)
  next
    case 4 then show ?thesis using csr_write_rest [OF 4 assms(2) c assms(1) kept(1)] by (simp only: tick)
  next
    case 5
    then have "writable a = 0" by (auto simp: write_csrs_def writable_def)
    then show ?thesis by (simp add: csr_write_none [OF 5] merged_def tick)
  qed
qed

definition csr_quiet :: "csr_in \<Rightarrow> bool" where
  "csr_quiet i \<longleftrightarrow>
     \<not> cs_rst i \<and> \<not> cs_interrupt_taken i \<and> \<not> cs_mret i \<and> \<not> cs_sret i \<and> \<not> synchronous_exception i"

lemma csr_write_settled:
  assumes "csr_wf s" "csr_quiet i" "cs_write_enable i" "csr_valid (cs_addr i)" "settled (cs_addr i) b"
  shows "csr_value (csr_step s i) mt b =
    (if backing b = backing (cs_addr i)
     then merged (cs_addr i) (csr_value s mt (backing b)) (cs_write_data i) AND visible b else csr_value s mt b)"
proof -
  have backing: "backing (backing b) = backing b" by (simp add: backing_def rtl_simps)
  then have "settled (cs_addr i) (backing b)"
    using assms(5) by (auto simp: settled_def backing_def rtl_simps split: if_splits)
  moreover have "csr_step s i = csr_write s (cs_addr i) (cs_write_data i) (csr_tick s i)"
    using assms(2-4) by (simp add: csr_step_def csr_quiet_def Let_def)
  ultimately have "csr_value (csr_step s i) mt (backing b) =
      (if backing b = backing (cs_addr i) then merged (cs_addr i) (csr_value s mt (backing b)) (cs_write_data i)
       else csr_value s mt (backing b))"
    using assms(1,3) backing
    by (simp add: csr_value_written writes_mcycle_def writes_minstret_def cycle_csrs_def instret_csrs_def)
  then show ?thesis by (subst csr_value_view) (simp, metis csr_value_view)
qed

section \<open>From a trap to its return\<close>

definition traps_to_machine :: "csr_in \<Rightarrow> bool" where
  "traps_to_machine i \<longleftrightarrow>
     \<not> cs_rst i \<and>
     (if cs_interrupt_taken i then \<not> cs_interrupt_to_supervisor i
      else \<not> cs_mret i \<and> \<not> cs_sret i \<and> synchronous_exception i \<and> \<not> cs_trap_to_supervisor i)"

definition traps_to_supervisor :: "csr_in \<Rightarrow> bool" where
  "traps_to_supervisor i \<longleftrightarrow>
     \<not> cs_rst i \<and>
     (if cs_interrupt_taken i then cs_interrupt_to_supervisor i
      else \<not> cs_mret i \<and> \<not> cs_sret i \<and> synchronous_exception i \<and> cs_trap_to_supervisor i)"

definition trap_pc :: "csr_in \<Rightarrow> 32 word" where
  "trap_pc i = (if cs_interrupt_taken i then cs_interrupt_pc i else cs_exception_pc i)"

definition trap_cause :: "csr_file \<Rightarrow> csr_in \<Rightarrow> 32 word" where
  "trap_cause s i = (if cs_interrupt_taken i then cs_interrupt_cause i else exception_cause s i)"

text \<open>A cycle of a handler that saves nothing: no trap, no return, and the registers of the return stay.\<close>

definition handler_cycle :: "12 word set \<Rightarrow> csr_in \<Rightarrow> bool" where
  "handler_cycle kept i \<longleftrightarrow> csr_quiet i \<and> (cs_write_enable i \<longrightarrow> cs_addr i \<notin> kept)"

definition machine_return :: "csr_in \<Rightarrow> bool" where
  "machine_return i \<longleftrightarrow> \<not> cs_rst i \<and> \<not> cs_interrupt_taken i \<and> cs_mret i"

definition supervisor_return :: "csr_in \<Rightarrow> bool" where
  "supervisor_return i \<longleftrightarrow> \<not> cs_rst i \<and> \<not> cs_interrupt_taken i \<and> \<not> cs_mret i \<and> cs_sret i"

lemma csr_write_keeps:
  "a \<noteq> CSR_MSTATUS \<Longrightarrow> a \<noteq> CSR_SSTATUS \<Longrightarrow> mstatus (csr_write s a d t) = mstatus t"
  "a \<noteq> CSR_MEPC \<Longrightarrow> mepc (csr_write s a d t) = mepc t" "a \<noteq> CSR_MCAUSE \<Longrightarrow> mcause (csr_write s a d t) = mcause t"
  "a \<noteq> CSR_SEPC \<Longrightarrow> sepc (csr_write s a d t) = sepc t" "a \<noteq> CSR_SCAUSE \<Longrightarrow> scause (csr_write s a d t) = scause t"
  "privilege_mode (csr_write s a d t) = privilege_mode t"
  by (simp_all add: csr_write_def)

lemma csr_tick_keeps [simp]:
  "mstatus (csr_tick s i) = mstatus s" "mepc (csr_tick s i) = mepc s" "sepc (csr_tick s i) = sepc s"
  "privilege_mode (csr_tick s i) = privilege_mode s"
  by (simp_all add: csr_tick_def)

lemma handler_run:
  assumes "list_all (handler_cycle kept) is"
  shows "privilege_mode (csr_run s is) = privilege_mode s"
    and "{CSR_MSTATUS, CSR_SSTATUS} \<subseteq> kept \<Longrightarrow> mstatus (csr_run s is) = mstatus s"
    and "CSR_MEPC \<in> kept \<Longrightarrow> mepc (csr_run s is) = mepc s" and "CSR_SEPC \<in> kept \<Longrightarrow> sepc (csr_run s is) = sepc s"
proof -
  have step: "privilege_mode (csr_step s i) = privilege_mode s"
    "{CSR_MSTATUS, CSR_SSTATUS} \<subseteq> kept \<Longrightarrow> mstatus (csr_step s i) = mstatus s"
    "CSR_MEPC \<in> kept \<Longrightarrow> mepc (csr_step s i) = mepc s" "CSR_SEPC \<in> kept \<Longrightarrow> sepc (csr_step s i) = sepc s"
    if "handler_cycle kept i" for s i
  proof -
    have i: "csr_step s i = (if cs_write_enable i \<and> csr_valid (cs_addr i)
        then csr_write s (cs_addr i) (cs_write_data i) (csr_tick s i) else csr_tick s i)"
      using that by (simp add: handler_cycle_def csr_quiet_def csr_step_def Let_def)
    have "cs_write_enable i \<Longrightarrow> x \<in> kept \<Longrightarrow> cs_addr i \<noteq> x" for x
      using that by (auto simp: handler_cycle_def)
    then show "privilege_mode (csr_step s i) = privilege_mode s"
      "{CSR_MSTATUS, CSR_SSTATUS} \<subseteq> kept \<Longrightarrow> mstatus (csr_step s i) = mstatus s"
      "CSR_MEPC \<in> kept \<Longrightarrow> mepc (csr_step s i) = mepc s" "CSR_SEPC \<in> kept \<Longrightarrow> sepc (csr_step s i) = sepc s"
      by (simp_all add: i csr_write_keeps)
  qed
  from assms show "privilege_mode (csr_run s is) = privilege_mode s"
    by (induction "is" arbitrary: s) (simp_all add: step(1))
  from assms show "mstatus (csr_run s is) = mstatus s" if "{CSR_MSTATUS, CSR_SSTATUS} \<subseteq> kept"
    by (induction "is" arbitrary: s) (simp_all add: step(2) [OF _ that])
  from assms show "mepc (csr_run s is) = mepc s" if "CSR_MEPC \<in> kept"
    by (induction "is" arbitrary: s) (simp_all add: step(3) [OF _ that])
  from assms show "sepc (csr_run s is) = sepc s" if "CSR_SEPC \<in> kept"
    by (induction "is" arbitrary: s) (simp_all add: step(4) [OF _ that])
qed

lemma trap_entered:
  "traps_to_machine i \<Longrightarrow>
     mstatus (csr_step s i) = put_mpp (privilege_mode s) (put_bit 3 False (put_bit 7 (bit (mstatus s) 3) (mstatus s))) \<and>
     mepc (csr_step s i) = trap_pc i \<and> mcause (csr_step s i) = trap_cause s i \<and> privilege_mode (csr_step s i) = PRIV_M"
  "traps_to_supervisor i \<Longrightarrow>
     mstatus (csr_step s i) =
       put_bit 8 (privilege_mode s = PRIV_S) (put_bit 1 False (put_bit 5 (bit (mstatus s) 1) (mstatus s))) \<and>
     sepc (csr_step s i) = trap_pc i \<and> scause (csr_step s i) = trap_cause s i \<and> privilege_mode (csr_step s i) = PRIV_S"
  by (auto simp: traps_to_machine_def traps_to_supervisor_def csr_step_def Let_def enter_machine_def enter_supervisor_def
      trap_pc_def trap_cause_def split: if_splits)

lemma trap_returned:
  "machine_return i \<Longrightarrow> csr_step s i = return_machine s (csr_tick s i)"
  "supervisor_return i \<Longrightarrow> csr_step s i = return_supervisor s (csr_tick s i)"
  by (simp_all add: machine_return_def supervisor_return_def csr_step_def Let_def)

text \<open>
  C17. Traps and returns are inverse. An interrupt or an exception taken to machine mode records the pc
  and the cause, switches interrupts off and runs in machine mode; whatever the handler then does to the
  other registers, its MRET gives back the privilege mode, the interrupt enable and every other bit of
  \<open>mstatus\<close> but MPIE, MPP and, on the way to a lower mode, MPRV. The same holds in supervisor mode
  for SRET, from user and supervisor mode.
\<close>

theorem csr_trap_returns:
  "(traps_to_machine i \<and> list_all (handler_cycle {CSR_MSTATUS, CSR_SSTATUS, CSR_MEPC}) is \<and> machine_return k \<longrightarrow>
      (let h = csr_run (csr_step s i) is; r = csr_step h k
       in mcause (csr_step s i) = trap_cause s i \<and> privilege_mode h = PRIV_M \<and> \<not> bit (mstatus h) 3 \<and>
          mepc h = trap_pc i \<and> privilege_mode r = privilege_mode s \<and>
          (\<forall>n. n \<notin> {7, 11, 12, 17} \<longrightarrow> bit (mstatus r) n = bit (mstatus s) n) \<and>
          bit (mstatus r) 17 = (privilege_mode s = PRIV_M \<and> bit (mstatus s) 17))) \<and>
   (traps_to_supervisor i \<and> privilege_mode s \<in> {PRIV_U, PRIV_S} \<and>
      list_all (handler_cycle {CSR_MSTATUS, CSR_SSTATUS, CSR_SEPC}) is \<and> supervisor_return k \<longrightarrow>
      (let h = csr_run (csr_step s i) is; r = csr_step h k
       in scause (csr_step s i) = trap_cause s i \<and> privilege_mode h = PRIV_S \<and> \<not> bit (mstatus h) 1 \<and>
          sepc h = trap_pc i \<and> privilege_mode r = privilege_mode s \<and>
          (\<forall>n. n \<notin> {5, 8} \<longrightarrow> bit (mstatus r) n = bit (mstatus s) n)))"
proof (intro conjI impI; elim conjE)
  assume i: "traps_to_machine i" and k: "machine_return k"
    and h: "list_all (handler_cycle {CSR_MSTATUS, CSR_SSTATUS, CSR_MEPC}) is"
  show "let h = csr_run (csr_step s i) is; r = csr_step h k
       in mcause (csr_step s i) = trap_cause s i \<and> privilege_mode h = PRIV_M \<and> \<not> bit (mstatus h) 3 \<and>
          mepc h = trap_pc i \<and> privilege_mode r = privilege_mode s \<and>
          (\<forall>n. n \<notin> {7, 11, 12, 17} \<longrightarrow> bit (mstatus r) n = bit (mstatus s) n) \<and>
          bit (mstatus r) 17 = (privilege_mode s = PRIV_M \<and> bit (mstatus s) 17)"
    using handler_run(1-3) [OF h] trap_entered(1) [OF i]
    by (auto simp: trap_returned(1) [OF k] return_machine_def Let_def)
next
  assume i: "traps_to_supervisor i" and k: "supervisor_return k" and s: "privilege_mode s \<in> {PRIV_U, PRIV_S}"
    and h: "list_all (handler_cycle {CSR_MSTATUS, CSR_SSTATUS, CSR_SEPC}) is"
  show "let h = csr_run (csr_step s i) is; r = csr_step h k
       in scause (csr_step s i) = trap_cause s i \<and> privilege_mode h = PRIV_S \<and> \<not> bit (mstatus h) 1 \<and>
          sepc h = trap_pc i \<and> privilege_mode r = privilege_mode s \<and>
          (\<forall>n. n \<notin> {5, 8} \<longrightarrow> bit (mstatus r) n = bit (mstatus s) n)"
    using handler_run(1,2,4) [OF h] trap_entered(2) [OF i] s
    by (auto simp: trap_returned(2) [OF k] return_supervisor_def Let_def PRIV_U_def PRIV_S_def)
qed

text \<open>
  A timer interrupt of supervisor mode goes to machine mode, the handler programs \<open>mie\<close> and returns;
  a system call of user mode goes to supervisor mode and returns.
\<close>

definition csr_idle :: csr_in where
  "csr_idle =
     \<lparr>cs_rst = False, cs_addr = 0, cs_write_data = 0, cs_write_enable = False, cs_read_enable = False,
      cs_interrupt_cause = 0, cs_interrupt_pc = 0, cs_exception_pc = 0, cs_interrupt_taken = False, cs_mret = False,
      cs_sret = False, cs_interrupt_to_supervisor = False, cs_trap_to_supervisor = False, cs_ecall = False,
      cs_ebreak = False, cs_illegal = False, cs_instr_misaligned = False, cs_load_misaligned = False,
      cs_store_misaligned = False, cs_instr_page_fault = False, cs_load_page_fault = False,
      cs_store_page_fault = False, cs_breakpoint_trigger = False, cs_exception_tval = 0, cs_instret_increment = False,
      cs_timer_interrupt = False, cs_machine_software_interrupt = False, cs_machine_external_interrupt = False,
      cs_supervisor_external_interrupt = False, cs_mtime = 0\<rparr>"

definition demo_supervisor :: csr_file where
  "demo_supervisor = csr_reset\<lparr>privilege_mode := PRIV_S, mstatus := 0x0000000A, mie := 0x80\<rparr>"

definition demo_user :: csr_file where
  "demo_user = csr_reset\<lparr>privilege_mode := PRIV_U, mstatus := 0x00000002, medeleg := 0x100\<rparr>"

definition demo_timer_trap :: csr_in where
  "demo_timer_trap =
     csr_idle\<lparr>cs_interrupt_taken := True, cs_interrupt_pc := 0x80200010, cs_interrupt_cause := 0x80000007\<rparr>"

definition demo_ecall :: csr_in where
  "demo_ecall = csr_idle\<lparr>cs_ecall := True, cs_trap_to_supervisor := True, cs_exception_pc := 0x10\<rparr>"

theorem csr_trap_returns_witness:
  "mepc (csr_run demo_supervisor [demo_timer_trap, csr_idle\<lparr>cs_write_enable := True, cs_addr := CSR_MIE\<rparr>]) = 0x80200010 \<and>
   privilege_mode (csr_run demo_supervisor [demo_timer_trap, csr_idle\<lparr>cs_write_enable := True, cs_addr := CSR_MIE\<rparr>,
     csr_idle\<lparr>cs_mret := True\<rparr>]) = PRIV_S \<and>
   sepc (csr_run demo_user [demo_ecall, csr_idle]) = 0x10 \<and>
   privilege_mode (csr_run demo_user [demo_ecall, csr_idle, csr_idle\<lparr>cs_sret := True\<rparr>]) = PRIV_U"
proof -
  let ?w = "csr_idle\<lparr>cs_write_enable := True, cs_addr := CSR_MIE\<rparr>" and ?m = "csr_idle\<lparr>cs_mret := True\<rparr>"
    and ?x = "csr_idle\<lparr>cs_sret := True\<rparr>"
  have "traps_to_machine demo_timer_trap" "machine_return ?m"
    "list_all (handler_cycle {CSR_MSTATUS, CSR_SSTATUS, CSR_MEPC}) [?w]"
    "traps_to_supervisor demo_ecall" "supervisor_return ?x" "privilege_mode demo_user \<in> {PRIV_U, PRIV_S}"
    "list_all (handler_cycle {CSR_MSTATUS, CSR_SSTATUS, CSR_SEPC}) [csr_idle]"
    "trap_pc demo_timer_trap = 0x80200010" "trap_pc demo_ecall = 0x10" "privilege_mode demo_user = PRIV_U"
    "privilege_mode demo_supervisor = PRIV_S"
    by code_simp+
  then show ?thesis
    using csr_trap_returns [of demo_timer_trap "[?w]" ?m demo_supervisor]
      csr_trap_returns [of demo_ecall "[csr_idle]" ?x demo_user]
    by (simp add: Let_def)
qed



section \<open>Two departures\<close>

text \<open>
  The comment of the file says that the AIA registers return 0 so that probing them does not fault; their
  addresses are not valid, so the access is an illegal instruction.
\<close>

lemma aia_probe_invalid: "\<not> csr_valid CSR_MTOPI" "\<not> csr_valid CSR_SCOVTOVF"
  by (simp_all add: csr_valid_def rtl_simps)

text \<open>The field MPP takes the reserved value 2, and MRET then enters a mode that does not exist.\<close>

lemma mpp_reserved_mode:
  "privilege_mode (csr_run csr_reset
     [csr_idle\<lparr>cs_write_enable := True, cs_addr := CSR_MSTATUS, cs_write_data := 0x1000\<rparr>, csr_idle\<lparr>cs_mret := True\<rparr>]) = 2"
  by (simp add: csr_idle_def csr_step_def csr_tick_def synchronous_exception_def csr_valid_def csr_write_def csr_reset_def
      return_machine_def get_mpp_def rtl_simps)

end
