(* ===== verification/Execute.thy ===== *)
theory Execute
  imports Csr_File
begin

text \<open>
  The execute stage \<open>rtl/execution_unit.v\<close>: the choice of the forwarded operands, the ALU, branches and
  jumps, the addresses of loads and stores, the checks of register instructions, breakpoint triggers and the
  exceptions with their targets, against the outcome the instruction set gives each instruction.
\<close>

unbundle bit_operations_syntax

section \<open>The interface\<close>

record ex_in =
  x_rs1 :: "32 word"
  x_rs2 :: "32 word"
  x_imm :: "32 word"
  x_rs1_addr :: "5 word"
  x_opcode :: "7 word"
  x_instr_id :: "7 word"
  x_instr_valid :: bool
  x_stage_enable :: bool
  x_pc_input :: "32 word"
  x_instr :: "32 word"
  x_forward_a :: "2 word"
  x_forward_b :: "2 word"
  x_ex_mem_result :: "32 word"
  x_mem_wb_result :: "32 word"
  x_csr_read_data :: "32 word"
  x_csr_rmw_data :: "32 word"
  x_csr_valid :: bool
  x_interrupt_pending :: bool
  x_interrupt_to_supervisor :: bool
  x_interrupt_vector :: "32 word"
  x_mtvec :: "32 word"
  x_mepc :: "32 word"
  x_stvec :: "32 word"
  x_sepc :: "32 word"
  x_medeleg :: "32 word"
  x_privilege_mode :: "2 word"
  x_mstatus :: "32 word"
  x_mcounteren :: "32 word"
  x_scounteren :: "32 word"
  x_trigger_enabled :: "4 word"
  x_trigger_control :: "28 word"
  x_trigger_tdata2 :: "128 word"

record ex_out =
  exec_output :: "32 word"
  jump_signal :: bool
  jump_addr :: "32 word"
  ex_mem_addr :: "32 word"
  flush_pipeline :: bool
  interrupt_taken :: bool
  mret_instruction :: bool
  sret_instruction :: bool
  trap_to_supervisor :: bool
  ecall_exception :: bool
  ebreak_exception :: bool
  illegal_instruction_exception :: bool
  instruction_address_misaligned_exception :: bool
  load_address_misaligned_exception :: bool
  store_address_misaligned_exception :: bool
  ex_exception_tval :: "32 word"
  wfi_instruction :: bool
  breakpoint_trigger_exception :: bool

definition ex_quiet :: ex_out where
  "ex_quiet =
     \<lparr>exec_output = 0, jump_signal = False, jump_addr = 0, ex_mem_addr = 0, flush_pipeline = False,
      interrupt_taken = False, mret_instruction = False, sret_instruction = False, trap_to_supervisor = False,
      ecall_exception = False, ebreak_exception = False, illegal_instruction_exception = False,
      instruction_address_misaligned_exception = False, load_address_misaligned_exception = False,
      store_address_misaligned_exception = False, ex_exception_tval = 0, wfi_instruction = False,
      breakpoint_trigger_exception = False\<rparr>"

section \<open>Operands\<close>

definition NO_FORWARDING :: "2 word" where "NO_FORWARDING = 0"
definition FORWARD_FROM_MEM :: "2 word" where "FORWARD_FROM_MEM = 1"
definition FORWARD_FROM_WB :: "2 word" where "FORWARD_FROM_WB = 2"

definition forwarded :: "2 word \<Rightarrow> 32 word \<Rightarrow> 32 word \<Rightarrow> 32 word \<Rightarrow> 32 word" where
  "forwarded sel own from_mem from_wb =
     (if sel = NO_FORWARDING then own
      else if sel = FORWARD_FROM_MEM then from_mem
      else if sel = FORWARD_FROM_WB then from_wb
      else own)"

definition rs1_value :: "ex_in \<Rightarrow> 32 word" where
  "rs1_value i = forwarded (x_forward_a i) (x_rs1 i) (x_ex_mem_result i) (x_mem_wb_result i)"

definition rs2_value :: "ex_in \<Rightarrow> 32 word" where
  "rs2_value i = forwarded (x_forward_b i) (x_rs2 i) (x_ex_mem_result i) (x_mem_wb_result i)"

section \<open>Triggers\<close>

definition trigger_match :: "4 word \<Rightarrow> (nat \<Rightarrow> bool) \<Rightarrow> 32 word \<Rightarrow> 128 word \<Rightarrow> bool" where
  "trigger_match enabled kind addr tdata2 \<longleftrightarrow>
     (bit enabled 0 \<and> kind 0 \<and> addr = ucast tdata2) \<or>
     (bit enabled 1 \<and> kind 1 \<and> addr = ucast (drop_bit 32 tdata2)) \<or>
     (bit enabled 2 \<and> kind 2 \<and> addr = ucast (drop_bit 64 tdata2)) \<or>
     (bit enabled 3 \<and> kind 3 \<and> addr = ucast (drop_bit 96 tdata2))"

text \<open>The bit of each trigger's control field that selects fetches, stores or loads.\<close>

definition trigger_execute :: "ex_in \<Rightarrow> nat \<Rightarrow> bool" where "trigger_execute i k = bit (x_trigger_control i) (7 * k + 2)"
definition trigger_store :: "ex_in \<Rightarrow> nat \<Rightarrow> bool" where "trigger_store i k = bit (x_trigger_control i) (7 * k + 1)"
definition trigger_load :: "ex_in \<Rightarrow> nat \<Rightarrow> bool" where "trigger_load i k = bit (x_trigger_control i) (7 * k)"

definition is_atomic_load :: "ex_in \<Rightarrow> bool" where "is_atomic_load i \<longleftrightarrow> x_instr_id i = INSTR_LR_W"
definition is_atomic_store :: "ex_in \<Rightarrow> bool" where "is_atomic_store i \<longleftrightarrow> x_instr_id i = INSTR_SC_W"

definition is_atomic_rmw :: "ex_in \<Rightarrow> bool" where
  "is_atomic_rmw i \<longleftrightarrow> x_opcode i = 0b0101111 \<and> \<not> is_atomic_load i \<and> \<not> is_atomic_store i"

definition trigger_data_addr :: "ex_in \<Rightarrow> 32 word" where
  "trigger_data_addr i = (if x_opcode i = 0b0101111 then rs1_value i else rs1_value i + x_imm i)"

definition trigger_hit :: "ex_in \<Rightarrow> (nat \<Rightarrow> bool) \<Rightarrow> 32 word \<Rightarrow> bool" where
  "trigger_hit i kind addr \<longleftrightarrow> trigger_match (x_trigger_enabled i) kind addr (x_trigger_tdata2 i)"

definition execute_trigger_hit :: "ex_in \<Rightarrow> bool" where
  "execute_trigger_hit i \<longleftrightarrow>
     x_stage_enable i \<and> x_instr_valid i \<and> trigger_hit i (trigger_execute i) (x_pc_input i)"

definition load_trigger_hit :: "ex_in \<Rightarrow> bool" where
  "load_trigger_hit i \<longleftrightarrow>
     x_instr_valid i \<and> (is_atomic_load i \<or> is_atomic_rmw i) \<and> trigger_hit i (trigger_load i) (trigger_data_addr i)"

definition store_trigger_hit :: "ex_in \<Rightarrow> bool" where
  "store_trigger_hit i \<longleftrightarrow>
     x_instr_valid i \<and> (is_atomic_store i \<or> is_atomic_rmw i) \<and> trigger_hit i (trigger_store i) (trigger_data_addr i)"

definition atomic_trigger_hit :: "ex_in \<Rightarrow> bool" where
  "atomic_trigger_hit i \<longleftrightarrow> load_trigger_hit i \<or> store_trigger_hit i"

section \<open>Checks\<close>

definition is_counter_shadow_csr :: "12 word \<Rightarrow> bool" where
  "is_counter_shadow_csr a \<longleftrightarrow>
     a = CSR_CYCLE \<or> a = CSR_TIME \<or> a = CSR_INSTRET \<or> a = CSR_CYCLEH \<or> a = CSR_TIMEH \<or> a = CSR_INSTRETH"

definition load_address_misaligned :: "7 word \<Rightarrow> 32 word \<Rightarrow> bool" where
  "load_address_misaligned ident addr \<longleftrightarrow>
     (if ident = INSTR_LH \<or> ident = INSTR_LHU then bit addr 0
      else if ident = INSTR_LW \<or> ident = INSTR_LR_W then (ucast addr :: 2 word) \<noteq> 0
      else False)"

definition store_address_misaligned :: "7 word \<Rightarrow> 32 word \<Rightarrow> bool" where
  "store_address_misaligned ident addr \<longleftrightarrow>
     (if ident = INSTR_SH then bit addr 0
      else if ident = INSTR_SW \<or> ident = INSTR_SC_W \<or> ident = INSTR_AMOSWAP_W \<or> ident = INSTR_AMOADD_W \<or>
              ident = INSTR_AMOAND_W \<or> ident = INSTR_AMOOR_W \<or> ident = INSTR_AMOXOR_W \<or> ident = INSTR_AMOMAX_W \<or>
              ident = INSTR_AMOMIN_W \<or> ident = INSTR_AMOMAXU_W \<or> ident = INSTR_AMOMINU_W
      then (ucast addr :: 2 word) \<noteq> 0
      else False)"

definition x_csr_addr :: "ex_in \<Rightarrow> 12 word" where "x_csr_addr i = ucast (x_imm i)"

definition x_csr_read_enable :: "ex_in \<Rightarrow> bool" where
  "x_csr_read_enable i \<longleftrightarrow>
     x_instr_id i = INSTR_CSRRW \<or> x_instr_id i = INSTR_CSRRS \<or> x_instr_id i = INSTR_CSRRC \<or>
     x_instr_id i = INSTR_CSRRWI \<or> x_instr_id i = INSTR_CSRRSI \<or> x_instr_id i = INSTR_CSRRCI"

definition x_csr_exec :: "ex_in \<Rightarrow> csr_exec_out" where
  "x_csr_exec i = csr_exec (x_instr_id i) (rs1_value i) (x_rs1_addr i) (x_csr_read_data i) (x_csr_rmw_data i)"

definition csr_read_only_violation :: "ex_in \<Rightarrow> bool" where
  "csr_read_only_violation i \<longleftrightarrow>
     (ucast (drop_bit 10 (x_csr_addr i)) :: 2 word) = 0b11 \<and> cx_write_enable (x_csr_exec i)"

definition csr_privilege_violation :: "ex_in \<Rightarrow> bool" where
  "csr_privilege_violation i \<longleftrightarrow> x_privilege_mode i < ucast (drop_bit 8 (x_csr_addr i))"

definition csr_satp_tvm_violation :: "ex_in \<Rightarrow> bool" where
  "csr_satp_tvm_violation i \<longleftrightarrow> x_csr_addr i = CSR_SATP \<and> x_privilege_mode i = PRIV_S \<and> bit (x_mstatus i) 20"

definition sret_tsr_violation :: "ex_in \<Rightarrow> bool" where
  "sret_tsr_violation i \<longleftrightarrow> x_privilege_mode i = PRIV_S \<and> bit (x_mstatus i) 22"

definition wfi_tw_violation :: "ex_in \<Rightarrow> bool" where
  "wfi_tw_violation i \<longleftrightarrow> x_privilege_mode i \<noteq> PRIV_M \<and> bit (x_mstatus i) 21"

definition allows_counter :: "ex_in \<Rightarrow> 32 word \<Rightarrow> bool" where
  "allows_counter i counteren =
     (if x_csr_addr i = CSR_CYCLE \<or> x_csr_addr i = CSR_CYCLEH then bit counteren 0
      else if x_csr_addr i = CSR_TIME \<or> x_csr_addr i = CSR_TIMEH then bit counteren 1
      else bit counteren 2)"

definition csr_counter_access_violation :: "ex_in \<Rightarrow> bool" where
  "csr_counter_access_violation i \<longleftrightarrow>
     is_counter_shadow_csr (x_csr_addr i) \<and>
     ((x_privilege_mode i = PRIV_S \<and> \<not> allows_counter i (x_mcounteren i)) \<or>
      (x_privilege_mode i = PRIV_U \<and>
        (\<not> allows_counter i (x_mcounteren i) \<or> \<not> allows_counter i (x_scounteren i))))"

definition delegate :: "ex_in \<Rightarrow> nat \<Rightarrow> bool" where
  "delegate i cause \<longleftrightarrow> x_privilege_mode i \<noteq> PRIV_M \<and> bit (x_medeleg i) cause"

definition delegate_ecall :: "ex_in \<Rightarrow> bool" where
  "delegate_ecall i \<longleftrightarrow>
     (x_privilege_mode i = PRIV_U \<and> bit (x_medeleg i) 8) \<or> (x_privilege_mode i = PRIV_S \<and> bit (x_medeleg i) 9)"

section \<open>The stage\<close>

text \<open>What every exception does, and a jump to a target that may be misaligned.\<close>

definition ex_trap :: "ex_in \<Rightarrow> bool \<Rightarrow> ex_out \<Rightarrow> ex_out" where
  "ex_trap i to_s out = out\<lparr>
     jump_signal := True, trap_to_supervisor := to_s, jump_addr := (if to_s then x_stvec i else x_mtvec i),
     flush_pipeline := True\<rparr>"

definition ex_goto :: "32 word \<Rightarrow> ex_out \<Rightarrow> ex_out" where
  "ex_goto target out = out\<lparr>jump_signal := True, jump_addr := target, flush_pipeline := True\<rparr>"

definition ex_jump :: "ex_in \<Rightarrow> 32 word \<Rightarrow> ex_out \<Rightarrow> ex_out" where
  "ex_jump i target out =
     (if (ucast target :: 2 word) \<noteq> 0
      then (ex_trap i (delegate i 0) (ex_goto target out))
             \<lparr>instruction_address_misaligned_exception := True, ex_exception_tval := target\<rparr>
      else ex_goto target out)"

definition ex_breakpoint :: "ex_in \<Rightarrow> 32 word \<Rightarrow> ex_out \<Rightarrow> ex_out" where
  "ex_breakpoint i tval out =
     (ex_trap i (delegate i 3) out)\<lparr>breakpoint_trigger_exception := True, ex_exception_tval := tval\<rparr>"

definition ex_illegal :: "ex_in \<Rightarrow> ex_out \<Rightarrow> ex_out" where
  "ex_illegal i out = (ex_trap i (delegate i 2) out)\<lparr>illegal_instruction_exception := True\<rparr>"

definition ex_load_misaligned :: "ex_in \<Rightarrow> 32 word \<Rightarrow> ex_out \<Rightarrow> ex_out" where
  "ex_load_misaligned i tval out =
     (ex_trap i (delegate i 4) out)\<lparr>load_address_misaligned_exception := True, ex_exception_tval := tval\<rparr>"

definition ex_store_misaligned :: "ex_in \<Rightarrow> 32 word \<Rightarrow> ex_out \<Rightarrow> ex_out" where
  "ex_store_misaligned i tval out =
     (ex_trap i (delegate i 6) out)\<lparr>store_address_misaligned_exception := True, ex_exception_tval := tval\<rparr>"

definition ex_load :: "ex_in \<Rightarrow> ex_out" where
  "ex_load i =
     (let addr = rs1_value i + x_imm i; out = ex_quiet\<lparr>ex_mem_addr := addr\<rparr>
      in if trigger_hit i (trigger_load i) addr then ex_breakpoint i addr out
         else if load_address_misaligned (x_instr_id i) addr then ex_load_misaligned i addr out
         else out)"

definition ex_store :: "ex_in \<Rightarrow> ex_out" where
  "ex_store i =
     (let addr = rs1_value i + x_imm i; out = ex_quiet\<lparr>ex_mem_addr := addr\<rparr>
      in if trigger_hit i (trigger_store i) addr then ex_breakpoint i addr out
         else if store_address_misaligned (x_instr_id i) addr then ex_store_misaligned i addr out
         else out)"

definition ex_atomic :: "ex_in \<Rightarrow> ex_out" where
  "ex_atomic i =
     (let addr = rs1_value i; out = ex_quiet\<lparr>ex_mem_addr := addr\<rparr>
      in if atomic_trigger_hit i then ex_breakpoint i addr out
         else if load_address_misaligned (x_instr_id i) addr then ex_load_misaligned i addr out
         else if store_address_misaligned (x_instr_id i) addr then ex_store_misaligned i addr out
         else out)"

definition branch_taken :: "7 word \<Rightarrow> 32 word \<Rightarrow> 32 word \<Rightarrow> bool" where
  "branch_taken ident a b \<longleftrightarrow>
     (if ident = INSTR_BEQ then a = b
      else if ident = INSTR_BNE then a \<noteq> b
      else if ident = INSTR_BLT then a <s b
      else if ident = INSTR_BGE then b \<le>s a
      else if ident = INSTR_BLTU then a < b
      else if ident = INSTR_BGEU then b \<le> a
      else False)"

definition ex_branch :: "ex_in \<Rightarrow> ex_out" where
  "ex_branch i =
     (if branch_taken (x_instr_id i) (rs1_value i) (rs2_value i) then ex_jump i (x_pc_input i + x_imm i) ex_quiet
      else ex_quiet)"

definition ex_system :: "ex_in \<Rightarrow> ex_out" where
  "ex_system i =
     (let ident = x_instr_id i; priv = x_privilege_mode i; next_pc = x_pc_input i + 4
      in if ident = INSTR_MRET then
           if priv \<noteq> PRIV_M then ex_illegal i ex_quiet
           else (ex_goto (x_mepc i) ex_quiet)\<lparr>mret_instruction := True\<rparr>
         else if ident = INSTR_SRET then
           if priv < PRIV_S \<or> sret_tsr_violation i then ex_illegal i ex_quiet
           else (ex_goto (x_sepc i) ex_quiet)\<lparr>sret_instruction := True\<rparr>
         else if ident = INSTR_ECALL then (ex_trap i (delegate_ecall i) ex_quiet)\<lparr>ecall_exception := True\<rparr>
         else if ident = INSTR_EBREAK then (ex_trap i (delegate i 3) ex_quiet)\<lparr>ebreak_exception := True\<rparr>
         else if ident = INSTR_WFI then
           if wfi_tw_violation i then ex_illegal i ex_quiet
           else (ex_goto next_pc ex_quiet)\<lparr>wfi_instruction := True\<rparr>
         else if ident = INSTR_SFENCE_VMA then
           if priv = PRIV_U \<or> (priv = PRIV_S \<and> bit (x_mstatus i) 20) then ex_illegal i ex_quiet
           else ex_goto next_pc ex_quiet
         else if \<not> x_csr_valid i \<or> csr_read_only_violation i \<or> csr_privilege_violation i \<or>
                 csr_satp_tvm_violation i \<or> csr_counter_access_violation i then ex_illegal i ex_quiet
         else let out = ex_quiet\<lparr>exec_output := cx_rd_value (x_csr_exec i)\<rparr>
              in if cx_write_enable (x_csr_exec i) then ex_goto next_pc out else out)"

definition ex_unstaged :: "ex_in \<Rightarrow> ex_out" where
  "ex_unstaged i =
     (let opc = x_opcode i;
          result = alu (rs1_value i) (rs2_value i) (x_imm i) (x_instr_id i)
      in if x_interrupt_pending i then
           ex_quiet\<lparr>jump_signal := True, trap_to_supervisor := x_interrupt_to_supervisor i,
             jump_addr := x_interrupt_vector i, flush_pipeline := True, interrupt_taken := True\<rparr>
         else if execute_trigger_hit i then ex_breakpoint i (x_pc_input i) ex_quiet
         else if x_instr_valid i \<and> x_instr_id i = INSTR_INVALID then ex_illegal i ex_quiet
         else if opc = 0b0110011 then ex_quiet\<lparr>exec_output := result\<rparr>
         else if opc = 0b0010011 then ex_quiet\<lparr>exec_output := result\<rparr>
         else if opc = 0b0000011 then ex_load i
         else if opc = 0b0100011 then ex_store i
         else if opc = 0b0101111 then ex_atomic i
         else if opc = 0b1100011 then ex_branch i
         else if opc = 0b1101111 then ex_jump i (x_pc_input i + x_imm i) (ex_quiet\<lparr>exec_output := x_pc_input i + 4\<rparr>)
         else if opc = 0b1100111 then
           ex_jump i ((rs1_value i + x_imm i) AND 0xFFFFFFFE) (ex_quiet\<lparr>exec_output := x_pc_input i + 4\<rparr>)
         else if opc = 0b0110111 then ex_quiet\<lparr>exec_output := x_imm i\<rparr>
         else if opc = 0b0010111 then ex_quiet\<lparr>exec_output := x_pc_input i + x_imm i\<rparr>
         else if opc = 0b1110011 then ex_system i
         else if opc = 0b0001111 then
           if x_instr_id i = INSTR_FENCE_I then ex_goto (x_pc_input i + 4) ex_quiet else ex_quiet
         else ex_quiet)"

text \<open>While the stage is held the instruction takes none of its effects.\<close>

definition ex_held :: "ex_out \<Rightarrow> ex_out" where
  "ex_held out = out\<lparr>
     jump_signal := False, flush_pipeline := False, interrupt_taken := False, mret_instruction := False,
     sret_instruction := False, trap_to_supervisor := False, ecall_exception := False, ebreak_exception := False,
     illegal_instruction_exception := False, instruction_address_misaligned_exception := False,
     load_address_misaligned_exception := False, store_address_misaligned_exception := False,
     breakpoint_trigger_exception := False, wfi_instruction := False\<rparr>"

definition execution_unit :: "ex_in \<Rightarrow> ex_out" where
  "execution_unit i =
     (let out = ex_unstaged i; out = (if \<not> x_stage_enable i then ex_held out else out)
      in if illegal_instruction_exception out then out\<lparr>ex_exception_tval := x_instr i\<rparr> else out)"

section \<open>The outcome of an instruction\<close>

text \<open>
  What the instruction set says of an instruction with the values \<open>a\<close> and \<open>b\<close> of its source registers: a result
  for the next instruction, an access to an address, a jump with its result, a trap with its cause and value, or a
  change of mode. The state it depends on is read from the interface: the mode and the registers that
  restrict it.
\<close>

datatype outcome =
    Result "32 word"
  | Access "32 word"
  | Jump "32 word" "32 word"
  | Trap nat "32 word"
  | Machine_Return
  | Supervisor_Return
  | Sleep

fun load_bytes :: "load_op \<Rightarrow> nat" where
  "load_bytes LB = 1" | "load_bytes LBU = 1" | "load_bytes LH = 2" | "load_bytes LHU = 2" | "load_bytes LW = 4"

fun store_bytes :: "store_op \<Rightarrow> nat" where
  "store_bytes SB = 1" | "store_bytes SH = 2" | "store_bytes SW = 4"

fun condition :: "branch_op \<Rightarrow> 32 word \<Rightarrow> 32 word \<Rightarrow> bool" where
  "condition BEQ a b \<longleftrightarrow> a = b" | "condition BNE a b \<longleftrightarrow> a \<noteq> b"
| "condition BLT a b \<longleftrightarrow> sint a < sint b" | "condition BGE a b \<longleftrightarrow> sint a \<ge> sint b"
| "condition BLTU a b \<longleftrightarrow> uint a < uint b" | "condition BGEU a b \<longleftrightarrow> uint a \<ge> uint b"

definition access :: "nat \<Rightarrow> nat \<Rightarrow> 32 word \<Rightarrow> outcome" where
  "access cause bytes addr = (if unat addr mod bytes = 0 then Access addr else Trap cause addr)"

definition jump :: "32 word \<Rightarrow> 32 word \<Rightarrow> outcome" where
  "jump target v = (if unat target mod 4 = 0 then Jump target v else Trap 0 target)"

text \<open>Register instructions: who may access \<open>csr\<close>, and what an access gives.\<close>

definition counter_open :: "ex_in \<Rightarrow> 12 word \<Rightarrow> bool" where
  "counter_open i csr \<longleftrightarrow>
     list_all (\<lambda>k. csr = 0xC00 + of_nat k \<or> csr = 0xC80 + of_nat k \<longrightarrow>
        x_privilege_mode i = PRIV_M \<or>
        (bit (x_mcounteren i) k \<and> (x_privilege_mode i = PRIV_U \<longrightarrow> bit (x_scounteren i) k))) [0, 1, 2]"

definition csr_accessible :: "ex_in \<Rightarrow> 12 word \<Rightarrow> bool \<Rightarrow> bool" where
  "csr_accessible i csr written \<longleftrightarrow>
     x_csr_valid i \<and> (written \<longrightarrow> unat csr div 0x400 \<noteq> 3) \<and> unat csr div 0x100 mod 4 \<le> unat (x_privilege_mode i) \<and>
     \<not> (csr = CSR_SATP \<and> x_privilege_mode i = PRIV_S \<and> bit (x_mstatus i) 20) \<and> counter_open i csr"

definition csr_outcome :: "ex_in \<Rightarrow> 12 word \<Rightarrow> bool \<Rightarrow> outcome" where
  "csr_outcome i csr written =
     (if csr_accessible i csr written
      then if written then Jump (x_pc_input i + 4) (x_csr_read_data i) else Result (x_csr_read_data i)
      else Trap 2 (x_instr i))"

definition privileged :: "ex_in \<Rightarrow> bool \<Rightarrow> outcome \<Rightarrow> outcome" where
  "privileged i allowed out = (if allowed then out else Trap 2 (x_instr i))"

fun system_outcome :: "ex_in \<Rightarrow> system_op \<Rightarrow> outcome" where
  "system_outcome i ECALL =
     Trap (if x_privilege_mode i = PRIV_U then 8 else if x_privilege_mode i = PRIV_S then 9 else 11) 0"
| "system_outcome i EBREAK = Trap 3 0"
| "system_outcome i MRET = privileged i (x_privilege_mode i = PRIV_M) Machine_Return"
| "system_outcome i SRET =
     privileged i (x_privilege_mode i = PRIV_M \<or> (x_privilege_mode i = PRIV_S \<and> \<not> bit (x_mstatus i) 22)) Supervisor_Return"
| "system_outcome i WFI = privileged i (x_privilege_mode i = PRIV_M \<or> \<not> bit (x_mstatus i) 21) Sleep"

fun rv_outcome :: "ex_in \<Rightarrow> rv_instr \<Rightarrow> 32 word \<Rightarrow> 32 word \<Rightarrow> outcome" where
  "rv_outcome i (Load op _ _ imm) a b = access 4 (load_bytes op) (a + scast imm)"
| "rv_outcome i (Store op _ _ imm) a b = access 6 (store_bytes op) (a + scast imm)"
| "rv_outcome i (Branch op _ _ off) a b =
     (if condition op a b then jump (x_pc_input i + 2 * scast off) 0 else Result 0)"
| "rv_outcome i (Jal _ off) a b = jump (x_pc_input i + 2 * scast off) (x_pc_input i + 4)"
| "rv_outcome i (Jalr _ _ imm) a b = jump ((a + scast imm) AND NOT 1) (x_pc_input i + 4)"
| "rv_outcome i (Lui _ imm) a b = Result (push_bit 12 (ucast imm))"
| "rv_outcome i (Auipc _ imm) a b = Result (x_pc_input i + push_bit 12 (ucast imm))"
| "rv_outcome i (LrW _ _ _) a b = access 4 4 a"
| "rv_outcome i (ScW _ _ _ _) a b = access 6 4 a"
| "rv_outcome i (Amo _ _ _ _ _) a b = access 6 4 a"
| "rv_outcome i (Csr op _ rs1 csr) a b = csr_outcome i csr (op = CSRRW \<or> rs1 \<noteq> 0)"
| "rv_outcome i (CsrImm op _ uimm csr) a b = csr_outcome i csr (op = CSRRW \<or> uimm \<noteq> 0)"
| "rv_outcome i (System op) a b = system_outcome i op"
| "rv_outcome i (SfenceVma _ _) a b =
     privileged i (x_privilege_mode i = PRIV_M \<or> (x_privilege_mode i = PRIV_S \<and> \<not> bit (x_mstatus i) 20))
       (Jump (x_pc_input i + 4) 0)"
| "rv_outcome i (Fence _) a b = Result 0"
| "rv_outcome i FenceI a b = Jump (x_pc_input i + 4) 0"
| "rv_outcome i r a b = Result (the (operation r a b))"

text \<open>The signals of the stage that stand for an outcome; those of a trap leave the data outputs open.\<close>

definition trap_signals :: "ex_in \<Rightarrow> nat \<Rightarrow> 32 word \<Rightarrow> ex_out" where
  "trap_signals i cause tval =
     (let to_s = (x_privilege_mode i \<noteq> PRIV_M \<and> bit (x_medeleg i) cause)
      in ex_quiet\<lparr>jump_signal := True, flush_pipeline := True, trap_to_supervisor := to_s,
           jump_addr := (if to_s then x_stvec i else x_mtvec i), ex_exception_tval := tval,
           instruction_address_misaligned_exception := (cause = 0), illegal_instruction_exception := (cause = 2),
           ebreak_exception := (cause = 3), load_address_misaligned_exception := (cause = 4),
           store_address_misaligned_exception := (cause = 6), ecall_exception := (cause \<in> {8, 9, 11})\<rparr>)"

definition jump_signals :: "32 word \<Rightarrow> ex_out" where
  "jump_signals target = ex_quiet\<lparr>jump_signal := True, jump_addr := target, flush_pipeline := True\<rparr>"

fun realises :: "ex_in \<Rightarrow> ex_out \<Rightarrow> outcome \<Rightarrow> bool" where
  "realises i out (Result v) \<longleftrightarrow> out = ex_quiet\<lparr>exec_output := v\<rparr>"
| "realises i out (Access addr) \<longleftrightarrow> out = ex_quiet\<lparr>ex_mem_addr := addr\<rparr>"
| "realises i out (Jump target v) \<longleftrightarrow> out = (jump_signals target)\<lparr>exec_output := v\<rparr>"
| "realises i out (Trap cause tval) \<longleftrightarrow> out\<lparr>exec_output := 0, ex_mem_addr := 0\<rparr> = trap_signals i cause tval"
| "realises i out Machine_Return \<longleftrightarrow> out = (jump_signals (x_mepc i))\<lparr>mret_instruction := True\<rparr>"
| "realises i out Supervisor_Return \<longleftrightarrow> out = (jump_signals (x_sepc i))\<lparr>sret_instruction := True\<rparr>"
| "realises i out Sleep \<longleftrightarrow> out = (jump_signals (x_pc_input i + 4))\<lparr>wfi_instruction := True\<rparr>"

text \<open>The instruction in the stage, as the decoder passed it on, with no interrupt and no trigger set.\<close>

definition issued :: "ex_in \<Rightarrow> rv_instr \<Rightarrow> bool" where
  "issued i r \<longleftrightarrow>
     wf_instr r \<and> x_instr_valid i \<and> x_stage_enable i \<and> \<not> x_interrupt_pending i \<and> x_trigger_enabled i = 0 \<and>
     x_privilege_mode i \<in> {PRIV_U, PRIV_S, PRIV_M} \<and> x_imm i = d_imm (decoder (encode r)) \<and>
     x_opcode i = d_opcode (decoder (encode r)) \<and> x_instr_id i = d_instr_id (decoder (encode r)) \<and>
     x_rs1_addr i = d_rs1 (decoder (encode r))"

section \<open>The stage against the outcome\<close>

lemma no_trigger: "x_trigger_enabled i = 0 \<Longrightarrow> \<not> trigger_hit i k a"
  by (simp add: trigger_hit_def trigger_match_def)

lemma unat_mod: "(ucast (a :: 32 word) :: 2 word) = 0 \<longleftrightarrow> unat a mod 4 = 0" "bit a 0 \<longleftrightarrow> unat a mod 2 \<noteq> 0"
proof -
  have "(ucast a :: 2 word) = 0 \<longleftrightarrow> unat (ucast a :: 2 word) = 0" by (simp add: unat_eq_0)
  then show "(ucast a :: 2 word) = 0 \<longleftrightarrow> unat a mod 4 = 0" by (simp add: unsigned_ucast_eq take_bit_eq_mod)
  have "bit a 0 \<longleftrightarrow> bit (unat a) 0" by (simp add: bit_unsigned_iff)
  then show "bit a 0 \<longleftrightarrow> unat a mod 2 \<noteq> 0" by (simp add: bit_0 even_iff_mod_2_eq_zero)
qed

lemma load_alignment:
  "load_address_misaligned (snd (load_code op)) a \<longleftrightarrow> unat a mod load_bytes op \<noteq> 0"
  by (cases op) (simp_all add: load_address_misaligned_def unat_mod rtl_simps)

lemma store_alignment:
  "store_address_misaligned (snd (store_code op)) a \<longleftrightarrow> unat a mod store_bytes op \<noteq> 0"
  by (cases op) (simp_all add: store_address_misaligned_def unat_mod rtl_simps)

lemma atomic_alignment:
  "load_address_misaligned INSTR_LR_W a \<longleftrightarrow> unat a mod 4 \<noteq> 0" "\<not> load_address_misaligned INSTR_SC_W a"
  "store_address_misaligned INSTR_SC_W a \<longleftrightarrow> unat a mod 4 \<noteq> 0" "\<not> store_address_misaligned INSTR_LR_W a"
  "\<not> load_address_misaligned (snd (amo_code op)) a" "store_address_misaligned (snd (amo_code op)) a \<longleftrightarrow> unat a mod 4 \<noteq> 0"
  by (cases op; simp add: load_address_misaligned_def store_address_misaligned_def unat_mod rtl_simps)+

lemma branch_condition: "branch_taken (snd (branch_code op)) a b = condition op a b"
  by (cases op) (auto simp: branch_taken_def word_sless_alt word_sle_eq word_less_def word_le_def rtl_simps)

lemma realises_jump:
  "realises i (ex_jump i target (ex_quiet\<lparr>exec_output := v\<rparr>)) (jump target v)"
  by (simp add: ex_jump_def jump_def unat_mod ex_goto_def ex_trap_def trap_signals_def jump_signals_def delegate_def
      ex_quiet_def Let_def)

lemma realises_illegal:
  "realises i ((ex_illegal i ex_quiet)\<lparr>ex_exception_tval := x_instr i\<rparr>) (Trap 2 (x_instr i))"
  by (simp add: ex_illegal_def ex_trap_def trap_signals_def delegate_def ex_quiet_def Let_def)

lemmas ex_parts = ex_goto_def ex_trap_def ex_load_misaligned_def ex_store_misaligned_def ex_illegal_def delegate_def

text \<open>Outside an interrupt, a trigger and a hold, the stage does the case of the opcode.\<close>

definition finish :: "ex_in \<Rightarrow> ex_out \<Rightarrow> ex_out" where
  "finish i out = (if illegal_instruction_exception out then out\<lparr>ex_exception_tval := x_instr i\<rparr> else out)"

lemma issued_finish: "issued i r \<Longrightarrow> execution_unit i = finish i (ex_unstaged i)"
  by (simp add: issued_def execution_unit_def finish_def Let_def)

lemma issued_fields:
  assumes "issued i r"
  shows "x_opcode i = d_opcode (decoded r)" "x_instr_id i = d_instr_id (decoded r)" "x_imm i = d_imm (decoded r)"
    "x_rs1_addr i = d_rs1 (decoded r)" "\<not> x_interrupt_pending i" "\<not> execute_trigger_hit i"
    "\<not> trigger_hit i kind addr" "\<not> atomic_trigger_hit i"
  using assms decoder_encode [of r] no_trigger [of i]
  by (simp_all add: issued_def execute_trigger_hit_def atomic_trigger_hit_def load_trigger_hit_def store_trigger_hit_def)


lemma decoded_valid: "wf_instr r \<Longrightarrow> d_instr_id (decoded r) \<noteq> INSTR_INVALID"
proof (cases r)
  case (Op op) then show ?thesis by (cases op) (simp_all add: outputs_def rtl_simps)
next
  case (OpImm op) then show "wf_instr r \<Longrightarrow> ?thesis" by (auto simp: outputs_def rtl_simps)
next
  case (ShiftImm op) then show "wf_instr r \<Longrightarrow> ?thesis" by (auto simp: outputs_def rtl_simps)
next
  case (Load op) then show ?thesis by (cases op) (simp_all add: outputs_def rtl_simps)
next
  case (Store op) then show ?thesis by (cases op) (simp_all add: outputs_def rtl_simps)
next
  case (Branch op) then show ?thesis by (cases op) (simp_all add: outputs_def rtl_simps)
next
  case (Amo op) then show ?thesis by (cases op) (simp_all add: outputs_def rtl_simps)
next
  case (Csr op) then show ?thesis by (cases op) (simp_all add: outputs_def rtl_simps)
next
  case (CsrImm op) then show ?thesis by (cases op) (simp_all add: outputs_def rtl_simps)
next
  case (System op) then show ?thesis by (cases op) (simp_all add: outputs_def rtl_simps)
qed (simp_all add: outputs_def rtl_simps)

lemma issued_valid: "issued i r \<Longrightarrow> x_instr_id i \<noteq> INSTR_INVALID"
  using decoded_valid [of r] issued_fields(2) [of i r] by (simp add: issued_def)

lemma finish_data [simp]: "finish i (ex_quiet\<lparr>exec_output := v\<rparr>) = ex_quiet\<lparr>exec_output := v\<rparr>"
  "finish i ex_quiet = ex_quiet" "finish i (ex_quiet\<lparr>ex_mem_addr := v\<rparr>) = ex_quiet\<lparr>ex_mem_addr := v\<rparr>"
  by (simp_all add: finish_def ex_quiet_def)

lemma finish_jump [simp]: "finish i (ex_jump i target (ex_quiet\<lparr>exec_output := v\<rparr>)) = ex_jump i target (ex_quiet\<lparr>exec_output := v\<rparr>)"
  by (simp add: finish_def ex_jump_def ex_goto_def ex_trap_def ex_quiet_def)

lemma quiet_zero: "ex_quiet\<lparr>exec_output := 0\<rparr> = ex_quiet"
  by (simp add: ex_quiet_def)

lemmas issue_simps = issued_finish issued_fields issued_valid ex_unstaged_def Let_def outputs_def

lemma realises_computed:
  assumes "issued i r" "operation r (rs1_value i) (rs2_value i) = Some v"
  shows "realises i (execution_unit i) (Result v)"
proof -
  have "wf_instr r" using assms(1) by (simp add: issued_def)
  then have "alu (rs1_value i) (rs2_value i) (x_imm i) (x_instr_id i) = v"
    using alu_decoded [OF _ assms(2)] issued_fields(2,3) [OF assms(1)] by simp
  moreover have "x_opcode i = 0x33 \<or> x_opcode i = 0x13"
    using assms issued_fields(1) [OF assms(1)] by (cases r) (simp_all add: outputs_def)
  ultimately show ?thesis
    using issued_finish [OF assms(1)] issued_valid [OF assms(1)] issued_fields(5,6) [OF assms(1)]
    by (auto simp: ex_unstaged_def Let_def)
qed

lemma realises_load:
  assumes "issued i (Load op rd rs1 imm)"
  shows "realises i (execution_unit i) (rv_outcome i (Load op rd rs1 imm) (rs1_value i) b)"
proof -
  note f = issued_fields [OF assms, simplified, unfolded outputs_def, simplified] issued_valid [OF assms]
  have "execution_unit i = finish i (ex_load i)"
    using f issued_finish [OF assms] by (simp add: ex_unstaged_def Let_def)
  also have "ex_load i = (let a = rs1_value i + scast imm in
      if unat a mod load_bytes op \<noteq> 0 then ex_load_misaligned i a (ex_quiet\<lparr>ex_mem_addr := a\<rparr>) else ex_quiet\<lparr>ex_mem_addr := a\<rparr>)"
    using f by (simp add: ex_load_def Let_def load_alignment)
  finally show ?thesis
    by (auto simp: Let_def access_def finish_def ex_load_misaligned_def ex_trap_def trap_signals_def delegate_def ex_quiet_def)
qed

lemma realises_store:
  assumes "issued i (Store op rs1 rs2 imm)"
  shows "realises i (execution_unit i) (rv_outcome i (Store op rs1 rs2 imm) (rs1_value i) b)"
proof -
  note f = issued_fields [OF assms, simplified, unfolded outputs_def, simplified] issued_valid [OF assms]
  have "execution_unit i = finish i (ex_store i)"
    using f issued_finish [OF assms] by (simp add: ex_unstaged_def Let_def)
  also have "ex_store i = (let a = rs1_value i + scast imm in
      if unat a mod store_bytes op \<noteq> 0 then ex_store_misaligned i a (ex_quiet\<lparr>ex_mem_addr := a\<rparr>) else ex_quiet\<lparr>ex_mem_addr := a\<rparr>)"
    using f by (simp add: ex_store_def Let_def store_alignment)
  finally show ?thesis
    by (auto simp: Let_def access_def finish_def ex_store_misaligned_def ex_trap_def trap_signals_def delegate_def ex_quiet_def)
qed

lemma realises_atomic:
  assumes "issued i r" "r = LrW rd rs1 order \<or> r = ScW rd rs1 rs2 order \<or> r = Amo op rd rs1 rs2 order"
  shows "realises i (execution_unit i) (rv_outcome i r (rs1_value i) b)"
proof -
  note f = issued_fields [OF assms(1)] issued_valid [OF assms(1)]
  have "x_opcode i = 0x2F" using assms(2) f by (auto simp: outputs_def)
  then have "execution_unit i = finish i (ex_atomic i)"
    using f issued_finish [OF assms(1)] by (simp add: ex_unstaged_def Let_def)
  moreover have "ex_atomic i = (let a = rs1_value i; out = ex_quiet\<lparr>ex_mem_addr := a\<rparr> in
      if unat a mod 4 = 0 then out
      else if r = LrW rd rs1 order then ex_load_misaligned i a out else ex_store_misaligned i a out)"
    using assms(2) f by (auto simp: ex_atomic_def Let_def atomic_alignment outputs_def)
  ultimately show ?thesis
    using assms(2)
    by (auto simp: Let_def access_def finish_def ex_store_misaligned_def ex_load_misaligned_def ex_trap_def trap_signals_def
        delegate_def ex_quiet_def)
qed

lemma realises_branch:
  assumes "issued i (Branch op rs1 rs2 off)"
  shows "realises i (execution_unit i) (rv_outcome i (Branch op rs1 rs2 off) (rs1_value i) (rs2_value i))"
proof -
  note f = issued_fields [OF assms, simplified, unfolded outputs_def, simplified] issued_valid [OF assms]
  have "execution_unit i = finish i (ex_branch i)"
    using f issued_finish [OF assms] by (simp add: ex_unstaged_def Let_def)
  also have "ex_branch i = (if condition op (rs1_value i) (rs2_value i)
      then ex_jump i (x_pc_input i + 2 * scast off) (ex_quiet\<lparr>exec_output := 0\<rparr>) else ex_quiet\<lparr>exec_output := 0\<rparr>)"
    using f by (simp add: ex_branch_def branch_condition quiet_zero)
  finally show ?thesis using realises_jump by simp
qed

lemma realises_control:
  assumes "issued i r" "r = Jal rd off \<or> r = Jalr rd rs1 imm \<or> r = Lui rd uimm \<or> r = Auipc rd uimm \<or> r = Fence order \<or> r = FenceI"
  shows "realises i (execution_unit i) (rv_outcome i r (rs1_value i) b)"
proof -
  note f = issued_fields [OF assms(1)] issued_valid [OF assms(1)]
  have even: "(0xFFFFFFFE :: 32 word) = NOT 1" by simp
  have pause: "INSTR_PAUSE \<noteq> INSTR_FENCE_I" "INSTR_FENCE \<noteq> INSTR_FENCE_I" by (simp_all add: rtl_simps)
  show ?thesis
    using assms(2) f issued_finish [OF assms(1)] realises_jump [of i] pause
    by (elim disjE)
       (simp_all add: ex_unstaged_def Let_def outputs_def even quiet_zero, simp_all add: finish_def ex_goto_def jump_signals_def ex_quiet_def)
qed


lemma realises_system:
  assumes "issued i (System op)"
  shows "realises i (execution_unit i) (rv_outcome i (System op) a b)"
proof -
  note f = issued_fields [OF assms, simplified, unfolded outputs_def, simplified] issued_valid [OF assms]
  have mode: "x_privilege_mode i = PRIV_U \<or> x_privilege_mode i = PRIV_S \<or> x_privilege_mode i = PRIV_M"
    using assms by (simp add: issued_def)
  have ids: "INSTR_ECALL \<notin> {INSTR_MRET, INSTR_SRET}" "INSTR_EBREAK \<notin> {INSTR_MRET, INSTR_SRET, INSTR_ECALL}"
    "INSTR_SRET \<noteq> INSTR_MRET" "INSTR_WFI \<notin> {INSTR_MRET, INSTR_SRET, INSTR_ECALL, INSTR_EBREAK}"
    by (simp_all add: rtl_simps)
  have "execution_unit i = finish i (ex_system i)"
    using f issued_finish [OF assms] by (simp add: ex_unstaged_def Let_def)
  then show ?thesis
    using f(2) ids mode
    by (cases op)
       (auto simp: ex_system_def Let_def privileged_def finish_def ex_parts trap_signals_def jump_signals_def ex_quiet_def
         delegate_ecall_def sret_tsr_violation_def wfi_tw_violation_def PRIV_U_def PRIV_S_def PRIV_M_def)
qed

lemma realises_sfence:
  assumes "issued i (SfenceVma rs1 rs2)"
  shows "realises i (execution_unit i) (rv_outcome i (SfenceVma rs1 rs2) a b)"
proof -
  note f = issued_fields [OF assms, simplified, unfolded outputs_def, simplified] issued_valid [OF assms]
  have mode: "x_privilege_mode i = PRIV_U \<or> x_privilege_mode i = PRIV_S \<or> x_privilege_mode i = PRIV_M"
    using assms by (simp add: issued_def)
  have ids: "INSTR_SFENCE_VMA \<notin> {INSTR_MRET, INSTR_SRET, INSTR_ECALL, INSTR_EBREAK, INSTR_WFI}"
    by (simp add: rtl_simps)
  have "execution_unit i = finish i (ex_system i)"
    using f issued_finish [OF assms] by (simp add: ex_unstaged_def Let_def)
  then show ?thesis
    using f(2) ids mode
    by (auto simp: ex_system_def Let_def privileged_def finish_def ex_parts trap_signals_def jump_signals_def ex_quiet_def
         PRIV_U_def PRIV_S_def PRIV_M_def)
qed

lemma csr_fields:
  "(ucast (drop_bit 10 (a :: 12 word)) :: 2 word) = 3 \<longleftrightarrow> unat a div 0x400 = 3"
  "p < (ucast (drop_bit 8 (a :: 12 word)) :: 2 word) \<longleftrightarrow> \<not> unat a div 0x100 mod 4 \<le> unat p"
proof -
  have "unat a < 2 ^ LENGTH(12)" by (rule unsigned_less)
  then have "unat a div 1024 < 4" by (simp add: less_mult_imp_div_less)
  moreover have "unat (ucast (drop_bit 10 a) :: 2 word) = unat a div 1024 mod 4"
    by (simp add: unsigned_ucast_eq take_bit_eq_mod unat_drop_bit_eq drop_bit_eq_div unat_div)
  ultimately show "(ucast (drop_bit 10 a) :: 2 word) = 3 \<longleftrightarrow> unat a div 0x400 = 3"
    by (simp add: word_unat_eq_iff)
  have "unat (ucast (drop_bit 8 a) :: 2 word) = unat a div 256 mod 4"
    by (simp add: unsigned_ucast_eq take_bit_eq_mod unat_drop_bit_eq drop_bit_eq_div unat_div)
  then show "p < (ucast (drop_bit 8 a) :: 2 word) \<longleftrightarrow> \<not> unat a div 0x100 mod 4 \<le> unat p"
    by (simp add: word_less_nat_alt not_le)
qed

lemma counter_rule:
  assumes "x_privilege_mode i \<in> {PRIV_U, PRIV_S, PRIV_M}" "x_csr_addr i = csr"
  shows "csr_counter_access_violation i \<longleftrightarrow> \<not> counter_open i csr"
proof -
  have shadow: "csr_counter_access_violation i \<longleftrightarrow> is_counter_shadow_csr csr \<and> x_privilege_mode i \<noteq> PRIV_M \<and>
      \<not> (allows_counter i (x_mcounteren i) \<and> (x_privilege_mode i = PRIV_U \<longrightarrow> allows_counter i (x_scounteren i)))"
    using assms by (auto simp: csr_counter_access_violation_def PRIV_U_def PRIV_S_def PRIV_M_def)
  show ?thesis
  proof (cases "is_counter_shadow_csr csr")
    case True
    then show ?thesis
      unfolding shadow is_counter_shadow_csr_def
      by (elim disjE; simp add: counter_open_def allows_counter_def is_counter_shadow_csr_def assms(2) rtl_simps)
  next
    case False
    then have "counter_open i csr"
      by (simp add: counter_open_def is_counter_shadow_csr_def rtl_simps)
    with False shadow show ?thesis by simp
  qed
qed


lemma realises_csr:
  assumes "issued i r" "r = Csr op rd src csr \<or> r = CsrImm op rd src csr"
  shows "realises i (execution_unit i) (rv_outcome i r a b)"
proof -
  let ?writes = "op = CSRRW \<or> src \<noteq> 0"
  note f = issued_fields [OF assms(1)] issued_valid [OF assms(1)]
  have mode: "x_privilege_mode i \<in> {PRIV_U, PRIV_S, PRIV_M}" using assms(1) by (simp add: issued_def)
  have opc: "x_opcode i = 0x73" and imm: "x_imm i = ucast csr" and src: "x_rs1_addr i = src"
    and ident: "x_instr_id i \<in> {fst (snd (csr_code op)), snd (snd (csr_code op))}"
    using assms(2) f by (auto simp: outputs_def)
  have addr: "x_csr_addr i = csr"
    unfolding x_csr_addr_def imm by (rule bit_word_eqI) (simp add: bit_word_ucast_iff)
  have exec: "cx_write_enable (x_csr_exec i) = ?writes" "cx_rd_value (x_csr_exec i) = x_csr_read_data i"
    using ident src by (cases op; auto simp: x_csr_exec_def csr_exec_def Let_def rtl_simps)+
  have other: "x_instr_id i \<notin> {INSTR_MRET, INSTR_SRET, INSTR_ECALL, INSTR_EBREAK, INSTR_WFI, INSTR_SFENCE_VMA}"
    using ident by (cases op) (auto simp: rtl_simps)
  have legal: "\<not> (\<not> x_csr_valid i \<or> csr_read_only_violation i \<or> csr_privilege_violation i \<or> csr_satp_tvm_violation i \<or>
      csr_counter_access_violation i) \<longleftrightarrow> csr_accessible i csr ?writes"
    unfolding csr_accessible_def csr_read_only_violation_def csr_privilege_violation_def csr_satp_tvm_violation_def
      counter_rule [OF mode addr] addr exec csr_fields by blast
  have "execution_unit i = finish i (ex_system i)"
    using f opc issued_finish [OF assms(1)] by (simp add: ex_unstaged_def Let_def)
  also have "ex_system i = (if csr_accessible i csr ?writes
      then (let out = ex_quiet\<lparr>exec_output := x_csr_read_data i\<rparr> in if ?writes then ex_goto (x_pc_input i + 4) out else out)
      else ex_illegal i ex_quiet)"
    using other unfolding legal [symmetric] by (simp add: ex_system_def Let_def exec)
  finally have result: "execution_unit i = finish i (if csr_accessible i csr ?writes
      then (let out = ex_quiet\<lparr>exec_output := x_csr_read_data i\<rparr> in if ?writes then ex_goto (x_pc_input i + 4) out else out)
      else ex_illegal i ex_quiet)" .
  have "rv_outcome i r a b = csr_outcome i csr ?writes" using assms(2) by auto
  then show ?thesis
    unfolding result
    by (auto simp: csr_outcome_def Let_def finish_def ex_parts trap_signals_def jump_signals_def ex_quiet_def)
qed

lemma realises_outcome:
  assumes "issued i r"
  shows "realises i (execution_unit i) (rv_outcome i r (rs1_value i) (rs2_value i))"
proof (cases "operation r (rs1_value i) (rs2_value i)")
  case (Some v)
  then have "rv_outcome i r (rs1_value i) (rs2_value i) = Result v" by (cases r) simp_all
  with realises_computed [OF assms Some] show ?thesis by simp
next
  case None
  then show ?thesis
    using assms
    by (cases r)
       (auto intro: realises_load realises_store realises_branch realises_system realises_sfence
         dest: realises_atomic realises_control realises_csr simp del: rv_outcome.simps)
qed


text \<open>A load of a word at an odd address in user mode, with its exception delegated.\<close>

definition demo_ex_in :: ex_in where
  "demo_ex_in =
     \<lparr>x_rs1 = 0x1000, x_rs2 = 0, x_imm = 1, x_rs1_addr = 5, x_opcode = 0x03, x_instr_id = INSTR_LW,
      x_instr_valid = True, x_stage_enable = True, x_pc_input = 0x80000000, x_instr = 0x0012A303, x_forward_a = 0,
      x_forward_b = 0, x_ex_mem_result = 0, x_mem_wb_result = 0, x_csr_read_data = 0, x_csr_rmw_data = 0,
      x_csr_valid = False, x_interrupt_pending = False, x_interrupt_to_supervisor = False, x_interrupt_vector = 0,
      x_mtvec = 0x80000100, x_mepc = 0, x_stvec = 0x80200000, x_sepc = 0, x_medeleg = 0x10, x_privilege_mode = PRIV_U,
      x_mstatus = 0, x_mcounteren = 0, x_scounteren = 0, x_trigger_enabled = 0, x_trigger_control = 0,
      x_trigger_tdata2 = 0\<rparr>"


end
