(* ===== verification/Atomic_Lsu.thy ===== *)
theory Atomic_Lsu
  imports Decoder
begin

text \<open>
  The atomic unit \<open>rtl/core_modules/atomic_lsu.v\<close>: the reservation of \<open>LR.W\<close> and \<open>SC.W\<close> and the new
  word of the read-modify-write instructions. Unlike the ALU it takes the identifiers the decoder
  gives to the instructions of the A extension.
\<close>

unbundle bit_operations_syntax

section \<open>The unit\<close>

record atomic_lsu =
  lr_valid :: bool
  lr_addr :: "32 word"

record atomic_lsu_in =
  al_rst :: bool
  instr_id_mem :: "7 word"
  mem_addr_mem :: "32 word"
  rs2_value_mem :: "32 word"
  mem_read_data :: "32 word"
  mem_hold :: bool
  non_atomic_store_write_enable :: bool
  non_atomic_store_write_addr :: "32 word"

definition is_lr_w :: "atomic_lsu_in \<Rightarrow> bool" where "is_lr_w i \<longleftrightarrow> instr_id_mem i = INSTR_LR_W"
definition is_sc_w :: "atomic_lsu_in \<Rightarrow> bool" where "is_sc_w i \<longleftrightarrow> instr_id_mem i = INSTR_SC_W"

definition is_amo_w :: "atomic_lsu_in \<Rightarrow> bool" where
  "is_amo_w i \<longleftrightarrow>
     instr_id_mem i = INSTR_AMOSWAP_W \<or> instr_id_mem i = INSTR_AMOADD_W \<or> instr_id_mem i = INSTR_AMOAND_W \<or>
     instr_id_mem i = INSTR_AMOOR_W \<or> instr_id_mem i = INSTR_AMOXOR_W \<or> instr_id_mem i = INSTR_AMOMAX_W \<or>
     instr_id_mem i = INSTR_AMOMIN_W \<or> instr_id_mem i = INSTR_AMOMAXU_W \<or> instr_id_mem i = INSTR_AMOMINU_W"

definition atomic_read_enable :: "atomic_lsu_in \<Rightarrow> bool" where
  "atomic_read_enable i \<longleftrightarrow> is_lr_w i \<or> is_amo_w i"

definition atomic_word_aligned :: "atomic_lsu_in \<Rightarrow> bool" where
  "atomic_word_aligned i \<longleftrightarrow> (ucast (mem_addr_mem i) :: 2 word) = 0b00"

definition sc_success :: "atomic_lsu \<Rightarrow> atomic_lsu_in \<Rightarrow> bool" where
  "sc_success s i \<longleftrightarrow> is_sc_w i \<and> atomic_word_aligned i \<and> lr_valid s \<and> lr_addr s = mem_addr_mem i"

definition atomic_write_enable :: "atomic_lsu \<Rightarrow> atomic_lsu_in \<Rightarrow> bool" where
  "atomic_write_enable s i \<longleftrightarrow> (is_sc_w i \<and> sc_success s i) \<or> is_amo_w i"

definition sc_result :: "atomic_lsu \<Rightarrow> atomic_lsu_in \<Rightarrow> 32 word" where
  "sc_result s i = (if sc_success s i then 0 else 1)"

definition atomic_new_word :: "atomic_lsu_in \<Rightarrow> 32 word" where
  "atomic_new_word i =
     (let old = mem_read_data i; rs2 = rs2_value_mem i; ident = instr_id_mem i
      in if ident = INSTR_AMOSWAP_W then rs2
         else if ident = INSTR_AMOADD_W then old + rs2
         else if ident = INSTR_AMOAND_W then old AND rs2
         else if ident = INSTR_AMOOR_W then old OR rs2
         else if ident = INSTR_AMOXOR_W then old XOR rs2
         else if ident = INSTR_AMOMAX_W then (if rs2 \<le>s old then old else rs2)
         else if ident = INSTR_AMOMIN_W then (if old \<le>s rs2 then old else rs2)
         else if ident = INSTR_AMOMAXU_W then (if rs2 \<le> old then old else rs2)
         else if ident = INSTR_AMOMINU_W then (if old \<le> rs2 then old else rs2)
         else 0)"

definition al_reset :: atomic_lsu where "al_reset = \<lparr>lr_valid = False, lr_addr = 0\<rparr>"

definition word_index :: "32 word \<Rightarrow> 30 word" where "word_index addr = ucast (drop_bit 2 addr)"

definition al_step :: "atomic_lsu \<Rightarrow> atomic_lsu_in \<Rightarrow> atomic_lsu" where
  "al_step s i =
     (if al_rst i then al_reset
      else if \<not> mem_hold i then
        (if is_lr_w i \<and> atomic_word_aligned i then s\<lparr>lr_valid := True, lr_addr := mem_addr_mem i\<rparr>
         else if is_sc_w i \<or> is_amo_w i \<or>
                 (non_atomic_store_write_enable i \<and>
                  word_index (non_atomic_store_write_addr i) = word_index (lr_addr s))
         then s\<lparr>lr_valid := False\<rparr>
         else s)
      else s)"

text \<open>The unit before the edge \<open>n\<close>, from reset on.\<close>

fun al_at :: "(nat \<Rightarrow> atomic_lsu_in) \<Rightarrow> nat \<Rightarrow> atomic_lsu" where
  "al_at inp 0 = al_reset"
| "al_at inp (Suc n) = al_step (al_at inp n) (inp n)"

section \<open>What the A extension asks for\<close>

text \<open>
  An instruction that completes in a cycle reserves an address, or breaks the reservation of it: by
  another reservation, by a conditional store or an atomic to anywhere, by a store to its word, or by
  reset. An instruction that waits for memory does neither.
\<close>

definition reserves :: "atomic_lsu_in \<Rightarrow> 32 word \<Rightarrow> bool" where
  "reserves i a \<longleftrightarrow> \<not> al_rst i \<and> \<not> mem_hold i \<and> is_lr_w i \<and> atomic_word_aligned i \<and> mem_addr_mem i = a"

definition breaks :: "atomic_lsu_in \<Rightarrow> 32 word \<Rightarrow> bool" where
  "breaks i a \<longleftrightarrow>
     al_rst i \<or>
     \<not> mem_hold i \<and>
       (is_lr_w i \<and> atomic_word_aligned i \<and> mem_addr_mem i \<noteq> a \<or> is_sc_w i \<or> is_amo_w i \<or>
        non_atomic_store_write_enable i \<and>
        word_index (non_atomic_store_write_addr i) = word_index a)"

fun amo_result :: "amo_op \<Rightarrow> 32 word \<Rightarrow> 32 word \<Rightarrow> 32 word" where
  "amo_result AMOSWAP old b = b"
| "amo_result AMOADD old b = word_of_int (sint old + sint b)"
| "amo_result AMOAND old b = old AND b"
| "amo_result AMOOR old b = old OR b"
| "amo_result AMOXOR old b = old XOR b"
| "amo_result AMOMAX old b = word_of_int (max (sint old) (sint b))"
| "amo_result AMOMIN old b = word_of_int (min (sint old) (sint b))"
| "amo_result AMOMAXU old b = word_of_int (max (uint old) (uint b))"
| "amo_result AMOMINU old b = word_of_int (min (uint old) (uint b))"

lemma atomic_new_word_amo:
  "instr_id_mem i = snd (amo_code op) \<Longrightarrow> atomic_new_word i = amo_result op (mem_read_data i) (rs2_value_mem i)"
  by (cases op)
    (auto simp: atomic_new_word_def Let_def rtl_simps max_def min_def word_sle_eq word_le_def
      intro: signed_word_eqI unsigned_word_eqI)

lemma is_amo_w_iff: "is_amo_w i \<longleftrightarrow> (\<exists>op. instr_id_mem i = snd (amo_code op))"
proof
  show "is_amo_w i \<Longrightarrow> \<exists>op. instr_id_mem i = snd (amo_code op)"
    unfolding is_amo_w_def by (metis amo_code.simps snd_conv)
next
  assume "\<exists>op. instr_id_mem i = snd (amo_code op)"
  then obtain op where "instr_id_mem i = snd (amo_code op)" ..
  then show "is_amo_w i" by (cases op) (simp_all add: is_amo_w_def)
qed

text \<open>The register holds the reservation made by the last instruction nothing has broken since.\<close>

definition reserved :: "(nat \<Rightarrow> atomic_lsu_in) \<Rightarrow> nat \<Rightarrow> 32 word \<Rightarrow> bool" where
  "reserved inp n a \<longleftrightarrow> (\<exists>m < n. reserves (inp m) a \<and> (\<forall>k. m < k \<and> k < n \<longrightarrow> \<not> breaks (inp k) a))"

lemma reserved_Suc:
  "reserved inp (Suc n) a \<longleftrightarrow> reserves (inp n) a \<or> reserved inp n a \<and> \<not> breaks (inp n) a"
  unfolding reserved_def by (auto simp: less_Suc_eq)

lemma al_step_reserved:
  "lr_valid (al_step s i) \<and> lr_addr (al_step s i) = a \<longleftrightarrow>
     reserves i a \<or> (lr_valid s \<and> lr_addr s = a) \<and> \<not> breaks i a"
proof -
  have "\<not> (is_lr_w i \<and> is_sc_w i)" by (simp add: is_lr_w_def is_sc_w_def rtl_simps)
  moreover have "\<not> (is_lr_w i \<and> is_amo_w i)" by (auto simp: is_lr_w_def is_amo_w_def rtl_simps)
  ultimately show ?thesis
    by (auto simp: al_step_def al_reset_def reserves_def breaks_def)
qed

lemma lr_register: "lr_valid (al_at inp n) \<and> lr_addr (al_at inp n) = a \<longleftrightarrow> reserved inp n a"
  by (induction n) (simp_all add: al_step_reserved reserved_Suc, simp_all add: al_reset_def reserved_def)

text \<open>
  C23. Load-reserved and store-conditional: a conditional store succeeds exactly when its address is
  aligned and some earlier completed load-reserved of that very address has not been followed by
  anything that breaks the reservation; it reports 0 then and 1 otherwise, and memory is written only
  then or by an atomic. Every atomic writes the operation of the manual, signed or unsigned, on the old
  word and the register.
\<close>

theorem atomics_correct:
  "(sc_success (al_at inp n) (inp n) \<longleftrightarrow>
      instr_id_mem (inp n) = INSTR_SC_W \<and> atomic_word_aligned (inp n) \<and>
      (\<exists>m < n. reserves (inp m) (mem_addr_mem (inp n)) \<and>
         (\<forall>k. m < k \<and> k < n \<longrightarrow> \<not> breaks (inp k) (mem_addr_mem (inp n))))) \<and>
   sc_result (al_at inp n) (inp n) = (if sc_success (al_at inp n) (inp n) then 0 else 1) \<and>
   (atomic_write_enable (al_at inp n) (inp n) \<longleftrightarrow>
      sc_success (al_at inp n) (inp n) \<or> (\<exists>op. instr_id_mem (inp n) = snd (amo_code op))) \<and>
   (instr_id_mem (inp n) = snd (amo_code op) \<longrightarrow>
      atomic_new_word (inp n) = amo_result op (mem_read_data (inp n)) (rs2_value_mem (inp n)))"
proof (intro conjI impI)
  show "sc_success (al_at inp n) (inp n) \<longleftrightarrow>
      instr_id_mem (inp n) = INSTR_SC_W \<and> atomic_word_aligned (inp n) \<and>
      (\<exists>m < n. reserves (inp m) (mem_addr_mem (inp n)) \<and>
         (\<forall>k. m < k \<and> k < n \<longrightarrow> \<not> breaks (inp k) (mem_addr_mem (inp n))))"
    using lr_register [of inp n "mem_addr_mem (inp n)"] unfolding sc_success_def is_sc_w_def reserved_def by blast
qed (auto simp: sc_result_def atomic_write_enable_def sc_success_def is_amo_w_iff atomic_new_word_amo)

text \<open>A reservation of 16, a load from elsewhere, and the conditional store.\<close>

definition demo_atomics :: "nat \<Rightarrow> atomic_lsu_in" where
  "demo_atomics n =
     \<lparr>al_rst = False, instr_id_mem = (if n = 0 then INSTR_LR_W else if n = 1 then INSTR_LW else if n = 2 then INSTR_SC_W
        else INSTR_AMOMAX_W), mem_addr_mem = 16, rs2_value_mem = 5, mem_read_data = - 1, mem_hold = False,
      non_atomic_store_write_enable = False, non_atomic_store_write_addr = 0\<rparr>"

theorem atomics_correct_witness:
  "sc_success (al_at demo_atomics 2) (demo_atomics 2) \<and> sc_result (al_at demo_atomics 2) (demo_atomics 2) = 0 \<and>
   \<not> sc_success (al_at demo_atomics 3) (demo_atomics 3) \<and> atomic_new_word (demo_atomics 3) = 5"
proof -
  have "reserves (demo_atomics 0) (mem_addr_mem (demo_atomics 2))" "instr_id_mem (demo_atomics 2) = INSTR_SC_W"
    "atomic_word_aligned (demo_atomics 2)" "\<not> breaks (demo_atomics 1) (mem_addr_mem (demo_atomics 2))"
    "instr_id_mem (demo_atomics 3) = snd (amo_code AMOMAX)" "instr_id_mem (demo_atomics 3) \<noteq> INSTR_SC_W"
    "amo_result AMOMAX (mem_read_data (demo_atomics 3)) (rs2_value_mem (demo_atomics 3)) = 5"
    by code_simp+
  moreover have "k = 1" if "0 < k \<and> k < 2" for k :: nat using that by simp
  ultimately show ?thesis
    using atomics_correct [of demo_atomics 2 AMOMAX] atomics_correct [of demo_atomics 3 AMOMAX] by (metis zero_less_numeral)
qed

end
