(* ===== verification/Pipeline.thy ===== *)
theory Pipeline
  imports Execute Atomic_Lsu
begin

text \<open>
  The five-stage core \<open>rtl/riscv_cpu.v\<close>: the pipeline registers of \<open>rtl/pipeline_stages\<close>, the program
  counter, the register file with its write-through, forwarding and the load-use stall, the memory stage with
  its wait and page faults, write-back, WFI, and the redirection of fetches, as one step per clock edge.
\<close>

unbundle bit_operations_syntax

section \<open>The state\<close>

record if_id =
  fi_pc :: "32 word"
  fi_instruction :: "32 word"
  fi_valid :: bool
  fi_page_fault :: bool

record id_ex =
  de_rs1_valid :: bool
  de_rs2_valid :: bool
  de_rd_valid :: bool
  de_imm :: "32 word"
  de_rs1_addr :: "5 word"
  de_rs2_addr :: "5 word"
  de_rd_addr :: "5 word"
  de_opcode :: "7 word"
  de_instr_id :: "7 word"
  de_pc :: "32 word"
  de_instr :: "32 word"
  de_rs1_value :: "32 word"
  de_rs2_value :: "32 word"
  de_valid :: bool
  de_page_fault :: bool

record ex_mem =
  em_rs1_addr :: "5 word"
  em_rs2_addr :: "5 word"
  em_rd_addr :: "5 word"
  em_rs1_value :: "32 word"
  em_rs2_value :: "32 word"
  em_pc :: "32 word"
  em_mem_addr :: "32 word"
  em_exec_output :: "32 word"
  em_jump_signal :: bool
  em_jump_addr :: "32 word"
  em_instr_id :: "7 word"
  em_rd_valid :: bool

record mem_wb =
  mw_rs1_addr :: "5 word"
  mw_rs2_addr :: "5 word"
  mw_rd_addr :: "5 word"
  mw_rs1_value :: "32 word"
  mw_rs2_value :: "32 word"
  mw_pc :: "32 word"
  mw_mem_addr :: "32 word"
  mw_exec_output :: "32 word"
  mw_jump_signal :: bool
  mw_jump_addr :: "32 word"
  mw_instr_id :: "7 word"
  mw_rd_valid :: bool
  mw_mem_data :: "32 word"

record cpu =
  next_pc :: "32 word"
  if_id_inst :: if_id
  id_ex_inst :: id_ex
  ex_mem_inst :: ex_mem
  mem_wb_inst :: mem_wb
  register_file :: "5 word \<Rightarrow> 32 word"
  csr_file_inst :: csr_file
  atomic_lsu_inst :: atomic_lsu
  amo_write_phase :: bool
  amo_read_data :: "32 word"
  fetch_outstanding :: bool
  fetch_discard :: bool
  wfi_active :: bool

record cpu_in =
  ci_rst :: bool
  ci_instr :: "32 word"
  ci_read_data :: "32 word"
  ci_load_page_fault :: bool
  ci_store_page_fault :: bool
  ci_instr_page_fault :: bool
  ci_instr_gnt :: bool
  ci_instr_rvalid :: bool
  ci_data_rvalid :: bool
  ci_store_buffer_empty :: bool
  ci_data_cache_clean :: bool
  ci_timer_interrupt :: bool
  ci_machine_software_interrupt :: bool
  ci_machine_external_interrupt :: bool
  ci_supervisor_external_interrupt :: bool
  ci_mtime :: "64 word"

definition INSTR_MEM_BASE :: "32 word" where "INSTR_MEM_BASE = 0x80000000"

definition NOP :: "32 word" where "NOP = 0x00000013"

definition if_id_bubble :: "32 word \<Rightarrow> if_id" where
  "if_id_bubble pc = \<lparr>fi_pc = pc, fi_instruction = NOP, fi_valid = False, fi_page_fault = False\<rparr>"

definition id_ex_bubble :: "32 word \<Rightarrow> id_ex" where
  "id_ex_bubble pc =
     \<lparr>de_rs1_valid = False, de_rs2_valid = False, de_rd_valid = False, de_imm = 0, de_rs1_addr = 0, de_rs2_addr = 0,
      de_rd_addr = 0, de_opcode = 0b0010011, de_instr_id = INSTR_ADDI, de_pc = pc, de_instr = NOP, de_rs1_value = 0,
      de_rs2_value = 0, de_valid = False, de_page_fault = False\<rparr>"

definition ex_mem_bubble :: "32 word \<Rightarrow> ex_mem" where
  "ex_mem_bubble pc =
     \<lparr>em_rs1_addr = 0, em_rs2_addr = 0, em_rd_addr = 0, em_rs1_value = 0, em_rs2_value = 0, em_pc = pc, em_mem_addr = 0,
      em_exec_output = 0, em_jump_signal = False, em_jump_addr = 0, em_instr_id = 0, em_rd_valid = False\<rparr>"

definition mem_wb_bubble :: "32 word \<Rightarrow> mem_wb" where
  "mem_wb_bubble pc =
     \<lparr>mw_rs1_addr = 0, mw_rs2_addr = 0, mw_rd_addr = 0, mw_rs1_value = 0, mw_rs2_value = 0, mw_pc = pc, mw_mem_addr = 0,
      mw_exec_output = 0, mw_jump_signal = False, mw_jump_addr = 0, mw_instr_id = 0, mw_rd_valid = False, mw_mem_data = 0\<rparr>"

definition cpu_reset :: cpu where
  "cpu_reset =
     \<lparr>next_pc = INSTR_MEM_BASE, if_id_inst = if_id_bubble 0, id_ex_inst = id_ex_bubble 0, ex_mem_inst = ex_mem_bubble 0,
      mem_wb_inst = mem_wb_bubble 0, register_file = (\<lambda>_. 0), csr_file_inst = csr_reset, atomic_lsu_inst = al_reset,
      amo_write_phase = False, amo_read_data = 0, fetch_outstanding = False, fetch_discard = False, wfi_active = False\<rparr>"

section \<open>Write-back and registers\<close>

definition is_load_instr :: "7 word \<Rightarrow> bool" where
  "is_load_instr ident \<longleftrightarrow>
     ident \<in> {INSTR_LB, INSTR_LH, INSTR_LW, INSTR_LBU, INSTR_LHU, INSTR_LR_W, INSTR_AMOSWAP_W, INSTR_AMOADD_W,
             INSTR_AMOAND_W, INSTR_AMOOR_W, INSTR_AMOXOR_W, INSTR_AMOMAX_W, INSTR_AMOMIN_W, INSTR_AMOMAXU_W,
             INSTR_AMOMINU_W}"

definition wb_rd_value :: "mem_wb \<Rightarrow> 32 word" where
  "wb_rd_value m = (if is_load_instr (mw_instr_id m) then mw_mem_data m else mw_exec_output m)"

definition wb_wr_en :: "mem_wb \<Rightarrow> bool" where "wb_wr_en m = mw_rd_valid m"

definition rf_read :: "(5 word \<Rightarrow> 32 word) \<Rightarrow> bool \<Rightarrow> 5 word \<Rightarrow> bool \<Rightarrow> 5 word \<Rightarrow> 32 word \<Rightarrow> 32 word" where
  "rf_read rf rs_valid rs wr_en rd rd_value =
     (if rs_valid then if rs = rd \<and> wr_en \<and> rd \<noteq> 0 then rd_value else rf rs else 0)"

definition rf_step :: "(5 word \<Rightarrow> 32 word) \<Rightarrow> bool \<Rightarrow> 5 word \<Rightarrow> 32 word \<Rightarrow> (5 word \<Rightarrow> 32 word)" where
  "rf_step rf wr_en rd rd_value = (if wr_en \<and> rd \<noteq> 0 then (rf(0 := 0))(rd := rd_value) else rf(0 := 0))"

section \<open>Hazards\<close>

definition forwarding_unit :: "bool \<Rightarrow> 5 word \<Rightarrow> ex_mem \<Rightarrow> mem_wb \<Rightarrow> 2 word" where
  "forwarding_unit rs_valid rs m w =
     (if rs_valid then
        if em_rd_valid m \<and> em_rd_addr m \<noteq> 0 \<and> em_rd_addr m = rs \<and> \<not> is_load_instr (em_instr_id m) then FORWARD_FROM_MEM
        else if mw_rd_valid w \<and> wb_wr_en w \<and> mw_rd_addr w \<noteq> 0 \<and> mw_rd_addr w = rs then FORWARD_FROM_WB
        else NO_FORWARDING
      else NO_FORWARDING)"

definition load_use_detector :: "decoder_out \<Rightarrow> id_ex \<Rightarrow> bool" where
  "load_use_detector d e \<longleftrightarrow>
     is_load_instr (de_instr_id e) \<and> de_rd_valid e \<and> de_rd_addr e \<noteq> 0 \<and>
     ((d_rs1_valid d \<and> d_rs1 d = de_rd_addr e) \<or> (d_rs2_valid d \<and> d_rs2 d = de_rd_addr e))"

definition id_decoder :: "cpu \<Rightarrow> decoder_out" where
  "id_decoder s = decoder (fi_instruction (if_id_inst s))"

definition hazard_stall :: "cpu \<Rightarrow> bool" where
  "hazard_stall s = load_use_detector (id_decoder s) (id_ex_inst s)"

section \<open>The memory stage\<close>

definition mem_unit :: "cpu \<Rightarrow> memory_unit_out" where
  "mem_unit s =
     memory_unit (em_instr_id (ex_mem_inst s)) (em_rs2_value (ex_mem_inst s)) (em_mem_addr (ex_mem_inst s))"

definition ex_mem_std_store_req :: "cpu \<Rightarrow> bool" where
  "ex_mem_std_store_req s \<longleftrightarrow> mu_wr_enable (mem_unit s) \<and> mu_write_byte_enable (mem_unit s) \<noteq> 0"

text \<open>The inputs of the atomic unit that do not depend on the memory of this cycle, and its outputs from them.\<close>

definition lsu_port :: "cpu \<Rightarrow> atomic_lsu_in" where
  "lsu_port s =
     \<lparr>al_rst = False, instr_id_mem = em_instr_id (ex_mem_inst s), mem_addr_mem = em_mem_addr (ex_mem_inst s),
      rs2_value_mem = em_rs2_value (ex_mem_inst s), mem_read_data = 0, mem_hold = False,
      non_atomic_store_write_enable = ex_mem_std_store_req s,
      non_atomic_store_write_addr = mu_wr_addr (mem_unit s)\<rparr>"

definition amo_read_phase :: "cpu \<Rightarrow> bool" where
  "amo_read_phase s \<longleftrightarrow> is_amo_w (lsu_port s) \<and> \<not> amo_write_phase s"

definition ex_mem_read_req :: "cpu \<Rightarrow> bool" where
  "ex_mem_read_req s \<longleftrightarrow>
     mu_read_enable (mem_unit s) \<or>
     (atomic_read_enable (lsu_port s) \<and> \<not> (is_amo_w (lsu_port s) \<and> amo_write_phase s))"

definition ex_mem_read_addr :: "cpu \<Rightarrow> 32 word" where
  "ex_mem_read_addr s =
     (if atomic_read_enable (lsu_port s) then em_mem_addr (ex_mem_inst s) else mu_read_addr (mem_unit s))"

definition ex_mem_read_type :: "cpu \<Rightarrow> 3 word" where
  "ex_mem_read_type s =
     (if is_lr_w (lsu_port s) \<or> is_amo_w (lsu_port s) then 0b010 else mu_load_type (mem_unit s))"

definition mem_read_data_effective :: "cpu \<Rightarrow> cpu_in \<Rightarrow> 32 word" where
  "mem_read_data_effective s i =
     (let data = ci_read_data i
      in if ex_mem_read_req s then
           if ex_mem_read_type s = 0b000 then scast (ucast data :: 8 word)
           else if ex_mem_read_type s = 0b100 then ucast (ucast data :: 8 word)
           else if ex_mem_read_type s = 0b001 then scast (ucast data :: 16 word)
           else if ex_mem_read_type s = 0b101 then ucast (ucast data :: 16 word)
           else data
         else data)"

definition module_mem_wr_en :: "cpu \<Rightarrow> bool" where
  "module_mem_wr_en s \<longleftrightarrow>
     (atomic_write_enable (atomic_lsu_inst s) (lsu_port s) \<and> (\<not> is_amo_w (lsu_port s) \<or> amo_write_phase s)) \<or>
     ex_mem_std_store_req s"

definition module_data_write_intent :: "cpu \<Rightarrow> bool" where
  "module_data_write_intent s \<longleftrightarrow> module_mem_wr_en s \<or> is_amo_w (lsu_port s)"

definition mem_stage_load_page_fault :: "cpu \<Rightarrow> cpu_in \<Rightarrow> bool" where
  "mem_stage_load_page_fault s i \<longleftrightarrow> ci_load_page_fault i \<and> ex_mem_read_req s"

definition mem_stage_store_page_fault :: "cpu \<Rightarrow> cpu_in \<Rightarrow> bool" where
  "mem_stage_store_page_fault s i \<longleftrightarrow> ci_store_page_fault i \<and> module_data_write_intent s"

definition mem_stage_page_fault_taken :: "cpu \<Rightarrow> cpu_in \<Rightarrow> bool" where
  "mem_stage_page_fault_taken s i \<longleftrightarrow> mem_stage_load_page_fault s i \<or> mem_stage_store_page_fault s i"

definition mem_wait :: "cpu \<Rightarrow> cpu_in \<Rightarrow> bool" where
  "mem_wait s i \<longleftrightarrow>
     (ex_mem_read_req s \<or> module_mem_wr_en s) \<and> \<not> (ci_data_rvalid i \<and> \<not> amo_read_phase s) \<and>
     \<not> mem_stage_page_fault_taken s i"

definition lsu_input :: "cpu \<Rightarrow> cpu_in \<Rightarrow> atomic_lsu_in" where
  "lsu_input s i = (lsu_port s)\<lparr>
     al_rst := ci_rst i,
     mem_read_data := (if amo_write_phase s then amo_read_data s else mem_read_data_effective s i),
     mem_hold := mem_wait s i\<rparr>"

definition ex_mem_forward_result :: "cpu \<Rightarrow> 32 word" where
  "ex_mem_forward_result s =
     (if is_sc_w (lsu_port s) then sc_result (atomic_lsu_inst s) (lsu_port s) else em_exec_output (ex_mem_inst s))"

section \<open>Control\<close>

definition mtvec_base :: "csr_file \<Rightarrow> 32 word" where "mtvec_base c = word_cat (ucast (drop_bit 2 (mtvec c)) :: 30 word) (0 :: 2 word)"
definition stvec_base :: "csr_file \<Rightarrow> 32 word" where "stvec_base c = word_cat (ucast (drop_bit 2 (stvec c)) :: 30 word) (0 :: 2 word)"

definition trigger_enabled_in_mode :: "7 word \<Rightarrow> 2 word \<Rightarrow> bool \<Rightarrow> bool \<Rightarrow> bool" where
  "trigger_enabled_in_mode control mode m_enabled s_enabled \<longleftrightarrow>
     (if mode = PRIV_M then bit control 6 \<and> m_enabled
      else if mode = PRIV_S then bit control 4 \<and> s_enabled
      else bit control 3)"

definition trigger_enabled :: "csr_file \<Rightarrow> nat \<Rightarrow> bool" where
  "trigger_enabled c k \<longleftrightarrow>
     trigger_enabled_in_mode (trigger_ctl c (of_nat k)) (privilege_mode c) (bit (mstatus c) 3)
       (\<not> bit (medeleg c) 3 \<or> bit (mstatus c) 1)"

definition trigger_enabled_word :: "csr_file \<Rightarrow> 4 word" where
  "trigger_enabled_word c = fold (\<lambda>k w. if trigger_enabled c k then set_bit k w else w) [0, 1, 2, 3] 0"

definition trigger_control_word :: "csr_file \<Rightarrow> 28 word" where
  "trigger_control_word c =
     word_cat (trigger_ctl c 3) (word_cat (trigger_ctl c 2) (word_cat (trigger_ctl c 1) (trigger_ctl c 0) :: 14 word) :: 21 word)"

definition trigger_tdata2_word :: "csr_file \<Rightarrow> 128 word" where
  "trigger_tdata2_word c =
     word_cat (trigger_addr c 3) (word_cat (trigger_addr c 2) (word_cat (trigger_addr c 1) (trigger_addr c 0) :: 64 word) :: 96 word)"

definition cpu_interrupt :: "cpu \<Rightarrow> interrupt_out" where
  "cpu_interrupt s =
     (let c = csr_file_inst s; e = id_ex_inst s; f = if_id_inst s
      in interrupt_controller (mstatus c) (mie c) (mip c) (mideleg c) (privilege_mode c)
           (if de_valid e then de_pc e else if fi_valid f then fi_pc f else next_pc s))"

definition cpu_interrupt_vector :: "cpu \<Rightarrow> 32 word" where
  "cpu_interrupt_vector s =
     (let c = csr_file_inst s; out = cpu_interrupt s
      in (if interrupt_to_supervisor out then stvec_base c else mtvec_base c) +
         (if (if interrupt_to_supervisor out then bit (stvec c) 0 else bit (mtvec c) 0)
          then word_cat (ucast (interrupt_cause out) :: 30 word) (0 :: 2 word) else 0))"

definition wfi_resume_pending :: "cpu \<Rightarrow> bool" where
  "wfi_resume_pending s \<longleftrightarrow> (mip (csr_file_inst s) AND mie (csr_file_inst s) AND 0x00000AAA) \<noteq> 0"

definition wfi_stall :: "cpu \<Rightarrow> bool" where
  "wfi_stall s \<longleftrightarrow> wfi_active s \<and> \<not> wfi_resume_pending s"

definition fence_drain_stall :: "cpu \<Rightarrow> cpu_in \<Rightarrow> bool" where
  "fence_drain_stall s i \<longleftrightarrow>
     de_valid (id_ex_inst s) \<and>
     ((\<not> ci_store_buffer_empty i \<and>
        (de_instr_id (id_ex_inst s) = INSTR_FENCE \<or> de_instr_id (id_ex_inst s) = INSTR_FENCE_I)) \<or>
      (\<not> ci_data_cache_clean i \<and> de_instr_id (id_ex_inst s) = INSTR_FENCE_I))"

definition ex_stage_active :: "cpu \<Rightarrow> cpu_in \<Rightarrow> bool" where
  "ex_stage_active s i \<longleftrightarrow> \<not> mem_wait s i \<and> \<not> fence_drain_stall s i"

definition pipeline_hold :: "cpu \<Rightarrow> cpu_in \<Rightarrow> bool" where
  "pipeline_hold s i \<longleftrightarrow> wfi_stall s \<or> fence_drain_stall s i \<or> mem_wait s i"

definition pipeline_stall :: "cpu \<Rightarrow> cpu_in \<Rightarrow> bool" where
  "pipeline_stall s i \<longleftrightarrow> hazard_stall s \<or> pipeline_hold s i"

definition fetch_wait :: "cpu \<Rightarrow> cpu_in \<Rightarrow> bool" where
  "fetch_wait s i \<longleftrightarrow> \<not> (ci_instr_rvalid i \<and> \<not> fetch_discard s) \<and> \<not> ci_instr_page_fault i"

section \<open>The execute stage in its place\<close>

definition csr_port :: "cpu \<Rightarrow> cpu_in \<Rightarrow> csr_in" where
  "csr_port s i = csr_idle\<lparr>
     cs_addr := ucast (de_imm (id_ex_inst s)),
     cs_read_enable := de_instr_id (id_ex_inst s) \<in>
       {INSTR_CSRRW, INSTR_CSRRS, INSTR_CSRRC, INSTR_CSRRWI, INSTR_CSRRSI, INSTR_CSRRCI},
     cs_mtime := ci_mtime i\<rparr>"

text \<open>All inputs but the pending interrupt, which the page fault of a fetch, and with it a trigger, can hold back.\<close>

definition ex_port :: "cpu \<Rightarrow> cpu_in \<Rightarrow> ex_in" where
  "ex_port s i =
     (let e = id_ex_inst s; m = ex_mem_inst s; w = mem_wb_inst s; c = csr_file_inst s
      in \<lparr>x_rs1 = de_rs1_value e, x_rs2 = de_rs2_value e, x_imm = de_imm e, x_rs1_addr = de_rs1_addr e,
          x_opcode = de_opcode e, x_instr_id = de_instr_id e, x_instr_valid = de_valid e,
          x_stage_enable = ex_stage_active s i, x_pc_input = de_pc e, x_instr = de_instr e,
          x_forward_a = forwarding_unit (de_rs1_valid e) (de_rs1_addr e) m w,
          x_forward_b = forwarding_unit (de_rs2_valid e) (de_rs2_addr e) m w,
          x_ex_mem_result = ex_mem_forward_result s, x_mem_wb_result = wb_rd_value w,
          x_csr_read_data = csr_read c (csr_port s i), x_csr_rmw_data = rmw_data c (csr_port s i),
          x_csr_valid = csr_valid (cs_addr (csr_port s i)), x_interrupt_pending = False,
          x_interrupt_to_supervisor = interrupt_to_supervisor (cpu_interrupt s),
          x_interrupt_vector = cpu_interrupt_vector s, x_mtvec = mtvec_base c, x_mepc = mepc c,
          x_stvec = stvec_base c, x_sepc = sepc c, x_medeleg = medeleg c, x_privilege_mode = privilege_mode c,
          x_mstatus = mstatus c, x_mcounteren = mcounteren c, x_scounteren = scounteren c,
          x_trigger_enabled = trigger_enabled_word c, x_trigger_control = trigger_control_word c,
          x_trigger_tdata2 = trigger_tdata2_word c\<rparr>)"

definition instr_stage_page_fault_taken :: "cpu \<Rightarrow> cpu_in \<Rightarrow> bool" where
  "instr_stage_page_fault_taken s i \<longleftrightarrow>
     de_page_fault (id_ex_inst s) \<and> de_valid (id_ex_inst s) \<and> ex_stage_active s i \<and>
     \<not> execute_trigger_hit (ex_port s i)"

definition ex_input :: "cpu \<Rightarrow> cpu_in \<Rightarrow> ex_in" where
  "ex_input s i = (ex_port s i)\<lparr>
     x_interrupt_pending := interrupt_pending (cpu_interrupt s) \<and>
       \<not> mem_stage_page_fault_taken s i \<and> \<not> instr_stage_page_fault_taken s i\<rparr>"

definition ex_output :: "cpu \<Rightarrow> cpu_in \<Rightarrow> ex_out" where
  "ex_output s i = execution_unit (ex_input s i)"

definition synchronous_exception_taken :: "cpu \<Rightarrow> cpu_in \<Rightarrow> bool" where
  "synchronous_exception_taken s i \<longleftrightarrow>
     (let x = ex_output s i
      in ecall_exception x \<or> ebreak_exception x \<or> breakpoint_trigger_exception x \<or> illegal_instruction_exception x \<or>
         instruction_address_misaligned_exception x \<or> load_address_misaligned_exception x \<or>
         store_address_misaligned_exception x)"

definition interrupt_taken_qualified :: "cpu \<Rightarrow> cpu_in \<Rightarrow> bool" where
  "interrupt_taken_qualified s i \<longleftrightarrow>
     interrupt_taken (ex_output s i) \<and> \<not> synchronous_exception_taken s i \<and> \<not> mem_stage_page_fault_taken s i \<and>
     \<not> instr_stage_page_fault_taken s i"

definition instret_increment :: "cpu \<Rightarrow> cpu_in \<Rightarrow> bool" where
  "instret_increment s i \<longleftrightarrow>
     de_valid (id_ex_inst s) \<and> ex_stage_active s i \<and> de_instr_id (id_ex_inst s) \<noteq> INSTR_INVALID \<and>
     \<not> interrupt_taken (ex_output s i) \<and> \<not> synchronous_exception_taken s i \<and> \<not> mem_stage_page_fault_taken s i"

section \<open>Traps and redirection\<close>

definition mem_stage_trap_to_supervisor :: "cpu \<Rightarrow> cpu_in \<Rightarrow> bool" where
  "mem_stage_trap_to_supervisor s i \<longleftrightarrow>
     privilege_mode (csr_file_inst s) \<noteq> PRIV_M \<and>
     ((mem_stage_load_page_fault s i \<and> bit (medeleg (csr_file_inst s)) 13) \<or>
      (mem_stage_store_page_fault s i \<and> bit (medeleg (csr_file_inst s)) 15))"

definition instr_stage_trap_to_supervisor :: "cpu \<Rightarrow> bool" where
  "instr_stage_trap_to_supervisor s \<longleftrightarrow>
     privilege_mode (csr_file_inst s) \<noteq> PRIV_M \<and> bit (medeleg (csr_file_inst s)) 12"

definition trap_base :: "cpu \<Rightarrow> bool \<Rightarrow> 32 word" where
  "trap_base s to_s = (if to_s then stvec_base (csr_file_inst s) else mtvec_base (csr_file_inst s))"

definition pc_j_signal :: "cpu \<Rightarrow> cpu_in \<Rightarrow> bool" where
  "pc_j_signal s i \<longleftrightarrow>
     mem_stage_page_fault_taken s i \<or> instr_stage_page_fault_taken s i \<or> jump_signal (ex_output s i)"

definition pc_jump :: "cpu \<Rightarrow> cpu_in \<Rightarrow> 32 word" where
  "pc_jump s i =
     (if mem_stage_page_fault_taken s i then trap_base s (mem_stage_trap_to_supervisor s i)
      else if instr_stage_page_fault_taken s i then trap_base s (instr_stage_trap_to_supervisor s)
      else jump_addr (ex_output s i))"

definition pipeline_flush :: "cpu \<Rightarrow> cpu_in \<Rightarrow> bool" where
  "pipeline_flush s i \<longleftrightarrow>
     jump_signal (ex_output s i) \<or> flush_pipeline (ex_output s i) \<or> mem_stage_page_fault_taken s i \<or>
     instr_stage_page_fault_taken s i"

definition csr_input :: "cpu \<Rightarrow> cpu_in \<Rightarrow> csr_in" where
  "csr_input s i =
     (let x = ex_output s i; cx = x_csr_exec (ex_input s i); e = id_ex_inst s; m = ex_mem_inst s;
          mpf = mem_stage_page_fault_taken s i; ipf = instr_stage_page_fault_taken s i
      in (csr_port s i)\<lparr>
           cs_rst := ci_rst i, cs_write_data := cx_write_data cx,
           cs_write_enable := cx_write_enable cx \<and> ex_stage_active s i,
           cs_interrupt_cause := interrupt_cause (cpu_interrupt s), cs_interrupt_pc := interrupt_pc (cpu_interrupt s),
           cs_exception_pc := (if mpf then em_pc m else if ipf then de_pc e else de_pc e),
           cs_interrupt_taken := interrupt_taken_qualified s i, cs_mret := mret_instruction x,
           cs_sret := sret_instruction x,
           cs_interrupt_to_supervisor := interrupt_to_supervisor (cpu_interrupt s),
           cs_trap_to_supervisor :=
             (if mpf then mem_stage_trap_to_supervisor s i else if ipf then instr_stage_trap_to_supervisor s
              else trap_to_supervisor x),
           cs_ecall := ecall_exception x, cs_ebreak := ebreak_exception x,
           cs_illegal := illegal_instruction_exception x,
           cs_instr_misaligned := instruction_address_misaligned_exception x,
           cs_load_misaligned := load_address_misaligned_exception x,
           cs_store_misaligned := store_address_misaligned_exception x, cs_instr_page_fault := ipf,
           cs_load_page_fault := mem_stage_load_page_fault s i, cs_store_page_fault := mem_stage_store_page_fault s i,
           cs_breakpoint_trigger := breakpoint_trigger_exception x,
           cs_exception_tval := (if mpf then em_mem_addr m else if ipf then de_pc e else ex_exception_tval x),
           cs_instret_increment := instret_increment s i, cs_timer_interrupt := ci_timer_interrupt i,
           cs_machine_software_interrupt := ci_machine_software_interrupt i,
           cs_machine_external_interrupt := ci_machine_external_interrupt i,
           cs_supervisor_external_interrupt := ci_supervisor_external_interrupt i\<rparr>)"

section \<open>The clock edge\<close>

definition pc_next :: "cpu \<Rightarrow> cpu_in \<Rightarrow> 32 word" where
  "pc_next s i =
     (if ci_rst i then INSTR_MEM_BASE
      else if pc_j_signal s i then pc_jump s i
      else if pipeline_stall s i \<or> fetch_wait s i then next_pc s
      else next_pc s + 4)"

definition if_id_next :: "cpu \<Rightarrow> cpu_in \<Rightarrow> if_id" where
  "if_id_next s i =
     (if pipeline_flush s i \<or> (fetch_wait s i \<and> \<not> pipeline_stall s i) then if_id_bubble (next_pc s)
      else if pipeline_stall s i then if_id_inst s
      else \<lparr>fi_pc = next_pc s, fi_instruction = ci_instr i, fi_valid = True, fi_page_fault = ci_instr_page_fault i\<rparr>)"

definition id_ex_next :: "cpu \<Rightarrow> cpu_in \<Rightarrow> id_ex" where
  "id_ex_next s i =
     (let d = id_decoder s; f = if_id_inst s; w = mem_wb_inst s;
          read = (\<lambda>rs_valid rs. rf_read (register_file s) rs_valid rs (wb_wr_en w) (mw_rd_addr w) (wb_rd_value w))
      in if pipeline_flush s i then id_ex_bubble (fi_pc f)
         else if pipeline_hold s i then (id_ex_inst s)
           \<lparr>de_rs1_value := rs1_value (ex_input s i), de_rs2_value := rs2_value (ex_input s i)\<rparr>
         else if hazard_stall s then id_ex_bubble (fi_pc f)
         else \<lparr>de_rs1_valid = d_rs1_valid d, de_rs2_valid = d_rs2_valid d, de_rd_valid = d_rd_valid d, de_imm = d_imm d,
               de_rs1_addr = d_rs1 d, de_rs2_addr = d_rs2 d, de_rd_addr = d_rd d, de_opcode = d_opcode d,
               de_instr_id = d_instr_id d, de_pc = fi_pc f, de_instr = fi_instruction f,
               de_rs1_value = read (d_rs1_valid d) (d_rs1 d), de_rs2_value = read (d_rs2_valid d) (d_rs2 d),
               de_valid = fi_valid f, de_page_fault = fi_page_fault f\<rparr>)"

definition ex_mem_flush :: "cpu \<Rightarrow> cpu_in \<Rightarrow> bool" where
  "ex_mem_flush s i \<longleftrightarrow>
     mem_stage_page_fault_taken s i \<or> instr_stage_page_fault_taken s i \<or> synchronous_exception_taken s i \<or>
     interrupt_taken_qualified s i"

definition ex_mem_next :: "cpu \<Rightarrow> cpu_in \<Rightarrow> ex_mem" where
  "ex_mem_next s i =
     (let e = id_ex_inst s; x = ex_output s i
      in if ex_mem_flush s i then ex_mem_bubble (de_pc e)
         else if mem_wait s i then ex_mem_inst s
         else \<lparr>em_rs1_addr = de_rs1_addr e, em_rs2_addr = de_rs2_addr e, em_rd_addr = de_rd_addr e,
               em_rs1_value = rs1_value (ex_input s i), em_rs2_value = rs2_value (ex_input s i), em_pc = de_pc e,
               em_mem_addr = ex_mem_addr x, em_exec_output = exec_output x, em_jump_signal = jump_signal x,
               em_jump_addr = jump_addr x, em_instr_id = de_instr_id e, em_rd_valid = de_rd_valid e\<rparr>)"

definition mem_wb_next :: "cpu \<Rightarrow> cpu_in \<Rightarrow> mem_wb" where
  "mem_wb_next s i =
     (let m = ex_mem_inst s; fault = mem_stage_page_fault_taken s i
      in if mem_wait s i then mem_wb_bubble (em_pc m)
         else \<lparr>mw_rs1_addr = em_rs1_addr m, mw_rs2_addr = em_rs2_addr m, mw_rd_addr = em_rd_addr m,
               mw_rs1_value = em_rs1_value m, mw_rs2_value = em_rs2_value m, mw_pc = em_pc m, mw_mem_addr = em_mem_addr m,
               mw_exec_output = ex_mem_forward_result s, mw_jump_signal = em_jump_signal m,
               mw_jump_addr = em_jump_addr m, mw_instr_id = (if fault then 0 else em_instr_id m),
               mw_rd_valid = (if fault then False else em_rd_valid m),
               mw_mem_data = (if amo_write_phase s then amo_read_data s else mem_read_data_effective s i)\<rparr>)"

definition cpu_step :: "cpu \<Rightarrow> cpu_in \<Rightarrow> cpu" where
  "cpu_step s i =
     (if ci_rst i then cpu_reset
      else \<lparr>next_pc = pc_next s i, if_id_inst = if_id_next s i, id_ex_inst = id_ex_next s i,
            ex_mem_inst = ex_mem_next s i, mem_wb_inst = mem_wb_next s i,
            register_file =
              rf_step (register_file s) (wb_wr_en (mem_wb_inst s)) (mw_rd_addr (mem_wb_inst s)) (wb_rd_value (mem_wb_inst s)),
            csr_file_inst = csr_step (csr_file_inst s) (csr_input s i),
            atomic_lsu_inst = al_step (atomic_lsu_inst s) (lsu_input s i),
            amo_write_phase =
              (if amo_read_phase s \<and> ci_data_rvalid i then True
               else if amo_write_phase s \<and> ci_data_rvalid i then False
               else amo_write_phase s),
            amo_read_data =
              (if amo_read_phase s \<and> ci_data_rvalid i then mem_read_data_effective s i else amo_read_data s),
            fetch_outstanding =
              (if ci_instr_rvalid i then False else if ci_instr_gnt i then True else fetch_outstanding s),
            fetch_discard =
              (if pc_j_signal s i \<and> (fetch_outstanding s \<or> ci_instr_gnt i) \<and> \<not> ci_instr_rvalid i then True
               else if ci_instr_rvalid i then False else fetch_discard s),
            wfi_active =
              (if wfi_resume_pending s then False
               else if wfi_instruction (ex_output s i) then True else wfi_active s)\<rparr>)"

fun cpu_run :: "cpu \<Rightarrow> cpu_in list \<Rightarrow> cpu" where
  "cpu_run s [] = s"
| "cpu_run s (i # is) = cpu_run (cpu_step s i) is"

section \<open>The signals to the memory system\<close>

record cpu_out =
  co_pc :: "32 word"
  co_next_pc :: "32 word"
  co_mem_wr_en :: bool
  co_mem_rd_en :: bool
  co_wr_data :: "32 word"
  co_read_addr :: "32 word"
  co_write_addr :: "32 word"
  co_write_byte_enable :: "4 word"
  co_load_type :: "3 word"
  co_data_write_intent :: bool
  co_tlb_flush :: bool
  co_instr_cache_flush :: bool
  co_next_data_addr :: "32 word"
  co_data_cache_clean_req :: bool
  co_data_mmu_enable :: bool
  co_data_privilege :: "2 word"
  co_satp :: "32 word"
  co_data_sum :: bool
  co_data_mxr :: bool
  co_instr_mmu_enable :: bool
  co_instr_privilege :: "2 word"

definition data_privilege_mode :: "csr_file \<Rightarrow> 2 word" where
  "data_privilege_mode c =
     (if privilege_mode c = PRIV_M \<and> bit (mstatus c) 17 then get_mpp (mstatus c) else privilege_mode c)"

definition cpu_output :: "cpu \<Rightarrow> cpu_in \<Rightarrow> cpu_out" where
  "cpu_output s i =
     (let e = id_ex_inst s; m = ex_mem_inst s; c = csr_file_inst s; atomic = atomic_write_enable (atomic_lsu_inst s) (lsu_port s)
      in \<lparr>co_pc = next_pc s, co_next_pc = pc_next s i, co_mem_wr_en = module_mem_wr_en s, co_mem_rd_en = ex_mem_read_req s,
          co_wr_data =
            (if atomic then if is_amo_w (lsu_port s) then atomic_new_word (lsu_input s i) else em_rs2_value m
             else mu_wr_data (mem_unit s)),
          co_read_addr = ex_mem_read_addr s,
          co_write_addr = (if atomic then em_mem_addr m else mu_wr_addr (mem_unit s)),
          co_write_byte_enable = (if atomic then 0b1111 else mu_write_byte_enable (mem_unit s)),
          co_load_type = ex_mem_read_type s, co_data_write_intent = module_data_write_intent s,
          co_tlb_flush =
            (ex_stage_active s i \<and> de_valid e \<and>
             (de_instr_id e = INSTR_SFENCE_VMA \<or>
              (cx_write_enable (x_csr_exec (ex_input s i)) \<and> x_csr_addr (ex_input s i) = 0x180))),
          co_instr_cache_flush = (ex_stage_active s i \<and> de_valid e \<and> de_instr_id e = INSTR_FENCE_I),
          co_next_data_addr = (if mem_wait s i then em_mem_addr m else ex_mem_addr (ex_output s i)),
          co_data_cache_clean_req = (de_valid e \<and> de_instr_id e = INSTR_FENCE_I),
          co_data_mmu_enable = (data_privilege_mode c \<noteq> PRIV_M \<and> bit (satp c) 31),
          co_data_privilege = data_privilege_mode c, co_satp = satp c, co_data_sum = bit (mstatus c) 18,
          co_data_mxr = bit (mstatus c) 19,
          co_instr_mmu_enable = (privilege_mode c \<noteq> PRIV_M \<and> bit (satp c) 31),
          co_instr_privilege = privilege_mode c\<rparr>)"

end
