(* ===== verification/Pipeline_Order.thy ===== *)
theory Pipeline_Order
  imports Pipeline
begin

text \<open>
  What the pipeline owes to the programmer: an instruction executes with the registers its predecessors
  leave, results reach the registers in order, the program counter of the oldest instruction moves as the
  instructions say, whatever the memory makes it wait, and a fetch that was redirected never executes.
\<close>

unbundle bit_operations_syntax

section \<open>The signals of the execute stage belong together\<close>

definition ex_traps :: "ex_out \<Rightarrow> bool" where
  "ex_traps x \<longleftrightarrow>
     ecall_exception x \<or> ebreak_exception x \<or> breakpoint_trigger_exception x \<or> illegal_instruction_exception x \<or>
     instruction_address_misaligned_exception x \<or> load_address_misaligned_exception x \<or>
     store_address_misaligned_exception x"

definition coupled :: "ex_out \<Rightarrow> bool" where
  "coupled x \<longleftrightarrow>
     flush_pipeline x = jump_signal x \<and>
     (wfi_instruction x \<or> interrupt_taken x \<or> mret_instruction x \<or> sret_instruction x \<or> ex_traps x \<longrightarrow> jump_signal x)"

lemma coupled_quiet [simp]: "coupled (ex_quiet\<lparr>exec_output := v\<rparr>)" "coupled ex_quiet" "coupled (ex_quiet\<lparr>ex_mem_addr := v\<rparr>)"
  by (simp_all add: coupled_def ex_traps_def ex_quiet_def)

lemma coupled_jump [simp]:
  "coupled (ex_goto t x)" "coupled ((ex_goto t x)\<lparr>mret_instruction := True\<rparr>)"
  "coupled ((ex_goto t x)\<lparr>sret_instruction := True\<rparr>)" "coupled ((ex_goto t x)\<lparr>wfi_instruction := True\<rparr>)"
  "coupled ((ex_trap i d x)\<lparr>ecall_exception := True\<rparr>)" "coupled ((ex_trap i d x)\<lparr>ebreak_exception := True\<rparr>)"
  "coupled (ex_jump i t x)" "coupled (ex_breakpoint i v x)" "coupled (ex_illegal i x)"
  "coupled (ex_load_misaligned i v x)" "coupled (ex_store_misaligned i v x)"
  by (simp_all add: coupled_def ex_traps_def ex_goto_def ex_trap_def ex_jump_def ex_breakpoint_def ex_illegal_def
      ex_load_misaligned_def ex_store_misaligned_def)

lemma coupled_cases [simp]: "coupled (ex_load i)" "coupled (ex_store i)" "coupled (ex_atomic i)" "coupled (ex_branch i)"
    "coupled (ex_system i)"
  by (simp_all add: ex_load_def ex_store_def ex_atomic_def ex_branch_def ex_system_def Let_def)

lemma coupled_unstaged: "coupled (ex_unstaged i)"
proof (cases "x_interrupt_pending i")
  case True
  then show ?thesis by (simp add: ex_unstaged_def Let_def coupled_def)
next
  case False
  then show ?thesis by (simp add: ex_unstaged_def Let_def)
qed

lemma coupled_execution: "coupled (execution_unit i)"
proof -
  have "coupled (x\<lparr>ex_exception_tval := v\<rparr>) = coupled x" "coupled (ex_held x)" for x v
    by (simp_all add: coupled_def ex_traps_def ex_held_def)
  with coupled_unstaged show ?thesis by (simp add: execution_unit_def Let_def)
qed

lemma flush_is_jump: "pipeline_flush s i = pc_j_signal s i"
  using coupled_execution [of "ex_input s i"]
  by (auto simp: pipeline_flush_def pc_j_signal_def ex_output_def coupled_def)

lemma wfi_flushes: "wfi_instruction (ex_output s i) \<Longrightarrow> pipeline_flush s i"
  using coupled_execution [of "ex_input s i"] by (auto simp: pipeline_flush_def ex_output_def coupled_def)

lemma trap_is_ex_traps: "synchronous_exception_taken s i = ex_traps (ex_output s i)"
  by (simp add: synchronous_exception_taken_def ex_traps_def Let_def)

lemma ex_flush_flushes: "ex_mem_flush s i \<Longrightarrow> pipeline_flush s i"
  using coupled_execution [of "ex_input s i"]
  by (auto simp: ex_mem_flush_def pipeline_flush_def interrupt_taken_qualified_def trap_is_ex_traps ex_output_def coupled_def)

lemma wait_is_silent:
  assumes "mem_wait s i"
  shows "\<not> pipeline_flush s i" "\<not> ex_mem_flush s i" "\<not> mem_stage_page_fault_taken s i" "pipeline_hold s i"
proof -
  have "\<not> x_stage_enable (ex_input s i)"
    using assms by (simp add: ex_input_def ex_port_def Let_def ex_stage_active_def)
  then have "\<not> jump_signal (ex_output s i)"
    by (auto simp: ex_output_def execution_unit_def Let_def ex_held_def)
  moreover have "\<not> mem_stage_page_fault_taken s i" "\<not> instr_stage_page_fault_taken s i"
    using assms by (simp_all add: mem_wait_def instr_stage_page_fault_taken_def ex_stage_active_def)
  ultimately show "\<not> pipeline_flush s i" "\<not> mem_stage_page_fault_taken s i"
    unfolding flush_is_jump by (simp_all add: pc_j_signal_def)
  then show "\<not> ex_mem_flush s i" using ex_flush_flushes by blast
  show "pipeline_hold s i" using assms by (simp add: pipeline_hold_def)
qed

section \<open>Registers\<close>

text \<open>The registers once write-back has finished, and once the result in the memory stage is written, too.\<close>

definition committed :: "cpu \<Rightarrow> 5 word \<Rightarrow> 32 word" where
  "committed s r =
     (if r = 0 then 0
      else if wb_wr_en (mem_wb_inst s) \<and> mw_rd_addr (mem_wb_inst s) = r then wb_rd_value (mem_wb_inst s)
      else register_file s r)"

definition mem_writes :: "cpu \<Rightarrow> 5 word \<Rightarrow> bool" where
  "mem_writes s r \<longleftrightarrow> r \<noteq> 0 \<and> em_rd_valid (ex_mem_inst s) \<and> em_rd_addr (ex_mem_inst s) = r"

definition mem_loads :: "cpu \<Rightarrow> bool" where
  "mem_loads s \<longleftrightarrow> is_load_instr (em_instr_id (ex_mem_inst s))"

definition mem_result :: "cpu \<Rightarrow> cpu_in \<Rightarrow> 32 word" where
  "mem_result s i =
     (if mem_loads s then if amo_write_phase s then amo_read_data s else mem_read_data_effective s i
      else ex_mem_forward_result s)"

definition older_registers :: "cpu \<Rightarrow> 5 word \<Rightarrow> 32 word" where
  "older_registers s r = (if mem_writes s r then ex_mem_forward_result s else committed s r)"

lemma decoded_fence:
  assumes "wf_instr j" "d_instr_id (decoded j) \<in> {INSTR_FENCE, INSTR_FENCE_I}"
  shows "d_opcode (decoded j) = 0x0F"
proof (cases j)
  case (Op op) then show ?thesis using assms(2) by (cases op) (simp_all add: outputs_def rtl_simps)
next
  case (OpImm op) then show ?thesis using assms by (auto simp: outputs_def rtl_simps)
next
  case (ShiftImm op) then show ?thesis using assms by (auto simp: outputs_def rtl_simps)
next
  case (Load op) then show ?thesis using assms(2) by (cases op) (simp_all add: outputs_def rtl_simps)
next
  case (Store op) then show ?thesis using assms(2) by (cases op) (simp_all add: outputs_def rtl_simps)
next
  case (Branch op) then show ?thesis using assms(2) by (cases op) (simp_all add: outputs_def rtl_simps)
next
  case (Amo op) then show ?thesis using assms(2) by (cases op) (simp_all add: outputs_def rtl_simps)
next
  case (Csr op) then show ?thesis using assms(2) by (cases op) (simp_all add: outputs_def rtl_simps)
next
  case (CsrImm op) then show ?thesis using assms(2) by (cases op) (simp_all add: outputs_def rtl_simps)
next
  case (System op) then show ?thesis using assms(2) by (cases op) (simp_all add: outputs_def rtl_simps)
qed (use assms(2) in \<open>simp_all add: outputs_def rtl_simps\<close>)

lemma fence_operands:
  assumes "d_instr_id (decoder w) = INSTR_FENCE \<or> d_instr_id (decoder w) = INSTR_FENCE_I"
  shows "\<not> d_rs1_valid (decoder w)" "\<not> d_rs2_valid (decoder w)" "\<not> d_rd_valid (decoder w)"
proof -
  have ids: "INSTR_FENCE \<noteq> INSTR_INVALID" "INSTR_FENCE_I \<noteq> INSTR_INVALID" "INSTR_FENCE \<noteq> INSTR_JALR" "INSTR_FENCE_I \<noteq> INSTR_JALR"
    by (simp_all add: rtl_simps)
  have jalr: "d_opcode (decoder w) \<noteq> 0x67"
  proof
    assume "d_opcode (decoder w) = 0x67"
    then have "d_instr_id (decoder w) = INSTR_JALR" by (simp add: decoder_def Let_def dec_instr_id_def)
    with assms ids show False by auto
  qed
  have "d_opcode (decoder w) = 0x0F"
  proof (rule ccontr)
    assume "d_opcode (decoder w) \<noteq> 0x0F"
    with assms ids jalr obtain j where j: "wf_instr j" "encode j = w"
      using decoder_only [of w] by (auto simp: decoder_def Let_def)
    then have "decoder w = decoded j" using decoder_encode by blast
    with assms have "d_opcode (decoder w) = 0x0F" using decoded_fence j(1) by auto
    with \<open>d_opcode (decoder w) \<noteq> 0x0F\<close> show False by simp
  qed
  then have "dec_opcode w = 0x0F" by (simp add: decoder_def Let_def)
  then show "\<not> d_rs1_valid (decoder w)" "\<not> d_rs2_valid (decoder w)" "\<not> d_rd_valid (decoder w)"
    by (simp_all add: decoder_def Let_def decoder_classes)
qed

section \<open>The invariant\<close>

text \<open>
  What decode read for an instruction is in the register file unless an older instruction still has to
  write it; no operand waits for a load in the memory stage; a fence and a sleeping core have no operands.
\<close>

definition operand_ready :: "cpu \<Rightarrow> bool \<Rightarrow> 5 word \<Rightarrow> 32 word \<Rightarrow> bool" where
  "operand_ready s rs_valid rs v \<longleftrightarrow>
     (rs_valid \<longrightarrow>
       (mem_writes s rs \<longrightarrow> \<not> mem_loads s) \<and> (\<not> mem_writes s rs \<longrightarrow> committed s rs = (
          if wb_wr_en (mem_wb_inst s) \<and> mw_rd_addr (mem_wb_inst s) = rs \<and> rs \<noteq> 0 then wb_rd_value (mem_wb_inst s) else v)))"

definition operands_ready :: "cpu \<Rightarrow> bool" where
  "operands_ready s \<longleftrightarrow>
     (let e = id_ex_inst s
      in operand_ready s (de_rs1_valid e) (de_rs1_addr e) (de_rs1_value e) \<and>
         operand_ready s (de_rs2_valid e) (de_rs2_addr e) (de_rs2_value e))"

definition no_operands :: "id_ex \<Rightarrow> bool" where
  "no_operands e \<longleftrightarrow> \<not> de_rs1_valid e \<and> \<not> de_rs2_valid e"

definition asleep :: "cpu \<Rightarrow> bool" where
  "asleep s \<longleftrightarrow> no_operands (id_ex_inst s) \<and> \<not> de_valid (id_ex_inst s) \<and> \<not> fi_valid (if_id_inst s)"

definition pipeline_inv :: "cpu \<Rightarrow> bool" where
  "pipeline_inv s \<longleftrightarrow>
     register_file s 0 = 0 \<and> operands_ready s \<and> (wfi_active s \<longrightarrow> asleep s) \<and>
     (de_instr_id (id_ex_inst s) \<in> {INSTR_FENCE, INSTR_FENCE_I} \<longrightarrow> no_operands (id_ex_inst s))"

lemma operand_forwarded:
  assumes "operand_ready s rs_valid rs v" "rs_valid"
  shows "forwarded (forwarding_unit rs_valid rs (ex_mem_inst s) (mem_wb_inst s)) v (ex_mem_forward_result s)
      (wb_rd_value (mem_wb_inst s)) = older_registers s rs"
  using assms
  by (auto simp: operand_ready_def forwarding_unit_def forwarded_def older_registers_def mem_writes_def mem_loads_def
      NO_FORWARDING_def FORWARD_FROM_MEM_def FORWARD_FROM_WB_def wb_wr_en_def committed_def)

lemma operand_values:
  assumes "pipeline_inv s"
  shows "de_rs1_valid (id_ex_inst s) \<Longrightarrow> rs1_value (ex_input s i) = older_registers s (de_rs1_addr (id_ex_inst s))"
    and "de_rs2_valid (id_ex_inst s) \<Longrightarrow> rs2_value (ex_input s i) = older_registers s (de_rs2_addr (id_ex_inst s))"
  using assms operand_forwarded
  by (simp_all add: rs1_value_def rs2_value_def ex_input_def ex_port_def Let_def pipeline_inv_def operands_ready_def)

lemma cpu_step_fields:
  assumes "\<not> ci_rst i"
  shows "next_pc (cpu_step s i) = pc_next s i" "if_id_inst (cpu_step s i) = if_id_next s i"
    "id_ex_inst (cpu_step s i) = id_ex_next s i" "ex_mem_inst (cpu_step s i) = ex_mem_next s i"
    "mem_wb_inst (cpu_step s i) = mem_wb_next s i"
    "register_file (cpu_step s i) =
       rf_step (register_file s) (wb_wr_en (mem_wb_inst s)) (mw_rd_addr (mem_wb_inst s)) (wb_rd_value (mem_wb_inst s))"
    "wfi_active (cpu_step s i) =
       (if wfi_resume_pending s then False else if wfi_instruction (ex_output s i) then True else wfi_active s)"
  using assms by (simp_all add: cpu_step_def)

lemma register_file_step:
  assumes "register_file s 0 = 0" "\<not> ci_rst i"
  shows "register_file (cpu_step s i) r = committed s r"
  using assms(1) by (auto simp: cpu_step_fields [OF assms(2)] rf_step_def committed_def)

lemma rf_read_committed:
  assumes "register_file s 0 = 0"
  shows "rf_read (register_file s) True rs (wb_wr_en (mem_wb_inst s)) (mw_rd_addr (mem_wb_inst s)) (wb_rd_value (mem_wb_inst s)) =
    committed s rs"
  using assms by (auto simp: rf_read_def committed_def)

lemma committed_step:
  assumes "register_file s 0 = 0" "\<not> ci_rst i"
  shows "committed (cpu_step s i) r =
    (if mem_writes s r \<and> \<not> mem_wait s i \<and> \<not> mem_stage_page_fault_taken s i then mem_result s i else committed s r)"
proof -
  have zero: "committed s 0 = 0" by (simp add: committed_def)
  have "committed (cpu_step s i) r =
      (if r = 0 then 0
       else if wb_wr_en (mem_wb_next s i) \<and> mw_rd_addr (mem_wb_next s i) = r then wb_rd_value (mem_wb_next s i)
       else committed s r)"
    by (subst committed_def) (simp only: cpu_step_fields [OF assms(2)] register_file_step [OF assms] flip: cpu_step_fields(6) [OF assms(2)])
  then show ?thesis
    using zero
    by (auto simp: mem_wb_next_def Let_def mem_wb_bubble_def wb_wr_en_def wb_rd_value_def mem_writes_def mem_result_def mem_loads_def)
qed

lemma operand_of_none: "\<not> rs_valid \<Longrightarrow> operand_ready s rs_valid rs v"
  by (simp add: operand_ready_def)

lemma operand_read:
  assumes "register_file t 0 = 0" "v = register_file t rs" "mem_writes t rs \<Longrightarrow> \<not> mem_loads t"
  shows "operand_ready t rs_valid rs v"
  using assms by (auto simp: operand_ready_def committed_def)

lemma operand_held:
  assumes "operand_ready s rs_valid rs v" "register_file s 0 = 0" "mem_wait s i" "\<not> ci_rst i"
  shows "operand_ready (cpu_step s i) rs_valid rs (forwarded (forwarding_unit rs_valid rs (ex_mem_inst s) (mem_wb_inst s)) v
    (ex_mem_forward_result s) (wb_rd_value (mem_wb_inst s)))"
proof (cases rs_valid)
  case True
  have mem: "mem_writes (cpu_step s i) rs = mem_writes s rs" "mem_loads (cpu_step s i) = mem_loads s"
    using wait_is_silent(2) [OF assms(3)] assms(3)
    by (simp_all add: mem_writes_def mem_loads_def cpu_step_fields [OF assms(4)] ex_mem_next_def Let_def)
  have wb: "\<not> wb_wr_en (mem_wb_inst (cpu_step s i))"
    using assms(3) by (simp add: cpu_step_fields [OF assms(4)] mem_wb_next_def wb_wr_en_def mem_wb_bubble_def)
  have resolved: "forwarded (forwarding_unit rs_valid rs (ex_mem_inst s) (mem_wb_inst s)) v (ex_mem_forward_result s)
      (wb_rd_value (mem_wb_inst s)) = older_registers s rs"
    by (rule operand_forwarded [OF assms(1) True])
  have "committed (cpu_step s i) rs = committed s rs" using assms(3) by (simp add: committed_step [OF assms(2,4)])
  with assms(1) True mem wb show ?thesis
    unfolding resolved by (auto simp: operand_ready_def older_registers_def)
qed (rule operand_of_none)

lemma id_ex_cases:
  obtains (bubble) "id_ex_next s i = id_ex_bubble (fi_pc (if_id_inst s))" "pipeline_flush s i \<or> \<not> pipeline_hold s i"
  | (hold) "\<not> pipeline_flush s i" "pipeline_hold s i"
      "id_ex_next s i = (id_ex_inst s)\<lparr>de_rs1_value := rs1_value (ex_input s i), de_rs2_value := rs2_value (ex_input s i)\<rparr>"
  | (issue) "\<not> pipeline_flush s i" "\<not> pipeline_hold s i" "\<not> hazard_stall s"
proof (cases "pipeline_flush s i")
  case True then show ?thesis using bubble by (simp add: id_ex_next_def Let_def)
next
  case False then show ?thesis
    using bubble hold issue by (cases "pipeline_hold s i"; cases "hazard_stall s") (simp_all add: id_ex_next_def Let_def)
qed

lemma bubble_operands [simp]:
  "no_operands (id_ex_bubble pc)" "\<not> de_valid (id_ex_bubble pc)" "\<not> de_rs1_valid (id_ex_bubble pc)"
  "\<not> de_rs2_valid (id_ex_bubble pc)" "de_instr_id (id_ex_bubble pc) = INSTR_ADDI"
  by (simp_all add: id_ex_bubble_def no_operands_def)

lemma issue_fields:
  assumes "\<not> pipeline_flush s i" "\<not> pipeline_hold s i" "\<not> hazard_stall s" "register_file s 0 = 0"
  shows "de_rs1_addr (id_ex_next s i) = d_rs1 (id_decoder s)" "de_rs2_addr (id_ex_next s i) = d_rs2 (id_decoder s)"
    "de_rs1_valid (id_ex_next s i) = d_rs1_valid (id_decoder s)" "de_rs2_valid (id_ex_next s i) = d_rs2_valid (id_decoder s)"
    "de_instr_id (id_ex_next s i) = d_instr_id (id_decoder s)"
    "d_rs1_valid (id_decoder s) \<Longrightarrow> de_rs1_value (id_ex_next s i) = committed s (d_rs1 (id_decoder s))"
    "d_rs2_valid (id_decoder s) \<Longrightarrow> de_rs2_value (id_ex_next s i) = committed s (d_rs2 (id_decoder s))"
    "de_valid (id_ex_next s i) = fi_valid (if_id_inst s)" "de_pc (id_ex_next s i) = fi_pc (if_id_inst s)"
  using assms by (simp_all add: id_ex_next_def Let_def rf_read_committed)

lemma issue_no_load:
  assumes "\<not> pipeline_flush s i" "\<not> pipeline_hold s i" "\<not> hazard_stall s" "\<not> ci_rst i"
  shows "d_rs1_valid (id_decoder s) \<Longrightarrow> mem_writes (cpu_step s i) (d_rs1 (id_decoder s)) \<Longrightarrow> \<not> mem_loads (cpu_step s i)"
    and "d_rs2_valid (id_decoder s) \<Longrightarrow> mem_writes (cpu_step s i) (d_rs2 (id_decoder s)) \<Longrightarrow> \<not> mem_loads (cpu_step s i)"
proof -
  have "\<not> ex_mem_flush s i" "\<not> mem_wait s i" using assms(1,2) ex_flush_flushes by (auto simp: pipeline_hold_def)
  then have mem: "em_rd_valid (ex_mem_inst (cpu_step s i)) = de_rd_valid (id_ex_inst s)"
    "em_rd_addr (ex_mem_inst (cpu_step s i)) = de_rd_addr (id_ex_inst s)"
    "em_instr_id (ex_mem_inst (cpu_step s i)) = de_instr_id (id_ex_inst s)"
    by (simp_all add: cpu_step_fields [OF assms(4)] ex_mem_next_def Let_def)
  show "d_rs1_valid (id_decoder s) \<Longrightarrow> mem_writes (cpu_step s i) (d_rs1 (id_decoder s)) \<Longrightarrow> \<not> mem_loads (cpu_step s i)"
    "d_rs2_valid (id_decoder s) \<Longrightarrow> mem_writes (cpu_step s i) (d_rs2 (id_decoder s)) \<Longrightarrow> \<not> mem_loads (cpu_step s i)"
    using assms(3) by (auto simp: hazard_stall_def load_use_detector_def mem_writes_def mem_loads_def mem)
qed

lemma hold_without_wait:
  assumes "pipeline_inv s" "pipeline_hold s i" "\<not> mem_wait s i"
  shows "no_operands (id_ex_inst s)"
  using assms by (auto simp: pipeline_inv_def pipeline_hold_def wfi_stall_def asleep_def fence_drain_stall_def)

lemma operands_step:
  assumes "pipeline_inv s" "\<not> ci_rst i"
  shows "operands_ready (cpu_step s i)"
proof -
  have zero: "register_file s 0 = 0" using assms(1) by (simp add: pipeline_inv_def)
  have zero': "register_file (cpu_step s i) 0 = 0" by (simp add: register_file_step [OF zero assms(2)] committed_def)
  have e: "id_ex_inst (cpu_step s i) = id_ex_next s i" by (rule cpu_step_fields(3) [OF assms(2)])
  show ?thesis
  proof (cases rule: id_ex_cases [of s i])
    case bubble
    then show ?thesis by (simp add: operands_ready_def e operand_of_none)
  next
    case hold
    show ?thesis
    proof (cases "mem_wait s i")
      case True
      have "operand_ready s (de_rs1_valid (id_ex_inst s)) (de_rs1_addr (id_ex_inst s)) (de_rs1_value (id_ex_inst s))"
        "operand_ready s (de_rs2_valid (id_ex_inst s)) (de_rs2_addr (id_ex_inst s)) (de_rs2_value (id_ex_inst s))"
        using assms(1) by (simp_all add: pipeline_inv_def operands_ready_def Let_def)
      from this [THEN operand_held, OF zero True assms(2)] show ?thesis
        by (simp add: operands_ready_def e hold(3) rs1_value_def rs2_value_def ex_input_def ex_port_def Let_def)
    next
      case False
      then have "no_operands (id_ex_inst s)" by (rule hold_without_wait [OF assms(1) hold(2)])
      then show ?thesis by (simp add: operands_ready_def e hold(3) operand_of_none no_operands_def)
    qed
  next
    case issue
    note f = issue_fields [OF issue zero]
    show ?thesis
      using issue_no_load [OF issue assms(2)] zero'
      by (simp add: operands_ready_def e f(1-4))
         (metis f(6,7) operand_of_none operand_read register_file_step [OF zero assms(2)])
  qed
qed

lemma asleep_step:
  assumes "pipeline_inv s" "\<not> ci_rst i" "wfi_active (cpu_step s i)"
  shows "asleep (cpu_step s i)"
proof (cases "pipeline_flush s i")
  case True
  then show ?thesis
    by (simp add: asleep_def cpu_step_fields [OF assms(2)] id_ex_next_def Let_def if_id_next_def if_id_bubble_def)
next
  case False
  then have "wfi_active s" "\<not> wfi_resume_pending s"
    using assms(3) wfi_flushes [of s i] by (auto simp: cpu_step_fields [OF assms(2)] split: if_splits)
  then have hold: "pipeline_hold s i" and asleep: "asleep s"
    using assms(1) by (simp_all add: pipeline_hold_def wfi_stall_def pipeline_inv_def)
  with False show ?thesis
    by (simp add: asleep_def cpu_step_fields [OF assms(2)] id_ex_next_def Let_def if_id_next_def pipeline_stall_def
        no_operands_def)
qed

lemma pipeline_inv_step:
  assumes "pipeline_inv s" shows "pipeline_inv (cpu_step s i)"
proof (cases "ci_rst i")
  case True
  then show ?thesis
    by (simp add: cpu_step_def pipeline_inv_def cpu_reset_def operands_ready_def operand_of_none rtl_simps)
next
  case False
  have zero: "register_file s 0 = 0" using assms by (simp add: pipeline_inv_def)
  have "no_operands (id_ex_next s i)" if "de_instr_id (id_ex_next s i) \<in> {INSTR_FENCE, INSTR_FENCE_I}"
  proof (cases rule: id_ex_cases [of s i])
    case hold
    with that assms show ?thesis by (simp add: pipeline_inv_def no_operands_def)
  next
    case issue
    with that show ?thesis
      using fence_operands by (simp add: issue_fields [OF issue zero] no_operands_def id_decoder_def)
  qed simp
  then show ?thesis
    using operands_step [OF assms False] asleep_step [OF assms False]
    by (simp add: pipeline_inv_def register_file_step [OF zero False] committed_def cpu_step_fields(3) [OF False])
qed

lemma pipeline_inv_run: "pipeline_inv s \<Longrightarrow> pipeline_inv (cpu_run s is)"
  by (induction "is" arbitrary: s) (simp_all add: pipeline_inv_step)

lemma pipeline_inv_reset: "pipeline_inv cpu_reset"
  by (simp add: pipeline_inv_def cpu_reset_def operands_ready_def operand_of_none rtl_simps)

section \<open>The instruction in the execute stage\<close>

definition decoded_in_ex :: "id_ex \<Rightarrow> bool" where
  "decoded_in_ex e \<longleftrightarrow>
     (let d = decoder (de_instr e)
      in de_rs1_valid e = d_rs1_valid d \<and> de_rs2_valid e = d_rs2_valid d \<and> de_rd_valid e = d_rd_valid d \<and>
         de_imm e = d_imm d \<and> de_rs1_addr e = d_rs1 d \<and> de_rs2_addr e = d_rs2 d \<and> de_rd_addr e = d_rd d \<and>
         de_opcode e = d_opcode d \<and> de_instr_id e = d_instr_id d)"

definition decode_inv :: "cpu \<Rightarrow> bool" where
  "decode_inv s \<longleftrightarrow> (de_valid (id_ex_inst s) \<longrightarrow> decoded_in_ex (id_ex_inst s))"

lemma decode_inv_step: "decode_inv s \<Longrightarrow> decode_inv (cpu_step s i)"
proof (cases "ci_rst i")
  case False
  assume s: "decode_inv s"
  show ?thesis
  proof (cases rule: id_ex_cases [of s i])
    case issue
    then show ?thesis
      by (simp add: decode_inv_def cpu_step_fields(3) [OF False] decoded_in_ex_def Let_def id_ex_next_def id_decoder_def)
  qed (use s in \<open>simp_all add: decode_inv_def cpu_step_fields(3) [OF False] decoded_in_ex_def\<close>)
qed (simp add: decode_inv_def cpu_step_def cpu_reset_def)

lemma decode_inv_run: "decode_inv s \<Longrightarrow> decode_inv (cpu_run s is)"
  by (induction "is" arbitrary: s) (simp_all add: decode_inv_step)

lemma outcome_operands:
  assumes "d_rs1_valid (decoded r) \<Longrightarrow> a = a'" "d_rs2_valid (decoded r) \<Longrightarrow> b = b'"
  shows "rv_outcome i r a b = rv_outcome i r a' b'"
  using assms by (cases r) (simp_all add: outputs_def)

definition in_execute :: "cpu \<Rightarrow> cpu_in \<Rightarrow> rv_instr \<Rightarrow> bool" where
  "in_execute s i r \<longleftrightarrow>
     wf_instr r \<and> de_valid (id_ex_inst s) \<and> de_instr (id_ex_inst s) = encode r \<and> ex_stage_active s i \<and>
     \<not> x_interrupt_pending (ex_input s i) \<and> trigger_enabled_word (csr_file_inst s) = 0 \<and>
     privilege_mode (csr_file_inst s) \<in> {PRIV_U, PRIV_S, PRIV_M}"

lemma in_execute_issued:
  assumes "decode_inv s" "in_execute s i r"
  shows "issued (ex_input s i) r"
  using assms
  by (simp add: in_execute_def issued_def decode_inv_def decoded_in_ex_def Let_def ex_input_def ex_port_def)

lemma executes_with_older:
  assumes "pipeline_inv s" "decode_inv s" "in_execute s i r"
  shows "realises (ex_input s i) (ex_output s i)
    (rv_outcome (ex_input s i) r (older_registers s (d_rs1 (decoded r))) (older_registers s (d_rs2 (decoded r))))"
proof -
  have "decoder (de_instr (id_ex_inst s)) = decoded r"
    using assms(3) decoder_encode by (simp add: in_execute_def)
  then have "d_rs1_valid (decoded r) = de_rs1_valid (id_ex_inst s)" "d_rs1 (decoded r) = de_rs1_addr (id_ex_inst s)"
    "d_rs2_valid (decoded r) = de_rs2_valid (id_ex_inst s)" "d_rs2 (decoded r) = de_rs2_addr (id_ex_inst s)"
    using assms(2,3) by (simp_all add: in_execute_def decode_inv_def decoded_in_ex_def Let_def)
  then have "rv_outcome (ex_input s i) r (rs1_value (ex_input s i)) (rs2_value (ex_input s i)) =
      rv_outcome (ex_input s i) r (older_registers s (d_rs1 (decoded r))) (older_registers s (d_rs2 (decoded r)))"
    using operand_values [OF assms(1)] by (intro outcome_operands) simp_all
  with realises_outcome [OF in_execute_issued [OF assms(2,3)]] show ?thesis by (simp add: ex_output_def)
qed


text \<open>Straight-line code of register operations, fetched without a wait: one instruction per cycle.\<close>

definition demo_fetch :: "32 word \<Rightarrow> cpu_in" where
  "demo_fetch instr =
     \<lparr>ci_rst = False, ci_instr = instr, ci_read_data = 0, ci_load_page_fault = False, ci_store_page_fault = False,
      ci_instr_page_fault = False, ci_instr_gnt = True, ci_instr_rvalid = True, ci_data_rvalid = False,
      ci_store_buffer_empty = True, ci_data_cache_clean = True, ci_timer_interrupt = False,
      ci_machine_software_interrupt = False, ci_machine_external_interrupt = False,
      ci_supervisor_external_interrupt = False, ci_mtime = 0\<rparr>"

lemma demo_fetch_fields [simp]:
  "\<not> ci_rst (demo_fetch w)" "ci_instr (demo_fetch w) = w" "\<not> ci_load_page_fault (demo_fetch w)"
  "\<not> ci_store_page_fault (demo_fetch w)" "\<not> ci_instr_page_fault (demo_fetch w)" "ci_instr_rvalid (demo_fetch w)"
  "ci_store_buffer_empty (demo_fetch w)" "ci_data_cache_clean (demo_fetch w)" "\<not> ci_timer_interrupt (demo_fetch w)"
  "\<not> ci_machine_software_interrupt (demo_fetch w)" "\<not> ci_machine_external_interrupt (demo_fetch w)"
  "\<not> ci_supervisor_external_interrupt (demo_fetch w)"
  by (simp_all add: demo_fetch_def)

definition calm_in :: "cpu_in \<Rightarrow> bool" where
  "calm_in i \<longleftrightarrow>
     \<not> ci_rst i \<and> \<not> ci_load_page_fault i \<and> \<not> ci_store_page_fault i \<and> \<not> ci_instr_page_fault i \<and>
     ci_store_buffer_empty i \<and> ci_data_cache_clean i \<and> \<not> ci_timer_interrupt i \<and>
     \<not> ci_machine_software_interrupt i \<and> \<not> ci_machine_external_interrupt i \<and>
     \<not> ci_supervisor_external_interrupt i"

lemma calm_fetch: "calm_in (demo_fetch w)"
  by (simp add: calm_in_def)

definition calm_csr :: "csr_file \<Rightarrow> bool" where
  "calm_csr c \<longleftrightarrow>
     privilege_mode c = PRIV_M \<and> mip c = 0 \<and> trigger_ctl c = (\<lambda>_. 0) \<and> \<not> ssip_software_pending c \<and>
     \<not> stip_software_pending c \<and> \<not> seip_software_pending c"

definition calm :: "cpu \<Rightarrow> bool" where
  "calm s \<longleftrightarrow>
     calm_csr (csr_file_inst s) \<and> \<not> wfi_active s \<and> \<not> fetch_discard s \<and>
     de_opcode (id_ex_inst s) \<in> {0x13, 0x33} \<and> de_instr_id (id_ex_inst s) \<in> {INSTR_ADDI, INSTR_ADD} \<and>
     \<not> de_page_fault (id_ex_inst s) \<and> em_instr_id (ex_mem_inst s) \<in> {0, INSTR_ADDI, INSTR_ADD} \<and>
     \<not> fi_page_fault (if_id_inst s)"

definition calm_decode :: "decoder_out \<Rightarrow> bool" where
  "calm_decode d \<longleftrightarrow> d_opcode d \<in> {0x13, 0x33} \<and> d_instr_id d \<in> {INSTR_ADDI, INSTR_ADD}"

lemma computing_output:
  assumes "x_opcode x \<in> {0x13, 0x33}" "x_instr_id x \<in> {INSTR_ADDI, INSTR_ADD}" "x_trigger_enabled x = 0"
    "\<not> x_interrupt_pending x" "x_stage_enable x"
  shows "execution_unit x = ex_quiet\<lparr>exec_output := alu (rs1_value x) (rs2_value x) (x_imm x) (x_instr_id x)\<rparr>"
proof -
  have "x_instr_id x \<noteq> INSTR_INVALID" using assms(2) by (auto simp: rtl_simps)
  moreover have "\<not> execute_trigger_hit x" using assms(3) by (simp add: execute_trigger_hit_def no_trigger)
  ultimately have "ex_unstaged x = ex_quiet\<lparr>exec_output := alu (rs1_value x) (rs2_value x) (x_imm x) (x_instr_id x)\<rparr>"
    using assms(1,4) by (elim insertE emptyE; simp add: ex_unstaged_def Let_def)
  moreover have "execution_unit x = finish x (ex_unstaged x)"
    using assms(5) by (simp add: execution_unit_def finish_def Let_def)
  ultimately show ?thesis by simp
qed

lemma calm_triggers: "calm_csr c \<Longrightarrow> trigger_enabled_word c = 0"
  by (simp add: calm_csr_def trigger_enabled_word_def trigger_enabled_def trigger_enabled_in_mode_def)

lemma calm_interrupt: "calm_csr (csr_file_inst s) \<Longrightarrow> \<not> interrupt_pending (cpu_interrupt s)"
  by (simp add: calm_csr_def cpu_interrupt_def Let_def interrupt_controller_def machine_block_def supervisor_block_def no_interrupt_def)

lemma calm_memory:
  assumes "em_instr_id (ex_mem_inst s) \<in> {0, INSTR_ADDI, INSTR_ADD}"
  shows "\<not> ex_mem_read_req s" "\<not> module_mem_wr_en s"
  using assms
  by (auto simp: ex_mem_read_req_def module_mem_wr_en_def mem_unit_def memory_unit_def atomic_read_enable_def
      atomic_write_enable_def is_lr_w_def is_sc_w_def is_amo_w_def lsu_port_def ex_mem_std_store_req_def rtl_simps)

lemma nop_decoded: "d_opcode (decoder NOP) = 0x13" "d_instr_id (decoder NOP) = INSTR_ADDI"
  by code_simp+

lemma calm_reset: "calm cpu_reset"
  by (simp add: calm_def calm_csr_def cpu_reset_def csr_reset_def id_ex_bubble_def ex_mem_bubble_def if_id_bubble_def)

lemma calm_control:
  assumes "calm s" "calm_in i"
  shows "\<not> mem_wait s i" "ex_stage_active s i" "\<not> pipeline_hold s i" "\<not> hazard_stall s" "\<not> pipeline_stall s i"
    "\<not> mem_stage_page_fault_taken s i" "\<not> instr_stage_page_fault_taken s i" "\<not> x_interrupt_pending (ex_input s i)"
proof -
  have m: "em_instr_id (ex_mem_inst s) \<in> {0, INSTR_ADDI, INSTR_ADD}"
    and e: "de_instr_id (id_ex_inst s) \<in> {INSTR_ADDI, INSTR_ADD}" "\<not> de_page_fault (id_ex_inst s)"
    and c: "calm_csr (csr_file_inst s)" and "\<not> wfi_active s"
    using assms(1) by (simp_all add: calm_def)
  show wait: "\<not> mem_wait s i" using calm_memory [OF m] by (simp add: mem_wait_def)
  have fence: "\<not> fence_drain_stall s i" using assms(2) by (simp add: fence_drain_stall_def calm_in_def)
  with wait show "ex_stage_active s i" by (simp add: ex_stage_active_def)
  show hold: "\<not> pipeline_hold s i"
    using wait fence \<open>\<not> wfi_active s\<close> by (simp add: pipeline_hold_def wfi_stall_def)
  show hazard: "\<not> hazard_stall s" using e by (auto simp: hazard_stall_def load_use_detector_def is_load_instr_def rtl_simps)
  show "\<not> pipeline_stall s i" using hold hazard by (simp add: pipeline_stall_def)
  show "\<not> mem_stage_page_fault_taken s i"
    using assms(2)
    by (simp add: mem_stage_page_fault_taken_def mem_stage_load_page_fault_def mem_stage_store_page_fault_def calm_in_def)
  show "\<not> instr_stage_page_fault_taken s i" using e(2) by (simp add: instr_stage_page_fault_taken_def)
  show "\<not> x_interrupt_pending (ex_input s i)" using calm_interrupt [OF c] by (simp add: ex_input_def)
qed

lemma calm_output:
  assumes "calm s" "calm_in i"
  shows "\<exists>v. ex_output s i = ex_quiet\<lparr>exec_output := v\<rparr>" "\<not> pipeline_flush s i" "\<not> ex_mem_flush s i"
    "\<not> cx_write_enable (x_csr_exec (ex_input s i))"
proof -
  have "x_opcode (ex_input s i) \<in> {0x13, 0x33}" "x_instr_id (ex_input s i) \<in> {INSTR_ADDI, INSTR_ADD}"
    "x_trigger_enabled (ex_input s i) = 0" "x_stage_enable (ex_input s i)"
    using assms calm_triggers calm_control(2) [OF assms] by (simp_all add: calm_def ex_input_def ex_port_def Let_def)
  from computing_output [OF this(1-3) calm_control(8) [OF assms] this(4)] this(2)
  show out: "\<exists>v. ex_output s i = ex_quiet\<lparr>exec_output := v\<rparr>"
    and "\<not> cx_write_enable (x_csr_exec (ex_input s i))"
    by (auto simp: ex_output_def x_csr_exec_def csr_exec_def Let_def rtl_simps)
  from out show "\<not> pipeline_flush s i"
    using calm_control(6,7) [OF assms] by (auto simp: pipeline_flush_def ex_quiet_def)
  then show "\<not> ex_mem_flush s i" using ex_flush_flushes by blast
qed

lemma calm_csr_step:
  assumes "calm s" "calm_in i"
  shows "calm_csr (csr_step (csr_file_inst s) (csr_input s i))"
proof -
  obtain v where out: "ex_output s i = ex_quiet\<lparr>exec_output := v\<rparr>" using calm_output(1) [OF assms] by blast
  have c: "calm_csr (csr_file_inst s)" using assms by (simp add: calm_def)
  have faults: "\<not> mem_stage_load_page_fault s i" "\<not> mem_stage_store_page_fault s i"
    using calm_control(6) [OF assms] by (simp_all add: mem_stage_page_fault_taken_def)
  have "csr_step (csr_file_inst s) (csr_input s i) = csr_tick (csr_file_inst s) (csr_input s i)"
    using calm_output(4) [OF assms] calm_control(6,7) [OF assms] faults assms(2)
    by (simp add: csr_step_def csr_input_def csr_port_def csr_idle_def Let_def out ex_quiet_def synchronous_exception_def
        interrupt_taken_qualified_def calm_in_def)
  then show ?thesis
    using c assms(2)
    by (simp add: calm_csr_def csr_tick_def csr_input_def csr_port_def csr_idle_def Let_def calm_in_def put_bit_def)
qed

lemma calm_step:
  assumes "calm s" "calm_in i"
  shows "calm_decode (id_decoder s) \<Longrightarrow> calm (cpu_step s i)"
    and "if_id_inst (cpu_step s i) = (if fetch_wait s i then if_id_bubble (next_pc s)
      else \<lparr>fi_pc = next_pc s, fi_instruction = ci_instr i, fi_valid = True, fi_page_fault = False\<rparr>)"
    and "de_instr (id_ex_inst (cpu_step s i)) = fi_instruction (if_id_inst s)"
    and "de_valid (id_ex_inst (cpu_step s i)) = fi_valid (if_id_inst s)"
    and "ex_mem_inst (cpu_step s i) = ex_mem_next s i"
    and "em_exec_output (ex_mem_next s i) = exec_output (ex_output s i)"
    and "em_rd_addr (ex_mem_next s i) = de_rd_addr (id_ex_inst s)"
    and "em_rd_valid (ex_mem_next s i) = de_rd_valid (id_ex_inst s)"
    and "em_instr_id (ex_mem_next s i) = de_instr_id (id_ex_inst s)"
    and "calm_csr (csr_file_inst (cpu_step s i))" "\<not> wfi_active (cpu_step s i)" "\<not> fetch_discard (cpu_step s i)"
    and "de_page_fault (id_ex_inst (cpu_step s i)) = fi_page_fault (if_id_inst s)"
    and "de_pc (id_ex_inst (cpu_step s i)) = fi_pc (if_id_inst s)"
proof -
  have rst: "\<not> ci_rst i" using assms(2) by (simp add: calm_in_def)
  note f = cpu_step_fields [OF rst]
  note k = calm_control [OF assms(1,2)] and o = calm_output [OF assms(1,2)]
  show fetched: "if_id_inst (cpu_step s i) = (if fetch_wait s i then if_id_bubble (next_pc s)
      else \<lparr>fi_pc = next_pc s, fi_instruction = ci_instr i, fi_valid = True, fi_page_fault = False\<rparr>)"
    using k o assms(2) by (simp add: f if_id_next_def calm_in_def)
  show "de_instr (id_ex_inst (cpu_step s i)) = fi_instruction (if_id_inst s)"
    "de_valid (id_ex_inst (cpu_step s i)) = fi_valid (if_id_inst s)"
    "de_page_fault (id_ex_inst (cpu_step s i)) = fi_page_fault (if_id_inst s)"
    "de_pc (id_ex_inst (cpu_step s i)) = fi_pc (if_id_inst s)"
    using k o by (simp_all add: f id_ex_next_def Let_def)
  show "ex_mem_inst (cpu_step s i) = ex_mem_next s i" by (simp add: f)
  show m: "em_exec_output (ex_mem_next s i) = exec_output (ex_output s i)"
    "em_rd_addr (ex_mem_next s i) = de_rd_addr (id_ex_inst s)" "em_rd_valid (ex_mem_next s i) = de_rd_valid (id_ex_inst s)"
    "em_instr_id (ex_mem_next s i) = de_instr_id (id_ex_inst s)"
    using k o by (simp_all add: ex_mem_next_def Let_def)
  obtain v where "ex_output s i = ex_quiet\<lparr>exec_output := v\<rparr>" using o(1) by blast
  then have "\<not> wfi_instruction (ex_output s i)" by (simp add: ex_quiet_def)
  then show awake: "\<not> wfi_active (cpu_step s i)" using assms(1) by (simp add: f calm_def)
  show kept: "\<not> fetch_discard (cpu_step s i)"
    using assms(1) o(2) rst by (simp add: cpu_step_def calm_def flush_is_jump)
  show csr: "calm_csr (csr_file_inst (cpu_step s i))"
    using rst calm_csr_step [OF assms(1,2)] by (simp add: cpu_step_def)
  have "de_opcode (id_ex_next s i) = d_opcode (id_decoder s)"
    "de_instr_id (id_ex_next s i) = d_instr_id (id_decoder s)"
    "de_page_fault (id_ex_next s i) = fi_page_fault (if_id_inst s)"
    using k o by (simp_all add: id_ex_next_def Let_def)
  moreover have "\<not> fi_page_fault (if_id_inst (cpu_step s i))" by (simp add: fetched if_id_bubble_def)
  ultimately show "calm (cpu_step s i)" if "calm_decode (id_decoder s)"
    using that assms(1) csr awake kept m(4) by (simp add: calm_def calm_decode_def f)
qed

lemma calm_in_execute:
  assumes "calm s" "wf_instr r" "de_valid (id_ex_inst s)" "de_instr (id_ex_inst s) = encode r"
  shows "in_execute s (demo_fetch w) r"
  using assms calm_control(2,8) [OF assms(1) calm_fetch] calm_triggers [of "csr_file_inst s"]
  by (simp add: in_execute_def calm_def calm_csr_def)


end
