(* ===== verification/Pipeline_Flow.thy ===== *)
theory Pipeline_Flow
  imports Pipeline_Order
begin

text \<open>
  The flow of control through the pipeline: the program counter of the oldest instruction that has not
  executed, the fetches that a redirection makes stale, and two cases in which a page fault in the
  memory stage meets an instruction that changes the state of the hart.
\<close>

unbundle bit_operations_syntax

section \<open>The oldest instruction\<close>

text \<open>Its address: in the execute stage, else in decode, else still to be fetched.\<close>

definition oldest_pc :: "cpu \<Rightarrow> 32 word" where
  "oldest_pc s =
     (if de_valid (id_ex_inst s) then de_pc (id_ex_inst s)
      else if fi_valid (if_id_inst s) then fi_pc (if_id_inst s)
      else next_pc s)"

definition sequential :: "cpu \<Rightarrow> bool" where
  "sequential s \<longleftrightarrow>
     (de_valid (id_ex_inst s) \<longrightarrow>
        (if fi_valid (if_id_inst s) then fi_pc (if_id_inst s) else next_pc s) = de_pc (id_ex_inst s) + 4) \<and>
     (fi_valid (if_id_inst s) \<longrightarrow> next_pc s = fi_pc (if_id_inst s) + 4)"

lemma bubble_fields [simp]: "\<not> fi_valid (if_id_bubble pc)" "de_pc (id_ex_bubble pc) = pc"
  by (simp_all add: if_id_bubble_def id_ex_bubble_def)

lemma redirected:
  assumes "pc_j_signal s i" "\<not> ci_rst i"
  shows "\<not> de_valid (id_ex_inst (cpu_step s i))" "\<not> fi_valid (if_id_inst (cpu_step s i))"
    "next_pc (cpu_step s i) = pc_jump s i"
  using assms
  by (simp_all add: cpu_step_fields id_ex_next_def if_id_next_def flush_is_jump pc_next_def Let_def)

lemma stage_flow:
  assumes "\<not> pc_j_signal s i" "\<not> ci_rst i"
  shows "next_pc (cpu_step s i) = (if pipeline_stall s i \<or> fetch_wait s i then next_pc s else next_pc s + 4)"
    "if_id_inst (cpu_step s i) =
      (if pipeline_stall s i then if_id_inst s
       else if fetch_wait s i then if_id_bubble (next_pc s)
       else \<lparr>fi_pc = next_pc s, fi_instruction = ci_instr i, fi_valid = True, fi_page_fault = ci_instr_page_fault i\<rparr>)"
    "de_valid (id_ex_inst (cpu_step s i)) =
      (if pipeline_hold s i then de_valid (id_ex_inst s) else \<not> hazard_stall s \<and> fi_valid (if_id_inst s))"
    "de_pc (id_ex_inst (cpu_step s i)) = (if pipeline_hold s i then de_pc (id_ex_inst s) else fi_pc (if_id_inst s))"
  using assms
  by (simp_all add: cpu_step_fields id_ex_next_def if_id_next_def flush_is_jump pc_next_def Let_def)

lemma sequential_step:
  assumes "sequential s" shows "sequential (cpu_step s i)"
proof -
  consider "ci_rst i" | "\<not> ci_rst i" "pc_j_signal s i" | "\<not> ci_rst i" "\<not> pc_j_signal s i" by blast
  then show ?thesis
  proof cases
    case 1 then show ?thesis by (simp add: cpu_step_def cpu_reset_def sequential_def)
  next
    case 2 then show ?thesis by (simp add: sequential_def redirected)
  next
    case 3 then show ?thesis
      using assms by (auto simp: sequential_def stage_flow pipeline_stall_def)
  qed
qed

lemma oldest_pc_step:
  assumes "sequential s"
  shows "oldest_pc (cpu_step s i) =
    (if ci_rst i then INSTR_MEM_BASE
     else if pc_j_signal s i then pc_jump s i
     else if de_valid (id_ex_inst s) \<and> \<not> pipeline_hold s i then de_pc (id_ex_inst s) + 4
     else oldest_pc s)"
proof -
  consider "ci_rst i" | "\<not> ci_rst i" "pc_j_signal s i" | "\<not> ci_rst i" "\<not> pc_j_signal s i" by blast
  then show ?thesis
  proof cases
    case 1 then show ?thesis by (simp add: cpu_step_def cpu_reset_def oldest_pc_def)
  next
    case 2 then show ?thesis by (simp add: oldest_pc_def redirected)
  next
    case 3 then show ?thesis
      using assms by (auto simp: sequential_def oldest_pc_def stage_flow pipeline_stall_def)
  qed
qed

lemma sequential_run: "sequential s \<Longrightarrow> sequential (cpu_run s is)"
  by (induction "is" arbitrary: s) (simp_all add: sequential_step)

lemma interrupt_block_pc:
  "interrupt_pc (machine_block a b c d e out) = interrupt_pc out"
  "interrupt_pc (supervisor_block a b c d e out) = interrupt_pc out"
  by (simp_all add: machine_block_def supervisor_block_def)

lemma interrupt_keeps_pc: "interrupt_pc (cpu_interrupt s) = oldest_pc s"
  unfolding cpu_interrupt_def Let_def interrupt_controller_def interrupt_block_pc
  by (simp only: no_interrupt_def interrupt_out.select_convs oldest_pc_def)

text \<open>
  C15. The program counter is precise. The address of the oldest instruction that has not executed, which
  is also the one an interrupt records, moves as a machine without a pipeline would move it: it stays
  while the stage is held or empty, goes to the next word when an instruction leaves the execute stage,
  and to the target when a jump, a return or a trap redirects the fetch; and then nothing younger is left in
  the pipeline. This holds along every run from reset, for any memory and any waits.
\<close>

theorem pipeline_pc:
  "oldest_pc (cpu_step (cpu_run cpu_reset is) i) =
     (if ci_rst i then INSTR_MEM_BASE
      else if pc_j_signal (cpu_run cpu_reset is) i then pc_jump (cpu_run cpu_reset is) i
      else if de_valid (id_ex_inst (cpu_run cpu_reset is)) \<and> \<not> pipeline_hold (cpu_run cpu_reset is) i
      then de_pc (id_ex_inst (cpu_run cpu_reset is)) + 4
      else oldest_pc (cpu_run cpu_reset is)) \<and>
   interrupt_pc (cpu_interrupt (cpu_run cpu_reset is)) = oldest_pc (cpu_run cpu_reset is) \<and>
   \<not> (pc_j_signal (cpu_run cpu_reset is) i \<and> \<not> ci_rst i \<and>
      (de_valid (id_ex_inst (cpu_step (cpu_run cpu_reset is) i)) \<or>
       fi_valid (if_id_inst (cpu_step (cpu_run cpu_reset is) i))))"
proof -
  have "sequential (cpu_run cpu_reset is)"
    by (rule sequential_run) (simp add: sequential_def cpu_reset_def)
  then show ?thesis using oldest_pc_step interrupt_keeps_pc redirected by blast
qed

section \<open>Fetches and redirections\<close>

text \<open>
  The interface of the instruction memory: a response answers a request that was granted, a request
  is granted when none is outstanding, and a page fault is neither granted nor answered, nor reported for
  an address whose request is under way.
\<close>

definition fetch_ok :: "cpu \<Rightarrow> cpu_in \<Rightarrow> bool" where
  "fetch_ok s i \<longleftrightarrow>
     (ci_instr_rvalid i \<longrightarrow> fetch_outstanding s \<or> ci_instr_gnt i) \<and>
     (ci_instr_gnt i \<longrightarrow> \<not> fetch_outstanding s \<and> \<not> ci_instr_page_fault i) \<and>
     (ci_instr_page_fault i \<longrightarrow> \<not> (fetch_outstanding s \<and> \<not> fetch_discard s))"

fun fetch_obeys :: "cpu \<Rightarrow> cpu_in list \<Rightarrow> bool" where
  "fetch_obeys s [] \<longleftrightarrow> True"
| "fetch_obeys s (i # is) \<longleftrightarrow> fetch_ok s i \<and> fetch_obeys (cpu_step s i) is"

text \<open>The address of the request granted last, where a request is for the program counter of its cycle.\<close>

fun granted_pc :: "cpu \<Rightarrow> 32 word \<Rightarrow> cpu_in list \<Rightarrow> 32 word" where
  "granted_pc s a [] = a"
| "granted_pc s a (i # is) = granted_pc (cpu_step s i) (if ci_instr_gnt i then next_pc s else a) is"

definition fetch_inv :: "cpu \<Rightarrow> 32 word \<Rightarrow> bool" where
  "fetch_inv s a \<longleftrightarrow> (fetch_outstanding s \<and> \<not> fetch_discard s \<longrightarrow> a = next_pc s)"

lemma fetch_inv_step:
  assumes "fetch_inv s a" "fetch_ok s i"
  shows "fetch_inv (cpu_step s i) (if ci_instr_gnt i then next_pc s else a)"
proof (cases "ci_rst i")
  case True then show ?thesis by (simp add: cpu_step_def cpu_reset_def fetch_inv_def)
next
  case False
  show ?thesis
    unfolding fetch_inv_def
  proof
    assume "fetch_outstanding (cpu_step s i) \<and> \<not> fetch_discard (cpu_step s i)"
    then have "\<not> ci_instr_rvalid i" "ci_instr_gnt i \<or> fetch_outstanding s" "\<not> pc_j_signal s i" "\<not> fetch_discard s"
      using False by (auto simp: cpu_step_def split: if_splits)
    moreover from this have "\<not> ci_instr_page_fault i" using assms(2) by (auto simp: fetch_ok_def)
    ultimately have "next_pc (cpu_step s i) = next_pc s"
      using False by (simp add: cpu_step_fields pc_next_def fetch_wait_def)
    then show "(if ci_instr_gnt i then next_pc s else a) = next_pc (cpu_step s i)"
      using assms(1) \<open>ci_instr_gnt i \<or> fetch_outstanding s\<close> \<open>\<not> fetch_discard s\<close> by (auto simp: fetch_inv_def)
  qed
qed

lemma fetch_inv_run: "fetch_inv s a \<Longrightarrow> fetch_obeys s is \<Longrightarrow> fetch_inv (cpu_run s is) (granted_pc s a is)"
  by (induction "is" arbitrary: s a) (simp_all add: fetch_inv_step)

definition accepts_fetch :: "cpu \<Rightarrow> cpu_in \<Rightarrow> bool" where
  "accepts_fetch s i \<longleftrightarrow>
     \<not> ci_rst i \<and> \<not> pipeline_flush s i \<and> \<not> pipeline_stall s i \<and> \<not> fetch_wait s i \<and> \<not> ci_instr_page_fault i"

text \<open>
  C16. A fetch that was redirected never executes. However long the instruction memory takes to answer
  and whenever jumps, traps and stalls come in between, the word that enters decode is the answer to a request
  for the address it is decoded with; the answer to a request that a redirection made stale is dropped.
\<close>

theorem fetch_matches_pc:
  assumes "s = cpu_run cpu_reset is" "fetch_obeys cpu_reset is" "fetch_ok s i" "accepts_fetch s i"
  shows "fi_valid (if_id_inst (cpu_step s i)) \<and> fi_instruction (if_id_inst (cpu_step s i)) = ci_instr i \<and>
    fi_pc (if_id_inst (cpu_step s i)) = (if ci_instr_gnt i then next_pc s else granted_pc cpu_reset a is)"
proof -
  have "fetch_inv cpu_reset a" by (simp add: fetch_inv_def cpu_reset_def)
  then have "fetch_inv s (granted_pc cpu_reset a is)" using assms(1,2) by (simp add: fetch_inv_run)
  then show ?thesis
    using assms(3,4)
    by (auto simp: fetch_inv_def fetch_ok_def accepts_fetch_def cpu_step_fields if_id_next_def fetch_wait_def)
qed

text \<open>The first word is answered one cycle after its request.\<close>

definition demo_request :: cpu_in where
  "demo_request = (demo_fetch NOP)\<lparr>ci_instr_rvalid := False\<rparr>"

definition demo_answer :: cpu_in where
  "demo_answer = (demo_fetch 0x00500093)\<lparr>ci_instr_gnt := False\<rparr>"

theorem fetch_matches_pc_witness:
  "fi_instruction (if_id_inst (cpu_step (cpu_run cpu_reset [demo_request]) demo_answer)) = 0x00500093 \<and>
   fi_pc (if_id_inst (cpu_step (cpu_run cpu_reset [demo_request]) demo_answer)) = 0x80000000"
proof -
  let ?s = "cpu_step cpu_reset demo_request"
  have calm: "calm_in demo_request" "calm_in demo_answer" by (simp_all add: calm_in_def demo_request_def demo_answer_def)
  have "calm_decode (id_decoder cpu_reset)"
    using nop_decoded by (simp add: calm_decode_def id_decoder_def cpu_reset_def if_id_bubble_def)
  then have "calm ?s" by (rule calm_step(1) [OF calm_reset calm(1)])
  then have "\<not> pipeline_flush ?s demo_answer" "\<not> pipeline_stall ?s demo_answer" "\<not> fetch_wait ?s demo_answer"
    using calm_output(2) calm_control(5) calm(2) by (auto simp: fetch_wait_def demo_answer_def calm_def)
  then have accepts: "accepts_fetch (cpu_run cpu_reset [demo_request]) demo_answer"
    by (simp add: accepts_fetch_def demo_answer_def)
  have ok: "fetch_obeys cpu_reset [demo_request]" "fetch_ok (cpu_run cpu_reset [demo_request]) demo_answer"
    by (simp_all add: fetch_ok_def demo_request_def demo_answer_def cpu_step_def demo_fetch_def cpu_reset_def)
  have "granted_pc cpu_reset 0 [demo_request] = 0x80000000"
    by (simp add: demo_request_def demo_fetch_def cpu_reset_def INSTR_MEM_BASE_def)
  moreover have "ci_instr demo_answer = 0x00500093" "\<not> ci_instr_gnt demo_answer" by (simp_all add: demo_answer_def)
  ultimately show ?thesis using fetch_matches_pc [OF refl ok accepts, of 0] by simp
qed

section \<open>A page fault in the memory stage\<close>

text \<open>What a page fault of the oldest access should do, for its cause, its pc and its address.\<close>

definition fault_cause :: "cpu \<Rightarrow> cpu_in \<Rightarrow> 32 word" where
  "fault_cause s i = (if mem_stage_load_page_fault s i then 0xD else 0xF)"

definition fault_recorded :: "bool \<Rightarrow> csr_file \<Rightarrow> 32 word \<Rightarrow> 32 word \<Rightarrow> 32 word \<Rightarrow> bool" where
  "fault_recorded to_s c cause pc addr \<longleftrightarrow>
     (if to_s then scause c = cause \<and> sepc c = pc \<and> stval c = addr \<and> privilege_mode c = PRIV_S
      else mcause c = cause \<and> mepc c = pc \<and> mtval c = addr \<and> privilege_mode c = PRIV_M)"

lemma fault_csr_step:
  assumes "mem_stage_page_fault_taken s i" "\<not> ci_rst i" "\<not> mret_instruction (ex_output s i)" "\<not> sret_instruction (ex_output s i)"
  shows "fault_recorded (mem_stage_trap_to_supervisor s i) (csr_file_inst (cpu_step s i)) (fault_cause s i)
    (em_pc (ex_mem_inst s)) (em_mem_addr (ex_mem_inst s))"
proof -
  let ?j = "csr_input s i"
  have j: "\<not> cs_rst ?j" "\<not> cs_interrupt_taken ?j" "\<not> cs_mret ?j" "\<not> cs_sret ?j"
    "cs_trap_to_supervisor ?j = mem_stage_trap_to_supervisor s i" "cs_exception_pc ?j = em_pc (ex_mem_inst s)"
    "cs_exception_tval ?j = em_mem_addr (ex_mem_inst s)" "cs_load_page_fault ?j = mem_stage_load_page_fault s i"
    "cs_store_page_fault ?j = mem_stage_store_page_fault s i"
    using assms by (simp_all add: csr_input_def Let_def interrupt_taken_qualified_def)
  have faults: "mem_stage_load_page_fault s i \<or> mem_stage_store_page_fault s i"
    using assms(1) by (simp add: mem_stage_page_fault_taken_def)
  then have sync: "synchronous_exception ?j" and tval: "exception_tval ?j = em_mem_addr (ex_mem_inst s)"
    by (auto simp: synchronous_exception_def exception_tval_def page_fault_exception_def j)
  have cause: "exception_cause c ?j = fault_cause s i" for c
    using faults by (auto simp: exception_cause_def fault_cause_def j)
  have "csr_file_inst (cpu_step s i) =
      (if mem_stage_trap_to_supervisor s i
       then (enter_supervisor (csr_file_inst s) (em_pc (ex_mem_inst s)) (fault_cause s i) (csr_tick (csr_file_inst s) ?j))
         \<lparr>stval := em_mem_addr (ex_mem_inst s)\<rparr>
       else (enter_machine (csr_file_inst s) (em_pc (ex_mem_inst s)) (fault_cause s i) (csr_tick (csr_file_inst s) ?j))
         \<lparr>mtval := em_mem_addr (ex_mem_inst s)\<rparr>)"
    using assms(2) by (simp add: cpu_step_def csr_step_def j sync tval cause Let_def)
  then show ?thesis by (simp add: fault_recorded_def enter_supervisor_def enter_machine_def)
qed

lemma fault_kills:
  assumes "register_file s 0 = 0" "mem_stage_page_fault_taken s i" "\<not> ci_rst i"
  shows "committed (cpu_step s i) = committed s" "\<not> de_valid (id_ex_inst (cpu_step s i))"
    "\<not> fi_valid (if_id_inst (cpu_step s i))" "ex_mem_inst (cpu_step s i) = ex_mem_bubble (de_pc (id_ex_inst s))"
    "next_pc (cpu_step s i) = trap_base s (mem_stage_trap_to_supervisor s i)"
proof -
  have jump: "pc_j_signal s i" using assms(2) by (simp add: pc_j_signal_def)
  show "committed (cpu_step s i) = committed s" using assms(2) by (auto simp: committed_step [OF assms(1,3)])
  show "\<not> de_valid (id_ex_inst (cpu_step s i))" "\<not> fi_valid (if_id_inst (cpu_step s i))"
    "next_pc (cpu_step s i) = trap_base s (mem_stage_trap_to_supervisor s i)"
    using redirected [OF jump assms(3)] assms(2) by (simp_all add: pc_jump_def)
  show "ex_mem_inst (cpu_step s i) = ex_mem_bubble (de_pc (id_ex_inst s))"
    using assms(2,3) by (simp add: cpu_step_fields ex_mem_next_def ex_mem_flush_def Let_def)
qed


text \<open>
  \<open>lw x1, 0(x0)\<close> followed by no-operations, with a page fault when it reaches the memory stage. In between it
  is in the execute stage with none of the calm instructions.
\<close>

definition demo_load :: rv_instr where "demo_load = Load LW 1 0 0"

definition demo_fault :: cpu_in where "demo_fault = (demo_fetch NOP)\<lparr>ci_load_page_fault := True\<rparr>"

lemma immediate_returns:
  assumes "x_opcode x = 0x13"
  shows "\<not> mret_instruction (execution_unit x)" "\<not> sret_instruction (execution_unit x)"
proof -
  have "ex_unstaged x \<in> {ex_quiet\<lparr>jump_signal := True, trap_to_supervisor := x_interrupt_to_supervisor x,
             jump_addr := x_interrupt_vector x, flush_pipeline := True, interrupt_taken := True\<rparr>,
      ex_breakpoint x (x_pc_input x) ex_quiet, ex_illegal x ex_quiet,
      ex_quiet\<lparr>exec_output := alu (rs1_value x) (rs2_value x) (x_imm x) (x_instr_id x)\<rparr>}"
    using assms by (simp add: ex_unstaged_def Let_def)
  then have "\<not> mret_instruction (ex_unstaged x)" "\<not> sret_instruction (ex_unstaged x)"
    by (auto simp: ex_breakpoint_def ex_illegal_def ex_trap_def ex_quiet_def)
  then show "\<not> mret_instruction (execution_unit x)" "\<not> sret_instruction (execution_unit x)"
    by (simp_all add: execution_unit_def Let_def ex_held_def)
qed

lemma access_passes:
  assumes "in_execute s i r" "decode_inv s" "\<not> mem_wait s i" "\<not> mem_stage_page_fault_taken s i" "\<not> de_page_fault (id_ex_inst s)"
    and "rv_outcome (ex_input s i) r (rs1_value (ex_input s i)) (rs2_value (ex_input s i)) = Access a"
    and "\<not> ci_rst i" "\<not> wfi_active s" "\<not> fence_drain_stall s i" "\<not> hazard_stall s"
  shows "em_instr_id (ex_mem_inst (cpu_step s i)) = de_instr_id (id_ex_inst s)"
    "em_mem_addr (ex_mem_inst (cpu_step s i)) = a" "em_pc (ex_mem_inst (cpu_step s i)) = de_pc (id_ex_inst s)"
    "de_opcode (id_ex_inst (cpu_step s i)) = d_opcode (id_decoder s)"
proof -
  have out: "ex_output s i = ex_quiet\<lparr>ex_mem_addr := a\<rparr>"
    using realises_outcome [OF in_execute_issued [OF assms(2,1)]] assms(6) by (simp add: ex_output_def)
  then have "\<not> pipeline_flush s i"
    using assms(4,5) by (simp add: pipeline_flush_def instr_stage_page_fault_taken_def ex_quiet_def)
  moreover from this have "\<not> ex_mem_flush s i" using ex_flush_flushes by blast
  moreover have "\<not> pipeline_hold s i" using assms(3,8,9) by (simp add: pipeline_hold_def wfi_stall_def)
  ultimately show "em_instr_id (ex_mem_inst (cpu_step s i)) = de_instr_id (id_ex_inst s)"
    "em_mem_addr (ex_mem_inst (cpu_step s i)) = a" "em_pc (ex_mem_inst (cpu_step s i)) = de_pc (id_ex_inst s)"
    "de_opcode (id_ex_inst (cpu_step s i)) = d_opcode (id_decoder s)"
    using assms(3,7,10) by (simp_all add: cpu_step_fields ex_mem_next_def id_ex_next_def Let_def out)
qed


text \<open>
  Returns and WFI act in the execute stage. When the access of the instruction before them faults in the memory
  stage at the same cycle, the fetch goes to the trap handler of the fault; but the register file takes
  the return before the exception, so that the cause, the address and the pc of the fault are not recorded and the
  handler starts in the mode the return leads to.
\<close>

lemma outcome_output:
  assumes "decode_inv s" "in_execute s i r" "rv_outcome (ex_input s i) r (rs1_value (ex_input s i)) (rs2_value (ex_input s i)) = out"
  shows "realises (ex_input s i) (ex_output s i) out"
  using realises_outcome [OF in_execute_issued [OF assms(1,2)]] assms(3) by (simp add: ex_output_def)

lemma sret_hides_page_fault:
  assumes "decode_inv s" "in_execute s i (System SRET)" "mem_stage_page_fault_taken s i" "\<not> ci_rst i"
    and "privilege_mode (csr_file_inst s) = PRIV_S" "\<not> bit (mstatus (csr_file_inst s)) 22"
  shows "next_pc (cpu_step s i) = trap_base s (mem_stage_trap_to_supervisor s i)"
    and "csr_file_inst (cpu_step s i) = return_supervisor (csr_file_inst s) (csr_tick (csr_file_inst s) (csr_input s i))"
proof -
  have out: "ex_output s i = (jump_signals (x_sepc (ex_input s i)))\<lparr>sret_instruction := True\<rparr>"
    using outcome_output [OF assms(1,2) refl] assms(5,6)
    by (simp add: privileged_def ex_input_def ex_port_def Let_def)
  show "next_pc (cpu_step s i) = trap_base s (mem_stage_trap_to_supervisor s i)"
    using assms(3,4) by (simp add: cpu_step_fields pc_next_def pc_j_signal_def pc_jump_def)
  have "supervisor_return (csr_input s i)"
    using assms(3,4)
    by (simp add: supervisor_return_def csr_input_def Let_def out jump_signals_def ex_quiet_def interrupt_taken_qualified_def)
  then show "csr_file_inst (cpu_step s i) = return_supervisor (csr_file_inst s) (csr_tick (csr_file_inst s) (csr_input s i))"
    using assms(4) by (simp add: cpu_step_def trap_returned(2))
qed

lemma sret_fault_not_recorded:
  "sepc (return_supervisor c (csr_tick c j)) = sepc c" "scause (return_supervisor c (csr_tick c j)) = scause c"
  "stval (return_supervisor c (csr_tick c j)) = stval c" "mepc (return_supervisor c (csr_tick c j)) = mepc c"
  "mcause (return_supervisor c (csr_tick c j)) = mcause c"
  "privilege_mode (return_supervisor c (csr_tick c j)) = (if bit (mstatus c) 8 then PRIV_S else PRIV_U)"
  by (simp_all add: return_supervisor_def csr_tick_def)

text \<open>WFI puts the core to sleep in the cycle in which it is flushed, so the handler of the fault does not start.\<close>

lemma wfi_sleeps_through_page_fault:
  assumes "decode_inv s" "in_execute s i (System WFI)" "mem_stage_page_fault_taken s i" "\<not> ci_rst i"
    and "privilege_mode (csr_file_inst s) = PRIV_M \<or> \<not> bit (mstatus (csr_file_inst s)) 21" "\<not> wfi_resume_pending s"
  shows "next_pc (cpu_step s i) = trap_base s (mem_stage_trap_to_supervisor s i)" "wfi_active (cpu_step s i)"
proof -
  have "wfi_instruction (ex_output s i)"
    using outcome_output [OF assms(1,2) refl] assms(5)
    by (auto simp: privileged_def ex_input_def ex_port_def Let_def)
  then show "wfi_active (cpu_step s i)" using assms(4,6) by (simp add: cpu_step_fields)
  show "next_pc (cpu_step s i) = trap_base s (mem_stage_trap_to_supervisor s i)"
    using assms(3,4) by (simp add: cpu_step_fields pc_next_def pc_j_signal_def pc_jump_def)
qed

end
