(* ===== verification/Spec2Isabelle.thy ===== *)
theory Spec2Isabelle
  imports Isa_Runner Uart_Receiver Uart_Transmit Boot_OpenSBI Tty_Drive Linux_Sessions Run_C_Code
    Sv32_Mmu Store_Path Pipeline_Flow
begin

text \<open>
  \<^bold>\<open>Synapse-32: a verification library for the processor's simulation tools and hardware.\<close>

  The repository holds a 32-bit RISC-V processor in Verilog (\<open>rtl/\<close>) and the Python programs that
  simulate it: a comparison of the official ISA tests with the reference simulator Spike
  (\<open>.github/scripts/compare_with_spike.py\<close>, with the test harness \<open>tests/system_tests/test_riscv_isa.py\<close>),
  the boot tests of OpenSBI (\<open>sim/opensbi_uart.py\<close>) and Linux (\<open>sim/linux_tty.py\<close>), and a runner for C
  programs (\<open>sim/run_c_code.py\<close>). The library models these Python programs; the hardware they look
  into most, the UART (\<open>rtl/core_modules/uart.v\<close>); the whole core \<open>rtl/riscv_cpu.v\<close> with its five pipeline
  stages, decoder, ALU, execution unit, memory unit, atomic unit, register file, CSR file and interrupt
  logic; and around it the memory management unit (\<open>rtl/mmu/\<close>), the store buffer with the data bus
  (\<open>rtl/store_buffer.v\<close> and its part of \<open>rtl/top.v\<close>), the interrupt controllers and the timer.

  \<^bold>\<open>How the parts interact.\<close> The boot tests watch the UART's transmitter registers through
  \<open>UartConsole\<close>, decide from the text captured whether the boot succeeded, and in an interactive session
  pass bytes between the UART and a terminal: \<open>StdinBridge\<close> and \<open>PtyBridge\<close> have a reader thread and a
  queue, \<open>drive_bridge_to_uart\<close> plays queued bytes onto the receive line with \<open>uart_send_byte\<close>. The ISA
  harness writes a trace of committed register and memory writes which the comparison parses and
  compares with Spike's log; the driver hands it the image, the limits and the file names in environment
  variables. The runner builds an image, watches the data bus for the completion store
  and decodes the transmit line with \<open>UartMonitor\<close>. In the core an instruction is decoded, takes its
  operands from the registers or from an older instruction that is still under way, is executed, accesses
  memory and is written back, one stage a cycle unless memory, a fence or the sleep of \<open>wfi\<close> holds the
  pipeline; jumps and traps redirect the fetch, and traps go through the CSR file. A data access is translated by the
  MMU, whose walker reads page tables over the same data bus as loads and buffered writes; a write
  enters the store buffer, and \<open>top.v\<close> lets one of load, buffer and walker use the bus at a time. The
  UART's interrupt enters the PLIC, whose two outputs and the timer's lines are pending bits from which
  \<open>interrupt_controller\<close> chooses.

  \<^bold>\<open>Conventions.\<close> A Python call that may raise is a value of \<open>'a py\<close>, a sum of an exception and a
  result; a call with effects is a function \<open>('w, 'a) io\<close> on a world that keeps the effects made before
  an exception (\<open>Synapse_Prelude\<close>). Code outside the repository is a parameter: the simulator is a
  function from signal names to what cocotb shows of them at each clock edge (\<open>dut\<close>: absent, unknown
  bits, or an integer), and files, terminals and subprocesses are records of operations (\<open>os\<close>, \<open>sys\<close>,
  \<open>tools\<close>) over any world. What a theorem needs of them is a hypothesis of its own (\<open>dut_complete\<close>,
  \<open>write_law\<close>, \<open>close_law\<close>, \<open>tools_law\<close>), and each has a witness with concrete operations.
  Verilog registers are words of their width; a clocked block is one function of the old registers and
  the inputs. Parameters of a module have the values \<open>top.v\<close> builds it with (eight TLB entries, four
  buffered writes, two interrupt sources). What a neighbouring module answers is an input sequence; the
  contract a theorem needs of it is named (\<open>walk_port_answers\<close>, \<open>responsive\<close>), as is what software
  must keep to (\<open>tables_fenced\<close>, \<open>disciplined\<close>).

  \<^bold>\<open>Theories.\<close>
  \<^item> \<open>Synapse_Prelude\<close>: exceptions, effects, paths, bounded loops, infix search, bounded queues, and the
    rules \<open>io_keeps_intros\<close> by which a computation is shown to leave a part of its state alone.
  \<^item> \<open>Py_Text\<close>: the Python string and number primitives the sources use (\<open>split\<close>, \<open>strip\<close>, \<open>splitlines\<close>,
    \<open>int\<close> with a base, hexadecimal formats, decoding of bytes).
  \<^item> \<open>Compare_Trace\<close> (\<open>compare_with_spike.py\<close>, lines 123 to 215): the parsers of both logs and
    \<open>first_divergence\<close>. No divergence is reported exactly when the traces agree; a reported one is the
    earliest; the parser of Spike's log equals its specification by commits.
  \<^item> \<open>Compare_Driver\<close> (the rest of that file): selection of tests, tool calls, the main loop and the
    report. Termination and result of the search for the repository root; complete and sorted
    selection; every test is accounted for; exit status 0 only when all agree.
  \<^item> \<open>Memory_Unit\<close>, \<open>Isa_Harness\<close>: byte lanes of stores, the cycle loop and the trace writer. Parsing the
    file the harness writes gives back the committed writes; both traces agree on aligned stores.
  \<^item> \<open>Isa_Runner\<close> (\<open>runCocotbTests\<close> and the set-up of the test): the environment between the driver and
    the test. Paths survive their text, and the test runs on what the driver chose.
  \<^item> \<open>Ring_Fifo\<close>: ring buffers as in \<open>uart.v\<close> and the interface \<open>byte_fifo\<close> with the conservation law of
    runs; \<open>Uart_Rtl\<close>: the whole UART, with both FIFOs as instances of the interface.
  \<^item> \<open>Uart_Console\<close>, \<open>Uart_Link\<close>, \<open>Uart_Receiver\<close> (first half of \<open>opensbi_uart.py\<close>): the console and the
    serial driver, alone and against the UART: the console captures exactly the bytes written to THR,
    and the waveform of \<open>uart_send_str\<close> arrives in the receive FIFO for every divisor and every phase of
    the baud generator.
  \<^item> \<open>Sv32_Pages\<close>, \<open>Sv32_Tlb\<close>, \<open>Sv32_Mmu\<close> (\<open>rtl/mmu/\<close>): page-table entries, the walk of the privileged
    architecture as the specification, the combinational page walker and the permission checks; the
    TLB as an instance of the interface \<open>translation_cache\<close>; the clocked MMU. Every answer is that of a
    fresh walk, and a held request is answered within a bound.
  \<^item> \<open>Store_Path\<close> (\<open>store_buffer.v\<close>, \<open>top.v\<close>): buffer and arbitration as instances of the interface
    \<open>ordered_flow\<close>: writes are performed in program order, and loads see them.
  \<^item> \<open>Interrupts\<close> (\<open>plic.v\<close>, \<open>timer.v\<close>, \<open>interrupt_controller.v\<close>): claim and completion in the PLIC,
    the compare register of the timer, and the choice among pending interrupts.
  \<^item> \<open>Alu\<close> (\<open>alu.v\<close>): every operation equals the one of RV32IM on integers. \<open>Decoder\<close> (\<open>decoder.v\<close>): the
    decoder inverts an assembler for the instruction set, and its outputs make the ALU compute the
    instruction. \<open>Atomic_Lsu\<close> (\<open>atomic_lsu.v\<close>): reservations and atomic operations.
  \<^item> \<open>Csr_File\<close> (\<open>csr_file.v\<close>, \<open>csr_exec.v\<close>): every register and address, the counters, trap entry and
    return. A write is read back in the writable bits and changes nothing else; a trap and its return
    restore the mode and the interrupt enables.
  \<^item> \<open>Execute\<close> (\<open>execution_unit.v\<close>): the execute stage against the instruction set: results, accesses,
    targets, and the exception of highest priority with its cause, value and delegation.
  \<^item> \<open>Pipeline\<close> (\<open>riscv_cpu.v\<close>, \<open>pipeline_stages/\<close>, \<open>pc.v\<close>, \<open>registerfile.v\<close>, \<open>writeback.v\<close>): the
    stages, their wires in the order of the code and one clock edge of the core, \<open>cpu_step\<close>; memory, MMU
    and interrupt lines are its inputs. \<open>Pipeline_Order\<close>: the invariant of the reachable states, from which
    each instruction executes with the registers its predecessors leave, and results are committed in
    order. \<open>Pipeline_Flow\<close>: the program counter seen from outside, the match of fetches with addresses
    across redirections, and precise page faults.
  \<^item> \<open>Boot_OpenSBI\<close> (second half): configuration, percent formats, status dump, trap monitor and the boot
    test, whose outcome is characterised for every simulation.
  \<^item> \<open>Tty_Bridges\<close>, \<open>Tty_Drive\<close>, \<open>Boot_Linux\<close>, \<open>Linux_Sessions\<close> (\<open>linux_tty.py\<close>, \<open>synapse32.dts\<close>): the bridges
    with the interface \<open>tty_bridge\<close>, which both classes implement; the driving coroutine composed with
    the UART, so that no keystroke is lost and the receiver never overruns; the outcome of the automatic
    boot; and for interactive sessions that every way out restores the terminal and closes the bridges,
    and that the client is sent what the UART transmits.
  \<^item> \<open>Uart_Monitor\<close>, \<open>Uart_Transmit\<close>, \<open>Run_C_Code\<close> (\<open>run_c_code.py\<close>, \<open>test_uart_hello.c\<close>): the sampling
    monitor, which decodes frames whose bit period is near its own, collects bytes only and ends when told
    to; its composition with the transmitter of \<open>uart.v\<close>, so that it receives what software writes to
    THR; the build, the simulation loop, make and the command line.

  \<^bold>\<open>Bounds and fuel.\<close> The loop of \<open>boot_linux\<close> has no bound in an interactive session, so its model takes
  a number of edges and is \<open>None\<close> while the test runs; the automatic test is shown to end with
  \<open>max 1 BOOT_TIMEOUT_CYCLES\<close> edges. \<open>boot_opensbi\<close>, the ISA test and \<open>run_c_code\<close> have their own limits
  as loop bounds. \<open>await_monitor\<close> reads the monitor ten bit periods after the stop, which
  \<open>monitor_stops\<close> shows to be enough. The wait for a client takes one act of the reader thread for each
  poll. \<open>scale_up\<close> has 60 steps of fuel: quotients here have at least 1 and at most 53 integer bits.

  \<^bold>\<open>Not modelled.\<close> Console prints and debug log lines that do not decide anything; the clock generator
  and the scheduler of cocotb (coroutines are given edge by edge, and where two are woken by one edge the
  order is a parameter or does not matter); the timing of threads (their turns may interleave with the
  main thread at any edge); the debug log of \<open>TRACE_ISA\<close>; shell scripts, make rules, container and
  board files, which only call other tools. Of the hardware, the
  caches \<open>icache.v\<close> and \<open>dcache.v\<close>, the block memory, the top level's wiring of the core to them and
  the seven-segment display are not modelled: the core and the store path are proved for any answers of
  the caches, with the rules of the fetch port (\<open>fetch_obeys\<close>) where a theorem needs them. The outputs of
  the MEM/WB register that nothing reads, \<open>store_load_detector.v\<close>, which nothing instantiates, and what
  Verilog has beyond clocked two-valued registers (unknown values, delta cycles) are left out. In the page
  walker the bits above 4 GB of a physical address do not exist, as in the code.
\<close>

end
